(* ===== verification/Go_Prelude.thy ===== *)
theory Go_Prelude
  imports Main "HOL-Library.Multiset" "HOL-Library.Sublist" "HOL-Library.List_Lexorder" "HOL-Library.Char_ord"
begin

text \<open>
  What the components share: the parts of Go's standard library that the modelled code calls
  (packages \<^verbatim>\<open>strings\<close>, \<^verbatim>\<open>slices\<close> and \<^verbatim>\<open>sort\<close>), results of fallible calls, and the generic
  lemmas on lists the component proofs use.

  A Go \<^verbatim>\<open>string\<close> is a sequence of bytes; a HOL \<^typ>\<open>char\<close> is one byte, so a string is a
  \<^typ>\<open>string\<close> and \<^verbatim>\<open>len\<close> is \<^const>\<open>length\<close>. A call that returns \<^verbatim>\<open>(T, error)\<close> returns
  \<open>'e + 'a\<close>, with \<open>Inl\<close> for a non-nil error. A pointer that may be nil is an
  \<open>option\<close>.
\<close>

section \<open>Fact collections\<close>

named_theorems go_strings "laws of the string functions"
named_theorems go_lists "laws of the slice functions"

section \<open>Results\<close>

type_synonym ('e, 'a) result = "'e + 'a"

primrec is_ok :: "('e, 'a) result \<Rightarrow> bool" where
  "is_ok (Inl e) = False"
| "is_ok (Inr a) = True"

fun bind_result :: "('e, 'a) result \<Rightarrow> ('a \<Rightarrow> ('e, 'b) result) \<Rightarrow> ('e, 'b) result" where
  "bind_result (Inl e) f = Inl e"
| "bind_result (Inr a) f = f a"

lemma bind_result_case: "bind_result r f = (case r of Inl e \<Rightarrow> Inl e | Inr a \<Rightarrow> f a)"
  by (cases r) auto

lemma bind_result_Inr_iff:
  "bind_result r f = Inr b \<longleftrightarrow> (\<exists>a. r = Inr a \<and> f a = Inr b)"
  by (cases r) auto

lemma bind_result_Inl_iff:
  "bind_result r f = Inl e \<longleftrightarrow> r = Inl e \<or> (\<exists>a. r = Inr a \<and> f a = Inl e)"
  by (cases r) auto

lemma map_sum_Inr_iff: "map_sum f g r = Inr b \<longleftrightarrow> (\<exists>a. r = Inr a \<and> b = g a)"
  by (cases r) auto

lemma map_sum_Inl_iff: "map_sum f g r = Inl e \<longleftrightarrow> (\<exists>a. r = Inl a \<and> e = f a)"
  by (cases r) auto

section \<open>Time\<close>

text \<open>A \<^verbatim>\<open>time.Time\<close> is its number of nanoseconds since the epoch; the zero time is the first
  instant of year 1.\<close>

type_synonym Time = int

definition zero_time :: Time where
  "zero_time = - 62135596800000000000"

section \<open>Package strings\<close>

abbreviation newline :: char where
  "newline \<equiv> CHR 0x0A"

definition hasPrefix :: "string \<Rightarrow> string \<Rightarrow> bool" where
  "hasPrefix s p \<longleftrightarrow> take (length p) s = p"

definition hasSuffix :: "string \<Rightarrow> string \<Rightarrow> bool" where
  "hasSuffix s p \<longleftrightarrow> length p \<le> length s \<and> drop (length s - length p) s = p"

definition trimPrefix :: "string \<Rightarrow> string \<Rightarrow> string" where
  "trimPrefix s p = (if hasPrefix s p then drop (length p) s else s)"

lemma hasPrefix_append [simp, go_strings]: "hasPrefix (p @ s) p"
  by (simp add: hasPrefix_def)

lemma hasPrefix_iff [go_strings]: "hasPrefix s p \<longleftrightarrow> (\<exists>t. s = p @ t)"
  by (metis append_eq_conv_conj append_take_drop_id hasPrefix_def)

lemma hasPrefix_Nil [simp]: "hasPrefix s []"
  by (simp add: hasPrefix_def)

lemma trimPrefix_append [simp, go_strings]: "trimPrefix (p @ s) p = s"
  by (simp add: trimPrefix_def)

lemma trimPrefix_id [go_strings]: "\<not> hasPrefix s p \<Longrightarrow> trimPrefix s p = s"
  by (simp add: trimPrefix_def)

lemma prefix_trimPrefix [go_strings]: "hasPrefix s p \<Longrightarrow> p @ trimPrefix s p = s"
  by (auto simp: hasPrefix_iff)

text \<open>\<^verbatim>\<open>strings.Index\<close> and \<^verbatim>\<open>strings.Contains\<close>: the first occurrence of a substring.\<close>

fun indexOf :: "string \<Rightarrow> string \<Rightarrow> nat option" where
  "indexOf [] p = (if p = [] then Some 0 else None)"
| "indexOf (c # s) p = (if hasPrefix (c # s) p then Some 0 else map_option Suc (indexOf s p))"

definition contains :: "string \<Rightarrow> string \<Rightarrow> bool" where
  "contains s p \<longleftrightarrow> indexOf s p \<noteq> None"

lemma indexOf_Some_split:
  "indexOf s p = Some n \<Longrightarrow> n + length p \<le> length s \<and> s = take n s @ p @ drop (n + length p) s"
proof (induction s arbitrary: n)
  case Nil
  then show ?case by (auto split: if_splits)
next
  case (Cons c s)
  show ?case
  proof (cases "hasPrefix (c # s) p")
    case True
    with Cons.prems have "n = 0" by simp
    moreover from True obtain t where "c # s = p @ t" by (auto simp: hasPrefix_iff)
    moreover from this have "Suc (length s) = length p + length t" by (metis length_Cons length_append)
    ultimately show ?thesis by simp
  next
    case False
    with Cons.prems obtain m where m: "indexOf s p = Some m" and "n = Suc m"
      by auto
    with Cons.IH [OF m] show ?thesis by simp
  qed
qed

lemma indexOf_prefix [simp]: "indexOf (p @ b) p = Some 0"
  by (cases "p @ b") (auto simp: hasPrefix_iff, metis)

lemma indexOf_append: "indexOf (a @ p @ b) p \<noteq> None"
proof (induction a)
  case Nil
  then show ?case by simp
next
  case (Cons c a)
  then show ?case by simp
qed

lemma contains_iff [go_strings]: "contains s p \<longleftrightarrow> (\<exists>a b. s = a @ p @ b)"
  unfolding contains_def by (metis indexOf_Some_split indexOf_append option.exhaust)

text \<open>\<^verbatim>\<open>strings.Split\<close> at a separator of one byte, and \<^verbatim>\<open>strings.Join\<close>.\<close>

fun splitOn :: "char \<Rightarrow> string \<Rightarrow> string list" where
  "splitOn c [] = [[]]"
| "splitOn c (x # s) =
     (if x = c then [] # splitOn c s
      else case splitOn c s of [] \<Rightarrow> [[x]] | t # ts \<Rightarrow> (x # t) # ts)"

fun joinWith :: "string \<Rightarrow> string list \<Rightarrow> string" where
  "joinWith sep [] = []"
| "joinWith sep [s] = s"
| "joinWith sep (s # t # ts) = s @ sep @ joinWith sep (t # ts)"

lemma splitOn_nonempty [simp]: "splitOn c s \<noteq> []"
  by (induction s) (auto split: list.splits)

lemma splitOn_length_pos [simp]: "0 < length (splitOn c s)"
  by simp

lemma joinWith_Cons: "ts \<noteq> [] \<Longrightarrow> joinWith sep (t # ts) = t @ sep @ joinWith sep ts"
  by (cases ts) auto

lemma join_splitOn [go_strings]: "joinWith [c] (splitOn c s) = s"
proof (induction s)
  case (Cons x s)
  then show ?case
    by (cases "splitOn c s") (auto simp: joinWith_Cons, metis append_Cons joinWith.simps(2) joinWith_Cons)
qed simp

lemma splitOn_no_sep: "t \<in> set (splitOn c s) \<Longrightarrow> c \<notin> set t"
  by (induction s arbitrary: t) (fastforce split: if_splits list.splits)+

lemma splitOn_free: "c \<notin> set s \<Longrightarrow> splitOn c s = [s]"
  by (induction s) auto

lemma splitOn_append_sep: "c \<notin> set t \<Longrightarrow> splitOn c (t @ c # s) = t # splitOn c s"
  by (induction t) auto

lemma splitOn_join:
  "ts \<noteq> [] \<Longrightarrow> \<forall>t \<in> set ts. c \<notin> set t \<Longrightarrow> splitOn c (joinWith [c] ts) = ts"
proof (induction ts)
  case (Cons t ts)
  then show ?case
    by (cases "ts = []") (auto simp: splitOn_free joinWith_Cons splitOn_append_sep)
qed simp

text \<open>
  \<^verbatim>\<open>strings.ReplaceAll\<close>, for a non-empty old string: the occurrences are found from left to right and
  do not overlap.
\<close>

fun replaceAll :: "string \<Rightarrow> string \<Rightarrow> string \<Rightarrow> string" where
  "replaceAll [] old new = []"
| "replaceAll (c # s) old new =
     (if hasPrefix (c # s) old \<and> old \<noteq> [] then new @ replaceAll (drop (length old - 1) s) old new
      else c # replaceAll s old new)"

text \<open>
  \<^verbatim>\<open>strings.TrimSpace\<close> removes Unicode white space at both ends. The list below holds the UTF-8
  encodings of every code point with the White\_Space property: the encodings of UTF-8 are
  prefix free and their first byte is never a continuation byte, so removing an encoding from
  either end is exactly what Go's decoding of the first and the last rune does.
\<close>

definition space_runes :: "string list" where
  "space_runes =
     [[CHR 0x09], [CHR 0x0A], [CHR 0x0B], [CHR 0x0C], [CHR 0x0D], [CHR 0x20],
      [CHR 0xC2, CHR 0x85], [CHR 0xC2, CHR 0xA0], [CHR 0xE1, CHR 0x9A, CHR 0x80],
      [CHR 0xE2, CHR 0x80, CHR 0x80], [CHR 0xE2, CHR 0x80, CHR 0x81],
      [CHR 0xE2, CHR 0x80, CHR 0x82], [CHR 0xE2, CHR 0x80, CHR 0x83],
      [CHR 0xE2, CHR 0x80, CHR 0x84], [CHR 0xE2, CHR 0x80, CHR 0x85],
      [CHR 0xE2, CHR 0x80, CHR 0x86], [CHR 0xE2, CHR 0x80, CHR 0x87],
      [CHR 0xE2, CHR 0x80, CHR 0x88], [CHR 0xE2, CHR 0x80, CHR 0x89],
      [CHR 0xE2, CHR 0x80, CHR 0x8A], [CHR 0xE2, CHR 0x80, CHR 0xA8],
      [CHR 0xE2, CHR 0x80, CHR 0xA9], [CHR 0xE2, CHR 0x80, CHR 0xAF],
      [CHR 0xE2, CHR 0x81, CHR 0x9F], [CHR 0xE3, CHR 0x80, CHR 0x80]]"

function strip_any :: "string list \<Rightarrow> string \<Rightarrow> string" where
  "strip_any ws s =
     (case find (\<lambda>w. w \<noteq> [] \<and> hasPrefix s w) ws of
        None \<Rightarrow> s
      | Some w \<Rightarrow> strip_any ws (drop (length w) s))"
  by pat_completeness auto
termination
  by (relation "measure (\<lambda>(ws, s). length s)") (auto simp: find_Some_iff hasPrefix_iff)

declare strip_any.simps [simp del]

definition trimSpace :: "string \<Rightarrow> string" where
  "trimSpace s = rev (strip_any (map rev space_runes) (rev (strip_any space_runes s)))"

lemma strip_any_suffix: "\<exists>a. s = a @ strip_any ws s"
proof (induction ws s rule: strip_any.induct)
  case (1 ws s)
  show ?case
  proof (cases "find (\<lambda>w. w \<noteq> [] \<and> hasPrefix s w) ws")
    case None
    then show ?thesis by (simp add: strip_any.simps [of ws s])
  next
    case (Some w)
    then obtain a where "drop (length w) s = a @ strip_any ws (drop (length w) s)"
      using "1.IH" by blast
    then have "s = (take (length w) s @ a) @ strip_any ws (drop (length w) s)"
      by (metis append.assoc append_take_drop_id)
    with Some show ?thesis unfolding strip_any.simps [of ws s] by (metis option.simps(5))
  qed
qed

lemma strip_any_done: "w \<in> set ws \<Longrightarrow> w \<noteq> [] \<Longrightarrow> \<not> hasPrefix (strip_any ws s) w"
proof (induction ws s rule: strip_any.induct)
  case (1 ws s)
  show ?case
  proof (cases "find (\<lambda>w. w \<noteq> [] \<and> hasPrefix s w) ws")
    case None
    moreover from this "1.prems" have "\<not> hasPrefix s w"
      by (metis (mono_tags, lifting) find_None_iff)
    ultimately show ?thesis by (simp add: strip_any.simps [of ws s])
  next
    case (Some v)
    with "1.IH" "1.prems" show ?thesis by (simp add: strip_any.simps [of ws s])
  qed
qed

lemma trimSpace_infix [go_strings]: "\<exists>a b. s = a @ trimSpace s @ b"
proof -
  obtain a where a: "s = a @ strip_any space_runes s"
    using strip_any_suffix by blast
  obtain b where "rev (strip_any space_runes s) =
      b @ strip_any (map rev space_runes) (rev (strip_any space_runes s))"
    using strip_any_suffix by blast
  then have "strip_any space_runes s = trimSpace s @ rev b"
    unfolding trimSpace_def by (metis rev_append rev_rev_ident)
  with a show ?thesis by metis
qed

lemma trimSpace_length [simp]: "length (trimSpace s) \<le> length s"
  using trimSpace_infix [of s] by (metis le_add1 le_add2 le_trans length_append)

text \<open>Decimal numbers: \<^verbatim>\<open>strconv.Itoa\<close> and the verb \<^verbatim>\<open>%d\<close>.\<close>

definition digit :: "nat \<Rightarrow> char" where
  "digit n = char_of (48 + n)"

fun digits :: "nat \<Rightarrow> string" where
  "digits n = (if n < 10 then [digit n] else digits (n div 10) @ [digit (n mod 10)])"

definition itoa :: "int \<Rightarrow> string" where
  "itoa i = (if i < 0 then CHR ''-'' # digits (nat (- i)) else digits (nat i))"

declare digits.simps [simp del]

definition is_digit :: "char \<Rightarrow> bool" where
  "is_digit c \<longleftrightarrow> (let n = of_char c :: nat in 48 \<le> n \<and> n \<le> 57)"

definition digits_value :: "string \<Rightarrow> int" where
  "digits_value ds = foldl (\<lambda>acc c. 10 * acc + (of_char c - 48)) 0 ds"

text \<open>\<^verbatim>\<open>strconv.ParseInt\<close> in base 10 with 64 bits, and \<^verbatim>\<open>strconv.Atoi\<close>: an optional sign and digits only.\<close>

definition int64 :: "int \<Rightarrow> bool" where
  "int64 i \<longleftrightarrow> - (2 ^ 63) \<le> i \<and> i < 2 ^ 63"

definition parseInt64 :: "string \<Rightarrow> int option" where
  "parseInt64 s =
     (let neg = hasPrefix s ''-'';
          ds = (if neg \<or> hasPrefix s ''+'' then tl s else s);
          i = (if neg then - digits_value ds else digits_value ds)
      in if ds = [] \<or> \<not> list_all is_digit ds \<or> \<not> int64 i then None else Some i)"

lemma digit_simps [simp]: "n < 10 \<Longrightarrow> is_digit (digit n)" "n < 10 \<Longrightarrow> of_char (digit n) = (48 + int n)"
proof -
  assume "n < 10"
  then have n: "(of_char (digit n) :: nat) = 48 + n" by (simp add: digit_def)
  with \<open>n < 10\<close> show "is_digit (digit n)" by (simp add: is_digit_def)
  have "(of_char (digit n) :: int) = int (of_char (digit n))" by (rule of_nat_of_char [symmetric])
  with n show "of_char (digit n) = (48 + int n)" by simp
qed

lemma digits_props: "digits n \<noteq> [] \<and> list_all is_digit (digits n) \<and> digits_value (digits n) = int n"
proof (induction n rule: digits.induct)
  case step: (1 n)
  have small: ?case if "n < 10" using that by (simp add: digits.simps digits_value_def)
  show ?case
  proof (rule case_split [OF small])
    assume False: "\<not> n < 10"
    have "10 * int (n div 10) + int (n mod 10) = int n"
      by (metis mult_div_mod_eq of_nat_add of_nat_mult of_nat_numeral)
    with step [OF False] False show ?case
      by (simp add: digits.simps [of n] digits_value_def)
  qed
qed

lemma digits_no_sign: "\<not> hasPrefix (digits n) ''-''" "\<not> hasPrefix (digits n) ''+''"
  using digits_props [of n] by (cases "digits n"; auto simp: hasPrefix_def is_digit_def Let_def)+

lemma parseInt64_itoa: "int64 i \<Longrightarrow> parseInt64 (itoa i) = Some i"
  using digits_props [of "nat i"] digits_props [of "nat (- i)"] digits_no_sign
  by (auto simp: parseInt64_def itoa_def Let_def) (auto simp: hasPrefix_def)

text \<open>
  \<^verbatim>\<open>strings.Fields\<close>: the runs of bytes between white space characters; \<open>cur\<close> is the current run in
  reverse.
\<close>

definition flush :: "string \<Rightarrow> string list" where
  "flush cur = (if cur = [] then [] else [rev cur])"

function fields_loop :: "string \<Rightarrow> string \<Rightarrow> string list" where
  "fields_loop cur [] = flush cur"
| "fields_loop cur (c # s) =
     (case find (\<lambda>w. w \<noteq> [] \<and> hasPrefix (c # s) w) space_runes of
        None \<Rightarrow> fields_loop (c # cur) s
      | Some w \<Rightarrow> flush cur @ fields_loop [] (drop (length w) (c # s)))"
  by pat_completeness auto
termination
  by (relation "measure (\<lambda>(cur, s). length s)") (auto simp: find_Some_iff hasPrefix_iff)

definition Fields :: "string \<Rightarrow> string list" where
  "Fields s = fields_loop [] s"

text \<open>\<^verbatim>\<open>strings.SplitN\<close> at a separator of one byte: at most \<open>n\<close> parts, the last one unsplit.\<close>

fun splitN :: "nat \<Rightarrow> char \<Rightarrow> string \<Rightarrow> string list" where
  "splitN 0 c s = []"
| "splitN (Suc 0) c s = [s]"
| "splitN (Suc (Suc n)) c s =
     (case dropWhile (\<lambda>x. x \<noteq> c) s of
        [] \<Rightarrow> [s]
      | _ # rest \<Rightarrow> takeWhile (\<lambda>x. x \<noteq> c) s # splitN (Suc n) c rest)"

text \<open>\<^verbatim>\<open>strings.Trim\<close> with a cut set of ASCII characters.\<close>

definition trimSet :: "string \<Rightarrow> string \<Rightarrow> string" where
  "trimSet s cutset = rev (dropWhile (\<lambda>c. c \<in> set cutset) (rev (dropWhile (\<lambda>c. c \<in> set cutset) s)))"

section \<open>Package bufio\<close>

text \<open>
  \<^verbatim>\<open>bufio.Scanner\<close> with its defaults: the lines of the input without their line feed and a carriage
  return before it; no line for an empty rest. The scanner stops with an error at the first line
  of 65536 bytes or more. The result is what has been scanned and whether that error occurred.
\<close>

definition max_line :: nat where "max_line = 65536"

definition drop_cr :: "string \<Rightarrow> string" where
  "drop_cr l = (if l \<noteq> [] \<and> last l = CHR 0x0D then butlast l else l)"

fun scan_from :: "string list \<Rightarrow> string list \<times> bool" where
  "scan_from [] = ([], False)"
| "scan_from (l # ls) =
     (if length l \<ge> max_line then ([], True)
      else if ls = [] \<and> l = [] then ([], False)
      else let (toks, err) = scan_from ls in (drop_cr l # toks, err))"

definition scanner_lines :: "string \<Rightarrow> string list \<times> bool" where
  "scanner_lines s = scan_from (splitOn newline s)"

section \<open>Packages path and filepath\<close>

text \<open>
  \<^verbatim>\<open>path.Clean\<close> and \<^verbatim>\<open>path.Join\<close>: empty and dot elements vanish, a double dot cancels the element
  before it. \<open>clean\<close> keeps the elements so far in reverse.
\<close>

fun clean :: "bool \<Rightarrow> string list \<Rightarrow> string list \<Rightarrow> string list" where
  "clean rooted acc [] = rev acc"
| "clean rooted acc (e # es) =
     (if e = [] \<or> e = ''.'' then clean rooted acc es
      else if e = ''..'' then
        (case acc of
           [] \<Rightarrow> clean rooted (if rooted then [] else [e]) es
         | a # acc' \<Rightarrow> clean rooted (if a = ''..'' then e # acc else acc') es)
      else clean rooted (e # acc) es)"

definition path_Clean :: "string \<Rightarrow> string" where
  "path_Clean p =
     (let rooted = hasPrefix p ''/''; cleaned = joinWith ''/'' (clean rooted [] (splitOn CHR ''/'' p))
      in if rooted then ''/'' @ cleaned else if cleaned = [] then ''.'' else cleaned)"

definition path_Join :: "string \<Rightarrow> string \<Rightarrow> string" where
  "path_Join a b =
     (let es = filter (\<lambda>e. e \<noteq> []) [a, b] in if es = [] then [] else path_Clean (joinWith ''/'' es))"

definition path_elements :: "string \<Rightarrow> string list" where
  "path_elements p = clean (hasPrefix p ''/'') [] (splitOn CHR ''/'' p)"

text \<open>\<^verbatim>\<open>filepath.Rel\<close>: behind the common elements, up from the base and down to the target.\<close>

fun drop_common :: "'a list \<Rightarrow> 'a list \<Rightarrow> 'a list \<times> 'a list" where
  "drop_common (x # xs) (y # ys) = (if x = y then drop_common xs ys else (x # xs, y # ys))"
| "drop_common xs ys = (xs, ys)"

definition filepath_Rel :: "string \<Rightarrow> string \<Rightarrow> string option" where
  "filepath_Rel base targ =
     (if hasPrefix base ''/'' \<noteq> hasPrefix targ ''/'' then None
      else
        let (up, down) = drop_common (path_elements base) (path_elements targ)
        in if up = [] \<and> down = [] then Some ''.''
           else if up \<noteq> [] \<and> hd up = ''..'' then None
           else Some (joinWith ''/'' (map (\<lambda>_. ''..'') up @ down)))"

lemma find_append: "find P (xs @ ys) = (case find P xs of None \<Rightarrow> find P ys | Some x \<Rightarrow> Some x)"
  by (induction xs) auto

section \<open>Packages slices and sort\<close>

text \<open>
  \<^verbatim>\<open>slices.Sort\<close>, \<^verbatim>\<open>slices.SortFunc\<close> and \<^verbatim>\<open>sort.Slice\<close> are not stable: for keys that compare
  equal the order of the result is not specified. A routine that sorts takes the sorting function
  as an argument, and \<open>sorter\<close> is what the library documents of it: the result is a
  permutation of the input whose keys are in order.
\<close>

definition sorts_by :: "('a \<Rightarrow> 'k::linorder) \<Rightarrow> ('a list \<Rightarrow> 'a list) \<Rightarrow> bool" where
  "sorts_by key srt \<longleftrightarrow> (\<forall>xs. mset (srt xs) = mset xs \<and> sorted (map key (srt xs)))"

lemma sorts_by_sort_key: "sorts_by key (sort_key key)"
  by (simp add: sorts_by_def)

lemma sorts_by_mset: "sorts_by key srt \<Longrightarrow> mset (srt xs) = mset xs"
  by (simp add: sorts_by_def)

lemma sorts_by_set: "sorts_by key srt \<Longrightarrow> set (srt xs) = set xs"
  by (metis set_mset_mset sorts_by_mset)

lemma sorts_by_length: "sorts_by key srt \<Longrightarrow> length (srt xs) = length xs"
  by (metis size_mset sorts_by_mset)

lemma sorts_by_sorted: "sorts_by key srt \<Longrightarrow> sorted (map key (srt xs))"
  by (simp add: sorts_by_def)

text \<open>
  A loop over a sorted slice does not depend on how the sort orders equal keys if the loop body
  commutes for elements with equal keys.
\<close>

lemma foldl_move_front:
  assumes "\<And>s a. I s \<Longrightarrow> I (f s a)" "I s"
    and "\<And>s a. a \<in> set as \<Longrightarrow> I s \<Longrightarrow> f (f s a) x = f (f s x) a"
  shows "foldl f s (as @ x # bs) = foldl f (f s x) (as @ bs)"
  using assms(2,3)
proof (induction as arbitrary: s)
  case (Cons a as)
  have "foldl f (f s a) (as @ x # bs) = foldl f (f (f s a) x) (as @ bs)"
    by (rule Cons.IH) (use Cons.prems assms(1) in auto)
  with Cons.prems show ?case by simp
qed simp

lemma foldl_sorted_commute:
  fixes key :: "'a \<Rightarrow> 'k::linorder"
  assumes "\<And>s a. I s \<Longrightarrow> I (f s a)"
    and "\<And>s x y. x \<in> set xs \<Longrightarrow> y \<in> set xs \<Longrightarrow> key x = key y \<Longrightarrow> I s \<Longrightarrow> f (f s x) y = f (f s y) x"
    and "mset xs = mset ys" "sorted (map key xs)" "sorted (map key ys)" "I s"
  shows "foldl f s xs = foldl f s ys"
  using assms(2-6)
proof (induction xs arbitrary: ys s)
  case (Cons x xs)
  then have "x \<in> set ys" by (metis list.set_intros(1) set_mset_mset)
  then obtain as bs where ys: "ys = as @ x # bs" by (meson split_list)
  have set_eq: "set (x # xs) = set ys" using Cons.prems(2) by (metis set_mset_mset)
  have eq: "key a = key x" if "a \<in> set as" for a
    using that Cons.prems(3,4) ys set_eq
    by (auto simp: sorted_append) (metis Un_iff antisym insert_iff order.refl)
  have "foldl f s ys = foldl f (f s x) (as @ bs)"
    unfolding ys
  proof (rule foldl_move_front [where I = I])
    show "f (f t a) x = f (f t x) a" if "a \<in> set as" "I t" for t a
      using Cons.prems(1) [of a x t] that eq set_eq ys by auto
  qed (use assms(1) Cons.prems in auto)
  moreover have "foldl f (f s x) xs = foldl f (f s x) (as @ bs)"
  proof (rule Cons.IH)
    show "mset xs = mset (as @ bs)" using Cons.prems(2) ys by simp
    show "sorted (map key (as @ bs))" using Cons.prems(4) ys by (simp add: sorted_append)
  qed (use Cons.prems assms(1) in auto)
  ultimately show ?case by simp
qed simp

text \<open>\<^verbatim>\<open>slices.Compact\<close>: replaces a run of equal elements by one copy.\<close>

fun compact :: "'a list \<Rightarrow> 'a list" where
  "compact (x # y # zs) = (if x = y then compact (y # zs) else x # compact (y # zs))"
| "compact xs = xs"

lemma set_compact [simp, go_lists]: "set (compact xs) = set xs"
  by (induction xs rule: compact.induct) auto

lemma compact_distinct [go_lists]: "sorted (xs :: 'a::linorder list) \<Longrightarrow> distinct (compact xs)"
  by (induction xs rule: compact.induct) (auto simp: order.antisym)

text \<open>
  The idiom \<^verbatim>\<open>if _, exists := seen[x]; !exists { seen[x] = struct{}{}; out = append(out, x) }\<close>,
  used all over the code: the elements in the order of their first occurrence.
\<close>

fun addParticipant :: "'a list \<Rightarrow> 'a \<Rightarrow> 'a list" where
  "addParticipant ps x = (if x \<in> set ps then ps else ps @ [x])"

definition addAll :: "'a list \<Rightarrow> 'a list \<Rightarrow> 'a list" where
  "addAll ps xs = foldl addParticipant ps xs"

lemma addAll_Nil [simp]: "addAll ps [] = ps"
  by (simp add: addAll_def)

lemma addAll_Cons [simp]: "addAll ps (x # xs) = addAll (addParticipant ps x) xs"
  by (simp add: addAll_def)

lemma addAll_append: "addAll ps (xs @ ys) = addAll (addAll ps xs) ys"
  by (simp add: addAll_def)

lemma set_addAll [simp, go_lists]: "set (addAll ps xs) = set ps \<union> set xs"
  by (induction xs arbitrary: ps) auto

lemma distinct_addAll [go_lists]: "distinct ps \<Longrightarrow> distinct (addAll ps xs)"
  by (induction xs arbitrary: ps) auto

lemma addAll_prefix [go_lists]: "\<exists>ys. addAll ps xs = ps @ ys"
proof (induction xs arbitrary: ps)
  case (Cons x xs)
  obtain ys where "addAll (addParticipant ps x) xs = addParticipant ps x @ ys"
    using Cons by blast
  then show ?case by auto
qed simp

lemma addAll_absorb: "set xs \<subseteq> set ps \<Longrightarrow> addAll ps xs = ps"
  by (induction xs) auto

end
