(* ===== verification/Patch_Image.thy ===== *)
theory Patch_Image
  imports Go_Prelude
begin

text \<open>
  Parsed patches and the images rebuilt from them: \<^verbatim>\<open>patchutil/image.go\<close> and the helpers of
  \<^verbatim>\<open>patchutil/patchutil.go\<close> that work on parsed files (\<^verbatim>\<open>bestName\<close>, \<^verbatim>\<open>reverseDiff\<close>, \<^verbatim>\<open>Equal\<close>,
  \<^verbatim>\<open>SortPatch\<close>).

  The structs of the package \<^verbatim>\<open>gitdiff\<close> are not part of the repository; the records below hold
  the fields the code reads or writes. Line numbers (\<^verbatim>\<open>int64\<close>) are \<^typ>\<open>int\<close>: they count the
  lines of a text held in memory. \<^verbatim>\<open>Image.String\<close> is a loop that need not end, so it is a partial
  function; \<open>String_terminates_iff\<close> says exactly when it returns.
\<close>

section \<open>Parsed patches\<close>

datatype LineOp = OpContext | OpDelete | OpAdd

record DiffLine =
  dl_Op :: LineOp
  dl_Line :: string

record TextFragment =
  tf_OldPosition :: int
  tf_OldLines :: int
  tf_NewPosition :: int
  tf_NewLines :: int
  tf_LinesAdded :: int
  tf_LinesDeleted :: int
  tf_Lines :: "DiffLine list"

text \<open>A binary fragment is only moved around: a nil or a reference.\<close>

type_synonym BinaryFragment = "nat option"

record GitFile =
  gf_OldName :: string
  gf_NewName :: string
  gf_IsNew :: bool
  gf_IsDelete :: bool
  gf_IsCopy :: bool
  gf_IsRename :: bool
  gf_OldMode :: nat
  gf_NewMode :: nat
  gf_TextFragments :: "TextFragment list"
  gf_IsBinary :: bool
  gf_BinaryFragment :: BinaryFragment
  gf_ReverseBinaryFragment :: BinaryFragment

definition bestName :: "GitFile \<Rightarrow> string" where
  "bestName f = (if gf_IsDelete f then gf_OldName f else gf_NewName f)"

fun reverse_op :: "LineOp \<Rightarrow> LineOp" where
  "reverse_op OpAdd = OpDelete"
| "reverse_op OpDelete = OpAdd"
| "reverse_op OpContext = OpContext"

definition reverse_line :: "DiffLine \<Rightarrow> DiffLine" where
  "reverse_line l = l\<lparr>dl_Op := reverse_op (dl_Op l)\<rparr>"

definition reverse_fragment :: "TextFragment \<Rightarrow> TextFragment" where
  "reverse_fragment t =
     t\<lparr>tf_OldPosition := tf_NewPosition t, tf_NewPosition := tf_OldPosition t,
       tf_OldLines := tf_NewLines t, tf_NewLines := tf_OldLines t,
       tf_LinesAdded := tf_LinesDeleted t, tf_LinesDeleted := tf_LinesAdded t,
       tf_Lines := map reverse_line (tf_Lines t)\<rparr>"

definition reverseDiff :: "GitFile \<Rightarrow> GitFile" where
  "reverseDiff f =
     f\<lparr>gf_OldName := gf_NewName f, gf_NewName := gf_OldName f,
       gf_OldMode := gf_NewMode f, gf_NewMode := gf_OldMode f,
       gf_BinaryFragment := gf_ReverseBinaryFragment f,
       gf_ReverseBinaryFragment := gf_BinaryFragment f,
       gf_TextFragments := map reverse_fragment (gf_TextFragments f)\<rparr>"

text \<open>
  \<^verbatim>\<open>Equal\<close> compares slices of pointers: equal pointers first, then nil, then the fields. The
  shortcut for equal pointers agrees with the comparison of the fields, which is reflexive
  (\<open>file_equal_refl\<close>), so a slice is a list of optional files.
\<close>

definition line_equal :: "DiffLine \<Rightarrow> DiffLine \<Rightarrow> bool" where
  "line_equal x y \<longleftrightarrow> \<not> (dl_Op x \<noteq> dl_Op y \<or> dl_Line x \<noteq> dl_Line y)"

definition fragment_equal :: "TextFragment \<Rightarrow> TextFragment \<Rightarrow> bool" where
  "fragment_equal x y \<longleftrightarrow>
     \<not> (tf_OldPosition x \<noteq> tf_OldPosition y \<or> tf_OldLines x \<noteq> tf_OldLines y \<or>
        tf_NewPosition x \<noteq> tf_NewPosition y \<or> tf_NewLines x \<noteq> tf_NewLines y) \<and>
     length (tf_Lines x) = length (tf_Lines y) \<and>
     list_all2 line_equal (tf_Lines x) (tf_Lines y)"

definition file_equal :: "GitFile \<Rightarrow> GitFile \<Rightarrow> bool" where
  "file_equal x y \<longleftrightarrow>
     \<not> (gf_OldName x \<noteq> gf_OldName y \<or> gf_NewName x \<noteq> gf_NewName y) \<and>
     \<not> (gf_OldMode x \<noteq> gf_OldMode y \<or> gf_NewMode x \<noteq> gf_NewMode y) \<and>
     \<not> (gf_IsNew x \<noteq> gf_IsNew y \<or> gf_IsDelete x \<noteq> gf_IsDelete y \<or>
        gf_IsCopy x \<noteq> gf_IsCopy y \<or> gf_IsRename x \<noteq> gf_IsRename y) \<and>
     length (gf_TextFragments x) = length (gf_TextFragments y) \<and>
     list_all2 fragment_equal (gf_TextFragments x) (gf_TextFragments y)"

fun file_ptr_equal :: "GitFile option \<Rightarrow> GitFile option \<Rightarrow> bool" where
  "file_ptr_equal (Some x) (Some y) = file_equal x y"
| "file_ptr_equal None None = True"
| "file_ptr_equal _ _ = False"

definition Equal :: "GitFile option list \<Rightarrow> GitFile option list \<Rightarrow> bool" where
  "Equal a b \<longleftrightarrow> length a = length b \<and> list_all2 file_ptr_equal a b"

text \<open>\<^verbatim>\<open>SortPatch\<close> sorts the files by name, with the sorting function of package \<^verbatim>\<open>slices\<close>.\<close>

definition SortPatch :: "((GitFile \<Rightarrow> string) \<Rightarrow> GitFile list \<Rightarrow> GitFile list) \<Rightarrow>
    GitFile list \<Rightarrow> GitFile list" where
  "SortPatch slices_SortFunc patch = slices_SortFunc bestName patch"

section \<open>Images\<close>

record ImageLine =
  il_LineNumber :: int
  il_Content :: string
  il_IsUnknown :: bool

record Image =
  im_File :: string
  im_Data :: "ImageLine list"

definition NewLineAt :: "int \<Rightarrow> string \<Rightarrow> ImageLine" where
  "NewLineAt lineNumber content =
     \<lparr>il_LineNumber = lineNumber, il_Content = content, il_IsUnknown = False\<rparr>"

definition AddLine :: "Image \<Rightarrow> ImageLine \<Rightarrow> Image" where
  "AddLine r line = r\<lparr>im_Data := im_Data r @ [line]\<rparr>"

text \<open>
  \<^verbatim>\<open>Image.String\<close>. The remaining lines \<^verbatim>\<open>r.Data[j:]\<close> are the first argument and the line counter
  \<^verbatim>\<open>i\<close> the second; \<open>None\<close> is a loop that never ends.
\<close>

partial_function (option) image_string_loop ::
  "ImageLine list \<Rightarrow> int \<Rightarrow> string \<Rightarrow> string option" where
  "image_string_loop data i b =
     (let i = i + 1 in
      case data of
        [] \<Rightarrow> Some b
      | l # rest \<Rightarrow>
          if il_LineNumber l = i then image_string_loop rest i (b @ il_Content l)
          else image_string_loop data i (b @ [newline]))"

definition image_String :: "Image \<Rightarrow> string option" where
  "image_String r = image_string_loop (im_Data r) 0 []"

fun pre_lines :: "int \<Rightarrow> DiffLine list \<Rightarrow> ImageLine list" where
  "pre_lines position [] = []"
| "pre_lines position (line # lines) =
     (case dl_Op line of
        OpContext \<Rightarrow> NewLineAt position (dl_Line line) # pre_lines (position + 1) lines
      | OpDelete \<Rightarrow> NewLineAt position (dl_Line line) # pre_lines (position + 1) lines
      | OpAdd \<Rightarrow> pre_lines position lines)"

definition CreatePreImage :: "GitFile \<Rightarrow> Image" where
  "CreatePreImage f =
     \<lparr>im_File = bestName f,
      im_Data = concat (map (\<lambda>t. pre_lines (tf_OldPosition t) (tf_Lines t)) (gf_TextFragments f))\<rparr>"

fun post_lines :: "int \<Rightarrow> DiffLine list \<Rightarrow> ImageLine list" where
  "post_lines position [] = []"
| "post_lines position (line # lines) =
     (case dl_Op line of
        OpContext \<Rightarrow> NewLineAt position (dl_Line line) # post_lines (position + 1) lines
      | OpAdd \<Rightarrow> NewLineAt position (dl_Line line) # post_lines (position + 1) lines
      | OpDelete \<Rightarrow> post_lines position lines)"

definition CreatePostImage :: "GitFile \<Rightarrow> Image" where
  "CreatePostImage f =
     \<lparr>im_File = bestName f,
      im_Data = concat (map (\<lambda>t. post_lines (tf_NewPosition t) (tf_Lines t)) (gf_TextFragments f))\<rparr>"

datatype MergeError = MergeError (msg: string) (mismatchingLine: int)

definition rebase_msg :: string where
  "rebase_msg = ''mismatching lines, this patch might have undergone rebase''"

fun merge_loop :: "ImageLine list \<Rightarrow> ImageLine list \<Rightarrow> Image \<Rightarrow> (MergeError, Image) result" where
  "merge_loop [] [] m = Inr m"
| "merge_loop [] (l2 # ys) m = merge_loop [] ys (AddLine m l2)"
| "merge_loop (l1 # xs) [] m = merge_loop xs [] (AddLine m l1)"
| "merge_loop (l1 # xs) (l2 # ys) m =
     (if il_LineNumber l1 = il_LineNumber l2 then
        (if il_Content l1 \<noteq> il_Content l2 then Inl (MergeError rebase_msg (il_LineNumber l1))
         else merge_loop xs ys (AddLine m l1))
      else if il_LineNumber l1 < il_LineNumber l2 then merge_loop xs (l2 # ys) (AddLine m l1)
      else merge_loop (l1 # xs) ys (AddLine m l2))"

definition Merge :: "Image \<Rightarrow> Image \<Rightarrow> (MergeError, Image) result" where
  "Merge this other = merge_loop (im_Data this) (im_Data other) \<lparr>im_File = [], im_Data = []\<rparr>"

text \<open>
  \<^verbatim>\<open>Image.Apply\<close> runs \<^verbatim>\<open>gitdiff.Apply\<close> on the rendered image; that function is a parameter.
\<close>

definition image_Apply ::
  "(string \<Rightarrow> GitFile \<Rightarrow> ('e, string) result) \<Rightarrow> Image \<Rightarrow> GitFile \<Rightarrow> ('e, string) result option" where
  "image_Apply gitdiff_Apply r patch =
     map_option (\<lambda>original. gitdiff_Apply original patch) (image_String r)"


section \<open>Reversal and comparison\<close>

lemma reverse_op_involutive [simp]: "reverse_op (reverse_op op) = op"
  by (cases op) auto

lemma reverse_line_involutive [simp]: "reverse_line (reverse_line l) = l"
  by (simp add: reverse_line_def)

lemma reverse_fragment_involutive [simp]: "reverse_fragment (reverse_fragment t) = t"
  by (simp add: reverse_fragment_def comp_def)

lemma reverseDiff_reverseDiff [simp]: "reverseDiff (reverseDiff f) = f"
  by (simp add: reverseDiff_def comp_def)

lemma line_equal_iff: "line_equal x y \<longleftrightarrow> dl_Op x = dl_Op y \<and> dl_Line x = dl_Line y"
  by (auto simp: line_equal_def)

lemma line_equal_eq: "line_equal x y \<longleftrightarrow> x = y"
  by (cases x; cases y) (auto simp: line_equal_iff)

lemma lines_equal_eq: "list_all2 line_equal xs ys \<longleftrightarrow> xs = ys"
proof -
  have "line_equal = (=)" by (intro ext) (simp add: line_equal_eq)
  then show ?thesis by (simp add: list.rel_eq)
qed

lemma fragment_equal_iff:
  "fragment_equal x y \<longleftrightarrow>
     tf_OldPosition x = tf_OldPosition y \<and> tf_OldLines x = tf_OldLines y \<and>
     tf_NewPosition x = tf_NewPosition y \<and> tf_NewLines x = tf_NewLines y \<and>
     tf_Lines x = tf_Lines y"
  by (auto simp: fragment_equal_def lines_equal_eq)

lemma fragment_equal_refl: "fragment_equal x x"
  by (simp add: fragment_equal_iff)

lemma file_equal_refl: "file_equal x x"
  by (simp add: file_equal_def list_all2_refl fragment_equal_refl)

lemma fragments_equal_sym:
  "list_all2 fragment_equal xs ys \<Longrightarrow> list_all2 fragment_equal ys xs"
  by (auto simp: list_all2_conv_all_nth fragment_equal_iff)

lemma fragments_equal_trans:
  "list_all2 fragment_equal xs ys \<Longrightarrow> list_all2 fragment_equal ys zs \<Longrightarrow>
   list_all2 fragment_equal xs zs"
  by (auto simp: list_all2_conv_all_nth fragment_equal_iff)

lemma file_ptr_equal_equivalence:
  "file_ptr_equal x x"
  "file_ptr_equal x y \<Longrightarrow> file_ptr_equal y x"
  "file_ptr_equal x y \<Longrightarrow> file_ptr_equal y z \<Longrightarrow> file_ptr_equal x z"
proof -
  show "file_ptr_equal x x"
    by (cases x) (auto simp: file_equal_refl)
  show "file_ptr_equal x y \<Longrightarrow> file_ptr_equal y x"
    by (cases x; cases y) (auto simp: file_equal_def intro: fragments_equal_sym)
  show "file_ptr_equal x y \<Longrightarrow> file_ptr_equal y z \<Longrightarrow> file_ptr_equal x z"
    by (cases x; cases y; cases z) (auto simp: file_equal_def intro: fragments_equal_trans)
qed

section \<open>Rendering an image\<close>

text \<open>
  The line numbers rise strictly above \<open>k\<close>: with \<open>k = 0\<close> this is what \<^verbatim>\<open>Image.String\<close> needs.
\<close>

fun ascending :: "int \<Rightarrow> ImageLine list \<Rightarrow> bool" where
  "ascending k [] = True"
| "ascending k (l # ls) = (k < il_LineNumber l \<and> ascending (il_LineNumber l) ls)"

lemma ascending_mono: "ascending k ls \<Longrightarrow> j \<le> k \<Longrightarrow> ascending j ls"
  by (cases ls) auto

lemma ascending_lower: "ascending k ls \<Longrightarrow> l \<in> set ls \<Longrightarrow> k < il_LineNumber l"
  by (induction k ls rule: ascending.induct) force+

text \<open>The reference rendering: a blank line for every line of the file that is not known.\<close>

fun render :: "int \<Rightarrow> ImageLine list \<Rightarrow> string" where
  "render i [] = []"
| "render i (l # ls) =
     replicate (nat (il_LineNumber l - i - 1)) newline @ il_Content l @ render (il_LineNumber l) ls"

lemma image_string_loop_gap:
  assumes "i < il_LineNumber l"
  shows "image_string_loop (l # ls) i b =
     image_string_loop ls (il_LineNumber l)
       (b @ replicate (nat (il_LineNumber l - i - 1)) newline @ il_Content l)"
  using assms
proof (induction "nat (il_LineNumber l - i)" arbitrary: i b)
  case 0
  then show ?case by simp
next
  case (Suc n)
  show ?case
  proof (cases "il_LineNumber l = i + 1")
    case True
    then show ?thesis by (simp add: image_string_loop.simps [of "l # ls" i])
  next
    case False
    with Suc.prems have lt: "i + 1 < il_LineNumber l" by simp
    have gap: "nat (il_LineNumber l - i - 1) = Suc (nat (il_LineNumber l - (i + 1) - 1))"
      using lt by simp
    have "image_string_loop (l # ls) i b = image_string_loop (l # ls) (i + 1) (b @ [newline])"
      using False by (simp add: image_string_loop.simps [of "l # ls" i])
    also have "\<dots> = image_string_loop ls (il_LineNumber l)
       ((b @ [newline]) @ replicate (nat (il_LineNumber l - (i + 1) - 1)) newline @ il_Content l)"
      using Suc.hyps lt by simp
    finally show ?thesis by (simp add: gap)
  qed
qed

lemma image_string_loop_render:
  "ascending i ls \<Longrightarrow> image_string_loop ls i b = Some (b @ render i ls)"
proof (induction i ls arbitrary: b rule: ascending.induct)
  case (1 k)
  then show ?case by (simp add: image_string_loop.simps)
next
  case (2 k l ls)
  then show ?case by (simp add: image_string_loop_gap)
qed

lemma image_string_loop_ascending:
  assumes ret: "image_string_loop ls i b = Some s"
  shows "ascending i ls"
proof (rule image_string_loop.raw_induct [where P = "\<lambda>ls i b s. ascending i ls", OF _ ret])
  fix loop ls i b s
  assume IH: "\<And>ls i b s. loop ls i b = Some s \<Longrightarrow> ascending i ls"
    and eq: "(let i = i + 1 in case ls of [] \<Rightarrow> Some b
       | l # rest \<Rightarrow> if il_LineNumber l = i then loop rest i (b @ il_Content l)
                    else loop ls i (b @ [newline])) = Some s"
  show "ascending i ls"
  proof (cases ls)
    case (Cons l rest)
    show ?thesis
    proof (cases "il_LineNumber l = i + 1")
      case True
      with eq Cons have "loop rest (i + 1) (b @ il_Content l) = Some s" by simp
      then have "ascending (i + 1) rest" by (rule IH)
      with Cons True show ?thesis by simp
    next
      case False
      with eq Cons have "loop ls (i + 1) (b @ [newline]) = Some s" by simp
      then have "ascending (i + 1) ls" by (rule IH)
      with Cons show ?thesis by simp
    qed
  qed simp
qed


lemma image_String_render: "ascending 0 (im_Data r) \<Longrightarrow> image_String r = Some (render 0 (im_Data r))"
  by (simp add: image_String_def image_string_loop_render)

lemma image_String_Some_ascending: "image_String r = Some s \<Longrightarrow> ascending 0 (im_Data r)"
  unfolding image_String_def by (rule image_string_loop_ascending)

lemma image_String_returns_iff: "(\<exists>s. image_String r = Some s) \<longleftrightarrow> ascending 0 (im_Data r)"
  by (auto simp: image_String_render dest: image_String_Some_ascending)

text \<open>
  C37. \<^verbatim>\<open>Image.String\<close> returns exactly for the images whose line numbers are positive and strictly
  rising; on every other image the loop never ends, because the counter has passed the number it
  waits for.
\<close>

theorem String_terminates_iff: "(\<exists>s. image_String r = Some s) \<longleftrightarrow> ascending 0 (im_Data r)"
  by (rule image_String_returns_iff)

text \<open>A line as the parser of patches produces it: one newline, at its end.\<close>

definition complete_line :: "string \<Rightarrow> bool" where
  "complete_line c \<longleftrightarrow> c \<noteq> [] \<and> last c = newline \<and> newline \<notin> set (butlast c)"

lemma complete_lineE:
  assumes "complete_line c"
  obtains body where "c = body @ [newline]" and "newline \<notin> set body"
  using assms unfolding complete_line_def by (metis append_butlast_last_id)

lemma splitOn_replicate: "splitOn c (replicate n c @ s) = replicate n [] @ splitOn c s"
  by (induction n) auto

lemma splitOn_render_Cons:
  assumes "complete_line (il_Content l)"
  shows "splitOn newline (render i (l # ls)) =
     replicate (nat (il_LineNumber l - i - 1)) [] @
     butlast (il_Content l) # splitOn newline (render (il_LineNumber l) ls)"
proof -
  obtain body where "il_Content l = body @ [newline]" and "newline \<notin> set body"
    using assms by (rule complete_lineE)
  then show ?thesis by (simp add: splitOn_replicate splitOn_append_sep)
qed

lemma render_nth:
  assumes "ascending i ls" and "\<forall>l \<in> set ls. complete_line (il_Content l)" and "l \<in> set ls"
  shows "nat (il_LineNumber l - i - 1) < length (splitOn newline (render i ls)) \<and>
     splitOn newline (render i ls) ! nat (il_LineNumber l - i - 1) = butlast (il_Content l)"
  using assms
proof (induction i ls rule: ascending.induct)
  case (2 k h ls)
  let ?n = "il_LineNumber h"
  have eq: "splitOn newline (render k (h # ls)) =
      replicate (nat (?n - k - 1)) [] @ butlast (il_Content h) # splitOn newline (render ?n ls)"
    using "2.prems"(2) by (intro splitOn_render_Cons) simp
  show ?case
  proof (cases "l \<in> set ls")
    case True
    with "2.prems" have "?n < il_LineNumber l" and "k < ?n"
      by (auto dest: ascending_lower)
    then have pos: "nat (il_LineNumber l - k - 1) =
        nat (?n - k - 1) + Suc (nat (il_LineNumber l - ?n - 1))" by simp
    have IH: "nat (il_LineNumber l - ?n - 1) < length (splitOn newline (render ?n ls)) \<and>
        splitOn newline (render ?n ls) ! nat (il_LineNumber l - ?n - 1) = butlast (il_Content l)"
      using True "2.prems" by (intro "2.IH") auto
    then show ?thesis unfolding eq pos by (simp add: nth_append)
  next
    case False
    with "2.prems"(3) have "l = h" by simp
    then show ?thesis unfolding eq by (simp add: nth_append)
  qed
qed simp

lemma render_gap:
  assumes "ascending i ls" and "\<forall>l \<in> set ls. complete_line (il_Content l)"
    and "i < k" and "\<forall>l \<in> set ls. il_LineNumber l \<noteq> k" and "\<exists>l \<in> set ls. k < il_LineNumber l"
  shows "splitOn newline (render i ls) ! nat (k - i - 1) = []"
  using assms
proof (induction i ls rule: ascending.induct)
  case (2 j h ls)
  let ?n = "il_LineNumber h"
  have eq: "splitOn newline (render j (h # ls)) =
      replicate (nat (?n - j - 1)) [] @ butlast (il_Content h) # splitOn newline (render ?n ls)"
    using "2.prems"(2) by (intro splitOn_render_Cons) simp
  show ?case
  proof (cases "k < ?n")
    case True
    with "2.prems" show ?thesis unfolding eq by (simp add: nth_append)
  next
    case False
    with "2.prems" have "?n < k" and "j < ?n" by auto
    then have pos: "nat (k - j - 1) = nat (?n - j - 1) + Suc (nat (k - ?n - 1))" by simp
    have "splitOn newline (render ?n ls) ! nat (k - ?n - 1) = []"
      using "2.prems" \<open>?n < k\<close> by (intro "2.IH") auto
    then show ?thesis unfolding eq pos by (simp add: nth_append)
  qed
qed simp

text \<open>
  The text \<^verbatim>\<open>Image.String\<close> returns has every line of the image at its own line number, and a
  blank line at every number below the last that the image does not know.
\<close>

theorem String_places_lines:
  assumes "image_String r = Some s"
    and "\<forall>l \<in> set (im_Data r). complete_line (il_Content l)"
  shows "(\<forall>l \<in> set (im_Data r).
            splitOn newline s ! nat (il_LineNumber l - 1) = butlast (il_Content l)) \<and>
         (\<forall>k > 0. (\<forall>l \<in> set (im_Data r). il_LineNumber l \<noteq> k) \<longrightarrow>
            (\<exists>l \<in> set (im_Data r). k < il_LineNumber l) \<longrightarrow> splitOn newline s ! nat (k - 1) = [])"
proof -
  have asc: "ascending 0 (im_Data r)"
    using assms(1) by (rule image_String_Some_ascending)
  with assms(1) have s: "s = render 0 (im_Data r)"
    by (simp add: image_String_render)
  show ?thesis
    using render_nth [OF asc assms(2)] render_gap [OF asc assms(2)] s by simp
qed

theorem String_places_lines_witness:
  "let r = \<lparr>im_File = ''f'', im_Data = [NewLineAt 2 (''a'' @ [newline]), NewLineAt 4 (''b'' @ [newline])]\<rparr>;
       s = [newline] @ ''a'' @ [newline, newline] @ ''b'' @ [newline]
   in image_String r = Some s \<and> splitOn newline s ! 1 = ''a'' \<and> splitOn newline s ! 2 = []"
proof -
  let ?r = "\<lparr>im_File = ''f'', im_Data = [NewLineAt 2 (''a'' @ [newline]), NewLineAt 4 (''b'' @ [newline])]\<rparr>"
  let ?s = "[newline] @ ''a'' @ [newline, newline] @ ''b'' @ [newline]"
  have str: "image_String ?r = Some ?s"
    by (simp add: image_String_def image_string_loop.simps NewLineAt_def)
  have complete: "\<forall>l \<in> set (im_Data ?r). complete_line (il_Content l)"
    by (simp add: complete_line_def NewLineAt_def)
  note places = String_places_lines [OF str complete]
  have "splitOn newline ?s ! nat (2 - 1) = ''a''"
    using conjunct1 [OF places] by (simp add: NewLineAt_def)
  moreover have "splitOn newline ?s ! nat (3 - 1) = []"
    using conjunct2 [OF places] by (simp add: NewLineAt_def)
  ultimately show ?thesis using str by simp
qed

section \<open>Pre-images and post-images\<close>

text \<open>The lines of a fragment that belong to the old file.\<close>

definition old_count :: "DiffLine list \<Rightarrow> int" where
  "old_count ls = int (length (filter (\<lambda>l. dl_Op l \<noteq> OpAdd) ls))"

text \<open>
  The old line ranges of the fragments are positive, disjoint and in order, as in a patch that
  \<^verbatim>\<open>git diff\<close> writes. A fragment that only adds lines covers no old line.
\<close>

fun old_ranges_ordered :: "int \<Rightarrow> TextFragment list \<Rightarrow> bool" where
  "old_ranges_ordered k [] = True"
| "old_ranges_ordered k (t # ts) =
     (if old_count (tf_Lines t) = 0 then old_ranges_ordered k ts
      else k < tf_OldPosition t \<and>
           old_ranges_ordered (tf_OldPosition t + old_count (tf_Lines t) - 1) ts)"

lemma old_count_simps [simp]:
  "old_count [] = 0"
  "old_count (l # ls) = (if dl_Op l = OpAdd then old_count ls else 1 + old_count ls)"
  by (auto simp: old_count_def)

lemma old_count_nonneg [simp]: "0 \<le> old_count ls"
  by (simp add: old_count_def)

lemma old_count_positive [simp]: "1 + old_count ls \<noteq> 0"
  by (simp add: old_count_def)

lemma ascending_pre_lines_append:
  "ascending k (pre_lines p ls @ zs) \<longleftrightarrow>
     (if old_count ls = 0 then ascending k zs
      else k < p \<and> ascending (p + old_count ls - 1) zs)"
proof (induction ls arbitrary: k p)
  case (Cons l ls)
  then show ?case by (cases "dl_Op l") (auto simp: NewLineAt_def)
qed simp

lemma ascending_pre_image_iff:
  "ascending k (concat (map (\<lambda>t. pre_lines (tf_OldPosition t) (tf_Lines t)) ts)) \<longleftrightarrow>
   old_ranges_ordered k ts"
  by (induction ts arbitrary: k) (auto simp: ascending_pre_lines_append)

text \<open>
  The pre-image of a patched file can be rendered if and only if the old line ranges of its
  fragments are positive, disjoint and in order.
\<close>

theorem pre_image_renders_iff:
  "(\<exists>s. image_String (CreatePreImage f) = Some s) \<longleftrightarrow> old_ranges_ordered 0 (gf_TextFragments f)"
  by (simp add: image_String_returns_iff CreatePreImage_def ascending_pre_image_iff)

lemma post_lines_reverse: "post_lines p ls = pre_lines p (map reverse_line ls)"
  by (induction ls arbitrary: p) (auto simp: reverse_line_def split: LineOp.splits)

text \<open>
  Reversing a patch in place swaps what it was applied to with what it produces: the post-image
  of a file holds the lines of the pre-image of the reversed file and the other way round, and
  reversing twice gives the file back.
\<close>

theorem reverseDiff_swaps_images:
  "im_Data (CreatePreImage (reverseDiff f)) = im_Data (CreatePostImage f) \<and>
   im_Data (CreatePostImage (reverseDiff f)) = im_Data (CreatePreImage f) \<and>
   reverseDiff (reverseDiff f) = f"
proof -
  have pre: "im_Data (CreatePreImage (reverseDiff g)) = im_Data (CreatePostImage g)" for g
    by (simp add: CreatePreImage_def CreatePostImage_def reverseDiff_def reverse_fragment_def
        post_lines_reverse comp_def)
  show ?thesis using pre [of f] pre [of "reverseDiff f"] by simp
qed

section \<open>Merging two images\<close>

text \<open>The merge without the accumulator.\<close>

fun merge_lines :: "ImageLine list \<Rightarrow> ImageLine list \<Rightarrow> (MergeError, ImageLine list) result" where
  "merge_lines [] ys = Inr ys"
| "merge_lines xs [] = Inr xs"
| "merge_lines (l1 # xs) (l2 # ys) =
     (if il_LineNumber l1 = il_LineNumber l2 then
        (if il_Content l1 \<noteq> il_Content l2 then Inl (MergeError rebase_msg (il_LineNumber l1))
         else map_sum id ((#) l1) (merge_lines xs ys))
      else if il_LineNumber l1 < il_LineNumber l2
        then map_sum id ((#) l1) (merge_lines xs (l2 # ys))
      else map_sum id ((#) l2) (merge_lines (l1 # xs) ys))"

lemma merge_lines_Nil2 [simp]: "merge_lines xs [] = Inr xs"
  by (cases xs) auto

lemma merge_loop_eq:
  "merge_loop xs ys m = map_sum id (\<lambda>zs. m\<lparr>im_Data := im_Data m @ zs\<rparr>) (merge_lines xs ys)"
proof (induction xs ys m rule: merge_loop.induct)
  case (4 l1 xs l2 ys m)
  then show ?case by (simp add: AddLine_def sum.map_comp comp_def id_def)
qed (auto simp: AddLine_def)

lemma Merge_eq: "Merge a b = map_sum id (\<lambda>zs. \<lparr>im_File = [], im_Data = zs\<rparr>) (merge_lines (im_Data a) (im_Data b))"
  by (simp add: Merge_def merge_loop_eq)

text \<open>Two images agree when no line number has two contents.\<close>

definition images_agree :: "ImageLine list \<Rightarrow> ImageLine list \<Rightarrow> bool" where
  "images_agree xs ys \<longleftrightarrow>
     (\<forall>l1 \<in> set xs. \<forall>l2 \<in> set ys. il_LineNumber l1 = il_LineNumber l2 \<longrightarrow> il_Content l1 = il_Content l2)"

text \<open>What an image says about the file: line numbers with their contents.\<close>

definition facts :: "ImageLine list \<Rightarrow> (int \<times> string) set" where
  "facts xs = (\<lambda>l. (il_LineNumber l, il_Content l)) ` set xs"

lemma facts_simps [simp]:
  "facts [] = {}"
  "facts (l # ls) = insert (il_LineNumber l, il_Content l) (facts ls)"
  by (auto simp: facts_def)

lemma merge_lines_InrE:
  assumes "merge_lines (l1 # xs) (l2 # ys) = Inr zs"
  obtains (same) zs' where "il_LineNumber l1 = il_LineNumber l2" "il_Content l1 = il_Content l2"
      "merge_lines xs ys = Inr zs'" "zs = l1 # zs'"
    | (left) zs' where "il_LineNumber l1 < il_LineNumber l2"
      "merge_lines xs (l2 # ys) = Inr zs'" "zs = l1 # zs'"
    | (right) zs' where "il_LineNumber l2 < il_LineNumber l1"
      "merge_lines (l1 # xs) ys = Inr zs'" "zs = l2 # zs'"
  using assms by (auto simp: map_sum_Inr_iff split: if_splits)

lemma merge_lines_facts: "merge_lines xs ys = Inr zs \<Longrightarrow> facts zs = facts xs \<union> facts ys"
proof (induction xs ys arbitrary: zs rule: merge_lines.induct)
  case (3 l1 xs l2 ys)
  from "3.prems" show ?case by (cases rule: merge_lines_InrE) (auto simp: "3.IH")
qed auto

lemma merge_lines_ascending:
  "ascending k xs \<Longrightarrow> ascending k ys \<Longrightarrow> merge_lines xs ys = Inr zs \<Longrightarrow> ascending k zs"
proof (induction xs ys arbitrary: k zs rule: merge_lines.induct)
  case (3 l1 xs l2 ys)
  from "3.prems"(3) show ?case
    by (cases rule: merge_lines_InrE) (use "3.prems"(1,2) in \<open>auto simp: "3.IH"\<close>)
qed auto

lemma merge_lines_error:
  "merge_lines xs ys = Inl e \<Longrightarrow>
     \<exists>l1 \<in> set xs. \<exists>l2 \<in> set ys. il_LineNumber l1 = mismatchingLine e \<and>
        il_LineNumber l2 = mismatchingLine e \<and> il_Content l1 \<noteq> il_Content l2"
proof (induction xs ys rule: merge_lines.induct)
  case (3 l1 xs l2 ys)
  consider "il_LineNumber l1 = il_LineNumber l2" "il_Content l1 \<noteq> il_Content l2"
    | "il_LineNumber l1 = il_LineNumber l2" "il_Content l1 = il_Content l2"
    | "il_LineNumber l1 < il_LineNumber l2" | "il_LineNumber l2 < il_LineNumber l1"
    by linarith
  then show ?case
  proof cases
    case 1
    with "3.prems" show ?thesis by auto
  next
    case 2
    with "3.prems" have "merge_lines xs ys = Inl e" by (auto simp: map_sum_Inl_iff)
    from "3.IH"(1) [OF _ _ this] 2 show ?thesis by auto
  next
    case 3
    with "3.prems" have "merge_lines xs (l2 # ys) = Inl e" by (auto simp: map_sum_Inl_iff)
    from "3.IH"(2) [OF _ _ this] 3 show ?thesis by auto
  next
    case 4
    with "3.prems" have "merge_lines (l1 # xs) ys = Inl e" by (auto simp: map_sum_Inl_iff)
    from "3.IH"(3) [OF _ _ this] 4 show ?thesis by auto
  qed
qed auto

lemma merge_lines_msg: "merge_lines xs ys = Inl e \<Longrightarrow> msg e = rebase_msg"
  by (induction xs ys rule: merge_lines.induct) (auto simp: map_sum_Inl_iff split: if_splits)

lemma images_agree_Nil [simp]: "images_agree [] ys" "images_agree xs []"
  by (auto simp: images_agree_def)

lemma images_agree_Cons1:
  "images_agree (l # xs) ys \<longleftrightarrow> images_agree xs ys \<and>
     (\<forall>l2 \<in> set ys. il_LineNumber l = il_LineNumber l2 \<longrightarrow> il_Content l = il_Content l2)"
  by (auto simp: images_agree_def)

lemma images_agree_Cons2:
  "images_agree xs (l # ys) \<longleftrightarrow> images_agree xs ys \<and>
     (\<forall>l1 \<in> set xs. il_LineNumber l1 = il_LineNumber l \<longrightarrow> il_Content l1 = il_Content l)"
  by (auto simp: images_agree_def)

lemma merge_lines_agree:
  "ascending k xs \<Longrightarrow> ascending k ys \<Longrightarrow> merge_lines xs ys = Inr zs \<Longrightarrow> images_agree xs ys"
proof (induction xs ys arbitrary: k zs rule: merge_lines.induct)
  case (3 l1 xs l2 ys)
  have above: "\<forall>l \<in> set xs. il_LineNumber l1 < il_LineNumber l"
    "\<forall>l \<in> set ys. il_LineNumber l2 < il_LineNumber l"
    using "3.prems"(1,2) by (auto dest: ascending_lower)
  from "3.prems"(3) show ?case
  proof (cases rule: merge_lines_InrE)
    case (same zs')
    then have "images_agree xs ys" using "3.prems" by (auto intro: "3.IH"(1))
    with same above show ?thesis by (force simp: images_agree_Cons1 images_agree_Cons2)
  next
    case (left zs')
    then have "images_agree xs (l2 # ys)" using "3.prems" by (auto intro: "3.IH"(2))
    with left above show ?thesis by (force simp: images_agree_Cons1 images_agree_Cons2)
  next
    case (right zs')
    then have "images_agree (l1 # xs) ys" using "3.prems" by (auto intro: "3.IH"(3))
    with right above show ?thesis by (force simp: images_agree_Cons1 images_agree_Cons2)
  qed
qed auto

lemma Merge_ascending:
  assumes "ascending 0 (im_Data a)" and "ascending 0 (im_Data b)" and "Merge a b = Inr m"
  shows "ascending 0 (im_Data m)"
proof -
  from assms(3) have "merge_lines (im_Data a) (im_Data b) = Inr (im_Data m)"
    by (auto simp: Merge_eq map_sum_Inr_iff)
  with assms(1,2) show ?thesis by (rule merge_lines_ascending)
qed

text \<open>
  C24. For two images with rising line numbers, \<^verbatim>\<open>Merge\<close> succeeds if and only if the images agree on
  every line number they share, and the merged image is then rising again (so it can be rendered)
  and holds exactly the lines of the two images.
\<close>

theorem Merge_correct:
  assumes "ascending 0 (im_Data a)" and "ascending 0 (im_Data b)"
  shows "((\<exists>m. Merge a b = Inr m) \<longleftrightarrow> images_agree (im_Data a) (im_Data b)) \<and>
         (\<forall>m. Merge a b = Inr m \<longrightarrow>
            (\<exists>s. image_String m = Some s) \<and>
            facts (im_Data m) = facts (im_Data a) \<union> facts (im_Data b))"
proof (cases "merge_lines (im_Data a) (im_Data b)")
  case (Inl e)
  then have "\<not> images_agree (im_Data a) (im_Data b)"
    using merge_lines_error [OF Inl] unfolding images_agree_def by metis
  with Inl show ?thesis by (auto simp: Merge_eq)
next
  case (Inr zs)
  have "ascending 0 zs" and "images_agree (im_Data a) (im_Data b)"
    using merge_lines_ascending merge_lines_agree assms Inr by blast+
  moreover have "facts zs = facts (im_Data a) \<union> facts (im_Data b)"
    using Inr by (rule merge_lines_facts)
  ultimately show ?thesis using Inr by (auto simp: Merge_eq image_String_returns_iff)
qed

theorem Merge_correct_witness:
  "let a = \<lparr>im_File = ''f'', im_Data = [NewLineAt 1 ''x'', NewLineAt 3 ''y'']\<rparr>;
       b = \<lparr>im_File = ''f'', im_Data = [NewLineAt 2 ''u'', NewLineAt 3 ''y'']\<rparr>
   in \<exists>m s. Merge a b = Inr m \<and> image_String m = Some s \<and>
        facts (im_Data m) = {(1, ''x''), (2, ''u''), (3, ''y'')}"
proof -
  let ?a = "\<lparr>im_File = ''f'', im_Data = [NewLineAt 1 ''x'', NewLineAt 3 ''y'']\<rparr>"
  let ?b = "\<lparr>im_File = ''f'', im_Data = [NewLineAt 2 ''u'', NewLineAt 3 ''y'']\<rparr>"
  have asc: "ascending 0 (im_Data ?a)" "ascending 0 (im_Data ?b)"
    by (simp_all add: NewLineAt_def)
  have agree: "images_agree (im_Data ?a) (im_Data ?b)"
    by (simp add: images_agree_def NewLineAt_def)
  note correct = Merge_correct [OF asc]
  obtain m where m: "Merge ?a ?b = Inr m"
    using conjunct1 [OF correct] agree by blast
  with conjunct2 [OF correct] obtain s where "image_String m = Some s"
    and "facts (im_Data m) = facts (im_Data ?a) \<union> facts (im_Data ?b)" by blast
  with m show ?thesis by (auto simp: NewLineAt_def)
qed

text \<open>
  When \<^verbatim>\<open>Merge\<close> fails, its error names a line number at which the two images hold different
  contents, with the message about a rebase, whatever the order of the lines.
\<close>

theorem Merge_error_names_conflict:
  "Merge a b = Inl e \<Longrightarrow>
     msg e = rebase_msg \<and>
     (\<exists>l1 \<in> set (im_Data a). \<exists>l2 \<in> set (im_Data b). il_LineNumber l1 = mismatchingLine e \<and>
        il_LineNumber l2 = mismatchingLine e \<and> il_Content l1 \<noteq> il_Content l2)"
proof -
  assume "Merge a b = Inl e"
  then have err: "merge_lines (im_Data a) (im_Data b) = Inl e"
    by (auto simp: Merge_eq map_sum_Inl_iff)
  show ?thesis using merge_lines_error [OF err] merge_lines_msg [OF err] by blast
qed

theorem Merge_error_names_conflict_witness:
  "Merge \<lparr>im_File = ''f'', im_Data = [NewLineAt 1 ''a'', NewLineAt 2 ''x'']\<rparr>
         \<lparr>im_File = ''f'', im_Data = [NewLineAt 2 ''y'']\<rparr> = Inl (MergeError rebase_msg 2) \<and>
   (\<exists>l1 \<in> set [NewLineAt 1 ''a'', NewLineAt 2 ''x'']. il_LineNumber l1 = 2)"
proof -
  let ?a = "\<lparr>im_File = ''f'', im_Data = [NewLineAt 1 ''a'', NewLineAt 2 ''x'']\<rparr>"
  let ?b = "\<lparr>im_File = ''f'', im_Data = [NewLineAt 2 ''y'']\<rparr>"
  have err: "Merge ?a ?b = Inl (MergeError rebase_msg 2)"
    by (simp add: Merge_def NewLineAt_def)
  from Merge_error_names_conflict [OF err] show ?thesis using err by auto
qed

section \<open>Equal patches\<close>

lemma file_equal_fragments:
  assumes "file_equal x y"
  shows "map (\<lambda>t. (tf_OldPosition t, tf_NewPosition t, tf_Lines t)) (gf_TextFragments x) =
         map (\<lambda>t. (tf_OldPosition t, tf_NewPosition t, tf_Lines t)) (gf_TextFragments y)"
  using assms by (auto simp: file_equal_def list_all2_conv_all_nth fragment_equal_iff
      intro!: nth_equalityI)

lemma pre_post_from_fragments:
  "im_Data (CreatePreImage x) = concat (map (\<lambda>(p, _, ls). pre_lines p ls)
     (map (\<lambda>t. (tf_OldPosition t, tf_NewPosition t, tf_Lines t)) (gf_TextFragments x)))"
  "im_Data (CreatePostImage x) = concat (map (\<lambda>(_, p, ls). post_lines p ls)
     (map (\<lambda>t. (tf_OldPosition t, tf_NewPosition t, tf_Lines t)) (gf_TextFragments x)))"
  by (simp_all add: CreatePreImage_def CreatePostImage_def comp_def)

lemma file_equal_images:
  assumes "file_equal x y"
  shows "CreatePreImage x = CreatePreImage y" and "CreatePostImage x = CreatePostImage y"
proof -
  have name: "bestName x = bestName y"
    using assms by (auto simp: file_equal_def bestName_def)
  have data: "im_Data (CreatePreImage x) = im_Data (CreatePreImage y)"
    "im_Data (CreatePostImage x) = im_Data (CreatePostImage y)"
    using file_equal_fragments [OF assms] by (simp_all only: pre_post_from_fragments)
  with name show "CreatePreImage x = CreatePreImage y" "CreatePostImage x = CreatePostImage y"
    by (simp_all add: CreatePreImage_def CreatePostImage_def)
qed

lemma Equal_alt: "Equal a b \<longleftrightarrow> list_all2 file_ptr_equal a b"
  by (auto simp: Equal_def list_all2_lengthD)

text \<open>
  \<^verbatim>\<open>Equal\<close> on parsed patches is an equivalence relation, and equal patches rebuild the same
  pre-images and post-images, file by file.
\<close>

theorem Equal_equivalence_and_images:
  "equivp Equal \<and>
   (\<forall>a b. Equal (map Some a) (map Some b) \<longrightarrow>
      map CreatePreImage a = map CreatePreImage b \<and> map CreatePostImage a = map CreatePostImage b)"
proof -
  have "equivp Equal"
  proof (rule equivpI)
    show "reflp Equal"
      by (auto simp: Equal_alt reflp_def list_all2_refl file_ptr_equal_equivalence(1))
    show "symp Equal"
      by (auto simp: Equal_alt symp_def list_all2_conv_all_nth file_ptr_equal_equivalence(2))
    show "transp Equal"
      by (auto simp: Equal_alt transp_def list_all2_conv_all_nth)
         (metis file_ptr_equal_equivalence(3))
  qed
  moreover have "map CreatePreImage a = map CreatePreImage b \<and> map CreatePostImage a = map CreatePostImage b"
    if "Equal (map Some a) (map Some b)" for a b
    using that by (auto simp: Equal_alt list_all2_conv_all_nth file_equal_images intro!: nth_equalityI)
  ultimately show ?thesis by blast
qed

theorem Equal_equivalence_and_images_witness:
  "let f = \<lparr>gf_OldName = ''a'', gf_NewName = ''a'', gf_IsNew = False, gf_IsDelete = False,
            gf_IsCopy = False, gf_IsRename = False, gf_OldMode = 0, gf_NewMode = 0,
            gf_TextFragments = [], gf_IsBinary = False, gf_BinaryFragment = None,
            gf_ReverseBinaryFragment = None\<rparr>
   in Equal (map Some [f]) (map Some [f\<lparr>gf_IsBinary := True\<rparr>]) \<and>
      map CreatePreImage [f] = map CreatePreImage [f\<lparr>gf_IsBinary := True\<rparr>]"
proof -
  let ?f = "\<lparr>gf_OldName = ''a'', gf_NewName = ''a'', gf_IsNew = False, gf_IsDelete = False,
            gf_IsCopy = False, gf_IsRename = False, gf_OldMode = 0, gf_NewMode = 0,
            gf_TextFragments = [], gf_IsBinary = False, gf_BinaryFragment = None,
            gf_ReverseBinaryFragment = None\<rparr>"
  have eq: "Equal (map Some [?f]) (map Some [?f\<lparr>gf_IsBinary := True\<rparr>])"
    by (simp add: Equal_def file_equal_def)
  have "map CreatePreImage [?f] = map CreatePreImage [?f\<lparr>gf_IsBinary := True\<rparr>]"
    using conjunct2 [OF Equal_equivalence_and_images] eq by blast
  with eq show ?thesis by (simp add: Let_def)
qed

end
