(* ===== verification/Split_Diff.thy ===== *)
theory Split_Diff
  imports Patch_Image
begin

text \<open>
  The side-by-side view of a diff: \<^verbatim>\<open>types/split.go\<close> and \<^verbatim>\<open>types/diff.go\<close>, with the interface
  \<^verbatim>\<open>DiffFileRenderer\<close> of \<^verbatim>\<open>types/diff_renderer.go\<close> as a locale. \<^verbatim>\<open>SeparateLines\<close> walks a fragment
  with an index; here it walks the remaining lines \<^verbatim>\<open>lines[i:]\<close>. The header of a fragment is
  printed by the package \<^verbatim>\<open>gitdiff\<close> and is a parameter.
\<close>

section \<open>Split lines\<close>

record SplitLine =
  sl_LineNumber :: int
  sl_Content :: string
  sl_Op :: LineOp
  sl_IsEmpty :: bool

record SplitFragment =
  sf_Header :: string
  sf_LeftLines :: "SplitLine list"
  sf_RightLines :: "SplitLine list"

record SplitDiff =
  sd_Name :: string
  sd_TextFragments :: "SplitFragment list"

definition SplitDiff_Id :: "SplitDiff \<Rightarrow> string" where
  "SplitDiff_Id d = sd_Name d"

definition split_line :: "LineOp \<Rightarrow> int \<Rightarrow> string \<Rightarrow> SplitLine" where
  "split_line op n content =
     \<lparr>sl_LineNumber = n, sl_Content = content, sl_Op = op, sl_IsEmpty = False\<rparr>"

definition empty_line :: SplitLine where
  "empty_line = \<lparr>sl_LineNumber = 0, sl_Content = [], sl_Op = OpContext, sl_IsEmpty = True\<rparr>"

text \<open>
  The inner loops: append the lines of the run of \<^term>\<open>op\<close> at the front, counting the line
  number up.
\<close>

fun split_run :: "LineOp \<Rightarrow> int \<Rightarrow> DiffLine list \<Rightarrow> SplitLine list" where
  "split_run op n [] = []"
| "split_run op n (l # ls) =
     (if dl_Op l = op then split_line op n (dl_Line l) # split_run op (n + 1) ls else [])"

lemma split_run_length: "length (split_run op n ls) \<le> length ls"
  by (induction ls arbitrary: n) auto

function separate_lines ::
  "DiffLine list \<Rightarrow> int \<Rightarrow> int \<Rightarrow> SplitLine list \<Rightarrow> SplitLine list \<Rightarrow>
   SplitLine list \<times> SplitLine list" where
  "separate_lines [] oldLineNum newLineNum leftLines rightLines = (leftLines, rightLines)"
| "separate_lines (line # rest) oldLineNum newLineNum leftLines rightLines =
     (case dl_Op line of
        OpContext \<Rightarrow>
          separate_lines rest (oldLineNum + 1) (newLineNum + 1)
            (leftLines @ [split_line OpContext oldLineNum (dl_Line line)])
            (rightLines @ [split_line OpContext newLineNum (dl_Line line)])
      | OpDelete \<Rightarrow>
          let dels = split_run OpDelete oldLineNum (line # rest);
              deletionCount = length dels;
              lines' = drop deletionCount (line # rest);
              adds = split_run OpAdd newLineNum lines';
              additionCount = length adds
          in separate_lines (drop additionCount lines')
               (oldLineNum + int deletionCount) (newLineNum + int additionCount)
               (leftLines @ dels @ replicate (additionCount - deletionCount) empty_line)
               (rightLines @ adds @ replicate (deletionCount - additionCount) empty_line)
      | OpAdd \<Rightarrow>
          separate_lines rest oldLineNum (newLineNum + 1)
            (leftLines @ [empty_line])
            (rightLines @ [split_line OpAdd newLineNum (dl_Line line)]))"
  by pat_completeness auto
termination
  by (relation "measure (\<lambda>(ls, _). length ls)") auto

declare separate_lines.simps(2) [simp del]

definition SeparateLines :: "TextFragment \<Rightarrow> SplitLine list \<times> SplitLine list" where
  "SeparateLines fragment =
     separate_lines (tf_Lines fragment) (tf_OldPosition fragment) (tf_NewPosition fragment) [] []"

section \<open>The nicer diff representation\<close>

record DiffFileStat =
  dfs_Insertions :: int
  dfs_Deletions :: int

record DiffStat =
  ds_Insertions :: int
  ds_Deletions :: int
  ds_FilesChanged :: int

record DiffFileName =
  dn_Old :: string
  dn_New :: string

record Diff =
  df_NameOld :: string
  df_NameNew :: string
  df_TextFragments :: "TextFragment list"
  df_IsBinary :: bool
  df_IsNew :: bool
  df_IsDelete :: bool
  df_IsCopy :: bool
  df_IsRename :: bool

definition fragment_stats :: "TextFragment list \<Rightarrow> DiffFileStat" where
  "fragment_stats ts =
     \<lparr>dfs_Insertions = sum_list (map tf_LinesAdded ts),
      dfs_Deletions = sum_list (map tf_LinesDeleted ts)\<rparr>"

definition Diff_Stats :: "Diff \<Rightarrow> DiffFileStat" where
  "Diff_Stats d = fragment_stats (df_TextFragments d)"

definition Diff_Id :: "Diff \<Rightarrow> string" where
  "Diff_Id d = (if df_IsDelete d then df_NameOld d else df_NameNew d)"

definition Diff_Names :: "Diff \<Rightarrow> DiffFileName" where
  "Diff_Names d =
     (if df_IsDelete d then \<lparr>dn_Old = df_NameOld d, dn_New = []\<rparr>
      else if df_IsCopy d \<or> df_IsRename d then \<lparr>dn_Old = df_NameOld d, dn_New = df_NameNew d\<rparr>
      else \<lparr>dn_Old = [], dn_New = df_NameNew d\<rparr>)"

definition Diff_CanRender :: "Diff \<Rightarrow> string" where
  "Diff_CanRender d =
     (if df_IsBinary d then ''This is a binary file and will not be displayed.'' else [])"

definition split_fragment :: "(TextFragment \<Rightarrow> string) \<Rightarrow> TextFragment \<Rightarrow> SplitFragment" where
  "split_fragment header fragment =
     (let (leftLines, rightLines) = SeparateLines fragment
      in \<lparr>sf_Header = header fragment, sf_LeftLines = leftLines, sf_RightLines = rightLines\<rparr>)"

definition Diff_Split :: "(TextFragment \<Rightarrow> string) \<Rightarrow> Diff \<Rightarrow> SplitDiff" where
  "Diff_Split header d =
     \<lparr>sd_Name = Diff_Id d, sd_TextFragments = map (split_fragment header) (df_TextFragments d)\<rparr>"

record NiceDiff =
  nd_Stat :: DiffStat
  nd_Diff :: "Diff list"

definition NiceDiff_ChangedFiles :: "NiceDiff \<Rightarrow> Diff list" where
  "NiceDiff_ChangedFiles d = nd_Diff d"

definition NiceDiff_Stats :: "NiceDiff \<Rightarrow> DiffStat" where
  "NiceDiff_Stats d = nd_Stat d"

text \<open>The names \<^verbatim>\<open>NiceDiff.FileTree\<close> hands to the file tree.\<close>

definition NiceDiff_tree_names :: "NiceDiff \<Rightarrow> string list" where
  "NiceDiff_tree_names d =
     map (\<lambda>s. let n = Diff_Names s in if dn_New n = [] then dn_Old n else dn_New n) (nd_Diff d)"

section \<open>Both sides of a fragment\<close>

text \<open>What a side shows of a file: the numbered lines that are not padding.\<close>

definition shown :: "SplitLine list \<Rightarrow> ImageLine list" where
  "shown ls = map (\<lambda>l. NewLineAt (sl_LineNumber l) (sl_Content l)) (filter (\<lambda>l. \<not> sl_IsEmpty l) ls)"

lemma shown_append [simp]: "shown (xs @ ys) = shown xs @ shown ys"
  by (simp add: shown_def)

lemma shown_simps [simp]:
  "shown [] = []"
  "shown (split_line op n c # ls) = NewLineAt n c # shown ls"
  "shown (empty_line # ls) = shown ls"
  "shown (replicate k empty_line) = []"
  by (auto simp: shown_def split_line_def empty_line_def)

lemma split_run_take: "split_run op n ls = split_run op n (take (length (split_run op n ls)) ls)"
  by (induction ls arbitrary: n) auto

lemma pre_lines_append:
  "pre_lines p (xs @ ys) = pre_lines p xs @ pre_lines (p + old_count xs) ys"
  by (induction xs arbitrary: p) (auto simp: algebra_simps split: LineOp.splits)

definition new_count :: "DiffLine list \<Rightarrow> int" where
  "new_count ls = int (length (filter (\<lambda>l. dl_Op l \<noteq> OpDelete) ls))"

lemma new_count_simps [simp]:
  "new_count [] = 0"
  "new_count (l # ls) = (if dl_Op l = OpDelete then new_count ls else 1 + new_count ls)"
  by (auto simp: new_count_def)

lemma post_lines_append:
  "post_lines p (xs @ ys) = post_lines p xs @ post_lines (p + new_count xs) ys"
  by (induction xs arbitrary: p) (auto simp: algebra_simps split: LineOp.splits)

text \<open>A run of deletions is a stretch of the old file and none of the new one; additions the reverse.\<close>

lemma split_run_delete:
  assumes "k = length (split_run OpDelete n ls)"
  shows "shown (split_run OpDelete n ls) = pre_lines n (take k ls) \<and> post_lines p (take k ls) = [] \<and>
     old_count (take k ls) = int k \<and> new_count (take k ls) = 0"
  using assms by (induction ls arbitrary: n k) auto

lemma split_run_add:
  assumes "k = length (split_run OpAdd n ls)"
  shows "shown (split_run OpAdd n ls) = post_lines n (take k ls) \<and> pre_lines p (take k ls) = [] \<and>
     new_count (take k ls) = int k \<and> old_count (take k ls) = 0"
  using assms by (induction ls arbitrary: n k) auto

lemma shown_deletion_group:
  fixes ls :: "DiffLine list" and p q :: int
  defines "dels \<equiv> split_run OpDelete p ls"
  defines "ls' \<equiv> drop (length dels) ls"
  defines "adds \<equiv> split_run OpAdd q ls'"
  defines "rest \<equiv> drop (length adds) ls'"
  shows "pre_lines p ls = shown dels @ pre_lines (p + int (length dels)) rest"
    and "post_lines q ls = shown adds @ post_lines (q + int (length adds)) rest"
proof -
  have split: "ls = take (length dels) ls @ take (length adds) ls' @ rest"
    unfolding ls'_def rest_def by (metis append_take_drop_id)
  note d = split_run_delete [of "length dels" p ls q, folded dels_def, simplified]
  note a = split_run_add [of "length adds" q ls' "p + int (length dels)", folded adds_def, simplified]
  show "pre_lines p ls = shown dels @ pre_lines (p + int (length dels)) rest"
    by (subst split) (simp add: pre_lines_append d a)
  show "post_lines q ls = shown adds @ post_lines (q + int (length adds)) rest"
    by (subst split) (simp add: post_lines_append d a)
qed

lemma separate_lines_spec:
  assumes "length L = length R" and "separate_lines ls p q L R = (L', R')"
  shows "length L' = length R' \<and> shown L' = shown L @ pre_lines p ls \<and>
     shown R' = shown R @ post_lines q ls"
  using assms
proof (induction ls p q L R rule: separate_lines.induct)
  case (2 line rest p q L R)
  show ?case
  proof (cases "dl_Op line")
    case OpContext
    with "2.IH"(1) "2.prems" show ?thesis by (simp add: separate_lines.simps(2))
  next
    case OpAdd
    with "2.IH"(3) "2.prems" show ?thesis by (simp add: separate_lines.simps(2))
  next
    case OpDelete
    let ?dels = "split_run OpDelete p (line # rest)"
    let ?ls' = "drop (length ?dels) (line # rest)"
    let ?adds = "split_run OpAdd q ?ls'"
    have step: "separate_lines (drop (length ?adds) ?ls') (p + int (length ?dels)) (q + int (length ?adds))
        (L @ ?dels @ replicate (length ?adds - length ?dels) empty_line)
        (R @ ?adds @ replicate (length ?dels - length ?adds) empty_line) = (L', R')"
      using "2.prems"(2) OpDelete by (simp only: separate_lines.simps(2) LineOp.case Let_def)
    have "length L' = length R' \<and>
        shown L' = shown (L @ ?dels @ replicate (length ?adds - length ?dels) empty_line) @
          pre_lines (p + int (length ?dels)) (drop (length ?adds) ?ls') \<and>
        shown R' = shown (R @ ?adds @ replicate (length ?dels - length ?adds) empty_line) @
          post_lines (q + int (length ?adds)) (drop (length ?adds) ?ls')"
      using "2.prems"(1) by (intro "2.IH"(2) [OF OpDelete refl refl refl refl refl _ step]) simp
    then show ?thesis
      using shown_deletion_group [where ls = "line # rest" and p = p and q = q]
      by (simp only: shown_append shown_simps append_Nil2 append_assoc)
  qed
qed auto

text \<open>A row of the split view: padding on one side only.\<close>

definition proper_row :: "SplitLine \<Rightarrow> SplitLine \<Rightarrow> bool" where
  "proper_row l r \<longleftrightarrow> \<not> (sl_IsEmpty l \<and> sl_IsEmpty r)"

lemma split_run_nonempty: "l \<in> set (split_run op n ls) \<Longrightarrow> \<not> sl_IsEmpty l"
  by (induction ls arbitrary: n) (auto simp: split_line_def split: if_splits)

lemma padded_rows:
  assumes "\<forall>x \<in> set xs. \<not> sl_IsEmpty x" and "\<forall>y \<in> set ys. \<not> sl_IsEmpty y"
  shows "list_all2 proper_row (xs @ replicate (length ys - length xs) empty_line)
     (ys @ replicate (length xs - length ys) empty_line)"
  using assms by (auto simp: list_all2_conv_all_nth nth_append proper_row_def)

lemma separate_lines_rows:
  "list_all2 proper_row L R \<Longrightarrow> separate_lines ls p q L R = (L', R') \<Longrightarrow> list_all2 proper_row L' R'"
proof (induction ls p q L R rule: separate_lines.induct)
  case (2 line rest p q L R)
  show ?case
  proof (cases "dl_Op line")
    case OpContext
    with "2.IH"(1) "2.prems" show ?thesis
      by (simp add: separate_lines.simps(2) list_all2_appendI proper_row_def split_line_def)
  next
    case OpAdd
    with "2.IH"(3) "2.prems" show ?thesis
      by (simp add: separate_lines.simps(2) list_all2_appendI proper_row_def split_line_def)
  next
    case OpDelete
    let ?dels = "split_run OpDelete p (line # rest)"
    let ?ls' = "drop (length ?dels) (line # rest)"
    let ?adds = "split_run OpAdd q ?ls'"
    have step: "separate_lines (drop (length ?adds) ?ls') (p + int (length ?dels)) (q + int (length ?adds))
        (L @ ?dels @ replicate (length ?adds - length ?dels) empty_line)
        (R @ ?adds @ replicate (length ?dels - length ?adds) empty_line) = (L', R')"
      using "2.prems"(2) OpDelete by (simp only: separate_lines.simps(2) LineOp.case Let_def)
    have "list_all2 proper_row (?dels @ replicate (length ?adds - length ?dels) empty_line)
        (?adds @ replicate (length ?dels - length ?adds) empty_line)"
      by (rule padded_rows) (meson split_run_nonempty)+
    then have "list_all2 proper_row (L @ ?dels @ replicate (length ?adds - length ?dels) empty_line)
        (R @ ?adds @ replicate (length ?dels - length ?adds) empty_line)"
      by (rule list_all2_appendI [OF "2.prems"(1)])
    then show ?thesis
      by (rule "2.IH"(2) [OF OpDelete refl refl refl refl refl _ step])
  qed
qed auto

lemma SeparateLines_spec:
  assumes "SeparateLines fragment = (L, R)"
  shows "length L = length R" and "list_all2 proper_row L R"
    and "shown L = pre_lines (tf_OldPosition fragment) (tf_Lines fragment)"
    and "shown R = post_lines (tf_NewPosition fragment) (tf_Lines fragment)"
  using separate_lines_spec [OF refl assms [unfolded SeparateLines_def]]
    separate_lines_rows [OF _ assms [unfolded SeparateLines_def]]
  by simp_all

text \<open>
  The two columns of the split view of a fragment have the same number of rows and no row is
  blank on both sides; without the padding the left column is exactly the fragment's stretch of the
  pre-image (every old line, in order, under its line number) and the right column its stretch of
  the post-image.
\<close>

theorem SeparateLines_correct:
  "(case SeparateLines fragment of (leftLines, rightLines) \<Rightarrow>
      length leftLines = length rightLines \<and> list_all2 proper_row leftLines rightLines \<and>
      shown leftLines = pre_lines (tf_OldPosition fragment) (tf_Lines fragment) \<and>
      shown rightLines = post_lines (tf_NewPosition fragment) (tf_Lines fragment))"
  by (cases "SeparateLines fragment") (simp add: SeparateLines_spec)

lemma shown_sides:
  "shown (fst (SeparateLines t)) = pre_lines (tf_OldPosition t) (tf_Lines t)"
  "shown (snd (SeparateLines t)) = post_lines (tf_NewPosition t) (tf_Lines t)"
  by (cases "SeparateLines t"; simp add: SeparateLines_spec)+

section \<open>The interface DiffFileRenderer\<close>

text \<open>
  A file that can be rendered: its identifier, its split view, and the reason why it cannot be
  displayed, which is empty when it can. What a template relies on: a well-formed file that can be
  displayed has a split view (asking for it does not panic), the split view carries the identifier
  of the file, and every fragment of it can be laid out in rows.
\<close>

locale diff_file_renderer =
  fixes wf :: "'f \<Rightarrow> bool"
    and ident :: "'f \<Rightarrow> string"
    and canRender :: "'f \<Rightarrow> string"
    and split :: "'f \<Rightarrow> SplitDiff option"
    and fragments :: "'f \<Rightarrow> TextFragment list"
  assumes split_defined: "wf f \<Longrightarrow> canRender f = [] \<Longrightarrow> split f \<noteq> None"
    and split_name: "split f = Some d \<Longrightarrow> sd_Name d = ident f"
    and split_fragments: "split f = Some d \<Longrightarrow>
      map (\<lambda>s. (sf_LeftLines s, sf_RightLines s)) (sd_TextFragments d) = map SeparateLines (fragments f)"
begin

lemma split_rows:
  assumes "split f = Some d" and "s \<in> set (sd_TextFragments d)"
  shows "length (sf_LeftLines s) = length (sf_RightLines s)"
    and "list_all2 proper_row (sf_LeftLines s) (sf_RightLines s)"
proof -
  have "(sf_LeftLines s, sf_RightLines s) \<in> set (map SeparateLines (fragments f))"
    using assms(2) unfolding split_fragments [OF assms(1), symmetric] by auto
  then obtain t where "SeparateLines t = (sf_LeftLines s, sf_RightLines s)" by auto
  then show "length (sf_LeftLines s) = length (sf_RightLines s)"
    "list_all2 proper_row (sf_LeftLines s) (sf_RightLines s)"
    by (rule SeparateLines_spec)+
qed

text \<open>The columns of a split view, put together, are the pre-image and the post-image of the file.\<close>

lemma split_images:
  assumes "split f = Some d"
  shows "concat (map (\<lambda>s. shown (sf_LeftLines s)) (sd_TextFragments d)) =
      concat (map (\<lambda>t. pre_lines (tf_OldPosition t) (tf_Lines t)) (fragments f))"
    and "concat (map (\<lambda>s. shown (sf_RightLines s)) (sd_TextFragments d)) =
      concat (map (\<lambda>t. post_lines (tf_NewPosition t) (tf_Lines t)) (fragments f))"
proof -
  let ?sides = "map (\<lambda>s. (sf_LeftLines s, sf_RightLines s)) (sd_TextFragments d)"
  have "map (\<lambda>s. shown (sf_LeftLines s)) (sd_TextFragments d) = map (shown \<circ> fst) ?sides"
    "map (\<lambda>s. shown (sf_RightLines s)) (sd_TextFragments d) = map (shown \<circ> snd) ?sides"
    by simp_all
  then show "concat (map (\<lambda>s. shown (sf_LeftLines s)) (sd_TextFragments d)) =
      concat (map (\<lambda>t. pre_lines (tf_OldPosition t) (tf_Lines t)) (fragments f))"
    "concat (map (\<lambda>s. shown (sf_RightLines s)) (sd_TextFragments d)) =
      concat (map (\<lambda>t. post_lines (tf_NewPosition t) (tf_Lines t)) (fragments f))"
    unfolding split_fragments [OF assms] by (simp_all add: shown_sides comp_def)
qed

lemma displayed:
  assumes "wf f" and "canRender f = []"
  obtains d where "split f = Some d" and "sd_Name d = ident f"
    and "\<forall>s \<in> set (sd_TextFragments d). length (sf_LeftLines s) = length (sf_RightLines s)"
proof -
  obtain d where d: "split f = Some d" using split_defined [OF assms] by blast
  show ?thesis by (rule that [OF d split_name [OF d]]) (blast intro: split_rows [OF d])
qed

end

lemma split_fragment_sides:
  "(sf_LeftLines (split_fragment header t), sf_RightLines (split_fragment header t)) = SeparateLines t"
  by (cases "SeparateLines t") (simp add: split_fragment_def)

interpretation nice: diff_file_renderer
  "\<lambda>d. True" Diff_Id Diff_CanRender "\<lambda>d. Some (Diff_Split header d)" df_TextFragments
  by unfold_locales (auto simp: Diff_Split_def split_fragment_sides comp_def)

end
