(* ===== verification/Patch_Combine.thy ===== *)
theory Patch_Combine
  imports Split_Diff
begin

text \<open>
  Combining patches: \<^verbatim>\<open>patchutil/combinediff.go\<close>, and from \<^verbatim>\<open>patchutil/patchutil.go\<close> the splitting and
  sniffing of format-patches, \<^verbatim>\<open>Unified\<close>, \<^verbatim>\<open>AsDiff\<close> and \<^verbatim>\<open>AsNiceDiff\<close>.

  The package \<^verbatim>\<open>gitdiff\<close> (\<^verbatim>\<open>Parse\<close>, \<^verbatim>\<open>ParsePatchHeader\<close>, \<^verbatim>\<open>Apply\<close>) and the operating system (temporary
  files, the command \<^verbatim>\<open>diff\<close>) are parameters, collected in the record \<open>PatchEnv\<close>; \<^verbatim>\<open>gitdiff.Parse\<close> may
  return files together with an error, and \<^verbatim>\<open>combineFiles\<close> looks at the files only. Every routine
  that renders an image may fail to return, so it gives an \<open>option\<close>.
\<close>

section \<open>The environment\<close>

text \<open>How a run of an external command ended: an exit code with the output, or no run at all.\<close>

datatype 'e command_run = Exited int string | Not_run 'e

record 'e PatchEnv =
  pe_Apply :: "string \<Rightarrow> GitFile \<Rightarrow> ('e, string) result"
  pe_Parse :: "string \<Rightarrow> GitFile list \<times> string \<times> 'e option"
  pe_ParsePatchHeader :: "string \<Rightarrow> ('e, (string \<times> string list) list) result"
  pe_CreateTemp :: "string \<Rightarrow> ('e, unit) result"
  pe_WriteString :: "string \<Rightarrow> string \<Rightarrow> ('e, unit) result"
  pe_diff :: "string \<Rightarrow> string \<Rightarrow> string \<Rightarrow> string \<Rightarrow> 'e command_run"

datatype 'e patch_error =
    Merge_failed MergeError
  | Apply_failed 'e
  | TempFile_failed string 'e
  | Diff_failed "'e option"
  | Parse_failed 'e
  | Header_failed 'e

definition Unified ::
  "'e PatchEnv \<Rightarrow> string \<Rightarrow> string \<Rightarrow> string \<Rightarrow> string \<Rightarrow> ('e patch_error, string) result" where
  "Unified env oldText oldFile newText newFile =
     (case pe_CreateTemp env ''old_*'' of
        Inl e \<Rightarrow> Inl (TempFile_failed ''failed to create temp file for oldText'' e)
      | Inr _ \<Rightarrow>
     (case pe_WriteString env ''old_*'' oldText of
        Inl e \<Rightarrow> Inl (TempFile_failed ''failed to write to old temp file'' e)
      | Inr _ \<Rightarrow>
     (case pe_CreateTemp env ''new_*'' of
        Inl e \<Rightarrow> Inl (TempFile_failed ''failed to create temp file for newText'' e)
      | Inr _ \<Rightarrow>
     (case pe_WriteString env ''new_*'' newText of
        Inl e \<Rightarrow> Inl (TempFile_failed ''failed to write to new temp file'' e)
      | Inr _ \<Rightarrow>
     (case pe_diff env oldFile newFile oldText newText of
        Exited code output \<Rightarrow>
          if code = 1 then Inr output
          else if code = 0 then Inr output
          else Inl (Diff_failed None)
      | Not_run e \<Rightarrow> Inl (Diff_failed (Some e)))))))"

section \<open>Merging texts line by line\<close>

datatype merge_lines_error = Context_mismatch nat string string

fun mergeLines_loop :: "nat \<Rightarrow> string list \<Rightarrow> string list \<Rightarrow> string list \<Rightarrow>
    (merge_lines_error, string list) result" where
  "mergeLines_loop i [] [] acc = Inr acc"
| "mergeLines_loop i [] (newLine # ns) acc = mergeLines_loop i [] ns (acc @ [newLine])"
| "mergeLines_loop i (oldLine # os) [] acc = mergeLines_loop (i + 1) os [] (acc @ [oldLine])"
| "mergeLines_loop i (oldLine # os) (newLine # ns) acc =
     (if oldLine \<noteq> newLine \<and> oldLine \<noteq> [] \<and> newLine \<noteq> [] then
        Inl (Context_mismatch (i + 1) oldLine newLine)
      else if oldLine = newLine then mergeLines_loop (i + 1) os ns (acc @ [oldLine])
      else if oldLine = [] then mergeLines_loop (i + 1) os ns (acc @ [newLine])
      else mergeLines_loop (i + 1) os ns (acc @ [oldLine]))"

definition mergeLines :: "string \<Rightarrow> string \<Rightarrow> (merge_lines_error, string) result" where
  "mergeLines old new =
     map_sum id (joinWith [newline])
       (mergeLines_loop 0 (splitOn newline old) (splitOn newline new) [])"

section \<open>Combining two patches\<close>

definition combineFiles ::
  "'e PatchEnv \<Rightarrow> GitFile \<Rightarrow> GitFile \<Rightarrow> ('e patch_error, GitFile option) result option" where
  "combineFiles env file1 file2 =
     (let fileName = bestName file1;
          o1 = CreatePreImage file1;
          r1 = CreatePostImage file1;
          o2 = CreatePreImage file2
      in case Merge r1 o2 of
           Inl e \<Rightarrow> Some (Inl (Merge_failed e))
         | Inr merged \<Rightarrow>
        (case image_Apply (pe_Apply env) merged file2 of
           None \<Rightarrow> None
         | Some (Inl e) \<Rightarrow> Some (Inl (Apply_failed e))
         | Some (Inr r2Prime) \<Rightarrow>
        (case image_String o1 of
           None \<Rightarrow> None
         | Some s1 \<Rightarrow>
        (case Unified env s1 fileName r2Prime fileName of
           Inl e \<Rightarrow> Some (Inl e)
         | Inr diff \<Rightarrow>
           (case pe_Parse env diff of
              (parsed, _, _) \<Rightarrow>
                if length parsed \<noteq> 1 then Some (Inr None) else Some (Inr (Some (parsed ! 0))))))))"

text \<open>\<^verbatim>\<open>fileToIdx2[name]\<close>: the last file of the patch with that name.\<close>

definition last_by_name :: "GitFile list \<Rightarrow> string \<Rightarrow> GitFile option" where
  "last_by_name patch name = find (\<lambda>f. bestName f = name) (rev patch)"

text \<open>The first loop of \<^verbatim>\<open>combineTwo\<close>; an error of \<^verbatim>\<open>combineFiles\<close> is dropped, and with it the file.\<close>

fun combine_first :: "'e PatchEnv \<Rightarrow> GitFile list \<Rightarrow> GitFile list \<Rightarrow> GitFile list option" where
  "combine_first env patch2 [] = Some []"
| "combine_first env patch2 (f1 # fs) =
     (case last_by_name patch2 (bestName f1) of
        Some f2 \<Rightarrow>
          (case combineFiles env f1 f2 of
             None \<Rightarrow> None
           | Some (Inr (Some combined)) \<Rightarrow> map_option ((#) combined) (combine_first env patch2 fs)
           | Some _ \<Rightarrow> combine_first env patch2 fs)
      | None \<Rightarrow> map_option ((#) f1) (combine_first env patch2 fs))"

definition unvisited :: "GitFile list \<Rightarrow> GitFile list \<Rightarrow> GitFile list" where
  "unvisited patch1 patch2 = filter (\<lambda>f2. bestName f2 \<notin> bestName ` set patch1) patch2"

definition combineTwo :: "'e PatchEnv \<Rightarrow> GitFile list \<Rightarrow> GitFile list \<Rightarrow> GitFile list option" where
  "combineTwo env patch1 patch2 =
     map_option (\<lambda>result. result @ unvisited patch1 patch2) (combine_first env patch2 patch1)"

fun CombineDiff :: "'e PatchEnv \<Rightarrow> GitFile list list \<Rightarrow> GitFile list option" where
  "CombineDiff env [] = Some []"
| "CombineDiff env [p] = Some p"
| "CombineDiff env (p1 # p2 # ps) =
     (case combineTwo env p1 p2 of
        None \<Rightarrow> None
      | Some combined \<Rightarrow> CombineDiff env (combined # ps))"

section \<open>Format patches\<close>

definition is_hex :: "char \<Rightarrow> bool" where
  "is_hex c \<longleftrightarrow> (CHR ''0'' \<le> c \<and> c \<le> CHR ''9'') \<or> (CHR ''a'' \<le> c \<and> c \<le> CHR ''f'')"

text \<open>
  The expression \<^verbatim>\<open>(?m)^From [0-9a-f]{40} .*$\<close> matches once in every line that starts with
  \<^verbatim>\<open>From\<close>, a blank, forty hexadecimal digits and a blank.
\<close>

definition is_from_header :: "string \<Rightarrow> bool" where
  "is_from_header s \<longleftrightarrow>
     hasPrefix s ''From '' \<and> length s \<ge> 46 \<and>
     list_all is_hex (take 40 (drop 5 s)) \<and> s ! 45 = CHR '' ''"

text \<open>The start of every match, in order: \<^verbatim>\<open>indexes[i][0]\<close>.\<close>

fun header_starts :: "nat \<Rightarrow> bool \<Rightarrow> string \<Rightarrow> nat list" where
  "header_starts i at_line_start [] = []"
| "header_starts i at_line_start (c # s) =
     (if at_line_start \<and> is_from_header (c # s) then [i] else []) @
     header_starts (i + 1) (c = newline) s"

fun patch_slices :: "string \<Rightarrow> nat list \<Rightarrow> string list" where
  "patch_slices txt [] = []"
| "patch_slices txt [i] = [drop i txt]"
| "patch_slices txt (i # j # is) = take (j - i) (drop i txt) # patch_slices txt (j # is)"

definition splitFormatPatch :: "string \<Rightarrow> string list" where
  "splitFormatPatch patchText =
     map trimSpace (patch_slices patchText (header_starts 0 True patchText))"

record FormatPatch =
  fp_Files :: "GitFile list"
  fp_RawHeaders :: "(string \<times> string list) list"
  fp_Raw :: string

text \<open>\<^verbatim>\<open>FormatPatch.ChangeId\<close>: the value of the header \<^verbatim>\<open>Change-Id\<close> when there is exactly one.\<close>

definition ChangeId :: "FormatPatch \<Rightarrow> string option" where
  "ChangeId f =
     (case map_of (fp_RawHeaders f) ''Change-Id'' of
        Some vals \<Rightarrow> if length vals = 1 then Some (hd vals) else None
      | None \<Rightarrow> None)"

fun extract_loop :: "'e PatchEnv \<Rightarrow> string list \<Rightarrow> ('e patch_error, FormatPatch list) result" where
  "extract_loop env [] = Inr []"
| "extract_loop env (patch # ps) =
     (case pe_Parse env patch of
        (_, _, Some e) \<Rightarrow> Inl (Parse_failed e)
      | (files, headerStr, None) \<Rightarrow>
     (case pe_ParsePatchHeader env headerStr of
        Inl e \<Rightarrow> Inl (Header_failed e)
      | Inr header \<Rightarrow>
          map_sum id ((#) \<lparr>fp_Files = files, fp_RawHeaders = header, fp_Raw = patch\<rparr>)
            (extract_loop env ps)))"

definition ExtractPatches :: "'e PatchEnv \<Rightarrow> string \<Rightarrow> ('e patch_error, FormatPatch list) result" where
  "ExtractPatches env formatPatch = extract_loop env (splitFormatPatch formatPatch)"

datatype 'e valid_error = EmptyPatchError | GenericPatchError | FormatPatchError "'e patch_error"

definition mail_date :: string where
  "mail_date = '' Mon Sep 17 00:00:00 2001''"

definition is_diff_line :: "string \<Rightarrow> bool" where
  "is_diff_line firstLine \<longleftrightarrow>
     hasPrefix firstLine ''diff '' \<or> hasPrefix firstLine ''--- '' \<or> hasPrefix firstLine ''Index: '' \<or>
     hasPrefix firstLine ''+++ '' \<or> hasPrefix firstLine ''@@ ''"

definition is_mail_line :: "string \<Rightarrow> bool" where
  "is_mail_line firstLine \<longleftrightarrow>
     hasPrefix firstLine ''From '' \<and> contains firstLine mail_date \<or> hasPrefix firstLine ''From: ''"

text \<open>\<^verbatim>\<open>IsPatchValid\<close>: \<open>None\<close> is the nil error.\<close>

definition IsPatchValid :: "'e PatchEnv \<Rightarrow> string \<Rightarrow> 'e valid_error option" where
  "IsPatchValid env patch =
     (if length patch = 0 then Some EmptyPatchError
      else
        let lines = splitOn newline patch
        in if length lines < 2 then Some EmptyPatchError
           else
             let firstLine = trimSpace (lines ! 0)
             in if is_diff_line firstLine then None
                else if is_mail_line firstLine then
                  (case ExtractPatches env patch of
                     Inl e \<Rightarrow> Some (FormatPatchError e)
                   | Inr patches \<Rightarrow> if length patches = 0 then Some EmptyPatchError else None)
                else Some GenericPatchError)"

definition is_header_line :: "string \<Rightarrow> bool" where
  "is_header_line line \<longleftrightarrow>
     hasPrefix line ''From: '' \<or> hasPrefix line ''Date: '' \<or> hasPrefix line ''Subject: '' \<or>
     hasPrefix line ''commit ''"

definition IsFormatPatch :: "string \<Rightarrow> bool" where
  "IsFormatPatch patch =
     (let lines = splitOn newline patch
      in if length lines < 2 then False
         else
           let firstLine = trimSpace (lines ! 0)
           in if hasPrefix firstLine ''From '' \<and> contains firstLine mail_date then True
              else length (filter (\<lambda>l. is_header_line (trimSpace l)) (take 10 lines)) \<ge> 2)"

definition AsDiff :: "'e PatchEnv \<Rightarrow> string \<Rightarrow> ('e patch_error, GitFile list) result option" where
  "AsDiff env patch =
     (if IsFormatPatch patch then
        (case ExtractPatches env patch of
           Inl e \<Rightarrow> Some (Inl e)
         | Inr patches \<Rightarrow> map_option Inr (CombineDiff env (map fp_Files patches)))
      else
        (case pe_Parse env patch of
           (_, _, Some e) \<Rightarrow> Some (Inl (Parse_failed e))
         | (d, _, None) \<Rightarrow> Some (Inr d)))"

text \<open>\<^verbatim>\<open>AsNiceDiff\<close>: on an error the list of files is empty.\<close>

definition nice_file :: "GitFile \<Rightarrow> Diff" where
  "nice_file d =
     \<lparr>df_NameOld = gf_OldName d, df_NameNew = gf_NewName d,
      df_TextFragments = gf_TextFragments d, df_IsBinary = gf_IsBinary d,
      df_IsNew = gf_IsNew d, df_IsDelete = gf_IsDelete d, df_IsCopy = gf_IsCopy d,
      df_IsRename = gf_IsRename d\<rparr>"

definition count_line :: "DiffStat \<Rightarrow> DiffLine \<Rightarrow> DiffStat" where
  "count_line st l =
     (case dl_Op l of
        OpAdd \<Rightarrow> st\<lparr>ds_Insertions := ds_Insertions st + 1\<rparr>
      | OpDelete \<Rightarrow> st\<lparr>ds_Deletions := ds_Deletions st + 1\<rparr>
      | OpContext \<Rightarrow> st)"

definition nice_step :: "NiceDiff \<Rightarrow> GitFile \<Rightarrow> NiceDiff" where
  "nice_step nd d =
     nd\<lparr>nd_Stat := foldl (\<lambda>st tf. foldl count_line st (tf_Lines tf)) (nd_Stat nd) (gf_TextFragments d),
        nd_Diff := nd_Diff nd @ [nice_file d]\<rparr>"

definition nice_diff :: "GitFile list \<Rightarrow> NiceDiff" where
  "nice_diff diffs =
     (let nd = foldl nice_step
                 \<lparr>nd_Stat = \<lparr>ds_Insertions = 0, ds_Deletions = 0, ds_FilesChanged = 0\<rparr>, nd_Diff = []\<rparr> diffs
      in nd\<lparr>nd_Stat := (nd_Stat nd)\<lparr>ds_FilesChanged := int (length diffs)\<rparr>\<rparr>)"

definition AsNiceDiff :: "'e PatchEnv \<Rightarrow> string \<Rightarrow> NiceDiff option" where
  "AsNiceDiff env patch =
     map_option (\<lambda>r. nice_diff (case r of Inl _ \<Rightarrow> [] | Inr diffs \<Rightarrow> diffs)) (AsDiff env patch)"


section \<open>Line-wise merge\<close>

text \<open>Two lines can be merged when they are equal or one of them is blank.\<close>

definition mergeable :: "string \<Rightarrow> string \<Rightarrow> bool" where
  "mergeable a b \<longleftrightarrow> a = b \<or> a = [] \<or> b = []"

definition pad_to :: "nat \<Rightarrow> string list \<Rightarrow> string list" where
  "pad_to n xs = xs @ replicate (n - length xs) []"

definition known_line :: "string \<Rightarrow> string \<Rightarrow> string" where
  "known_line a b = (if a = [] then b else a)"

fun merge_ref :: "nat \<Rightarrow> string list \<Rightarrow> string list \<Rightarrow> (merge_lines_error, string list) result" where
  "merge_ref i [] ns = Inr ns"
| "merge_ref i os [] = Inr os"
| "merge_ref i (a # os) (b # ns) =
     (if mergeable a b then map_sum id ((#) (known_line a b)) (merge_ref (i + 1) os ns)
      else Inl (Context_mismatch (i + 1) a b))"

lemma merge_ref_Nil2 [simp]: "merge_ref i os [] = Inr os"
  by (cases os) auto

lemma mergeLines_loop_Nil: "mergeLines_loop i [] ns acc = Inr (acc @ ns)"
  by (induction ns arbitrary: acc) auto

lemma mergeLines_loop_Nil2: "mergeLines_loop i os [] acc = Inr (acc @ os)"
  by (induction os arbitrary: i acc) auto

lemma mergeLines_loop_ref: "mergeLines_loop i os ns acc = map_sum id ((@) acc) (merge_ref i os ns)"
proof (induction i os ns arbitrary: acc rule: merge_ref.induct)
  case (3 i a os b ns)
  then show ?case
    by (auto simp: mergeable_def known_line_def sum.map_comp comp_def id_def)
qed (auto simp: mergeLines_loop_Nil mergeLines_loop_Nil2)

lemma merge_ref_Inr:
  "merge_ref i os ns = Inr zs \<Longrightarrow>
     list_all2 mergeable (pad_to (length zs) os) (pad_to (length zs) ns) \<and>
     zs = map2 known_line (pad_to (length zs) os) (pad_to (length zs) ns)"
proof (induction i os ns arbitrary: zs rule: merge_ref.induct)
  case (1 i ns)
  then show ?case
    by (auto simp: pad_to_def mergeable_def known_line_def list_all2_conv_all_nth intro!: nth_equalityI)
next
  case (2 i v va)
  then show ?case
    by (auto simp: pad_to_def mergeable_def known_line_def list_all2_conv_all_nth nth_Cons'
        intro!: nth_equalityI)
next
  case (3 i a os b ns)
  then show ?case
    by (auto simp: map_sum_Inr_iff pad_to_def split: if_splits)
qed

lemma merge_ref_Inl:
  "merge_ref i os ns = Inl (Context_mismatch k a b) \<Longrightarrow>
     i < k \<and> k - i - 1 < length os \<and> k - i - 1 < length ns \<and>
     os ! (k - i - 1) = a \<and> ns ! (k - i - 1) = b \<and> \<not> mergeable a b"
proof (induction i os ns rule: merge_ref.induct)
  case (3 i c os d ns)
  show ?case
  proof (cases "mergeable c d")
    case True
    with "3.prems" have err: "merge_ref (i + 1) os ns = Inl (Context_mismatch k a b)"
      by (auto simp: map_sum_Inl_iff)
    note IH = "3.IH" [OF True err]
    then have "k - i - 1 = Suc (k - (i + 1) - 1)" by linarith
    with IH show ?thesis by auto
  next
    case False
    with "3.prems" show ?thesis by auto
  qed
qed auto

lemma mergeLines_ref:
  "mergeLines old new =
     map_sum id (joinWith [newline]) (merge_ref 0 (splitOn newline old) (splitOn newline new))"
  by (simp add: mergeLines_def mergeLines_loop_ref sum.map_comp comp_def id_def)

lemma merge_ref_lines:
  "merge_ref i os ns = Inr zs \<Longrightarrow> z \<in> set zs \<Longrightarrow> z \<in> set os \<union> set ns"
  by (induction i os ns arbitrary: zs rule: merge_ref.induct)
     (auto simp: map_sum_Inr_iff known_line_def split: if_splits)

lemma merge_ref_length: "merge_ref i os ns = Inr zs \<Longrightarrow> length zs = max (length os) (length ns)"
  by (induction i os ns arbitrary: zs rule: merge_ref.induct)
     (auto simp: map_sum_Inr_iff split: if_splits)

text \<open>
  \<^verbatim>\<open>mergeLines\<close> merges two texts line by line: on success the result has as many lines as the
  longer text and every line is the one of the two that is not blank, and no position holds two
  different lines; on failure the error names the first position where both texts have a line, the
  lines differ and neither is blank.
\<close>

theorem mergeLines_correct:
  "(case mergeLines old new of
      Inr r \<Rightarrow>
        (let os = splitOn newline old; ns = splitOn newline new; n = max (length os) (length ns)
         in splitOn newline r = map2 known_line (pad_to n os) (pad_to n ns) \<and>
            list_all2 mergeable (pad_to n os) (pad_to n ns))
    | Inl (Context_mismatch k a b) \<Rightarrow>
        0 < k \<and> k \<le> length (splitOn newline old) \<and> k \<le> length (splitOn newline new) \<and>
        splitOn newline old ! (k - 1) = a \<and> splitOn newline new ! (k - 1) = b \<and>
        a \<noteq> b \<and> a \<noteq> [] \<and> b \<noteq> [])"
proof (cases "merge_ref 0 (splitOn newline old) (splitOn newline new)")
  case (Inl e)
  obtain k a b where e: "e = Context_mismatch k a b" by (cases e)
  from merge_ref_Inl [OF Inl [unfolded e]] Inl e show ?thesis
    by (auto simp: mergeLines_ref mergeable_def)
next
  case (Inr zs)
  have len: "length zs = max (length (splitOn newline old)) (length (splitOn newline new))"
    using Inr by (rule merge_ref_length)
  have "zs \<noteq> []" using len by (metis list.size(3) max_def not_less_zero splitOn_length_pos)
  moreover have "\<forall>z \<in> set zs. newline \<notin> set z"
    using merge_ref_lines [OF Inr] by (auto dest: splitOn_no_sep)
  ultimately have "splitOn newline (joinWith [newline] zs) = zs"
    by (rule splitOn_join)
  with Inr merge_ref_Inr [OF Inr] len show ?thesis
    by (simp add: mergeLines_ref Let_def)
qed

section \<open>Combining patches\<close>

text \<open>Combining a series of patches is combining from the left, two at a time.\<close>

lemma combine_diff_fold:
  "CombineDiff env (p # ps) = foldl (\<lambda>acc q. Option.bind acc (\<lambda>a. combineTwo env a q)) (Some p) ps"
proof (induction ps arbitrary: p)
  case (Cons q ps)
  have stuck: "foldl (\<lambda>acc q. Option.bind acc (\<lambda>a. combineTwo env a q)) None qs = None" for qs
    by (induction qs) auto
  show ?case using Cons by (cases "combineTwo env p q") (auto simp: stuck)
qed simp

lemma last_by_name_None: "last_by_name p n = None \<longleftrightarrow> n \<notin> bestName ` set p"
  by (auto simp: last_by_name_def find_None_iff)

lemma last_by_name_Some: "last_by_name p n = Some f \<Longrightarrow> f \<in> set p \<and> bestName f = n"
  by (auto simp: last_by_name_def find_Some_iff nth_mem dest: in_set_conv_nth [THEN iffD2])
     (metis length_rev nth_mem set_rev)

lemma combine_first_disjoint:
  "bestName ` set p1 \<inter> bestName ` set p2 = {} \<Longrightarrow> combine_first env p2 p1 = Some p1"
  by (induction p1) (auto simp: last_by_name_None [THEN iffD2])

text \<open>The files of a combination with the combined files first, as one expression.\<close>

definition kept_of :: "'e PatchEnv \<Rightarrow> GitFile list \<Rightarrow> GitFile \<Rightarrow> GitFile list" where
  "kept_of env p2 f1 =
     (case last_by_name p2 (bestName f1) of
        None \<Rightarrow> [f1]
      | Some f2 \<Rightarrow> (case combineFiles env f1 f2 of Some (Inr (Some c)) \<Rightarrow> [c] | _ \<Rightarrow> []))"

lemma combine_first_kept: "combine_first env p2 p1 = Some r \<Longrightarrow> r = concat (map (kept_of env p2) p1)"
  by (induction p1 arbitrary: r) (auto simp: kept_of_def split: option.splits sum.splits)

lemma combine_first_returns:
  assumes "\<forall>f1 \<in> set p1. \<forall>f2 \<in> set p2. bestName f1 = bestName f2 \<longrightarrow> combineFiles env f1 f2 \<noteq> None"
  shows "\<exists>r. combine_first env p2 p1 = Some r"
  using assms
proof (induction p1)
  case (Cons f1 p1)
  then obtain r where r: "combine_first env p2 p1 = Some r" by auto
  show ?case
  proof (cases "last_by_name p2 (bestName f1)")
    case None
    with r show ?thesis by simp
  next
    case (Some f2)
    then have "f2 \<in> set p2" and "bestName f2 = bestName f1"
      by (auto dest: last_by_name_Some)
    with Cons.prems obtain c where "combineFiles env f1 f2 = Some c" by fastforce
    with r Some show ?thesis by (cases c) (auto split: option.splits)
  qed
qed simp

text \<open>Every range the images of a file are rendered from is in order.\<close>

definition renderable :: "GitFile \<Rightarrow> bool" where
  "renderable f \<longleftrightarrow> ascending 0 (im_Data (CreatePreImage f)) \<and> ascending 0 (im_Data (CreatePostImage f))"

lemma combineFiles_returns:
  assumes "renderable f1" and "renderable f2"
  shows "combineFiles env f1 f2 \<noteq> None"
proof (cases "Merge (CreatePostImage f1) (CreatePreImage f2)")
  case (Inr m)
  have "ascending 0 (im_Data m)"
    using assms Merge_ascending [OF _ _ Inr] unfolding renderable_def by blast
  then obtain s where s: "image_String m = Some s"
    using image_String_returns_iff by blast
  obtain s1 where s1: "image_String (CreatePreImage f1) = Some s1"
    using assms(1) image_String_returns_iff unfolding renderable_def by blast
  show ?thesis
  proof (cases "pe_Apply env s f2")
    case (Inl e)
    with Inr s show ?thesis by (simp add: combineFiles_def image_Apply_def Let_def)
  next
    case out: (Inr r2)
    show ?thesis
      by (cases "Unified env s1 (bestName f1) r2 (bestName f1)")
         (simp_all add: combineFiles_def image_Apply_def Let_def Inr s s1 out split: prod.split)
  qed
qed (simp add: combineFiles_def Let_def)

lemma combineTwo_returns:
  assumes "\<forall>f \<in> set p1 \<union> set p2. renderable f"
  shows "\<exists>r. combineTwo env p1 p2 = Some r"
proof -
  have "\<exists>r. combine_first env p2 p1 = Some r"
    by (intro combine_first_returns ballI impI combineFiles_returns) (simp_all add: assms)
  then show ?thesis by (auto simp: combineTwo_def)
qed

text \<open>
  An environment for concrete runs: nothing fails, a patch is applied by leaving the text alone, and
  the texts never differ.
\<close>

definition quiet_env :: "unit PatchEnv" where
  "quiet_env =
     \<lparr>pe_Apply = (\<lambda>s f. Inr s), pe_Parse = (\<lambda>s. ([], [], None)),
      pe_ParsePatchHeader = (\<lambda>s. Inr []), pe_CreateTemp = (\<lambda>s. Inr ()),
      pe_WriteString = (\<lambda>s t. Inr ()), pe_diff = (\<lambda>a b c d. Exited 0 [])\<rparr>"

definition context_file :: "string \<Rightarrow> int \<Rightarrow> string \<Rightarrow> GitFile" where
  "context_file name n line =
     \<lparr>gf_OldName = name, gf_NewName = name, gf_IsNew = False, gf_IsDelete = False,
      gf_IsCopy = False, gf_IsRename = False, gf_OldMode = 0, gf_NewMode = 0,
      gf_TextFragments = [\<lparr>tf_OldPosition = n, tf_OldLines = 1, tf_NewPosition = n, tf_NewLines = 1,
        tf_LinesAdded = 0, tf_LinesDeleted = 0,
        tf_Lines = [\<lparr>dl_Op = OpContext, dl_Line = line\<rparr>]\<rparr>],
      gf_IsBinary = False, gf_BinaryFragment = None, gf_ReverseBinaryFragment = None\<rparr>"

lemma renderable_context_file: "0 < n \<Longrightarrow> renderable (context_file name n line)"
  by (simp add: renderable_def context_file_def CreatePreImage_def CreatePostImage_def NewLineAt_def)

lemma bestName_context_file [simp]: "bestName (context_file name n line) = name"
  by (simp add: context_file_def bestName_def)

text \<open>
  C23. Combining two patches whose files can be rendered returns, and keeps every file that only one
  of the patches touches: the files of the first patch that the second does not name come out
  unchanged and in order among the combined ones, the files of the second patch that the first does
  not name come unchanged and in order at the end.
\<close>

theorem combineTwo_correct:
  assumes "\<forall>f \<in> set p1 \<union> set p2. renderable f"
  shows "\<exists>r. combineTwo env p1 p2 = Some (r @ filter (\<lambda>f. bestName f \<notin> bestName ` set p1) p2) \<and>
     r = concat (map (kept_of env p2) p1) \<and>
     filter (\<lambda>f. bestName f \<notin> bestName ` set p2) p1 =
       concat (map (kept_of env p2) (filter (\<lambda>f. bestName f \<notin> bestName ` set p2) p1))"
proof -
  obtain q where "combineTwo env p1 p2 = Some q"
    using combineTwo_returns [OF assms] by blast
  then obtain r where r: "combine_first env p2 p1 = Some r"
    by (auto simp: combineTwo_def)
  have "concat (map (kept_of env p2) (filter (\<lambda>f. bestName f \<notin> bestName ` set p2) fs)) =
      filter (\<lambda>f. bestName f \<notin> bestName ` set p2) fs" for fs
    by (induction fs) (auto simp: kept_of_def last_by_name_None [THEN iffD2])
  with r combine_first_kept [OF r] show ?thesis
    by (simp add: combineTwo_def unvisited_def)
qed

theorem combineTwo_correct_witness:
  "\<exists>r. combineTwo quiet_env [context_file ''a'' 1 ''x''] [context_file ''b'' 1 ''y''] =
     Some (r @ [context_file ''b'' 1 ''y''])"
proof -
  have "\<forall>f \<in> set [context_file ''a'' 1 ''x''] \<union> set [context_file ''b'' 1 ''y'']. renderable f"
    by (simp add: renderable_context_file)
  from combineTwo_correct [OF this, of quiet_env] show ?thesis by auto
qed

text \<open>
  A file that both patches change disappears from the combined patch when the second patch does
  not fit the first: \<^verbatim>\<open>combineTwo\<close> drops the error of \<^verbatim>\<open>combineFiles\<close> and with it the file, so the
  combination of two patches of one file is then empty.
\<close>

theorem combineTwo_drops_conflict:
  assumes "bestName f1 = bestName f2" and "Merge (CreatePostImage f1) (CreatePreImage f2) = Inl e"
  shows "combineTwo env [f1] [f2] = Some []"
  using assms by (simp add: combineTwo_def last_by_name_def combineFiles_def unvisited_def Let_def)

theorem combineTwo_drops_conflict_witness:
  "combineTwo quiet_env [context_file ''a'' 1 ''x''] [context_file ''a'' 1 ''y''] = Some []"
proof -
  have "Merge (CreatePostImage (context_file ''a'' 1 ''x'')) (CreatePreImage (context_file ''a'' 1 ''y'')) =
      Inl (MergeError rebase_msg 1)"
    by (simp add: Merge_def context_file_def CreatePreImage_def CreatePostImage_def NewLineAt_def)
  then show ?thesis by (intro combineTwo_drops_conflict) simp_all
qed

section \<open>Splitting a series of format patches\<close>

lemma header_starts_lower: "i \<in> set (header_starts k b s) \<Longrightarrow> k \<le> i"
  by (induction k b s rule: header_starts.induct) (auto split: if_splits)

lemma header_starts_first: "k \<in> set (header_starts k b s) \<Longrightarrow> b"
  by (cases s) (auto split: if_splits dest: header_starts_lower)

lemma header_starts_bounds:
  "i \<in> set (header_starts k b s) \<Longrightarrow>
     k \<le> i \<and> i < k + length s \<and> is_from_header (drop (i - k) s) \<and>
     (k < i \<longrightarrow> s ! (i - k - 1) = newline)"
proof (induction k b s rule: header_starts.induct)
  case (2 k b c s)
  show ?case
  proof (cases "i \<in> set (header_starts (k + 1) (c = newline) s)")
    case True
    note IH = "2.IH" [OF True]
    then have "i - k = Suc (i - (k + 1))" by linarith
    moreover have "c = newline" if "i = k + 1"
      using True that header_starts_first by fastforce
    moreover have "drop (i - k) (c # s) = drop (i - (k + 1)) s"
      using calculation(1) by simp
    ultimately show ?thesis
      using IH by (auto simp: nth_Cons' simp del: drop_Cons')
  next
    case False
    with "2.prems" have "i = k" and "is_from_header (c # s)" by (auto split: if_splits)
    then show ?thesis by simp
  qed
qed simp

lemma header_starts_sorted: "sorted_wrt (<) (header_starts k b s)"
  by (induction k b s rule: header_starts.induct) (auto dest: header_starts_lower)

lemma is_from_header_take: "46 \<le> n \<Longrightarrow> is_from_header (take n s) \<longleftrightarrow> is_from_header s"
  by (auto simp: is_from_header_def hasPrefix_def min_def drop_take)

lemma is_from_header_no_newline:
  assumes "is_from_header s" and "k < 46"
  shows "s ! k \<noteq> newline"
proof -
  have len: "46 \<le> length s" using assms(1) by (simp add: is_from_header_def)
  consider "k < 5" | "5 \<le> k" "k < 45" | "k = 45" using assms(2) by linarith
  then show ?thesis
  proof cases
    case 1
    have "take 5 s = ''From ''" using assms(1) by (simp add: is_from_header_def hasPrefix_def eval_nat_numeral)
    then have "s ! k = ''From '' ! k" using 1 by (metis nth_take)
    moreover have "k \<in> {0, 1, 2, 3, 4}" using 1 by auto
    ultimately show ?thesis by auto
  next
    case 2
    have "take 40 (drop 5 s) ! (k - 5) = s ! k" using 2 len by simp
    moreover have "take 40 (drop 5 s) ! (k - 5) \<in> set (take 40 (drop 5 s))"
      using 2 len by (intro nth_mem) simp
    ultimately have "is_hex (s ! k)"
      using assms(1) by (auto simp: is_from_header_def list_all_iff)
    then show ?thesis by (auto simp: is_hex_def less_eq_char_def)
  next
    case 3
    with assms(1) show ?thesis by (simp add: is_from_header_def)
  qed
qed

lemma patch_slices_concat:
  "sorted_wrt (<) (i # js) \<Longrightarrow> concat (patch_slices s (i # js)) = drop i s"
proof (induction "i # js" arbitrary: i js rule: patch_slices.induct)
  case (3 str i j ks)
  then have "concat (patch_slices str (j # ks)) = drop j str" by simp
  moreover have "take (j - i) (drop i str) @ drop j str = drop i str"
    using "3.prems" by (metis append_take_drop_id drop_drop le_add_diff_inverse2 less_imp_le
        list.set_intros(1) sorted_wrt.simps(2))
  ultimately show ?case by simp
qed simp

lemma length_patch_slices [simp]: "length (patch_slices s js) = length js"
  by (induction s js rule: patch_slices.induct) auto

lemma patch_slices_header:
  assumes "sorted_wrt (<) js" and "\<forall>i \<in> set js. is_from_header (drop i s)"
    and "\<forall>i \<in> set (tl js). i < length s \<and> s ! (i - 1) = newline" and "p \<in> set (patch_slices s js)"
  shows "is_from_header p"
  using assms
proof (induction s js rule: patch_slices.induct)
  case (3 str i j ks)
  show ?case
  proof (cases "p = take (j - i) (drop i str)")
    case True
    have "i < j" and jn: "j < length str" "str ! (j - 1) = newline" using "3.prems" by auto
    have hdr: "is_from_header (drop i str)" using "3.prems" by simp
    have "46 \<le> j - i"
    proof (rule ccontr)
      assume "\<not> 46 \<le> j - i"
      then have "drop i str ! (j - 1 - i) \<noteq> newline"
        using \<open>i < j\<close> by (intro is_from_header_no_newline [OF hdr]) linarith
      moreover have "drop i str ! (j - 1 - i) = str ! (j - 1)" using \<open>i < j\<close> jn by simp
      ultimately show False using jn by simp
    qed
    with hdr True show ?thesis by (simp add: is_from_header_take)
  next
    case False
    with "3.prems" have "p \<in> set (patch_slices str (j # ks))" by simp
    then show ?thesis using "3.prems" by (intro "3.IH") auto
  qed
qed auto

text \<open>The removal of white space never reaches past a byte that occurs in no white space.\<close>

lemma strip_any_stops:
  assumes "\<forall>w \<in> set ws. c \<notin> set w"
  shows "\<exists>u'. strip_any ws (u @ c # v) = u' @ c # v"
  using assms
proof (induction ws "u @ c # v" arbitrary: u rule: strip_any.induct)
  case (1 ws u)
  show ?case
  proof (cases "find (\<lambda>w. w \<noteq> [] \<and> hasPrefix (u @ c # v) w) ws")
    case None
    then show ?thesis by (auto simp: strip_any.simps [of ws "u @ c # v"])
  next
    case (Some w)
    then have w: "w \<in> set ws" "hasPrefix (u @ c # v) w"
      by (auto simp: find_Some_iff)
    then obtain t where t: "u @ c # v = w @ t" by (auto simp: hasPrefix_iff)
    have "c \<notin> set w" using w "1.prems" by blast
    with t obtain u' where "u = w @ u'"
      by (fastforce simp: append_eq_append_conv2 Cons_eq_append_conv)
    then have "drop (length w) (u @ c # v) = u' @ c # v" by simp
    with "1.hyps" [OF Some this] "1.prems" Some show ?thesis
      by (simp add: strip_any.simps [of ws "u @ c # v"])
  qed
qed

lemma trimSpace_keeps:
  assumes "\<forall>w \<in> set space_runes. c \<notin> set w \<and> d \<notin> set w"
  shows "\<exists>b'. trimSpace (c # a @ d # b) = c # a @ d # b'"
proof -
  have "strip_any space_runes (c # s) = c # s" for s
  proof -
    have "find (\<lambda>w. w \<noteq> [] \<and> hasPrefix (c # s) w) space_runes = None"
      using assms by (auto simp: find_None_iff hasPrefix_iff Cons_eq_append_conv)
    then show ?thesis by (simp add: strip_any.simps)
  qed
  moreover obtain u where "strip_any (map rev space_runes) (rev b @ d # rev (c # a)) = u @ d # rev (c # a)"
    using strip_any_stops [of "map rev space_runes" d "rev b" "rev (c # a)"] assms by auto
  ultimately show ?thesis by (simp add: trimSpace_def)
qed

lemma header_byte_not_space:
  assumes "c = CHR ''F'' \<or> is_hex c"
  shows "\<forall>w \<in> set space_runes. c \<notin> set w"
  using assms by (auto simp: space_runes_def is_hex_def less_eq_char_def)

lemma trimSpace_header:
  assumes "is_from_header s"
  shows "45 \<le> length (trimSpace s) \<and> take 45 (trimSpace s) = take 45 s"
proof -
  have len: "46 \<le> length s" and hex: "list_all is_hex (take 40 (drop 5 s))"
    and pre: "hasPrefix s ''From ''"
    using assms by (auto simp: is_from_header_def)
  obtain t where t: "s = CHR ''F'' # t" using pre by (auto simp: hasPrefix_iff)
  have split: "t = take 43 t @ t ! 43 # drop 44 t"
    using len t id_take_nth_drop [of 43 t] by simp
  have "t ! 43 = take 40 (drop 5 s) ! 39" using len t by simp
  also have "\<dots> \<in> set (take 40 (drop 5 s))" using len by (intro nth_mem) simp
  finally have "is_hex (t ! 43)" using hex by (simp add: list_all_iff)
  then have "\<forall>w \<in> set space_runes. CHR ''F'' \<notin> set w \<and> t ! 43 \<notin> set w"
    using header_byte_not_space by blast
  then obtain b where "trimSpace (CHR ''F'' # take 43 t @ t ! 43 # drop 44 t) =
      CHR ''F'' # take 43 t @ t ! 43 # b"
    using trimSpace_keeps by blast
  then have trim: "trimSpace s = CHR ''F'' # take 43 t @ t ! 43 # b"
    using split t by simp
  have pre45: "take 45 s = CHR ''F'' # take 43 t @ [t ! 43]"
    using len t by (simp add: take_Suc_conv_app_nth [of 43, simplified])
  have "length (CHR ''F'' # take 43 t @ [t ! 43]) = 45"
    using len t by simp
  then show ?thesis
    unfolding trim pre45 by simp
qed

text \<open>
  Splitting a series of format patches loses nothing and cuts only at mail headers: behind the
  text in front of the first header, the text is the concatenation of one slice per header line,
  every slice starts with such a header, and the patches returned are the slices without the white
  space around them, each still starting with \<^verbatim>\<open>From\<close> and its forty-digit commit id.
\<close>

theorem splitFormatPatch_correct:
  "\<exists>pre slices.
     patchText = pre @ concat slices \<and> splitFormatPatch patchText = map trimSpace slices \<and>
     length slices = length (header_starts 0 True patchText) \<and>
     (\<forall>s \<in> set slices. is_from_header s \<and> take 45 (trimSpace s) = take 45 s)"
proof (cases "header_starts 0 True patchText")
  case Nil
  then show ?thesis by (intro exI [of _ patchText] exI [of _ "[]"]) (simp add: splitFormatPatch_def)
next
  case (Cons i js)
  let ?slices = "patch_slices patchText (i # js)"
  have bounds: "\<forall>k \<in> set (i # js). k < length patchText \<and> is_from_header (drop k patchText) \<and>
      (0 < k \<longrightarrow> patchText ! (k - 1) = newline)"
    using header_starts_bounds [of _ 0 True patchText] Cons by auto
  have sorted: "sorted_wrt (<) (i # js)"
    using header_starts_sorted [of 0 True patchText] Cons by simp
  have "patchText = take i patchText @ concat ?slices"
    using sorted by (simp add: patch_slices_concat del: patch_slices.simps)
  moreover have "is_from_header p" if "p \<in> set ?slices" for p
    by (rule patch_slices_header [OF sorted _ _ that]) (use bounds sorted in auto)
  ultimately show ?thesis
    using Cons trimSpace_header
    by (intro exI [of _ "take i patchText"] exI [of _ ?slices])
       (auto simp: splitFormatPatch_def simp del: patch_slices.simps)
qed

theorem splitFormatPatch_correct_witness:
  "\<exists>p. splitFormatPatch (''cover'' @ [newline] @ ''From '' @ replicate 40 CHR ''0'' @ '' x'') = [p] \<and>
       hasPrefix p ''From ''"
proof -
  let ?t = "''cover'' @ [newline] @ ''From '' @ replicate 40 CHR ''0'' @ '' x''"
  have one: "length (header_starts 0 True ?t) = 1" by code_simp
  obtain pre slices where s: "splitFormatPatch ?t = map trimSpace slices" "length slices = 1"
    "\<forall>s \<in> set slices. is_from_header s \<and> take 45 (trimSpace s) = take 45 s"
    using splitFormatPatch_correct [of ?t] one by auto
  then obtain x where x: "slices = [x]" by (metis One_nat_def length_0_conv length_Suc_conv)
  have "take 5 (take 45 (trimSpace x)) = take 5 (take 45 x)" using s(3) x by simp
  then have "take 5 (trimSpace x) = take 5 x" by (simp only: take_take) simp
  moreover have "take 5 x = ''From ''"
    using s(3) x by (simp add: is_from_header_def hasPrefix_def eval_nat_numeral)
  ultimately have "hasPrefix (trimSpace x) ''From ''"
    by (simp add: hasPrefix_def eval_nat_numeral)
  with s(1) x show ?thesis by simp
qed

section \<open>Statistics of a diff\<close>

definition count_op :: "LineOp \<Rightarrow> GitFile list \<Rightarrow> int" where
  "count_op op diffs =
     int (length (filter (\<lambda>l. dl_Op l = op) (concat (map tf_Lines (concat (map gf_TextFragments diffs))))))"

lemma count_op_append: "count_op op (xs @ ys) = count_op op xs + count_op op ys"
  by (simp add: count_op_def)

lemma foldl_count_line:
  "ds_Insertions (foldl count_line st ls) = ds_Insertions st + int (length (filter (\<lambda>l. dl_Op l = OpAdd) ls))"
  "ds_Deletions (foldl count_line st ls) = ds_Deletions st + int (length (filter (\<lambda>l. dl_Op l = OpDelete) ls))"
  by (induction ls arbitrary: st) (auto simp: count_line_def split: LineOp.splits)

lemma foldl_count_fragments:
  "ds_Insertions (foldl (\<lambda>st tf. foldl count_line st (tf_Lines tf)) st ts) =
     ds_Insertions st + int (length (filter (\<lambda>l. dl_Op l = OpAdd) (concat (map tf_Lines ts))))"
  "ds_Deletions (foldl (\<lambda>st tf. foldl count_line st (tf_Lines tf)) st ts) =
     ds_Deletions st + int (length (filter (\<lambda>l. dl_Op l = OpDelete) (concat (map tf_Lines ts))))"
  by (induction ts arbitrary: st) (auto simp: foldl_count_line)

lemma foldl_nice_step:
  "nd_Diff (foldl nice_step nd diffs) = nd_Diff nd @ map nice_file diffs"
  "ds_Insertions (nd_Stat (foldl nice_step nd diffs)) = ds_Insertions (nd_Stat nd) + count_op OpAdd diffs"
  "ds_Deletions (nd_Stat (foldl nice_step nd diffs)) = ds_Deletions (nd_Stat nd) + count_op OpDelete diffs"
  by (induction diffs arbitrary: nd) (auto simp: nice_step_def foldl_count_fragments count_op_def)

text \<open>
  The diff shown for a patch has one entry per parsed file, under the name the file is known by,
  and its statistics are the number of those files and the numbers of added and deleted lines in
  them.
\<close>

theorem nice_diff_correct:
  "map Diff_Id (nd_Diff (nice_diff diffs)) = map bestName diffs \<and>
   map df_TextFragments (nd_Diff (nice_diff diffs)) = map gf_TextFragments diffs \<and>
   nd_Stat (nice_diff diffs) =
     \<lparr>ds_Insertions = count_op OpAdd diffs, ds_Deletions = count_op OpDelete diffs,
      ds_FilesChanged = int (length diffs)\<rparr>"
proof -
  have "nd_Diff (nice_diff diffs) = map nice_file diffs"
    by (simp add: nice_diff_def Let_def foldl_nice_step)
  moreover have "map Diff_Id (map nice_file diffs) = map bestName diffs"
    by (simp add: nice_file_def Diff_Id_def bestName_def)
  ultimately show ?thesis
    by (simp add: nice_diff_def Let_def foldl_nice_step nice_file_def)
qed

end
