(* ===== verification/Patch_Interdiff.thy ===== *)
theory Patch_Interdiff
  imports Patch_Combine
begin

text \<open>
  The difference between two revisions of a patch: \<^verbatim>\<open>patchutil/interdiff.go\<close>. \<^verbatim>\<open>Interdiff\<close> reverses
  in place the files that only the first patch has, so its model also returns the first patch as
  it is left behind.
\<close>

section \<open>Status of a file\<close>

datatype StatusKind =
  StatusOk | StatusOnlyInOne | StatusOnlyInTwo | StatusUnchanged | StatusRebased | StatusError

fun StatusKind_String :: "StatusKind \<Rightarrow> string" where
  "StatusKind_String StatusOnlyInOne = ''only in one''"
| "StatusKind_String StatusOnlyInTwo = ''only in two''"
| "StatusKind_String StatusUnchanged = ''unchanged''"
| "StatusKind_String StatusRebased = ''rebased''"
| "StatusKind_String StatusError = ''error''"
| "StatusKind_String StatusOk = ''changed''"

record 'e InterdiffFileStatus =
  st_Kind :: StatusKind
  st_Error :: "'e patch_error option"

definition Status_String :: "('e patch_error \<Rightarrow> string) \<Rightarrow> 'e InterdiffFileStatus \<Rightarrow> string" where
  "Status_String error_text s =
     (let kind = StatusKind_String (st_Kind s)
      in case st_Error s of Some e \<Rightarrow> kind @ '' ['' @ error_text e @ '']'' | None \<Rightarrow> kind)"

definition IsOk :: "'e InterdiffFileStatus \<Rightarrow> bool" where
  "IsOk s \<longleftrightarrow> st_Kind s = StatusOk"

definition IsUnchanged :: "'e InterdiffFileStatus \<Rightarrow> bool" where
  "IsUnchanged s \<longleftrightarrow> st_Kind s = StatusUnchanged"

definition IsOnlyInOne :: "'e InterdiffFileStatus \<Rightarrow> bool" where
  "IsOnlyInOne s \<longleftrightarrow> st_Kind s = StatusOnlyInOne"

definition IsOnlyInTwo :: "'e InterdiffFileStatus \<Rightarrow> bool" where
  "IsOnlyInTwo s \<longleftrightarrow> st_Kind s = StatusOnlyInTwo"

definition IsRebased :: "'e InterdiffFileStatus \<Rightarrow> bool" where
  "IsRebased s \<longleftrightarrow> st_Kind s = StatusRebased"

definition IsError :: "'e InterdiffFileStatus \<Rightarrow> bool" where
  "IsError s \<longleftrightarrow> st_Kind s = StatusError"

record 'e InterdiffFile =
  if_File :: "GitFile option"
  if_Name :: string
  if_Status :: "'e InterdiffFileStatus"

section \<open>Rendering a file\<close>

definition Interdiff_Id :: "'e InterdiffFile \<Rightarrow> string" where
  "Interdiff_Id s = if_Name s"

text \<open>The fragments of the embedded file; a nil file has none to show.\<close>

definition if_fragments :: "'e InterdiffFile \<Rightarrow> TextFragment list" where
  "if_fragments s = (case if_File s of None \<Rightarrow> [] | Some f \<Rightarrow> gf_TextFragments f)"

text \<open>\<^verbatim>\<open>Split\<close> reads the embedded file and panics on a nil file: \<open>None\<close>.\<close>

definition Interdiff_Split :: "(TextFragment \<Rightarrow> string) \<Rightarrow> 'e InterdiffFile \<Rightarrow> SplitDiff option" where
  "Interdiff_Split header s =
     (case if_File s of
        None \<Rightarrow> None
      | Some f \<Rightarrow>
          Some \<lparr>sd_Name = Interdiff_Id s,
                sd_TextFragments = map (split_fragment header) (gf_TextFragments f)\<rparr>)"

definition Interdiff_CanRender :: "'e InterdiffFile \<Rightarrow> string" where
  "Interdiff_CanRender s =
     (if IsUnchanged (if_Status s) then ''This file has not been changed.''
      else if IsRebased (if_Status s) then
        ''This patch was likely rebased, as context lines do not match.''
      else if IsError (if_Status s) then ''Failed to calculate interdiff for this file.''
      else [])"

definition Interdiff_Names :: "'e InterdiffFile \<Rightarrow> DiffFileName" where
  "Interdiff_Names s = \<lparr>dn_Old = [], dn_New = if_Name s\<rparr>"

definition Interdiff_Stats :: "'e InterdiffFile \<Rightarrow> DiffFileStat" where
  "Interdiff_Stats s =
     (case if_File s of
        None \<Rightarrow> \<lparr>dfs_Insertions = 0, dfs_Deletions = 0\<rparr>
      | Some f \<Rightarrow> fragment_stats (gf_TextFragments f))"

definition InterdiffFile_String ::
  "('e patch_error \<Rightarrow> string) \<Rightarrow> (GitFile \<Rightarrow> string) \<Rightarrow> 'e InterdiffFile \<Rightarrow> string" where
  "InterdiffFile_String error_text file_text s =
     Status_String error_text (if_Status s) @ '' '' @
     (case if_File s of None \<Rightarrow> [] | Some f \<Rightarrow> bestName f @ [newline] @ file_text f)"

section \<open>Calculating the interdiff\<close>

definition interdiffFiles ::
  "'e PatchEnv \<Rightarrow> GitFile \<Rightarrow> GitFile \<Rightarrow> 'e InterdiffFile option" where
  "interdiffFiles env f1 f2 =
     (let re1 = CreatePreImage f1;
          re2 = CreatePreImage f2;
          fail = (\<lambda>kind e. \<lparr>if_File = None, if_Name = bestName f1,
                   if_Status = \<lparr>st_Kind = kind, st_Error = e\<rparr>\<rparr>)
      in case Merge re1 re2 of
           Inl e \<Rightarrow> Some (fail StatusRebased (Some (Merge_failed e)))
         | Inr merged \<Rightarrow>
        (case image_Apply (pe_Apply env) merged f1 of
           None \<Rightarrow> None
         | Some (Inl e) \<Rightarrow> Some (fail StatusError (Some (Apply_failed e)))
         | Some (Inr rev1) \<Rightarrow>
        (case image_Apply (pe_Apply env) merged f2 of
           None \<Rightarrow> None
         | Some (Inl e) \<Rightarrow> Some (fail StatusError (Some (Apply_failed e)))
         | Some (Inr rev2) \<Rightarrow>
        (case Unified env rev1 (bestName f1) rev2 (bestName f2) of
           Inl e \<Rightarrow> Some (fail StatusError (Some e))
         | Inr diff \<Rightarrow>
        (case pe_Parse env diff of
           (_, _, Some e) \<Rightarrow> Some (fail StatusError (Some (Parse_failed e)))
         | (parsed, _, None) \<Rightarrow>
             if length parsed \<noteq> 1 then Some (fail StatusUnchanged None)
             else Some \<lparr>if_File = Some (parsed ! 0), if_Name = bestName f1,
                        if_Status = \<lparr>st_Kind = StatusOk, st_Error = None\<rparr>\<rparr>)))))"

text \<open>The loop over the first patch: the entry of every file and the file as it is left behind.\<close>

fun interdiff_first ::
  "'e PatchEnv \<Rightarrow> GitFile list \<Rightarrow> GitFile list \<Rightarrow> ('e InterdiffFile list \<times> GitFile list) option" where
  "interdiff_first env patch2 [] = Some ([], [])"
| "interdiff_first env patch2 (f1 # fs) =
     (case last_by_name patch2 (bestName f1) of
        Some f2 \<Rightarrow>
          (case interdiffFiles env f1 f2 of
             None \<Rightarrow> None
           | Some file \<Rightarrow> map_option (\<lambda>(r, p). (file # r, f1 # p)) (interdiff_first env patch2 fs))
      | None \<Rightarrow>
          (let f1' = reverseDiff f1;
               file = \<lparr>if_File = Some f1', if_Name = bestName f1,
                       if_Status = \<lparr>st_Kind = StatusOnlyInOne, st_Error = None\<rparr>\<rparr>
           in map_option (\<lambda>(r, p). (file # r, f1' # p)) (interdiff_first env patch2 fs)))"

definition only_in_two :: "GitFile \<Rightarrow> 'e InterdiffFile" where
  "only_in_two f2 =
     \<lparr>if_File = Some f2, if_Name = bestName f2,
      if_Status = \<lparr>st_Kind = StatusOnlyInTwo, st_Error = None\<rparr>\<rparr>"

definition Interdiff ::
  "'e PatchEnv \<Rightarrow> GitFile list \<Rightarrow> GitFile list \<Rightarrow> ('e InterdiffFile list \<times> GitFile list) option" where
  "Interdiff env patch1 patch2 =
     map_option (\<lambda>(files, patch1'). (files @ map only_in_two (unvisited patch1 patch2), patch1'))
       (interdiff_first env patch2 patch1)"

definition InterdiffResult_Stats :: "'e InterdiffFile list \<Rightarrow> DiffStat" where
  "InterdiffResult_Stats files =
     \<lparr>ds_Insertions = sum_list (map (\<lambda>s. dfs_Insertions (Interdiff_Stats s)) files),
      ds_Deletions = sum_list (map (\<lambda>s. dfs_Deletions (Interdiff_Stats s)) files),
      ds_FilesChanged = int (length files)\<rparr>"

definition InterdiffResult_String ::
  "('e patch_error \<Rightarrow> string) \<Rightarrow> (GitFile \<Rightarrow> string) \<Rightarrow> 'e InterdiffFile list \<Rightarrow> string" where
  "InterdiffResult_String error_text file_text files =
     concat (map (\<lambda>f. InterdiffFile_String error_text file_text f @ [newline]) files)"

section \<open>What an interdiff holds\<close>

text \<open>
  A file is attached exactly when there is something to show; an entry without a file says why, and
  only such an entry carries an error.
\<close>

definition entry_ok :: "'e InterdiffFile \<Rightarrow> bool" where
  "entry_ok s \<longleftrightarrow>
     (if_File s = None \<longleftrightarrow> Interdiff_CanRender s \<noteq> []) \<and>
     (st_Error (if_Status s) \<noteq> None \<longleftrightarrow> IsRebased (if_Status s) \<or> IsError (if_Status s))"

lemmas status_defs = IsOk_def IsUnchanged_def IsOnlyInOne_def IsOnlyInTwo_def IsRebased_def IsError_def

lemma interdiffFiles_ok:
  assumes "interdiffFiles env f1 f2 = Some s"
  shows "entry_ok s \<and> if_Name s = bestName f1 \<and>
     st_Kind (if_Status s) \<in> {StatusOk, StatusUnchanged, StatusRebased, StatusError}"
  using assms
  by (auto simp: interdiffFiles_def Let_def entry_ok_def Interdiff_CanRender_def status_defs
      split: sum.splits option.splits prod.splits if_splits)

lemma interdiff_first_spec:
  assumes "interdiff_first env p2 p1 = Some (files, p1')"
  shows "map if_Name files = map bestName p1 \<and>
     p1' = map (\<lambda>f. if bestName f \<in> bestName ` set p2 then f else reverseDiff f) p1 \<and>
     (\<forall>s \<in> set files. entry_ok s \<and> \<not> IsOnlyInTwo (if_Status s) \<and>
        (IsOnlyInOne (if_Status s) \<longleftrightarrow> if_Name s \<notin> bestName ` set p2))"
  using assms
proof (induction p1 arbitrary: files p1')
  case (Cons f1 fs)
  show ?case
  proof (cases "last_by_name p2 (bestName f1)")
    case None
    then have out: "bestName f1 \<notin> bestName ` set p2" by (simp add: last_by_name_None)
    from Cons.prems None obtain r q where rq: "interdiff_first env p2 fs = Some (r, q)"
      and eq: "files = \<lparr>if_File = Some (reverseDiff f1), if_Name = bestName f1,
         if_Status = \<lparr>st_Kind = StatusOnlyInOne, st_Error = None\<rparr>\<rparr> # r" "p1' = reverseDiff f1 # q"
      by (auto simp: Let_def)
    from Cons.IH [OF rq] eq out show ?thesis
      by (auto simp: entry_ok_def Interdiff_CanRender_def status_defs)
  next
    case (Some f2)
    then have isin: "bestName f1 \<in> bestName ` set p2" by (metis image_eqI last_by_name_Some)
    from Cons.prems Some obtain x r q where x: "interdiffFiles env f1 f2 = Some x"
      and rq: "interdiff_first env p2 fs = Some (r, q)" and eq: "files = x # r" "p1' = f1 # q"
      by (auto split: option.splits)
    from Cons.IH [OF rq] interdiffFiles_ok [OF x] eq isin show ?thesis
      by (auto simp: status_defs)
  qed
qed simp

lemma entry_ok_only_in_two: "entry_ok (only_in_two f)"
  by (simp add: entry_ok_def only_in_two_def Interdiff_CanRender_def status_defs)

lemma interdiffFiles_returns:
  assumes "ascending 0 (im_Data (CreatePreImage f1))" and "ascending 0 (im_Data (CreatePreImage f2))"
  shows "interdiffFiles env f1 f2 \<noteq> None"
proof (cases "Merge (CreatePreImage f1) (CreatePreImage f2)")
  case (Inr m)
  have "ascending 0 (im_Data m)"
    using assms Inr by (rule Merge_ascending)
  then obtain s where s: "image_String m = Some s"
    using image_String_returns_iff by blast
  show ?thesis
  proof (cases "pe_Apply env s f1")
    case (Inl e)
    with Inr s show ?thesis by (simp add: interdiffFiles_def image_Apply_def Let_def)
  next
    case one: (Inr r1)
    show ?thesis
    proof (cases "pe_Apply env s f2")
      case (Inl e)
      with Inr s one show ?thesis by (simp add: interdiffFiles_def image_Apply_def Let_def)
    next
      case two: (Inr r2)
      show ?thesis
        by (cases "Unified env r1 (bestName f1) r2 (bestName f2)")
           (simp_all add: interdiffFiles_def image_Apply_def Let_def Inr s one two
             split: prod.split option.split)
    qed
  qed
qed (simp add: interdiffFiles_def Let_def)

lemma interdiff_first_returns:
  assumes "\<forall>f \<in> set p1 \<union> set p2. ascending 0 (im_Data (CreatePreImage f))"
  shows "\<exists>r. interdiff_first env p2 p1 = Some r"
  using assms
proof (induction p1)
  case (Cons f1 fs)
  then obtain r q where rq: "interdiff_first env p2 fs = Some (r, q)" by auto
  show ?case
  proof (cases "last_by_name p2 (bestName f1)")
    case (Some f2)
    have "f2 \<in> set p2" using Some by (blast dest: last_by_name_Some)
    then obtain x where "interdiffFiles env f1 f2 = Some x"
      using interdiffFiles_returns [of f1 f2 env] Cons.prems by auto
    with rq Some show ?thesis by simp
  qed (simp add: rq Let_def)
qed simp



section \<open>The interface DiffFileRenderer\<close>

interpretation inter: diff_file_renderer
  entry_ok Interdiff_Id Interdiff_CanRender "Interdiff_Split header" if_fragments
proof unfold_locales
  fix f :: "'a InterdiffFile" and d
  show "entry_ok f \<Longrightarrow> Interdiff_CanRender f = [] \<Longrightarrow> Interdiff_Split header f \<noteq> None"
    by (auto simp: entry_ok_def Interdiff_Split_def split: option.splits)
  show "Interdiff_Split header f = Some d \<Longrightarrow> sd_Name d = Interdiff_Id f"
    by (auto simp: Interdiff_Split_def split: option.splits)
  show "Interdiff_Split header f = Some d \<Longrightarrow>
      map (\<lambda>s. (sf_LeftLines s, sf_RightLines s)) (sd_TextFragments d) = map SeparateLines (if_fragments f)"
    by (auto simp: Interdiff_Split_def if_fragments_def split_fragment_sides comp_def split: option.splits)
qed

text \<open>
  Every entry of an interdiff that reports no reason against displaying it has a split view: asking
  for it does not run into the missing file, its name is the entry's, and both columns of every
  fragment have the same length.
\<close>

theorem Interdiff_entries_render:
  assumes "Interdiff env p1 p2 = Some (files, p1')" and "s \<in> set files"
    and "Interdiff_CanRender s = []"
  shows "\<exists>d. Interdiff_Split header s = Some d \<and> sd_Name d = if_Name s \<and>
     (\<forall>t \<in> set (sd_TextFragments d). length (sf_LeftLines t) = length (sf_RightLines t))"
proof -
  from assms(1) obtain fs where fs: "interdiff_first env p2 p1 = Some (fs, p1')"
    and files: "files = fs @ map only_in_two (unvisited p1 p2)"
    by (auto simp: Interdiff_def)
  have "entry_ok s"
    using assms(2) interdiff_first_spec [OF fs] by (auto simp: files entry_ok_only_in_two)
  from inter.displayed [OF this assms(3)] show ?thesis
    by (metis Interdiff_Id_def)
qed

theorem Interdiff_entries_render_witness:
  "let s = only_in_two (context_file ''b'' 1 ''y'') :: unit InterdiffFile
   in \<exists>d. Interdiff_Split (\<lambda>t. ''@@'') s = Some d \<and> sd_Name d = ''b''"
proof -
  let ?s = "only_in_two (context_file ''b'' 1 ''y'') :: unit InterdiffFile"
  have run: "Interdiff quiet_env [] [context_file ''b'' 1 ''y''] = Some ([?s], [])"
    by (simp add: Interdiff_def unvisited_def)
  have "Interdiff_CanRender ?s = []"
    by (simp add: only_in_two_def Interdiff_CanRender_def status_defs)
  from Interdiff_entries_render [OF run _ this, of "\<lambda>t. ''@@''"] show ?thesis
    by (auto simp: only_in_two_def)
qed

end
