(* ===== verification/Workflow.thy ===== *)
theory Workflow
  imports Go_Prelude
begin

text \<open>
  Workflows: \<^verbatim>\<open>workflow/def.go\<close> and \<^verbatim>\<open>workflow/compile.go\<close>, which decide what runs when a repository
  changes and compile the workflow files of the repository to the pipeline a spindle accepts.

  The glob matcher (package \<^verbatim>\<open>doublestar\<close>), the YAML decoder and the reference names of
  \<^verbatim>\<open>go-git\<close> are other packages: they are fields of \<open>WorkflowEnv\<close>. Errors are strings, as the code only
  ever prints them. A Go \<^verbatim>\<open>int\<close> that is only compared and printed is an \<^typ>\<open>int\<close>.
\<close>

section \<open>Triggers\<close>

record TriggerRepo =
  tr_DefaultBranch :: string
  tr_Did :: string
  tr_Knot :: string
  tr_Repo :: string

record PushTriggerData =
  pt_NewSha :: string
  pt_OldSha :: string
  pt_Ref :: string

record PullRequestTriggerData =
  pr_Action :: string
  pr_SourceBranch :: string
  pr_SourceSha :: string
  pr_TargetBranch :: string

type_synonym ManualTriggerData = "(string \<times> string) list"

record TriggerMetadata =
  tm_Kind :: string
  tm_Manual :: "ManualTriggerData option"
  tm_PullRequest :: "PullRequestTriggerData option"
  tm_Push :: "PushTriggerData option"
  tm_Repo :: "TriggerRepo option"

definition TriggerKindPush :: string where "TriggerKindPush = ''push''"
definition TriggerKindPullRequest :: string where "TriggerKindPullRequest = ''pull_request''"
definition TriggerKindManual :: string where "TriggerKindManual = ''manual''"

lemmas trigger_kinds = TriggerKindPush_def TriggerKindPullRequest_def TriggerKindManual_def

definition TriggerKind_String :: "string \<Rightarrow> string" where
  "TriggerKind_String t = replaceAll t ''_'' '' ''"

section \<open>Workflow files\<close>

record CloneOpts =
  co_Skip :: bool
  co_Depth :: int
  co_IncludeSubmodules :: bool

record Constraint =
  cs_Event :: "string list"
  cs_Branch :: "string list"
  cs_Tag :: "string list"

record Workflow =
  wf_Name :: string
  wf_Engine :: string
  wf_When :: "Constraint list"
  wf_CloneOpts :: CloneOpts
  wf_Raw :: string

type_synonym Pipeline = "Workflow list"

record WorkflowEnv =
  glob :: "string \<Rightarrow> string \<Rightarrow> (string, bool) result"
  unmarshal :: "string \<Rightarrow> (string, Workflow) result"
  ref_short :: "string \<Rightarrow> string"
  ref_is_branch :: "string \<Rightarrow> bool"
  ref_is_tag :: "string \<Rightarrow> bool"

fun matchesPattern :: "WorkflowEnv \<Rightarrow> string \<Rightarrow> string list \<Rightarrow> (string, bool) result" where
  "matchesPattern env name [] = Inr False"
| "matchesPattern env name (pattern # patterns) =
     (case glob env pattern name of
        Inl e \<Rightarrow> Inl e
      | Inr True \<Rightarrow> Inr True
      | Inr False \<Rightarrow> matchesPattern env name patterns)"

definition FromFile :: "WorkflowEnv \<Rightarrow> string \<Rightarrow> string \<Rightarrow> (string, Workflow) result" where
  "FromFile env name contents =
     (case unmarshal env contents of
        Inl e \<Rightarrow> Inl e
      | Inr w \<Rightarrow> Inr (w\<lparr>wf_Name := name, wf_Raw := contents\<rparr>))"

definition MatchBranch :: "WorkflowEnv \<Rightarrow> Constraint \<Rightarrow> string \<Rightarrow> (string, bool) result" where
  "MatchBranch env c branch = matchesPattern env branch (cs_Branch c)"

definition MatchTag :: "WorkflowEnv \<Rightarrow> Constraint \<Rightarrow> string \<Rightarrow> (string, bool) result" where
  "MatchTag env c tag = matchesPattern env tag (cs_Tag c)"

definition MatchEvent :: "Constraint \<Rightarrow> string \<Rightarrow> bool" where
  "MatchEvent c event \<longleftrightarrow> event \<in> set (cs_Event c)"

definition MatchRef :: "WorkflowEnv \<Rightarrow> Constraint \<Rightarrow> string \<Rightarrow> (string, bool) result" where
  "MatchRef env c ref =
     (let shortName = ref_short env ref
      in if ref_is_branch env ref then MatchBranch env c shortName
         else if ref_is_tag env ref then MatchTag env c shortName
         else Inr False)"

text \<open>A failing branch or ref constraint returns even when the event did not match.\<close>

definition Constraint_Match :: "WorkflowEnv \<Rightarrow> Constraint \<Rightarrow> TriggerMetadata \<Rightarrow> (string, bool) result" where
  "Constraint_Match env c trigger =
     (if tm_Manual trigger \<noteq> None then Inr True
      else
        bind_result
          (case tm_PullRequest trigger of
             None \<Rightarrow> Inr (MatchEvent c (tm_Kind trigger))
           | Some pull \<Rightarrow>
               map_sum id (\<lambda>matched. MatchEvent c (tm_Kind trigger) \<and> matched)
                 (MatchBranch env c (pr_TargetBranch pull)))
          (\<lambda>match.
             case tm_Push trigger of
               None \<Rightarrow> Inr match
             | Some push \<Rightarrow> map_sum id (\<lambda>matched. match \<and> matched) (MatchRef env c (pt_Ref push))))"

fun match_any :: "WorkflowEnv \<Rightarrow> TriggerMetadata \<Rightarrow> Constraint list \<Rightarrow> (string, bool) result" where
  "match_any env trigger [] = Inr False"
| "match_any env trigger (c # cs) =
     (case Constraint_Match env c trigger of
        Inl e \<Rightarrow> Inl e
      | Inr True \<Rightarrow> Inr True
      | Inr False \<Rightarrow> match_any env trigger cs)"

definition Workflow_Match :: "WorkflowEnv \<Rightarrow> Workflow \<Rightarrow> TriggerMetadata \<Rightarrow> (string, bool) result" where
  "Workflow_Match env w trigger =
     (if tm_Manual trigger \<noteq> None then Inr True
      else case match_any env trigger (wf_When w) of
             Inl e \<Rightarrow> Inl e
           | Inr True \<Rightarrow> Inr True
           | Inr False \<Rightarrow> Inr (length (wf_When w) = 0))"

text \<open>
  \<^verbatim>\<open>StringList.UnmarshalYAML\<close>: the two arguments are what decoding the node as a string and as a
  list of values gives; a value of the list is a string or something else (of a type with a name).
\<close>

datatype yaml_value = YString string | YOther string string

fun all_strings :: "yaml_value list \<Rightarrow> (string, string list) result" where
  "all_strings [] = Inr []"
| "all_strings (YString s # vs) = map_sum id ((#) s) (all_strings vs)"
| "all_strings (YOther v ty # vs) =
     Inl (''cannot unmarshal '' @ [CHR 0x27] @ v @ [CHR 0x27] @ '' of type '' @ ty @ '' into a string value'')"

definition UnmarshalYAML ::
  "(string, string) result \<Rightarrow> (string, yaml_value list option) result \<Rightarrow> (string, string list option) result" where
  "UnmarshalYAML as_string as_slice =
     (case as_string of
        Inr s \<Rightarrow> Inr (Some [s])
      | Inl _ \<Rightarrow>
          case as_slice of
            Inr None \<Rightarrow> Inr None
          | Inr (Some vs) \<Rightarrow> map_sum id Some (all_strings vs)
          | Inl _ \<Rightarrow> Inl ''failed to unmarshal StringOrSlice'')"

record CloneOptsRecord =
  cr_Depth :: int
  cr_Skip :: bool
  cr_Submodules :: bool

definition CloneOpts_AsRecord :: "CloneOpts \<Rightarrow> CloneOptsRecord" where
  "CloneOpts_AsRecord c = \<lparr>cr_Depth = co_Depth c, cr_Skip = co_Skip c, cr_Submodules = co_IncludeSubmodules c\<rparr>"

section \<open>The compiler\<close>

record WorkflowError =
  er_Path :: string
  er_Error :: string

record Warning =
  wn_Path :: string
  wn_Type :: string
  wn_Reason :: string

record Diagnostics =
  dg_Errors :: "WorkflowError list"
  dg_Warnings :: "Warning list"

definition Diagnostics_IsEmpty :: "Diagnostics \<Rightarrow> bool" where
  "Diagnostics_IsEmpty d \<longleftrightarrow> length (dg_Errors d) = 0 \<and> length (dg_Warnings d) = 0"

definition Combine :: "Diagnostics \<Rightarrow> Diagnostics \<Rightarrow> Diagnostics" where
  "Combine d e = \<lparr>dg_Errors = dg_Errors d @ dg_Errors e, dg_Warnings = dg_Warnings d @ dg_Warnings e\<rparr>"

definition AddWarning :: "Diagnostics \<Rightarrow> string \<Rightarrow> string \<Rightarrow> string \<Rightarrow> Diagnostics" where
  "AddWarning d path kind reason =
     d\<lparr>dg_Warnings := dg_Warnings d @ [\<lparr>wn_Path = path, wn_Type = kind, wn_Reason = reason\<rparr>]\<rparr>"

definition AddError :: "Diagnostics \<Rightarrow> string \<Rightarrow> string \<Rightarrow> Diagnostics" where
  "AddError d path err = d\<lparr>dg_Errors := dg_Errors d @ [\<lparr>er_Path = path, er_Error = err\<rparr>]\<rparr>"

definition Diagnostics_IsErr :: "Diagnostics \<Rightarrow> bool" where
  "Diagnostics_IsErr d \<longleftrightarrow> length (dg_Errors d) \<noteq> 0"

definition Error_String :: "WorkflowError \<Rightarrow> string" where
  "Error_String e = ''error: '' @ er_Path e @ '': '' @ er_Error e"

definition Warning_String :: "Warning \<Rightarrow> string" where
  "Warning_String w = ''warning: '' @ wn_Path w @ '': '' @ wn_Type w @ '': '' @ wn_Reason w"

definition MissingEngine :: string where "MissingEngine = ''missing engine''"
definition WorkflowSkipped :: string where "WorkflowSkipped = ''workflow skipped''"
definition InvalidConfiguration :: string where "InvalidConfiguration = ''invalid configuration''"

record RawWorkflow =
  rw_Name :: string
  rw_Contents :: string

record PipelineWorkflow =
  pw_Clone :: "CloneOptsRecord option"
  pw_Engine :: string
  pw_Name :: string
  pw_Raw :: string

record CompiledPipeline =
  cp_TriggerMetadata :: TriggerMetadata
  cp_Workflows :: "PipelineWorkflow list"

record Compiler =
  cc_Trigger :: TriggerMetadata
  cc_Diagnostics :: Diagnostics

definition diagnose :: "(Diagnostics \<Rightarrow> Diagnostics) \<Rightarrow> Compiler \<Rightarrow> Compiler" where
  "diagnose f compiler = compiler\<lparr>cc_Diagnostics := f (cc_Diagnostics compiler)\<rparr>"

fun Parse :: "WorkflowEnv \<Rightarrow> Compiler \<Rightarrow> RawWorkflow list \<Rightarrow> Pipeline \<times> Compiler" where
  "Parse env compiler [] = ([], compiler)"
| "Parse env compiler (w # p) =
     (case FromFile env (rw_Name w) (rw_Contents w) of
        Inl err \<Rightarrow> Parse env (diagnose (\<lambda>d. AddError d (rw_Name w) err) compiler) p
      | Inr w' \<Rightarrow> let (pp, compiler') = Parse env compiler p in (w' # pp, compiler'))"

definition analyzeCloneOptions :: "Compiler \<Rightarrow> Workflow \<Rightarrow> Compiler" where
  "analyzeCloneOptions compiler w =
     (let o1 = (if co_Skip (wf_CloneOpts w) \<and> co_IncludeSubmodules (wf_CloneOpts w)
                then diagnose (\<lambda>d. AddWarning d (wf_Name w) InvalidConfiguration
                       ''cannot apply `clone.skip` and `clone.submodules`'') compiler
                else compiler)
      in if co_Skip (wf_CloneOpts w) \<and> co_Depth (wf_CloneOpts w) > 0
         then diagnose (\<lambda>d. AddWarning d (wf_Name w) InvalidConfiguration
                ''cannot apply `clone.skip` and `clone.depth`'') o1
         else o1)"

definition compileWorkflow :: "WorkflowEnv \<Rightarrow> Compiler \<Rightarrow> Workflow \<Rightarrow> PipelineWorkflow option \<times> Compiler" where
  "compileWorkflow env compiler w =
     (case Workflow_Match env w (cc_Trigger compiler) of
        Inl err \<Rightarrow>
          (None, diagnose (\<lambda>d. AddError d (wf_Name w) (''failed to execute workflow: '' @ err)) compiler)
      | Inr False \<Rightarrow>
          (None, diagnose (\<lambda>d. AddWarning d (wf_Name w) WorkflowSkipped
                   (''did not match trigger '' @ tm_Kind (cc_Trigger compiler))) compiler)
      | Inr True \<Rightarrow>
          let compiler1 = analyzeCloneOptions compiler w
          in if wf_Engine w = [] then
               (None, diagnose (\<lambda>d. AddError d (wf_Name w) MissingEngine) compiler1)
             else
               (Some \<lparr>pw_Clone = Some (CloneOpts_AsRecord (wf_CloneOpts w)), pw_Engine = wf_Engine w,
                      pw_Name = wf_Name w, pw_Raw = wf_Raw w\<rparr>, compiler1))"

fun compile_loop :: "WorkflowEnv \<Rightarrow> Compiler \<Rightarrow> Pipeline \<Rightarrow> PipelineWorkflow list \<times> Compiler" where
  "compile_loop env compiler [] = ([], compiler)"
| "compile_loop env compiler (w # p) =
     (let (cw, compiler1) = compileWorkflow env compiler w;
          (cws, compiler2) = compile_loop env compiler1 p
      in ((case cw of None \<Rightarrow> cws | Some c \<Rightarrow> c # cws), compiler2))"

definition Compile :: "WorkflowEnv \<Rightarrow> Compiler \<Rightarrow> Pipeline \<Rightarrow> CompiledPipeline \<times> Compiler" where
  "Compile env compiler p =
     (let (cws, compiler') = compile_loop env compiler p
      in (\<lparr>cp_TriggerMetadata = cc_Trigger compiler', cp_Workflows = cws\<rparr>, compiler'))"

section \<open>What matches\<close>

text \<open>
  The meaning of patterns and constraints, for patterns the glob matcher accepts: \<open>globs\<close> says that
  it accepts all patterns of a workflow.
\<close>

definition matches :: "WorkflowEnv \<Rightarrow> string \<Rightarrow> string list \<Rightarrow> bool" where
  "matches env name patterns \<longleftrightarrow> (\<exists>p \<in> set patterns. glob env p name = Inr True)"

definition globs :: "WorkflowEnv \<Rightarrow> Workflow \<Rightarrow> bool" where
  "globs env w \<longleftrightarrow> (\<forall>c \<in> set (wf_When w). \<forall>p \<in> set (cs_Branch c @ cs_Tag c). \<forall>name. is_ok (glob env p name))"

definition satisfied :: "WorkflowEnv \<Rightarrow> TriggerMetadata \<Rightarrow> Constraint \<Rightarrow> bool" where
  "satisfied env trigger c \<longleftrightarrow>
     tm_Kind trigger \<in> set (cs_Event c) \<and>
     (case tm_PullRequest trigger of
        None \<Rightarrow> True | Some pull \<Rightarrow> matches env (pr_TargetBranch pull) (cs_Branch c)) \<and>
     (case tm_Push trigger of
        None \<Rightarrow> True
      | Some push \<Rightarrow>
          ref_is_branch env (pt_Ref push) \<and> matches env (ref_short env (pt_Ref push)) (cs_Branch c) \<or>
          \<not> ref_is_branch env (pt_Ref push) \<and> ref_is_tag env (pt_Ref push) \<and>
            matches env (ref_short env (pt_Ref push)) (cs_Tag c))"

definition runs :: "WorkflowEnv \<Rightarrow> Workflow \<Rightarrow> TriggerMetadata \<Rightarrow> bool" where
  "runs env w trigger \<longleftrightarrow>
     tm_Manual trigger \<noteq> None \<or> wf_When w = [] \<or> (\<exists>c \<in> set (wf_When w). satisfied env trigger c)"

lemma is_ok_iff: "is_ok r \<longleftrightarrow> (\<exists>x. r = Inr x)"
  by (cases r) auto

lemma matchesPattern_matches:
  "\<forall>p \<in> set patterns. is_ok (glob env p name) \<Longrightarrow> matchesPattern env name patterns = Inr (matches env name patterns)"
  by (induction patterns) (auto simp: matches_def is_ok_iff split: bool.splits)

lemma Constraint_Match_satisfied:
  assumes "\<forall>p \<in> set (cs_Branch c @ cs_Tag c). \<forall>name. is_ok (glob env p name)"
  shows "Constraint_Match env c trigger = Inr (tm_Manual trigger \<noteq> None \<or> satisfied env trigger c)"
proof -
  have "matchesPattern env name (cs_Branch c) = Inr (matches env name (cs_Branch c))"
    "matchesPattern env name (cs_Tag c) = Inr (matches env name (cs_Tag c))" for name
    using assms by (simp_all add: matchesPattern_matches)
  then show ?thesis
    by (auto simp: Constraint_Match_def satisfied_def MatchBranch_def MatchTag_def MatchRef_def MatchEvent_def Let_def
        split: option.split)
qed

lemma match_any_satisfied:
  assumes "\<forall>c \<in> set cs. \<forall>p \<in> set (cs_Branch c @ cs_Tag c). \<forall>name. is_ok (glob env p name)"
    and "tm_Manual trigger = None"
  shows "match_any env trigger cs = Inr (\<exists>c \<in> set cs. satisfied env trigger c)"
  using assms by (induction cs) (auto simp: Constraint_Match_satisfied split: bool.split)

lemma Workflow_Match_runs: "globs env w \<Longrightarrow> Workflow_Match env w trigger = Inr (runs env w trigger)"
  by (auto simp: Workflow_Match_def globs_def runs_def match_any_satisfied split: sum.split bool.split)

section \<open>What the compiler produces\<close>

definition compiled :: "Workflow \<Rightarrow> PipelineWorkflow" where
  "compiled w = \<lparr>pw_Clone = Some (CloneOpts_AsRecord (wf_CloneOpts w)), pw_Engine = wf_Engine w,
     pw_Name = wf_Name w, pw_Raw = wf_Raw w\<rparr>"

definition accepted :: "WorkflowEnv \<Rightarrow> TriggerMetadata \<Rightarrow> Workflow \<Rightarrow> bool" where
  "accepted env trigger w \<longleftrightarrow> Workflow_Match env w trigger = Inr True \<and> wf_Engine w \<noteq> []"

definition rejected :: "WorkflowEnv \<Rightarrow> TriggerMetadata \<Rightarrow> Workflow \<Rightarrow> bool" where
  "rejected env trigger w \<longleftrightarrow>
     \<not> is_ok (Workflow_Match env w trigger) \<or> Workflow_Match env w trigger = Inr True \<and> wf_Engine w = []"

definition skipped :: "WorkflowEnv \<Rightarrow> TriggerMetadata \<Rightarrow> Workflow \<Rightarrow> bool" where
  "skipped env trigger w \<longleftrightarrow> Workflow_Match env w trigger = Inr False"

lemma diagnose_simps [simp]:
  "cc_Trigger (diagnose f compiler) = cc_Trigger compiler"
  "cc_Diagnostics (diagnose f compiler) = f (cc_Diagnostics compiler)"
  by (simp_all add: diagnose_def)

lemma analyze_simps [simp]:
  "cc_Trigger (analyzeCloneOptions compiler w) = cc_Trigger compiler"
  "dg_Errors (cc_Diagnostics (analyzeCloneOptions compiler w)) = dg_Errors (cc_Diagnostics compiler)"
  by (simp_all add: analyzeCloneOptions_def Let_def AddWarning_def)

lemma analyze_warnings:
  "filter (\<lambda>x. wn_Type x = WorkflowSkipped) (dg_Warnings (cc_Diagnostics (analyzeCloneOptions compiler w))) =
   filter (\<lambda>x. wn_Type x = WorkflowSkipped) (dg_Warnings (cc_Diagnostics compiler))"
  by (simp add: analyzeCloneOptions_def Let_def AddWarning_def WorkflowSkipped_def InvalidConfiguration_def)

lemma compileWorkflow_result:
  "fst (compileWorkflow env compiler w) = (if accepted env (cc_Trigger compiler) w then Some (compiled w) else None)"
  by (auto simp: compileWorkflow_def accepted_def compiled_def Let_def split: sum.split bool.split)

lemma compileWorkflow_trigger [simp]: "cc_Trigger (snd (compileWorkflow env compiler w)) = cc_Trigger compiler"
  by (auto simp: compileWorkflow_def Let_def split: sum.split bool.split)

lemma compileWorkflow_errors:
  "map er_Path (dg_Errors (cc_Diagnostics (snd (compileWorkflow env compiler w)))) =
     map er_Path (dg_Errors (cc_Diagnostics compiler)) @
     (if rejected env (cc_Trigger compiler) w then [wf_Name w] else [])"
  by (auto simp: compileWorkflow_def rejected_def AddError_def AddWarning_def Let_def split: sum.split bool.split)

lemma compileWorkflow_skips:
  "map wn_Path (filter (\<lambda>x. wn_Type x = WorkflowSkipped)
      (dg_Warnings (cc_Diagnostics (snd (compileWorkflow env compiler w))))) =
     map wn_Path (filter (\<lambda>x. wn_Type x = WorkflowSkipped) (dg_Warnings (cc_Diagnostics compiler))) @
     (if skipped env (cc_Trigger compiler) w then [wf_Name w] else [])"
  using analyze_warnings [of compiler w]
  by (auto simp: compileWorkflow_def skipped_def AddError_def AddWarning_def Let_def split: sum.split bool.split)

lemma compile_loop_trigger [simp]: "cc_Trigger (snd (compile_loop env compiler p)) = cc_Trigger compiler"
  by (induction p arbitrary: compiler) (auto simp: split_beta Let_def)

lemma compile_loop_spec:
  "fst (compile_loop env compiler p) = map compiled (filter (accepted env (cc_Trigger compiler)) p)"
  "map er_Path (dg_Errors (cc_Diagnostics (snd (compile_loop env compiler p)))) =
     map er_Path (dg_Errors (cc_Diagnostics compiler)) @
     map wf_Name (filter (rejected env (cc_Trigger compiler)) p)"
  "map wn_Path (filter (\<lambda>x. wn_Type x = WorkflowSkipped)
      (dg_Warnings (cc_Diagnostics (snd (compile_loop env compiler p))))) =
     map wn_Path (filter (\<lambda>x. wn_Type x = WorkflowSkipped) (dg_Warnings (cc_Diagnostics compiler))) @
     map wf_Name (filter (skipped env (cc_Trigger compiler)) p)"
  by (induction p arbitrary: compiler)
    (simp_all add: split_beta Let_def compileWorkflow_result compileWorkflow_errors compileWorkflow_skips)

text \<open>
  C26. A workflow whose patterns are valid globs is run exactly if the trigger is manual, it has no
  constraints, or one constraint names the kind of the trigger and a pattern of it matches the
  target branch of the pull request, or the branch or tag that was pushed.
\<close>

theorem Workflow_Match_correct:
  assumes "globs env w"
  shows "Workflow_Match env w trigger = Inr (runs env w trigger)"
  using assms by (rule Workflow_Match_runs)

definition exact_env :: WorkflowEnv where
  "exact_env = \<lparr>glob = (\<lambda>p name. Inr (p = name)), unmarshal = (\<lambda>c. Inl c), ref_short = drop 11,
     ref_is_branch = (\<lambda>r. hasPrefix r ''refs/heads/''), ref_is_tag = (\<lambda>r. hasPrefix r ''refs/tags/'')\<rparr>"

definition push_workflow :: Workflow where
  "push_workflow = \<lparr>wf_Name = ''test.yml'', wf_Engine = ''nixery'',
     wf_When = [\<lparr>cs_Event = [''push''], cs_Branch = [''main''], cs_Tag = []\<rparr>],
     wf_CloneOpts = \<lparr>co_Skip = False, co_Depth = 0, co_IncludeSubmodules = False\<rparr>, wf_Raw = ''engine: nixery''\<rparr>"

definition push_trigger :: TriggerMetadata where
  "push_trigger = \<lparr>tm_Kind = ''push'', tm_Manual = None, tm_PullRequest = None,
     tm_Push = Some \<lparr>pt_NewSha = ''b'', pt_OldSha = ''a'', pt_Ref = ''refs/heads/main''\<rparr>, tm_Repo = None\<rparr>"

theorem Workflow_Match_correct_witness:
  "Workflow_Match exact_env push_workflow push_trigger = Inr (runs exact_env push_workflow push_trigger) \<and>
   runs exact_env push_workflow push_trigger"
proof -
  have "globs exact_env push_workflow" by (simp add: globs_def exact_env_def)
  moreover have "runs exact_env push_workflow push_trigger"
    by (simp add: runs_def satisfied_def matches_def exact_env_def push_workflow_def push_trigger_def hasPrefix_def)
  ultimately show ?thesis using Workflow_Match_correct by simp
qed

text \<open>
  C25. Compiling a pipeline keeps exactly the workflows that match and name an engine, in their
  order and with their content, and accounts for all others: the paths of the new errors are the
  workflows that failed to match or have no engine, those of the new skip warnings the ones that
  did not match.
\<close>

theorem Compile_correct:
  "cp_Workflows (fst (Compile env compiler p)) = map compiled (filter (accepted env (cc_Trigger compiler)) p) \<and>
   cp_TriggerMetadata (fst (Compile env compiler p)) = cc_Trigger compiler \<and>
   map er_Path (dg_Errors (cc_Diagnostics (snd (Compile env compiler p)))) =
     map er_Path (dg_Errors (cc_Diagnostics compiler)) @ map wf_Name (filter (rejected env (cc_Trigger compiler)) p) \<and>
   map wn_Path (filter (\<lambda>x. wn_Type x = WorkflowSkipped) (dg_Warnings (cc_Diagnostics (snd (Compile env compiler p))))) =
     map wn_Path (filter (\<lambda>x. wn_Type x = WorkflowSkipped) (dg_Warnings (cc_Diagnostics compiler))) @
     map wf_Name (filter (skipped env (cc_Trigger compiler)) p) \<and>
   length (filter (accepted env (cc_Trigger compiler)) p) + length (filter (rejected env (cc_Trigger compiler)) p) +
     length (filter (skipped env (cc_Trigger compiler)) p) = length p"
proof -
  have "length (filter (accepted env t) p) + length (filter (rejected env t) p) + length (filter (skipped env t) p) = length p" for t
  proof (induction p)
    case (Cons w p)
    consider e where "Workflow_Match env w t = Inl e" | "Workflow_Match env w t = Inr True"
      | "Workflow_Match env w t = Inr False"
    proof (cases "Workflow_Match env w t")
      case (Inr b)
      with that show thesis by (cases b) auto
    qed
    then show ?case
      by cases (use Cons in \<open>simp_all add: accepted_def rejected_def skipped_def\<close>)
  qed simp
  then show ?thesis
    by (simp add: Compile_def split_beta Let_def compile_loop_spec)
qed

end
