(* ===== verification/Spindle_Steps.thy ===== *)
theory Spindle_Steps
  imports Workflow
begin

text \<open>
  What a spindle derives from a compiled pipeline and its trigger: the clone step
  (\<^verbatim>\<open>spindle/models/clone.go\<close>), the environment of the steps (\<^verbatim>\<open>spindle/models/pipeline_env.go\<close>), the
  identifiers (\<^verbatim>\<open>spindle/models/models.go\<close>) and the mask that keeps secrets out of the logs
  (\<^verbatim>\<open>spindle/models/secret_mask.go\<close>, \<^verbatim>\<open>spindle/models/logger.go\<close>).
\<close>

section \<open>Identifiers\<close>

definition PipelineNSID :: string where
  "PipelineNSID = ''sh.tangled.pipeline''"

record PipelineId =
  pid_Knot :: string
  pid_Rkey :: string

definition PipelineId_AtUri :: "PipelineId \<Rightarrow> string" where
  "PipelineId_AtUri p = ''at://did:web:'' @ pid_Knot p @ ''/'' @ PipelineNSID @ ''/'' @ pid_Rkey p"

record WorkflowId =
  wid_PipelineId :: PipelineId
  wid_Name :: string

text \<open>
  The regular expression \<^verbatim>\<open>[^a-zA-Z0-9_.-]\<close> replaces a character by one dash. Go matches runes, so
  the bytes of one character of UTF-8 (a lead byte followed by its continuation bytes) give one
  dash, as does a byte that is no valid encoding. \<open>rune_len\<close> is the length of the rune at the
  front of a string, as \<^verbatim>\<open>utf8.DecodeRuneInString\<close> gives it.
\<close>

definition is_ident_char :: "char \<Rightarrow> bool" where
  "is_ident_char c \<longleftrightarrow>
     (let n = of_char c :: nat
      in 97 \<le> n \<and> n \<le> 122 \<or> 65 \<le> n \<and> n \<le> 90 \<or> 48 \<le> n \<and> n \<le> 57 \<or> c = CHR ''_'' \<or> c = CHR ''.'' \<or> c = CHR ''-'')"

fun normalize_fuel :: "(string \<Rightarrow> nat) \<Rightarrow> nat \<Rightarrow> string \<Rightarrow> string" where
  "normalize_fuel rune_len 0 s = []"
| "normalize_fuel rune_len (Suc n) [] = []"
| "normalize_fuel rune_len (Suc n) (c # s) =
     (if is_ident_char c then c # normalize_fuel rune_len n s
      else CHR ''-'' # normalize_fuel rune_len n (drop (rune_len (c # s) - 1) s))"

definition normalize :: "(string \<Rightarrow> nat) \<Rightarrow> string \<Rightarrow> string" where
  "normalize rune_len name = normalize_fuel rune_len (length name) name"

definition WorkflowId_String :: "(string \<Rightarrow> nat) \<Rightarrow> WorkflowId \<Rightarrow> string" where
  "WorkflowId_String rune_len wid =
     normalize rune_len (pid_Knot (wid_PipelineId wid)) @ ''-'' @ pid_Rkey (wid_PipelineId wid) @ ''-'' @
     normalize rune_len (wid_Name wid)"

section \<open>The clone step\<close>

datatype StepKind = StepKindSystem | StepKindUser

record CloneStep =
  cl_name :: string
  cl_kind :: StepKind
  cl_commands :: "string list"

definition CloneStep_Command :: "CloneStep \<Rightarrow> string" where
  "CloneStep_Command s = joinWith [newline] (cl_commands s)"

definition extractCommitSHA :: "TriggerMetadata \<Rightarrow> (string, string) result" where
  "extractCommitSHA tr =
     (if tm_Kind tr = TriggerKindPush then
        case tm_Push tr of None \<Rightarrow> Inl ''push trigger metadata is nil'' | Some push \<Rightarrow> Inr (pt_NewSha push)
      else if tm_Kind tr = TriggerKindPullRequest then
        case tm_PullRequest tr of
          None \<Rightarrow> Inl ''pull request trigger metadata is nil'' | Some pull \<Rightarrow> Inr (pr_SourceSha pull)
      else if tm_Kind tr = TriggerKindManual then Inr []
      else Inl (''unknown trigger kind: '' @ tm_Kind tr))"

definition BuildRepoURL :: "TriggerRepo option \<Rightarrow> bool \<Rightarrow> string" where
  "BuildRepoURL repo devMode =
     (case repo of
        None \<Rightarrow> []
      | Some repo \<Rightarrow>
          let scheme = (if devMode then ''http://'' else ''https://'');
              host = (if devMode \<and> contains (tr_Knot repo) ''localhost''
                      then replaceAll (tr_Knot repo) ''localhost'' ''host.docker.internal''
                      else tr_Knot repo)
          in scheme @ host @ ''/'' @ tr_Did repo @ ''/'' @ tr_Repo repo)"

definition buildFetchArgs :: "CloneOptsRecord \<Rightarrow> string \<Rightarrow> string list" where
  "buildFetchArgs clone sha =
     (let depth = (if cr_Depth clone = 0 then 1 else cr_Depth clone)
      in [''--depth='' @ itoa depth] @
         (if cr_Submodules clone then [''--recurse-submodules=yes''] else []) @
         [''origin''] @ (if sha \<noteq> [] then [sha] else []))"

definition zero_clone_opts :: CloneOptsRecord where
  "zero_clone_opts = \<lparr>cr_Depth = 0, cr_Skip = False, cr_Submodules = False\<rparr>"

definition empty_step :: CloneStep where
  "empty_step = \<lparr>cl_name = [], cl_kind = StepKindSystem, cl_commands = []\<rparr>"

definition BuildCloneStep :: "PipelineWorkflow \<Rightarrow> TriggerMetadata \<Rightarrow> bool \<Rightarrow> CloneStep" where
  "BuildCloneStep twf tr dev =
     (if (case pw_Clone twf of None \<Rightarrow> False | Some clone \<Rightarrow> cr_Skip clone) then empty_step
      else case extractCommitSHA tr of
             Inl err \<Rightarrow>
               \<lparr>cl_name = ''Clone repository into workspace (error)'', cl_kind = StepKindSystem,
                cl_commands = [''echo '' @ [CHR 0x27] @ ''Failed to get clone info: '' @ err @ [CHR 0x27] @ '' && exit 1'']\<rparr>
           | Inr commitSHA \<Rightarrow>
               let repoURL = BuildRepoURL (tm_Repo tr) dev;
                   cloneOpts = (case pw_Clone twf of None \<Rightarrow> zero_clone_opts | Some clone \<Rightarrow> clone);
                   fetchArgs = buildFetchArgs cloneOpts commitSHA
               in \<lparr>cl_name = ''Clone repository into workspace'', cl_kind = StepKindSystem,
                   cl_commands =
                     [''git init'',
                      ''git remote add origin '' @ repoURL,
                      ''git fetch '' @ joinWith '' '' fetchArgs,
                      ''git checkout FETCH_HEAD'']\<rparr>)"

section \<open>The environment of a step\<close>

text \<open>\<^verbatim>\<open>strings.ToUpper\<close> is the argument \<open>toUpper\<close>; a nil map is \<open>None\<close>.\<close>

definition manual_inputs :: "(string \<Rightarrow> string) \<Rightarrow> ManualTriggerData \<Rightarrow> (string \<rightharpoonup> string) \<Rightarrow> (string \<rightharpoonup> string)" where
  "manual_inputs toUpper inputs vars =
     foldl (\<lambda>vars (key, v). vars(''TANGLED_INPUT_'' @ toUpper key \<mapsto> v)) vars inputs"

definition PipelineEnvVars ::
  "WorkflowEnv \<Rightarrow> (string \<Rightarrow> string) \<Rightarrow> TriggerMetadata option \<Rightarrow> PipelineId \<Rightarrow> bool \<Rightarrow> (string \<rightharpoonup> string) option" where
  "PipelineEnvVars env toUpper trigger pipelineId devMode =
     (case trigger of
        None \<Rightarrow> None
      | Some tr \<Rightarrow>
          let v0 = [''CI'' \<mapsto> ''true'', ''TANGLED_PIPELINE_ID'' \<mapsto> PipelineId_AtUri pipelineId];
              v1 = (case tm_Repo tr of
                      None \<Rightarrow> v0
                    | Some repo \<Rightarrow>
                        v0(''TANGLED_REPO_KNOT'' \<mapsto> tr_Knot repo, ''TANGLED_REPO_DID'' \<mapsto> tr_Did repo,
                           ''TANGLED_REPO_NAME'' \<mapsto> tr_Repo repo,
                           ''TANGLED_REPO_DEFAULT_BRANCH'' \<mapsto> tr_DefaultBranch repo,
                           ''TANGLED_REPO_URL'' \<mapsto> BuildRepoURL (Some repo) devMode))
          in Some
               (if tm_Kind tr = TriggerKindPush then
                  case tm_Push tr of
                    None \<Rightarrow> v1
                  | Some push \<Rightarrow>
                      v1(''TANGLED_REF'' \<mapsto> pt_Ref push, ''TANGLED_REF_NAME'' \<mapsto> ref_short env (pt_Ref push),
                         ''TANGLED_REF_TYPE'' \<mapsto> (if ref_is_tag env (pt_Ref push) then ''tag'' else ''branch''),
                         ''TANGLED_SHA'' \<mapsto> pt_NewSha push, ''TANGLED_COMMIT_SHA'' \<mapsto> pt_NewSha push)
                else if tm_Kind tr = TriggerKindPullRequest then
                  case tm_PullRequest tr of
                    None \<Rightarrow> v1
                  | Some pull \<Rightarrow>
                      v1(''TANGLED_REF'' \<mapsto> ''refs/heads/'' @ pr_SourceBranch pull,
                         ''TANGLED_REF_NAME'' \<mapsto> pr_SourceBranch pull,
                         ''TANGLED_REF_TYPE'' \<mapsto> ''branch'',
                         ''TANGLED_SHA'' \<mapsto> pr_SourceSha pull, ''TANGLED_COMMIT_SHA'' \<mapsto> pr_SourceSha pull,
                         ''TANGLED_PR_SOURCE_BRANCH'' \<mapsto> pr_SourceBranch pull,
                         ''TANGLED_PR_TARGET_BRANCH'' \<mapsto> pr_TargetBranch pull,
                         ''TANGLED_PR_SOURCE_SHA'' \<mapsto> pr_SourceSha pull,
                         ''TANGLED_PR_ACTION'' \<mapsto> pr_Action pull)
                else if tm_Kind tr = TriggerKindManual then
                  case tm_Manual tr of None \<Rightarrow> v1 | Some inputs \<Rightarrow> manual_inputs toUpper inputs v1
                else v1))"

section \<open>Masking secrets\<close>

text \<open>\<^verbatim>\<open>base64.StdEncoding.EncodeToString\<close>.\<close>

definition base64_alphabet :: string where
  "base64_alphabet = ''ABCDEFGHIJKLMNOPQRSTUVWXYZabcdefghijklmnopqrstuvwxyz0123456789+/''"

definition b64_char :: "nat \<Rightarrow> char" where
  "b64_char n = base64_alphabet ! (n mod 64)"

fun base64 :: "string \<Rightarrow> string" where
  "base64 [] = []"
| "base64 [a] = (let n = of_char a * 65536 in [b64_char (n div 262144), b64_char (n div 4096), CHR ''='', CHR ''=''])"
| "base64 [a, b] =
     (let n = of_char a * 65536 + of_char b * 256
      in [b64_char (n div 262144), b64_char (n div 4096), b64_char (n div 64), CHR ''=''])"
| "base64 (a # b # c # s) =
     (let n = of_char a * 65536 + of_char b * 256 + of_char c
      in [b64_char (n div 262144), b64_char (n div 4096), b64_char (n div 64), b64_char n] @ base64 s)"

definition trimRight :: "string \<Rightarrow> string \<Rightarrow> string" where
  "trimRight s cutset = rev (dropWhile (\<lambda>c. c \<in> set cutset) (rev s))"

text \<open>
  The strings to be replaced, in the order of the arguments of \<^verbatim>\<open>strings.NewReplacer\<close>; all are
  replaced by three stars. A replacer scans the text from the left and takes, at every position,
  the first of its strings that is a prefix of the rest.
\<close>

definition mask_pairs :: "string \<Rightarrow> string list" where
  "mask_pairs v =
     (if v = [] then []
      else
        let b64 = base64 v; b64NoPad = trimRight b64 ''=''
        in [v] @ (if b64 \<noteq> v then [b64] else []) @
           (if b64NoPad \<noteq> b64 \<and> b64NoPad \<noteq> v then [b64NoPad] else []))"

definition NewSecretMask :: "string list \<Rightarrow> string list option" where
  "NewSecretMask values =
     (let pairs = concat (map mask_pairs values) in if length pairs = 0 then None else Some pairs)"

function replace :: "string list \<Rightarrow> string \<Rightarrow> string" where
  "replace olds [] = []"
| "replace olds (c # s) =
     (case find (\<lambda>old. old \<noteq> [] \<and> hasPrefix (c # s) old) olds of
        None \<Rightarrow> c # replace olds s
      | Some old \<Rightarrow> ''***'' @ replace olds (drop (length old) (c # s)))"
  by pat_completeness auto
termination
  by (relation "measure (\<lambda>(olds, s). length s)") (auto simp: find_Some_iff hasPrefix_iff)

declare replace.simps(2) [simp del]

definition Mask :: "string list option \<Rightarrow> string \<Rightarrow> string" where
  "Mask m input = (case m of None \<Rightarrow> input | Some olds \<Rightarrow> replace olds input)"

text \<open>\<^verbatim>\<open>dataWriter.Write\<close>: the content of the log line for one chunk of output.\<close>

definition dataWriter_content :: "string list option \<Rightarrow> string \<Rightarrow> string" where
  "dataWriter_content m p = Mask m (trimRight p [CHR 0x0D, CHR 0x0A])"

section \<open>The mask hides the secrets\<close>

lemma replace_cases:
  obtains "replace olds (c # s) = c # replace olds s"
      "\<And>w. w \<in> set olds \<Longrightarrow> w \<noteq> [] \<Longrightarrow> \<not> hasPrefix (c # s) w"
  | old where "find (\<lambda>old. old \<noteq> [] \<and> hasPrefix (c # s) old) olds = Some old"
      "replace olds (c # s) = ''***'' @ replace olds (drop (length old) (c # s))"
proof (cases "find (\<lambda>old. old \<noteq> [] \<and> hasPrefix (c # s) old) olds")
  case None
  moreover from None have "\<not> hasPrefix (c # s) w" if "w \<in> set olds" "w \<noteq> []" for w
    using that by (auto simp: find_None_iff)
  ultimately show thesis using that(1) by (simp add: replace.simps(2))
next
  case (Some old)
  with that(2) show thesis by (simp add: replace.simps(2))
qed

lemma replace_prefix:
  "CHR ''*'' \<notin> set w \<Longrightarrow> hasPrefix (replace olds s) w \<Longrightarrow> hasPrefix s w"
proof (induction olds s arbitrary: w rule: replace.induct)
  case (2 olds c s)
  show ?case
  proof (cases rule: replace_cases [of olds c s])
    case 1
    show ?thesis
    proof (cases w)
      case (Cons x w')
      have "find (\<lambda>old. old \<noteq> [] \<and> hasPrefix (c # s) old) olds = None"
        using 1(2) by (auto simp: find_None_iff)
      then have "hasPrefix s w'"
        using "2.IH"(1) [of w'] "2.prems" 1(1) Cons by (simp add: hasPrefix_def)
      with "2.prems"(2) 1(1) Cons show ?thesis by (simp add: hasPrefix_def)
    qed simp
  next
    case (2 old)
    with "2.prems" have "w = []" by (cases w) (auto simp: hasPrefix_def)
    then show ?thesis by simp
  qed
qed simp

lemma stars_then:
  assumes "''***'' @ r = a @ w @ b" "w \<noteq> []" "CHR ''*'' \<notin> set w"
  shows "\<exists>a'. r = a' @ w @ b"
proof -
  obtain x w' where w: "w = x # w'" using assms(2) by (cases w) auto
  with assms have "3 \<le> length a"
    by (cases a; cases "tl a"; cases "tl (tl a)") auto
  then have "r = drop 3 a @ w @ b"
    using arg_cong [OF assms(1), of "drop 3"] by simp
  then show ?thesis by blast
qed

lemma replace_hides:
  assumes "w \<in> set olds" "w \<noteq> []" "CHR ''*'' \<notin> set w"
  shows "replace olds s \<noteq> a @ w @ b"
  using assms
proof (induction olds s arbitrary: a rule: replace.induct)
  case (2 olds c s)
  show ?case
  proof (cases rule: replace_cases [of olds c s])
    case 1
    have none: "find (\<lambda>old. old \<noteq> [] \<and> hasPrefix (c # s) old) olds = None"
      using 1(2) by (auto simp: find_None_iff)
    show ?thesis
    proof (cases a)
      case Nil
      show ?thesis
      proof
        assume "replace olds (c # s) = a @ w @ b"
        then have "hasPrefix (replace olds (c # s)) w" using Nil by (simp add: hasPrefix_iff)
        then have "hasPrefix (c # s) w" using "2.prems"(3) by (rule replace_prefix [rotated])
        with 1(2) "2.prems" show False by blast
      qed
    next
      case (Cons x a')
      with "2.IH"(1) [OF none "2.prems", of a'] 1(1) show ?thesis by simp
    qed
  next
    case (2 old)
    show ?thesis
    proof
      assume "replace olds (c # s) = a @ w @ b"
      then obtain a' where "replace olds (drop (length old) (c # s)) = a' @ w @ b"
        using stars_then [of _ a w b] 2(2) "2.prems" by metis
      with "2.IH"(2) [OF 2(1) "2.prems"] show False by blast
    qed
  qed
qed simp

lemma b64_char_in: "b64_char n \<in> set base64_alphabet"
proof -
  have "length base64_alphabet = 64" by (simp add: base64_alphabet_def)
  then show ?thesis by (simp add: b64_char_def)
qed

lemma alphabet_stars: "CHR ''*'' \<notin> set base64_alphabet" "CHR ''='' \<notin> set base64_alphabet"
  by (simp_all add: base64_alphabet_def)

lemma b64_char_neq: "b64_char n \<noteq> CHR ''*''" "b64_char n \<noteq> CHR ''=''"
  using b64_char_in alphabet_stars by metis+

lemma base64_no_star: "CHR ''*'' \<notin> set (base64 v)"
  by (induction v rule: base64.induct) (simp_all add: Let_def b64_char_neq [symmetric])

lemma base64_hd: "v \<noteq> [] \<Longrightarrow> \<exists>n s. base64 v = b64_char n # s"
  by (cases v rule: base64.cases) (auto simp: Let_def)

lemma trimRight_subset: "set (trimRight s cs) \<subseteq> set s"
  by (auto simp: trimRight_def dest: set_dropWhileD)

lemma trimRight_nonempty: "x \<in> set s \<Longrightarrow> x \<notin> set cs \<Longrightarrow> trimRight s cs \<noteq> []"
  by (auto simp: trimRight_def)

lemma base64_trim_nonempty: "v \<noteq> [] \<Longrightarrow> trimRight (base64 v) ''='' \<noteq> []"
  using base64_hd [of v] trimRight_nonempty [of _ "base64 v" "''=''"]
  by (metis b64_char_neq(2) empty_iff empty_set list.set_intros(1) set_ConsD)

lemma mask_pairs_members:
  assumes "v \<noteq> []"
  shows "v \<in> set (mask_pairs v)" "base64 v \<in> set (mask_pairs v)" "trimRight (base64 v) ''='' \<in> set (mask_pairs v)"
  using assms by (auto simp: mask_pairs_def Let_def)

lemma Mask_hides:
  assumes "v \<in> set values" "w \<in> set (mask_pairs v)" "w \<noteq> []" "CHR ''*'' \<notin> set w"
  shows "\<not> contains (Mask (NewSecretMask values) input) w"
proof -
  let ?pairs = "concat (map mask_pairs values)"
  have "w \<in> set ?pairs" using assms(1,2) by auto
  moreover from this have "Mask (NewSecretMask values) input = replace ?pairs input"
    by (auto simp: Mask_def NewSecretMask_def Let_def)
  ultimately show ?thesis using replace_hides [OF _ assms(3,4)] by (auto simp: contains_iff)
qed



section \<open>The environment and the clone step agree\<close>

lemma manual_inputs_other:
  "\<not> hasPrefix k ''TANGLED_INPUT_'' \<Longrightarrow> manual_inputs toUpper inputs vars k = vars k"
proof (induction inputs arbitrary: vars)
  case (Cons kv inputs)
  then have "manual_inputs toUpper (kv # inputs) vars k =
      (vars(''TANGLED_INPUT_'' @ toUpper (fst kv) \<mapsto> snd kv)) k"
    by (simp add: manual_inputs_def split_beta)
  moreover have "k \<noteq> ''TANGLED_INPUT_'' @ toUpper (fst kv)" using Cons.prems by (auto simp: hasPrefix_def)
  ultimately show ?case by simp
qed (simp add: manual_inputs_def)

definition env_of :: "WorkflowEnv \<Rightarrow> (string \<Rightarrow> string) \<Rightarrow> TriggerMetadata \<Rightarrow> PipelineId \<Rightarrow> bool \<Rightarrow> string \<Rightarrow> string option" where
  "env_of env toUpper tr pid dev k = (case PipelineEnvVars env toUpper (Some tr) pid dev of None \<Rightarrow> None | Some m \<Rightarrow> m k)"

lemmas env_defs = env_of_def PipelineEnvVars_def Let_def

lemma env_fixed:
  "env_of env toUpper tr pid dev ''CI'' = Some ''true''"
  "env_of env toUpper tr pid dev ''TANGLED_PIPELINE_ID'' = Some (PipelineId_AtUri pid)"
  by (auto simp: env_defs manual_inputs_other hasPrefix_def split: option.split)

lemma env_repo:
  "env_of env toUpper tr pid dev ''TANGLED_REPO_URL'' = map_option (\<lambda>r. BuildRepoURL (Some r) dev) (tm_Repo tr)"
  "env_of env toUpper tr pid dev ''TANGLED_REPO_DID'' = map_option tr_Did (tm_Repo tr)"
  by (auto simp: env_defs manual_inputs_other hasPrefix_def split: option.split)

lemma env_sha:
  "env_of env toUpper tr pid dev ''TANGLED_SHA'' =
     (if tm_Kind tr = TriggerKindManual then None
      else case extractCommitSHA tr of Inl _ \<Rightarrow> None | Inr sha \<Rightarrow> Some sha)"
  by (auto simp: env_defs extractCommitSHA_def manual_inputs_other hasPrefix_def trigger_kinds split: option.split)

definition fetch_options :: "CloneOptsRecord \<Rightarrow> string list" where
  "fetch_options clone =
     [''--depth='' @ itoa (if cr_Depth clone = 0 then 1 else cr_Depth clone)] @
     (if cr_Submodules clone then [''--recurse-submodules=yes''] else [])"

lemma buildFetchArgs_sha: "sha \<noteq> [] \<Longrightarrow> buildFetchArgs clone sha = fetch_options clone @ [''origin'', sha]"
  by (simp only: buildFetchArgs_def fetch_options_def Let_def not_False_eq_True if_True append_assoc append_Cons append_Nil)

text \<open>
  The steps of a workflow see the commit and the repository that the clone step fetched: for a
  workflow that is not skipped and a known commit the clone step fetches exactly that commit from
  the URL of the environment; and the inputs of a manual trigger can not override the variables of
  the framework.
\<close>

theorem clone_step_matches_environment:
  assumes "env_of env toUpper tr pid dev ''TANGLED_SHA'' = Some sha" "sha \<noteq> []"
    and "env_of env toUpper tr pid dev ''TANGLED_REPO_URL'' = Some url"
    and "pw_Clone twf = Some clone" "\<not> cr_Skip clone"
  shows "cl_commands (BuildCloneStep twf tr dev) =
       [''git init'', ''git remote add origin '' @ url,
        ''git fetch '' @ joinWith '' '' (fetch_options clone @ [''origin'', sha]), ''git checkout FETCH_HEAD''] \<and>
    env_of env toUpper tr pid dev ''CI'' = Some ''true'' \<and>
    env_of env toUpper tr pid dev ''TANGLED_PIPELINE_ID'' = Some (PipelineId_AtUri pid)"
proof -
  from assms(1) have "extractCommitSHA tr = Inr sha"
    by (auto simp: env_sha split: if_splits sum.splits)
  moreover from assms(3) have "BuildRepoURL (tm_Repo tr) dev = url" by (auto simp: env_repo)
  moreover note buildFetchArgs_sha [OF assms(2), of clone]
  ultimately have "cl_commands (BuildCloneStep twf tr dev) =
      [''git init'', ''git remote add origin '' @ url,
       ''git fetch '' @ joinWith '' '' (fetch_options clone @ [''origin'', sha]), ''git checkout FETCH_HEAD'']"
    using assms(4,5)
    by (simp only: BuildCloneStep_def Let_def option.case sum.case if_False CloneStep.select_convs)
  then show ?thesis using env_fixed by blast
qed

definition sample_repo_trigger :: TriggerMetadata where
  "sample_repo_trigger = push_trigger\<lparr>tm_Repo := Some
     \<lparr>tr_DefaultBranch = ''main'', tr_Did = ''did:plc:a'', tr_Knot = ''knot.example'', tr_Repo = ''core''\<rparr>\<rparr>"

theorem clone_step_matches_environment_witness:
  "cl_commands (BuildCloneStep (compiled push_workflow) sample_repo_trigger False) =
       [''git init'', ''git remote add origin '' @ ''https://knot.example/did:plc:a/core'',
        ''git fetch '' @ joinWith '' '' (fetch_options (CloneOpts_AsRecord (wf_CloneOpts push_workflow)) @ [''origin'', ''b'']),
        ''git checkout FETCH_HEAD''] \<and>
    env_of exact_env id sample_repo_trigger \<lparr>pid_Knot = ''k'', pid_Rkey = ''r''\<rparr> False ''CI'' = Some ''true'' \<and>
    env_of exact_env id sample_repo_trigger \<lparr>pid_Knot = ''k'', pid_Rkey = ''r''\<rparr> False ''TANGLED_PIPELINE_ID'' =
      Some (PipelineId_AtUri \<lparr>pid_Knot = ''k'', pid_Rkey = ''r''\<rparr>)"
  by (rule clone_step_matches_environment)
    (auto simp: env_sha env_repo extractCommitSHA_def sample_repo_trigger_def push_trigger_def trigger_kinds
      BuildRepoURL_def compiled_def push_workflow_def CloneOpts_AsRecord_def)

end
