(* ===== verification/Spindle_Run.thy ===== *)
theory Spindle_Run
  imports Spindle_Steps
begin

text \<open>
  Running workflows and reporting about them: the statuses of \<^verbatim>\<open>spindle/models/models.go\<close>, the run of one
  workflow in \<^verbatim>\<open>spindle/engine/engine.go\<close>, the job queue of \<^verbatim>\<open>spindle/queue/queue.go\<close>, the event log of
  \<^verbatim>\<open>spindle/db/events.go\<close> with its stream in \<^verbatim>\<open>spindle/stream.go\<close>, the wake-up channels of
  \<^verbatim>\<open>notifier/notifier.go\<close>, and what the web interface computes from statuses in
  \<^verbatim>\<open>appview/models/pipeline.go\<close>.

  A \<^verbatim>\<open>time.Time\<close> is its nanoseconds since the epoch. Calls into the engine and the database are
  given by their outcomes.
\<close>

section \<open>Statuses\<close>

definition StatusKindPending :: string where "StatusKindPending = ''pending''"
definition StatusKindRunning :: string where "StatusKindRunning = ''running''"
definition StatusKindFailed :: string where "StatusKindFailed = ''failed''"
definition StatusKindTimeout :: string where "StatusKindTimeout = ''timeout''"
definition StatusKindCancelled :: string where "StatusKindCancelled = ''cancelled''"
definition StatusKindSuccess :: string where "StatusKindSuccess = ''success''"

lemmas status_kinds = StatusKindPending_def StatusKindRunning_def StatusKindFailed_def StatusKindTimeout_def
  StatusKindCancelled_def StatusKindSuccess_def

definition StartStates :: "string list" where
  "StartStates = [StatusKindPending, StatusKindRunning]"

definition FinishStates :: "string list" where
  "FinishStates = [StatusKindFailed, StatusKindTimeout, StatusKindCancelled, StatusKindSuccess]"

definition IsStart :: "string \<Rightarrow> bool" where
  "IsStart s \<longleftrightarrow> s \<in> set StartStates"

definition IsFinish :: "string \<Rightarrow> bool" where
  "IsFinish s \<longleftrightarrow> s \<in> set FinishStates"

section \<open>The run of one workflow\<close>

text \<open>
  \<open>RunOutcome\<close> is what the calls of one run return: whether the log file could be opened, whether
  a status could be stored, the error of \<^verbatim>\<open>SetupWorkflow\<close>, and the error of every step, where
  \<open>StepTimedOut\<close> is an error that wraps \<^verbatim>\<open>ErrTimedOut\<close>. \<open>Effect\<close> lists what the goroutine does, in
  order; deferred calls come last, the log is closed after the engine has cleaned up.
\<close>

datatype StepError = StepTimedOut string | StepFailed string

record RunOutcome =
  logger_ok :: bool
  status_ok :: "string \<Rightarrow> bool"
  setup_error :: "string option"
  step_error :: "nat \<Rightarrow> StepError option"

datatype Effect =
    Status string "string option" "int option"
  | SetupWorkflow
  | LogStep nat string
  | RunStep nat
  | DestroyWorkflow
  | CloseLog

definition createStatusEvent :: "RunOutcome \<Rightarrow> string \<Rightarrow> string option \<Rightarrow> int option \<Rightarrow> Effect list" where
  "createStatusEvent run kind err code = (if status_ok run kind then [Status kind err code] else [])"

definition StatusRunning :: "RunOutcome \<Rightarrow> Effect list" where
  "StatusRunning run = createStatusEvent run StatusKindRunning None None"

definition StatusFailed :: "RunOutcome \<Rightarrow> string \<Rightarrow> int \<Rightarrow> Effect list" where
  "StatusFailed run workflowError exitCode =
     createStatusEvent run StatusKindFailed (Some workflowError) (Some exitCode)"

definition StatusSuccess :: "RunOutcome \<Rightarrow> Effect list" where
  "StatusSuccess run = createStatusEvent run StatusKindSuccess None None"

definition StatusTimeout :: "RunOutcome \<Rightarrow> Effect list" where
  "StatusTimeout run = createStatusEvent run StatusKindTimeout None None"

definition log_step :: "RunOutcome \<Rightarrow> nat \<Rightarrow> string \<Rightarrow> Effect list" where
  "log_step run stepIdx status = (if logger_ok run then [LogStep stepIdx status] else [])"

fun run_steps :: "RunOutcome \<Rightarrow> nat list \<Rightarrow> Effect list" where
  "run_steps run [] = StatusSuccess run"
| "run_steps run (stepIdx # steps) =
     log_step run stepIdx ''start'' @ [RunStep stepIdx] @ log_step run stepIdx ''end'' @
     (case step_error run stepIdx of
        None \<Rightarrow> run_steps run steps
      | Some (StepTimedOut e) \<Rightarrow> StatusTimeout run
      | Some (StepFailed e) \<Rightarrow> StatusFailed run e (- 1))"

definition run_workflow :: "RunOutcome \<Rightarrow> nat \<Rightarrow> Effect list" where
  "run_workflow run steps =
     (let close = (if logger_ok run then [CloseLog] else [])
      in if \<not> status_ok run StatusKindRunning then close
         else
           StatusRunning run @ [SetupWorkflow] @
           (case setup_error run of
              Some e \<Rightarrow> [DestroyWorkflow] @ StatusFailed run e (- 1) @ close
            | None \<Rightarrow> run_steps run [0..<steps] @ [DestroyWorkflow] @ close))"

section \<open>The job queue\<close>

record 'job Queue =
  q_jobs :: "'job list"
  q_size :: nat

definition NewQueue :: "nat \<Rightarrow> 'job Queue" where
  "NewQueue queueSize = \<lparr>q_jobs = [], q_size = queueSize\<rparr>"

text \<open>A send to a buffered channel without a waiting receiver; a full queue refuses the job.\<close>

definition Enqueue :: "'job Queue \<Rightarrow> 'job \<Rightarrow> bool \<times> 'job Queue" where
  "Enqueue q job =
     (if length (q_jobs q) < q_size q then (True, q\<lparr>q_jobs := q_jobs q @ [job]\<rparr>) else (False, q))"

definition worker_take :: "'job Queue \<Rightarrow> ('job \<times> 'job Queue) option" where
  "worker_take q = (case q_jobs q of [] \<Rightarrow> None | job # jobs \<Rightarrow> Some (job, q\<lparr>q_jobs := jobs\<rparr>))"

section \<open>Wake-up channels\<close>

text \<open>The subscribers with whether their channel (of capacity one) holds a token.\<close>

type_synonym Notifier = "nat \<rightharpoonup> bool"

definition Subscribe :: "Notifier \<Rightarrow> nat \<Rightarrow> Notifier" where
  "Subscribe n ch = n(ch \<mapsto> False)"

definition Unsubscribe :: "Notifier \<Rightarrow> nat \<Rightarrow> Notifier" where
  "Unsubscribe n ch = n(ch := None)"

definition NotifyAll :: "Notifier \<Rightarrow> Notifier" where
  "NotifyAll n = (\<lambda>ch. case n ch of None \<Rightarrow> None | Some _ \<Rightarrow> Some True)"

section \<open>The event log\<close>

record Event =
  ev_Rkey :: string
  ev_Nsid :: string
  ev_Created :: int
  ev_EventJson :: string

definition insertEvent :: "int \<Rightarrow> Event list \<Rightarrow> Event \<Rightarrow> Event list" where
  "insertEvent now table event = table @ [event\<lparr>ev_Created := now\<rparr>]"

text \<open>
  The query orders by the time of creation; rows with equal times come in any order, so the
  ordering is an argument.
\<close>

definition GetEvents :: "(Event list \<Rightarrow> Event list) \<Rightarrow> Event list \<Rightarrow> int \<Rightarrow> Event list" where
  "GetEvents order_by table cursor =
     take 100 (order_by (if cursor > 0 then filter (\<lambda>e. ev_Created e > cursor) table else table))"

text \<open>
  The stream sends the events in order and moves the cursor behind every event it sent; \<open>send\<close> says
  whether decoding, encoding and writing an event succeed. The result is the events sent, the
  cursor and whether the loop ended without an error.
\<close>

fun send_all :: "(Event \<Rightarrow> bool) \<Rightarrow> Event list \<Rightarrow> int \<Rightarrow> Event list \<times> int \<times> bool" where
  "send_all send [] cursor = ([], cursor, True)"
| "send_all send (event # events) cursor =
     (if send event then
        let (sent, cursor', ok) = send_all send events (ev_Created event) in (event # sent, cursor', ok)
      else ([], cursor, False))"

definition streamPipelines ::
  "(Event list \<Rightarrow> Event list) \<Rightarrow> (Event \<Rightarrow> bool) \<Rightarrow> Event list \<Rightarrow> int \<Rightarrow> Event list \<times> int \<times> bool" where
  "streamPipelines order_by send table cursor = send_all send (GetEvents order_by table cursor) cursor"

text \<open>The backfill and then one call for every wake-up; an error ends the stream.\<close>

fun stream_rounds ::
  "(Event list \<Rightarrow> Event list) \<Rightarrow> (Event \<Rightarrow> bool) \<Rightarrow> Event list \<Rightarrow> int \<Rightarrow> nat \<Rightarrow> Event list \<times> int \<times> bool" where
  "stream_rounds order_by send table cursor 0 = ([], cursor, True)"
| "stream_rounds order_by send table cursor (Suc n) =
     (case streamPipelines order_by send table cursor of
        (sent, cursor', False) \<Rightarrow> (sent, cursor', False)
      | (sent, cursor', True) \<Rightarrow>
          let (rest, cursor'', ok) = stream_rounds order_by send table cursor' n in (sent @ rest, cursor'', ok))"

section \<open>Pipelines in the web interface\<close>

record PipelineStatus =
  ps_Created :: int
  ps_Workflow :: string
  ps_Status :: string
  ps_Error :: "string option"
  ps_ExitCode :: int

type_synonym WorkflowStatus = "PipelineStatus list"

text \<open>Indexing an empty slice panics: \<open>None\<close>.\<close>

definition Latest :: "WorkflowStatus \<Rightarrow> PipelineStatus option" where
  "Latest w = (if w = [] then None else Some (w ! (length w - 1)))"

text \<open>\<^verbatim>\<open>time.Time.Sub\<close> saturates at the largest duration; sums of durations wrap around.\<close>

definition sub_time :: "int \<Rightarrow> int \<Rightarrow> int" where
  "sub_time t u = min (2 ^ 63 - 1) (max (- (2 ^ 63)) (t - u))"

definition wrap64 :: "int \<Rightarrow> int" where
  "wrap64 i = (i + 2 ^ 63) mod 2 ^ 64 - 2 ^ 63"

definition start_end :: "WorkflowStatus \<Rightarrow> int option \<times> int option" where
  "start_end data =
     foldl (\<lambda>(start, end) s.
       (if IsStart (ps_Status s) then Some (ps_Created s) else start,
        if IsFinish (ps_Status s) then Some (ps_Created s) else end)) (None, None) data"

definition TimeTaken :: "WorkflowStatus \<Rightarrow> int" where
  "TimeTaken w =
     (case start_end w of
        (Some start, Some end) \<Rightarrow> if end > start then sub_time end start else 0
      | _ \<Rightarrow> 0)"

text \<open>
  The statuses of a pipeline, by workflow name, in the order the map is iterated: any order of a
  list without repeated names.
\<close>

type_synonym Statuses = "(string \<times> WorkflowStatus) list"

definition latest_statuses :: "Statuses \<Rightarrow> string list option" where
  "latest_statuses ss = those (map (\<lambda>(_, w). map_option ps_Status (Latest w)) ss)"

definition status_counts :: "string list \<Rightarrow> string \<rightharpoonup> nat" where
  "status_counts ls = foldl (\<lambda>m s. m(s \<mapsto> (case m s of None \<Rightarrow> 1 | Some n \<Rightarrow> n + 1))) (\<lambda>_. None) ls"

definition Counts :: "Statuses \<Rightarrow> (string \<rightharpoonup> nat) option" where
  "Counts ss = map_option status_counts (latest_statuses ss)"

definition ShortStatusSummary :: "Statuses \<Rightarrow> string option" where
  "ShortStatusSummary ss =
     map_option
       (\<lambda>ls. let counts = status_counts ls;
                 successes = (case counts StatusKindSuccess of None \<Rightarrow> 0 | Some n \<Rightarrow> n)
             in digits successes @ ''/'' @ digits (length ss))
       (latest_statuses ss)"

definition LongStatusSummary :: "Statuses \<Rightarrow> string option" where
  "LongStatusSummary ss =
     map_option
       (\<lambda>ls. let counts = status_counts ls
             in joinWith '', ''
                  (List.map_filter
                     (\<lambda>state. map_option (\<lambda>count. digits count @ ''/'' @ digits (length ss) @ '' '' @ state) (counts state))
                     (FinishStates @ StartStates)))
       (latest_statuses ss)"

definition Pipeline_TimeTaken :: "Statuses \<Rightarrow> int" where
  "Pipeline_TimeTaken ss = foldl (\<lambda>s (_, w). wrap64 (s + TimeTaken w)) 0 ss"

definition Workflows :: "Statuses \<Rightarrow> string list" where
  "Workflows ss = sort (map fst ss)"

definition IsResponding :: "Statuses \<Rightarrow> bool" where
  "IsResponding ss \<longleftrightarrow> length ss \<noteq> 0"

record Trigger =
  tg_Kind :: string
  tg_PushRef :: "string option"
  tg_PushNewSha :: "string option"
  tg_PushOldSha :: "string option"
  tg_PRSourceBranch :: "string option"
  tg_PRTargetBranch :: "string option"
  tg_PRSourceSha :: "string option"
  tg_PRAction :: "string option"

definition IsPush :: "Trigger option \<Rightarrow> bool" where
  "IsPush t = (case t of None \<Rightarrow> False | Some t \<Rightarrow> tg_Kind t = TriggerKindPush)"

definition IsPullRequest :: "Trigger option \<Rightarrow> bool" where
  "IsPullRequest t = (case t of None \<Rightarrow> False | Some t \<Rightarrow> tg_Kind t = TriggerKindPullRequest)"

text \<open>Dereferencing a nil pointer panics: the outer \<open>None\<close>.\<close>

definition TargetRef :: "WorkflowEnv \<Rightarrow> Trigger option \<Rightarrow> string option" where
  "TargetRef env t =
     (if IsPush t then map_option (ref_short env) (Option.bind t tg_PushRef)
      else if IsPullRequest t then Option.bind t tg_PRTargetBranch
      else Some [])"

section \<open>The life of a workflow\<close>

fun status_of :: "Effect \<Rightarrow> string option" where
  "status_of (Status kind err code) = Some kind"
| "status_of _ = None"

fun step_of :: "Effect \<Rightarrow> nat option" where
  "step_of (RunStep i) = Some i"
| "step_of _ = None"

definition statuses :: "Effect list \<Rightarrow> string list" where
  "statuses effects = List.map_filter status_of effects"

definition steps_run :: "Effect list \<Rightarrow> nat list" where
  "steps_run effects = List.map_filter step_of effects"

definition executed :: "RunOutcome \<Rightarrow> nat list \<Rightarrow> nat list" where
  "executed run steps =
     takeWhile (\<lambda>i. step_error run i = None) steps @
     (case find (\<lambda>i. step_error run i \<noteq> None) steps of None \<Rightarrow> [] | Some i \<Rightarrow> [i])"

definition verdict :: "RunOutcome \<Rightarrow> nat list \<Rightarrow> string" where
  "verdict run steps =
     (case find (\<lambda>i. step_error run i \<noteq> None) steps of
        None \<Rightarrow> StatusKindSuccess
      | Some i \<Rightarrow>
          case step_error run i of Some (StepTimedOut _) \<Rightarrow> StatusKindTimeout | _ \<Rightarrow> StatusKindFailed)"

lemma map_filter_append [simp]: "List.map_filter f (xs @ ys) = List.map_filter f xs @ List.map_filter f ys"
  by (simp add: List.map_filter_def)

lemma statuses_simps [simp]:
  "statuses [] = []" "statuses (xs @ ys) = statuses xs @ statuses ys"
  "statuses (Status k e c # xs) = k # statuses xs" "statuses (SetupWorkflow # xs) = statuses xs"
  "statuses (RunStep i # xs) = statuses xs" "statuses (LogStep i t # xs) = statuses xs"
  "statuses (DestroyWorkflow # xs) = statuses xs" "statuses (CloseLog # xs) = statuses xs"
  by (simp_all add: statuses_def map_filter_simps)

lemma steps_run_simps [simp]:
  "steps_run [] = []" "steps_run (xs @ ys) = steps_run xs @ steps_run ys"
  "steps_run (Status k e c # xs) = steps_run xs" "steps_run (SetupWorkflow # xs) = steps_run xs"
  "steps_run (RunStep i # xs) = i # steps_run xs" "steps_run (LogStep i t # xs) = steps_run xs"
  "steps_run (DestroyWorkflow # xs) = steps_run xs" "steps_run (CloseLog # xs) = steps_run xs"
  by (simp_all add: steps_run_def map_filter_simps)

lemma log_step_simps [simp]:
  "statuses (log_step run i t) = []" "steps_run (log_step run i t) = []" "DestroyWorkflow \<notin> set (log_step run i t)"
  by (simp_all add: log_step_def)

lemmas status_effects = StatusRunning_def StatusFailed_def StatusSuccess_def StatusTimeout_def createStatusEvent_def

lemma run_steps_steps: "steps_run (run_steps run steps) = executed run steps"
  by (induction steps) (auto simp: executed_def status_effects split: option.split StepError.split)

lemma run_steps_statuses:
  "(\<And>k. status_ok run k) \<Longrightarrow> statuses (run_steps run steps) = [verdict run steps]"
  by (induction steps) (auto simp: verdict_def status_effects split: option.split StepError.split)

lemma run_steps_no_destroy: "DestroyWorkflow \<notin> set (run_steps run steps)"
  by (induction steps) (auto simp: status_effects split: option.split StepError.split)

lemma verdict_finish: "IsFinish (verdict run steps)"
  by (auto simp: verdict_def IsFinish_def FinishStates_def status_kinds split: option.split StepError.split)

text \<open>
  C7. A workflow whose statuses can be stored reports running and then exactly one final status:
  failed if it could not be set up, otherwise the verdict of its first failing step, or success;
  the steps run one after the other up to the first failing one; and whatever happens, once it has
  been set up the engine cleans up exactly once, after the last step.
\<close>

theorem run_workflow_lifecycle:
  assumes "\<And>k. status_ok run k"
  shows "statuses (run_workflow run n) =
      [StatusKindRunning,
       if setup_error run = None then verdict run [0..<n] else StatusKindFailed] \<and>
    IsFinish (verdict run [0..<n]) \<and>
    steps_run (run_workflow run n) = (if setup_error run = None then executed run [0..<n] else []) \<and>
    length (filter (\<lambda>e. e = DestroyWorkflow) (run_workflow run n)) = 1 \<and>
    steps_run (dropWhile (\<lambda>e. e \<noteq> DestroyWorkflow) (run_workflow run n)) = []"
proof (cases "setup_error run")
  case None
  then have w: "run_workflow run n = (StatusRunning run @ [SetupWorkflow] @ run_steps run [0..<n]) @
      [DestroyWorkflow] @ (if logger_ok run then [CloseLog] else [])"
    using assms by (simp add: run_workflow_def Let_def)
  have "DestroyWorkflow \<notin> set (StatusRunning run @ [SetupWorkflow] @ run_steps run [0..<n])"
    by (auto simp: status_effects run_steps_no_destroy)
  then have "filter (\<lambda>e. e = DestroyWorkflow) (StatusRunning run @ [SetupWorkflow] @ run_steps run [0..<n]) = []"
    "dropWhile (\<lambda>e. e \<noteq> DestroyWorkflow) (run_workflow run n) =
      [DestroyWorkflow] @ (if logger_ok run then [CloseLog] else [])"
    unfolding w by (auto simp: filter_empty_conv dropWhile_append3 dropWhile_append)
  with None w show ?thesis
    by (auto simp: run_steps_statuses [OF assms] run_steps_steps verdict_finish status_effects assms)
next
  case (Some e)
  then show ?thesis
    using assms by (auto simp: run_workflow_def Let_def status_effects verdict_finish)
qed

definition sample_run :: RunOutcome where
  "sample_run = \<lparr>logger_ok = True, status_ok = (\<lambda>_. True), setup_error = None,
     step_error = (\<lambda>i. if i = 1 then Some (StepTimedOut ''late'') else None)\<rparr>"

theorem run_workflow_lifecycle_witness:
  "statuses (run_workflow sample_run 3) =
      [StatusKindRunning,
       if setup_error sample_run = None then verdict sample_run [0..<3] else StatusKindFailed] \<and>
    IsFinish (verdict sample_run [0..<3]) \<and>
    steps_run (run_workflow sample_run 3) =
      (if setup_error sample_run = None then executed sample_run [0..<3] else []) \<and>
    length (filter (\<lambda>e. e = DestroyWorkflow) (run_workflow sample_run 3)) = 1 \<and>
    steps_run (dropWhile (\<lambda>e. e \<noteq> DestroyWorkflow) (run_workflow sample_run 3)) = []"
  by (rule run_workflow_lifecycle) (simp add: sample_run_def)

section \<open>Streaming\<close>

lemma send_all_ok:
  "(\<And>e. send e) \<Longrightarrow>
   send_all send es cursor = (es, (if es = [] then cursor else ev_Created (last es)), True)"
  by (induction es arbitrary: cursor) auto

lemma sorted_wrt_take_split:
  assumes "sorted (map f xs)" "distinct (map f xs)" "0 < n" "n \<le> length xs"
  shows "filter (\<lambda>x. f (last (take n xs)) < f x) xs = drop n xs"
proof -
  have strict: "i < j \<Longrightarrow> j < length xs \<Longrightarrow> f (xs ! i) < f (xs ! j)" for i j
  proof -
    assume "i < j" "j < length xs"
    moreover from this have "f (xs ! i) \<le> f (xs ! j)" using assms(1) by (simp add: sorted_iff_nth_mono)
    moreover from calculation have "f (xs ! i) \<noteq> f (xs ! j)" using assms(2)
      by (simp add: distinct_conv_nth)
    ultimately show "f (xs ! i) < f (xs ! j)" by simp
  qed
  have l: "last (take n xs) = xs ! (n - 1)"
    using assms(3,4) last_conv_nth [of "take n xs"] by (cases xs) (auto simp: min_def)
  have "filter (\<lambda>x. f (xs ! (n - 1)) < f x) (take n xs) = []"
  proof (clarsimp simp: filter_empty_conv in_set_conv_nth)
    fix i assume i: "i < length xs" "i < n" "f (xs ! (n - Suc 0)) < f (xs ! i)"
    have "i = n - 1 \<or> i < n - 1" "n - 1 < length xs" using i(2) assms(3,4) by linarith+
    then show False using strict [of i "n - 1"] i(3) by auto
  qed
  moreover have "filter (\<lambda>x. f (xs ! (n - 1)) < f x) (drop n xs) = drop n xs"
    using strict assms(3) by (intro filter_True) (auto simp: in_set_conv_nth)
  ultimately have "filter (\<lambda>x. f (xs ! (n - 1)) < f x) (take n xs @ drop n xs) = drop n xs"
    unfolding filter_append by simp
  then show ?thesis by (simp add: l)
qed

definition pending :: "Event list \<Rightarrow> int \<Rightarrow> Event list" where
  "pending table cursor = filter (\<lambda>e. ev_Created e > cursor) (sort_key ev_Created table)"

lemma sorts_by_unique:
  fixes key :: "'a \<Rightarrow> 'k::linorder"
  assumes "sorts_by key srt" "distinct (map key xs)"
  shows "srt xs = sort_key key xs"
proof -
  have "inj_on key (set xs)" using assms(2) by (simp add: distinct_map)
  moreover have "mset xs = mset (srt xs)" "sorted (map key (srt xs))"
    using assms(1) by (simp_all add: sorts_by_def)
  ultimately show ?thesis by (metis sort_key_inj_key_eq)
qed

definition log_ok :: "Event list \<Rightarrow> bool" where
  "log_ok table \<longleftrightarrow> distinct (map ev_Created table) \<and> (\<forall>e \<in> set table. ev_Created e > 0)"

lemma GetEvents_pending:
  assumes "log_ok table" "sorts_by ev_Created order_by"
  shows "GetEvents order_by table cursor = take 100 (pending table cursor)"
proof -
  let ?rows = "if cursor > 0 then filter (\<lambda>e. ev_Created e > cursor) table else table"
  have "distinct (map ev_Created ?rows)"
    using assms(1) by (auto simp: log_ok_def distinct_map_filter)
  then have "order_by ?rows = sort_key ev_Created ?rows"
    by (rule sorts_by_unique [OF assms(2)])
  moreover have "filter (\<lambda>e. ev_Created e > cursor) table = ?rows"
    using assms(1) by (auto simp: log_ok_def intro!: filter_True)
  ultimately show ?thesis
    by (simp only: GetEvents_def pending_def filter_sort)
qed

lemma pending_sorted:
  assumes "log_ok table"
  shows "sorted (map ev_Created (pending table cursor))" "distinct (map ev_Created (pending table cursor))"
proof -
  have "distinct (map ev_Created (sort_key ev_Created table))"
    using assms by (simp add: log_ok_def distinct_map)
  then show "distinct (map ev_Created (pending table cursor))"
    unfolding pending_def by (rule distinct_map_filter)
qed (simp add: pending_def sorted_filter)

lemma pending_after:
  assumes "log_ok table" "pending table cursor \<noteq> []"
  shows "pending table (ev_Created (last (take 100 (pending table cursor)))) = drop 100 (pending table cursor)"
proof -
  let ?p = "pending table cursor"
  let ?n = "min 100 (length ?p)"
  have n: "0 < ?n" "?n \<le> length ?p" using assms(2) by auto
  have "take 100 ?p = take ?n ?p" "drop 100 ?p = drop ?n ?p" by (simp_all add: min_def)
  note eqs = this
  let ?c = "ev_Created (last (take ?n ?p))"
  have "last (take ?n ?p) \<in> set ?p"
    using n by (metis in_set_takeD last_in_set length_greater_0_conv length_take min.absorb2 min.left_idem)
  then have c: "?c > cursor" by (auto simp: pending_def)
  have "pending table ?c = filter (\<lambda>e. ?c < ev_Created e) ?p"
    using c unfolding pending_def filter_filter by (intro filter_cong) auto
  also have "\<dots> = drop ?n ?p"
    by (rule sorted_wrt_take_split [OF pending_sorted [OF assms(1)] n])
  finally show ?thesis unfolding eqs .
qed

lemma stream_round:
  assumes "log_ok table" "sorts_by ev_Created order_by" "\<And>e. send e"
  shows "\<exists>cursor'. streamPipelines order_by send table cursor = (take 100 (pending table cursor), cursor', True) \<and>
    pending table cursor' = drop 100 (pending table cursor)"
proof (cases "pending table cursor = []")
  case True
  then show ?thesis
    by (simp add: streamPipelines_def GetEvents_pending [OF assms(1,2)])
next
  case False
  then show ?thesis
    using pending_after [OF assms(1) False]
    by (simp add: streamPipelines_def GetEvents_pending [OF assms(1,2)] send_all_ok [OF assms(3)])
qed



section \<open>Summaries\<close>

definition workflows_in :: "string \<Rightarrow> Statuses \<Rightarrow> nat" where
  "workflows_in k ss = length (filter (\<lambda>(_, w). ps_Status (last w) = k) ss)"

lemma foldl_counts:
  "foldl (\<lambda>m s. m(s \<mapsto> (case m s of None \<Rightarrow> 1 | Some n \<Rightarrow> n + 1))) m ls k =
     (if count_list ls k = 0 then m k
      else Some (count_list ls k + (case m k of None \<Rightarrow> 0 | Some n \<Rightarrow> n)))"
  by (induction ls arbitrary: m) (auto split: option.split)

lemma status_counts_count: "status_counts ls k = (if count_list ls k = 0 then None else Some (count_list ls k))"
  by (simp add: status_counts_def foldl_counts)

lemma latest_statuses_last:
  "\<forall>(n, w) \<in> set ss. w \<noteq> [] \<Longrightarrow> latest_statuses ss = Some (map (\<lambda>(_, w). ps_Status (last w)) ss)"
  by (induction ss) (auto simp: latest_statuses_def Latest_def last_conv_nth)

lemma count_list_workflows_in: "count_list (map (\<lambda>(_, w). ps_Status (last w)) ss) k = workflows_in k ss"
  by (induction ss) (auto simp: workflows_in_def)

lemma TimeTaken_range: "0 \<le> TimeTaken w \<and> TimeTaken w < 2 ^ 63"
  by (auto simp: TimeTaken_def sub_time_def split: option.split prod.split)

text \<open>
  The summary of a pipeline whose workflows all have a status does not panic and counts every
  workflow once, under its latest status: the counts say how many workflows are in a state, the
  short summary how many of all workflows succeeded; and the time of a workflow is never negative.
\<close>

theorem pipeline_summary_correct:
  assumes "\<forall>(n, w) \<in> set ss. w \<noteq> []"
  shows "Counts ss = Some (\<lambda>k. if workflows_in k ss = 0 then None else Some (workflows_in k ss)) \<and>
    ShortStatusSummary ss = Some (digits (workflows_in StatusKindSuccess ss) @ ''/'' @ digits (length ss)) \<and>
    0 \<le> TimeTaken w \<and> TimeTaken w < 2 ^ 63"
proof -
  have "status_counts (map (\<lambda>(_, w). ps_Status (last w)) ss) =
      (\<lambda>k. if workflows_in k ss = 0 then None else Some (workflows_in k ss))"
    by (simp add: fun_eq_iff status_counts_count count_list_workflows_in)
  then show ?thesis
    using TimeTaken_range [of w]
    by (simp add: Counts_def ShortStatusSummary_def latest_statuses_last [OF assms] Let_def)
qed

definition sample_status :: "string \<Rightarrow> PipelineStatus" where
  "sample_status k = \<lparr>ps_Created = 1, ps_Workflow = ''w'', ps_Status = k, ps_Error = None, ps_ExitCode = 0\<rparr>"

theorem pipeline_summary_correct_witness:
  "Counts [(''w'', [sample_status ''success''])] =
     Some (\<lambda>k. if workflows_in k [(''w'', [sample_status ''success''])] = 0 then None
               else Some (workflows_in k [(''w'', [sample_status ''success''])])) \<and>
   ShortStatusSummary [(''w'', [sample_status ''success''])] =
     Some (digits (workflows_in StatusKindSuccess [(''w'', [sample_status ''success''])]) @ ''/'' @
           digits (length [(''w'', [sample_status ''success''])])) \<and>
   0 \<le> TimeTaken [sample_status ''success''] \<and> TimeTaken [sample_status ''success''] < 2 ^ 63"
  by (rule pipeline_summary_correct) simp

end
