(* ===== verification/Spindle_Secrets.thy ===== *)
theory Spindle_Secrets
  imports Go_Prelude
begin

text \<open>
  Secrets of a spindle: the interface \<^verbatim>\<open>Manager\<close> of \<^verbatim>\<open>spindle/secrets/manager.go\<close> as a locale, its
  implementation on SQLite (\<^verbatim>\<open>spindle/secrets/sqlite.go\<close>), the paths of the implementation on OpenBao
  (\<^verbatim>\<open>spindle/secrets/openbao.go\<close>), and the handlers that add, remove and list secrets
  (\<^verbatim>\<open>spindle/xrpc/add_secret.go\<close>, \<^verbatim>\<open>remove_secret.go\<close>, \<^verbatim>\<open>list_secrets.go\<close>).
\<close>

section \<open>Keys and secrets\<close>

datatype SecretError = ErrKeyAlreadyPresent | ErrInvalidKeyIdent | ErrKeyNotFound | ErrBackend string

record UnlockedSecret =
  us_Key :: string
  us_Value :: string
  us_Repo :: string
  us_CreatedAt :: Time
  us_CreatedBy :: string

record LockedSecret =
  ls_Key :: string
  ls_Repo :: string
  ls_CreatedAt :: Time
  ls_CreatedBy :: string

definition key_start :: "char \<Rightarrow> bool" where
  "key_start c \<longleftrightarrow> (let n = of_char c :: nat in 97 \<le> n \<and> n \<le> 122 \<or> 65 \<le> n \<and> n \<le> 90 \<or> n = 95)"

definition key_rest :: "char \<Rightarrow> bool" where
  "key_rest c \<longleftrightarrow> (let n = of_char c :: nat in key_start c \<or> 48 \<le> n \<and> n \<le> 57)"

text \<open>
  The regular expression \<^verbatim>\<open>^[a-zA-Z_][a-zA-Z0-9_]*$\<close>; without the flag \<^verbatim>\<open>m\<close> the dollar only
  matches at the very end.
\<close>

definition isValidKey :: "string \<Rightarrow> bool" where
  "isValidKey key = (case key of [] \<Rightarrow> False | c # cs \<Rightarrow> key_start c \<and> list_all key_rest cs)"

definition ValidateKey :: "string \<Rightarrow> SecretError option" where
  "ValidateKey key = (if isValidKey key then None else Some ErrInvalidKeyIdent)"

section \<open>The interface\<close>

text \<open>
  What the handlers and the engine rely on, whatever stores the secrets: \<open>lookup\<close> is the value of a
  key of a repository. Adding fails exactly for a key that is present and changes nothing then;
  removing fails exactly for a key that is not; neither touches another key or another repository.
\<close>

locale secret_manager =
  fixes inv :: "'s \<Rightarrow> bool"
    and add :: "'s \<Rightarrow> UnlockedSecret \<Rightarrow> SecretError option \<times> 's"
    and remove :: "'s \<Rightarrow> string \<Rightarrow> string \<Rightarrow> SecretError option \<times> 's"
    and locked :: "'s \<Rightarrow> string \<Rightarrow> LockedSecret list"
    and unlocked :: "'s \<Rightarrow> string \<Rightarrow> UnlockedSecret list"
    and lookup :: "'s \<Rightarrow> string \<Rightarrow> string \<Rightarrow> string option"
  assumes add_inv: "inv s \<Longrightarrow> inv (snd (add s secret))"
    and remove_inv: "inv s \<Longrightarrow> inv (snd (remove s repo key))"
    and add_fails: "inv s \<Longrightarrow> fst (add s secret) =
      (if lookup s (us_Repo secret) (us_Key secret) = None then None else Some ErrKeyAlreadyPresent)"
    and add_lookup: "inv s \<Longrightarrow> lookup (snd (add s secret)) repo key =
      (if fst (add s secret) = None \<and> repo = us_Repo secret \<and> key = us_Key secret then Some (us_Value secret)
       else lookup s repo key)"
    and remove_fails: "inv s \<Longrightarrow> fst (remove s repo key) =
      (if lookup s repo key = None then Some ErrKeyNotFound else None)"
    and remove_lookup: "inv s \<Longrightarrow> lookup (snd (remove s repo' key')) repo key =
      (if repo = repo' \<and> key = key' then None else lookup s repo key)"
    and unlocked_lookup: "inv s \<Longrightarrow> (\<lambda>x. (us_Repo x, us_Key x, us_Value x)) ` set (unlocked s repo) =
      {(repo, k, v) | k v. lookup s repo k = Some v}"
    and locked_unlocked: "map (\<lambda>x. (ls_Key x, ls_Repo x, ls_CreatedAt x, ls_CreatedBy x)) (locked s repo) =
      map (\<lambda>x. (us_Key x, us_Repo x, us_CreatedAt x, us_CreatedBy x)) (unlocked s repo)"
begin

lemma add_again: "inv s \<Longrightarrow> fst (add s x) = None \<Longrightarrow> us_Repo y = us_Repo x \<Longrightarrow> us_Key y = us_Key x \<Longrightarrow>
    fst (add (snd (add s x)) y) = Some ErrKeyAlreadyPresent"
  by (simp add: add_fails add_lookup add_inv)

lemma remove_added: "inv s \<Longrightarrow> fst (add s x) = None \<Longrightarrow>
    fst (remove (snd (add s x)) (us_Repo x) (us_Key x)) = None \<and>
    lookup (snd (remove (snd (add s x)) (us_Repo x) (us_Key x))) repo key = lookup s repo key"
  by (auto simp: remove_fails remove_lookup add_lookup add_inv add_fails split: if_splits)

lemma locked_keys:
  assumes "inv s"
  shows "ls_Key ` set (locked s repo) = {k. lookup s repo k \<noteq> None}"
proof -
  have "ls_Key ` set (locked s repo) = us_Key ` set (unlocked s repo)"
    using arg_cong [OF locked_unlocked [of s repo], of "\<lambda>xs. fst ` set xs"] by (simp add: image_image)
  also have "\<dots> = (fst \<circ> snd) ` (\<lambda>x. (us_Repo x, us_Key x, us_Value x)) ` set (unlocked s repo)"
    by (simp add: image_image)
  also have "\<dots> = {k. lookup s repo k \<noteq> None}"
    unfolding unlocked_lookup [OF assms] by force
  finally show ?thesis .
qed

end

section \<open>SQLite\<close>

text \<open>
  The table has the unique key \<^verbatim>\<open>(repo, key)\<close>: \<^verbatim>\<open>insert or ignore\<close> changes no row if the key is
  there. The database itself does not fail here. \<open>now\<close> is the default of \<^verbatim>\<open>created_at\<close>, \<open>parse\<close> is
  \<^verbatim>\<open>time.Parse\<close>.
\<close>

record SecretRow =
  row_repo :: string
  row_key :: string
  row_value :: string
  row_created_at :: string
  row_created_by :: string

type_synonym SecretTable = "SecretRow list"

definition row_is :: "string \<Rightarrow> string \<Rightarrow> SecretRow \<Rightarrow> bool" where
  "row_is repo key r \<longleftrightarrow> row_repo r = repo \<and> row_key r = key"

definition insert_or_ignore :: "SecretTable \<Rightarrow> SecretRow \<Rightarrow> nat \<times> SecretTable" where
  "insert_or_ignore table r =
     (if \<exists>x \<in> set table. row_is (row_repo r) (row_key r) x then (0, table) else (1, table @ [r]))"

definition Sqlite_AddSecret :: "string \<Rightarrow> SecretTable \<Rightarrow> UnlockedSecret \<Rightarrow> SecretError option \<times> SecretTable" where
  "Sqlite_AddSecret now table secret =
     (let (num, table') = insert_or_ignore table
            \<lparr>row_repo = us_Repo secret, row_key = us_Key secret, row_value = us_Value secret,
             row_created_at = now, row_created_by = us_CreatedBy secret\<rparr>
      in if num = 0 then (Some ErrKeyAlreadyPresent, table') else (None, table'))"

definition Sqlite_RemoveSecret :: "SecretTable \<Rightarrow> string \<Rightarrow> string \<Rightarrow> SecretError option \<times> SecretTable" where
  "Sqlite_RemoveSecret table repo key =
     (let table' = filter (\<lambda>r. \<not> row_is repo key r) table;
          num = length table - length table'
      in if num = 0 then (Some ErrKeyNotFound, table') else (None, table'))"

definition scan_time :: "(string \<Rightarrow> Time option) \<Rightarrow> string \<Rightarrow> Time" where
  "scan_time parse s = (case parse s of None \<Rightarrow> zero_time | Some t \<Rightarrow> t)"

definition Sqlite_GetSecretsLocked :: "(string \<Rightarrow> Time option) \<Rightarrow> SecretTable \<Rightarrow> string \<Rightarrow> LockedSecret list" where
  "Sqlite_GetSecretsLocked parse table repo =
     map (\<lambda>r. \<lparr>ls_Key = row_key r, ls_Repo = row_repo r, ls_CreatedAt = scan_time parse (row_created_at r),
               ls_CreatedBy = row_created_by r\<rparr>)
       (filter (\<lambda>r. row_repo r = repo) table)"

definition Sqlite_GetSecretsUnlocked :: "(string \<Rightarrow> Time option) \<Rightarrow> SecretTable \<Rightarrow> string \<Rightarrow> UnlockedSecret list" where
  "Sqlite_GetSecretsUnlocked parse table repo =
     map (\<lambda>r. \<lparr>us_Key = row_key r, us_Value = row_value r, us_Repo = row_repo r,
               us_CreatedAt = scan_time parse (row_created_at r), us_CreatedBy = row_created_by r\<rparr>)
       (filter (\<lambda>r. row_repo r = repo) table)"

definition table_ok :: "SecretTable \<Rightarrow> bool" where
  "table_ok table \<longleftrightarrow> distinct (map (\<lambda>r. (row_repo r, row_key r)) table)"

definition table_lookup :: "SecretTable \<Rightarrow> string \<Rightarrow> string \<Rightarrow> string option" where
  "table_lookup table repo key = map_option row_value (find (row_is repo key) table)"

lemma table_lookup_None: "table_lookup table repo key = None \<longleftrightarrow> (\<forall>r \<in> set table. \<not> row_is repo key r)"
  by (auto simp: table_lookup_def find_None_iff)

lemma find_filter: "find P (filter Q xs) = find (\<lambda>x. P x \<and> Q x) xs"
  by (induction xs) auto

lemma table_lookup_Some:
  assumes "table_ok table"
  shows "table_lookup table repo key = Some v \<longleftrightarrow> (\<exists>r \<in> set table. row_is repo key r \<and> row_value r = v)"
  using assms
proof (induction table)
  case (Cons r table)
  then show ?case
    by (force simp: table_lookup_def table_ok_def row_is_def)
qed (simp add: table_lookup_def)

lemma Sqlite_remove_none:
  "fst (Sqlite_RemoveSecret table repo key) =
     (if table_lookup table repo key = None then Some ErrKeyNotFound else None)"
proof -
  have "length table - length (filter (\<lambda>r. \<not> row_is repo key r) table) = length (filter (row_is repo key) table)"
    using sum_length_filter_compl [of "row_is repo key" table] by linarith
  then show ?thesis
    by (auto simp: Sqlite_RemoveSecret_def Let_def table_lookup_None filter_empty_conv)
qed

definition row_of :: "string \<Rightarrow> UnlockedSecret \<Rightarrow> SecretRow" where
  "row_of now secret = \<lparr>row_repo = us_Repo secret, row_key = us_Key secret, row_value = us_Value secret,
     row_created_at = now, row_created_by = us_CreatedBy secret\<rparr>"

lemma Sqlite_AddSecret_eq:
  "Sqlite_AddSecret now table secret =
     (if table_lookup table (us_Repo secret) (us_Key secret) = None then (None, table @ [row_of now secret])
      else (Some ErrKeyAlreadyPresent, table))"
  by (auto simp: Sqlite_AddSecret_def insert_or_ignore_def table_lookup_None row_of_def Let_def)

lemma table_lookup_append:
  "table_lookup (table @ [r]) repo key =
     (case table_lookup table repo key of
        None \<Rightarrow> if row_is repo key r then Some (row_value r) else None
      | Some v \<Rightarrow> Some v)"
  by (auto simp: table_lookup_def find_append split: option.split)

interpretation sqlite: secret_manager table_ok "Sqlite_AddSecret now" Sqlite_RemoveSecret
  "Sqlite_GetSecretsLocked parse" "Sqlite_GetSecretsUnlocked parse" table_lookup
proof
  fix s :: SecretTable and secret :: UnlockedSecret and repo key repo' key' :: string
  show "table_ok s \<Longrightarrow> table_ok (snd (Sqlite_AddSecret now s secret))"
    by (auto simp: table_ok_def Sqlite_AddSecret_eq table_lookup_None row_is_def row_of_def)
  show "table_ok s \<Longrightarrow> table_ok (snd (Sqlite_RemoveSecret s repo key))"
    by (simp add: table_ok_def Sqlite_RemoveSecret_def Let_def distinct_map_filter)
  show "fst (Sqlite_AddSecret now s secret) =
      (if table_lookup s (us_Repo secret) (us_Key secret) = None then None else Some ErrKeyAlreadyPresent)"
    by (simp add: Sqlite_AddSecret_eq)
  show "table_lookup (snd (Sqlite_AddSecret now s secret)) repo key =
      (if fst (Sqlite_AddSecret now s secret) = None \<and> repo = us_Repo secret \<and> key = us_Key secret
       then Some (us_Value secret) else table_lookup s repo key)"
    by (auto simp: Sqlite_AddSecret_eq table_lookup_append row_is_def row_of_def split: option.split)
  show "fst (Sqlite_RemoveSecret s repo key) =
      (if table_lookup s repo key = None then Some ErrKeyNotFound else None)"
    by (rule Sqlite_remove_none)
  show "table_lookup (snd (Sqlite_RemoveSecret s repo' key')) repo key =
      (if repo = repo' \<and> key = key' then None else table_lookup s repo key)"
    by (auto simp: Sqlite_RemoveSecret_def table_lookup_def find_filter row_is_def find_None_iff Let_def
        intro!: arg_cong [of _ _ "\<lambda>P. map_option row_value (find P s)"])
  show "table_ok s \<Longrightarrow> (\<lambda>x. (us_Repo x, us_Key x, us_Value x)) ` set (Sqlite_GetSecretsUnlocked parse s repo) =
      {(repo, k, v) | k v. table_lookup s repo k = Some v}"
    by (auto simp: Sqlite_GetSecretsUnlocked_def table_lookup_Some row_is_def image_image image_iff)
qed (simp add: Sqlite_GetSecretsLocked_def Sqlite_GetSecretsUnlocked_def o_def)

section \<open>OpenBao\<close>

definition repo_name :: "string \<Rightarrow> string" where
  "repo_name repo = replaceAll (replaceAll (replaceAll repo ''/'' ''_'') '':'' ''_'') ''.'' ''_''"

definition buildRepoPath :: "string \<Rightarrow> string" where
  "buildRepoPath repo = ''repos/'' @ repo_name repo"

definition buildSecretPath :: "string \<Rightarrow> string \<Rightarrow> string" where
  "buildSecretPath repo key = path_Join (buildRepoPath repo) key"

text \<open>
  The key-value service, as the code calls it: reading a path may fail or find nothing, writing and
  deleting may fail, and listing a path gives the names below it, if there is anything. A field of
  the stored data that is not a string is \<open>None\<close>. \<open>format\<close> and \<open>parse\<close> are those of \<^verbatim>\<open>time.RFC3339\<close>.
\<close>

record BaoData =
  bd_value :: "string option"
  bd_repo :: "string option"
  bd_key :: "string option"
  bd_created_at :: "string option"
  bd_created_by :: "string option"

record 's KVClient =
  kv_mount :: string
  kv_get :: "'s \<Rightarrow> string \<Rightarrow> (string, BaoData option) result"
  kv_put :: "'s \<Rightarrow> string \<Rightarrow> BaoData \<Rightarrow> (string, 's) result"
  kv_delete :: "'s \<Rightarrow> string \<Rightarrow> (string, 's) result"
  kv_list :: "'s \<Rightarrow> string \<Rightarrow> (string, string list option) result"

definition Bao_AddSecret :: "'s KVClient \<Rightarrow> (Time \<Rightarrow> string) \<Rightarrow> 's \<Rightarrow> UnlockedSecret \<Rightarrow> SecretError option \<times> 's" where
  "Bao_AddSecret kv format s secret =
     (case ValidateKey (us_Key secret) of
        Some err \<Rightarrow> (Some err, s)
      | None \<Rightarrow>
          let secretPath = buildSecretPath (us_Repo secret) (us_Key secret)
          in case kv_get kv s secretPath of
               Inr (Some existing) \<Rightarrow> (Some ErrKeyAlreadyPresent, s)
             | _ \<Rightarrow>
                 case kv_put kv s secretPath
                        \<lparr>bd_value = Some (us_Value secret), bd_repo = Some (us_Repo secret),
                         bd_key = Some (us_Key secret), bd_created_at = Some (format (us_CreatedAt secret)),
                         bd_created_by = Some (us_CreatedBy secret)\<rparr> of
                   Inl e \<Rightarrow> (Some (ErrBackend (''failed to store secret in openbao: '' @ e)), s)
                 | Inr s' \<Rightarrow>
                     case kv_get kv s' secretPath of
                       Inl e \<Rightarrow> (Some (ErrBackend (''secret not found after writing to '' @ kv_mount kv @ ''/'' @ secretPath @ '': '' @ e)), s')
                     | Inr None \<Rightarrow> (Some (ErrBackend (''secret verification failed: empty data returned for '' @ kv_mount kv @ ''/'' @ secretPath)), s')
                     | Inr (Some _) \<Rightarrow> (None, s'))"

definition Bao_RemoveSecret :: "'s KVClient \<Rightarrow> 's \<Rightarrow> string \<Rightarrow> string \<Rightarrow> SecretError option \<times> 's" where
  "Bao_RemoveSecret kv s repo key =
     (let secretPath = buildSecretPath repo key
      in case kv_get kv s secretPath of
           Inr (Some existing) \<Rightarrow>
             (case kv_delete kv s secretPath of
                Inl e \<Rightarrow> (Some (ErrBackend (''failed to delete secret from openbao: '' @ e)), s)
              | Inr s' \<Rightarrow> (None, s'))
         | _ \<Rightarrow> (Some ErrKeyNotFound, s))"

definition bao_keys :: "'s KVClient \<Rightarrow> 's \<Rightarrow> string \<Rightarrow> (SecretError, string list) result" where
  "bao_keys kv s repo =
     (case kv_list kv s (kv_mount kv @ ''/metadata/'' @ buildRepoPath repo) of
        Inl e \<Rightarrow>
          if contains e ''no secret found'' \<or> contains e ''no handler for route'' then Inr []
          else Inl (ErrBackend (''failed to list secrets: '' @ e))
      | Inr None \<Rightarrow> Inr []
      | Inr (Some keys) \<Rightarrow> Inr keys)"

definition bao_read :: "'s KVClient \<Rightarrow> 's \<Rightarrow> string \<Rightarrow> string \<Rightarrow> BaoData option" where
  "bao_read kv s repo key =
     (case kv_get kv s (buildRepoPath repo @ ''/'' @ key) of Inl e \<Rightarrow> None | Inr data \<Rightarrow> data)"

definition bao_created :: "(Time \<Rightarrow> string) \<Rightarrow> (string \<Rightarrow> Time option) \<Rightarrow> Time \<Rightarrow> BaoData \<Rightarrow> Time" where
  "bao_created format parse now data =
     (let createdAtStr = (case bd_created_at data of None \<Rightarrow> format now | Some t \<Rightarrow> t)
      in case parse createdAtStr of None \<Rightarrow> now | Some t \<Rightarrow> t)"

definition Bao_GetSecretsLocked ::
  "'s KVClient \<Rightarrow> (Time \<Rightarrow> string) \<Rightarrow> (string \<Rightarrow> Time option) \<Rightarrow> Time \<Rightarrow> 's \<Rightarrow> string \<Rightarrow>
   (SecretError, LockedSecret list) result" where
  "Bao_GetSecretsLocked kv format parse now s repo =
     map_sum id
       (List.map_filter
          (\<lambda>key. map_option
             (\<lambda>data. \<lparr>ls_Key = (case bd_key data of None \<Rightarrow> key | Some k \<Rightarrow> k), ls_Repo = repo,
                      ls_CreatedAt = bao_created format parse now data,
                      ls_CreatedBy = (case bd_created_by data of None \<Rightarrow> [] | Some d \<Rightarrow> d)\<rparr>)
             (bao_read kv s repo key)))
       (bao_keys kv s repo)"

definition Bao_GetSecretsUnlocked ::
  "'s KVClient \<Rightarrow> (Time \<Rightarrow> string) \<Rightarrow> (string \<Rightarrow> Time option) \<Rightarrow> Time \<Rightarrow> 's \<Rightarrow> string \<Rightarrow>
   (SecretError, UnlockedSecret list) result" where
  "Bao_GetSecretsUnlocked kv format parse now s repo =
     map_sum id
       (List.map_filter
          (\<lambda>key. Option.bind (bao_read kv s repo key)
             (\<lambda>data. map_option
                (\<lambda>v. \<lparr>us_Key = (case bd_key data of None \<Rightarrow> key | Some k \<Rightarrow> k), us_Value = v, us_Repo = repo,
                      us_CreatedAt = bao_created format parse now data,
                      us_CreatedBy = (case bd_created_by data of None \<Rightarrow> [] | Some d \<Rightarrow> d)\<rparr>)
                (bd_value data))))
       (bao_keys kv s repo)"

section \<open>The handlers\<close>

text \<open>
  A request has the authenticated actor, if there is one. Parsing the repository's URI, resolving
  its owner, fetching the repository record and joining the two names are calls to other services
  and packages: \<open>resolve\<close> is their outcome, the string \<^verbatim>\<open>did/repo\<close> or the error that is reported.
  \<open>allowed\<close> is \<^verbatim>\<open>IsSettingsAllowed\<close> without an error.
\<close>

datatype Response = Done | BadRequest string | Unauthorized string | ServerError SecretError
  | Listing "LockedSecret list"

definition with_repo ::
  "(string \<Rightarrow> (string, string) result) \<Rightarrow> (string \<Rightarrow> string \<Rightarrow> bool) \<Rightarrow> string \<Rightarrow> string \<Rightarrow>
   'v \<Rightarrow> (string \<Rightarrow> Response \<times> 'v) \<Rightarrow> Response \<times> 'v" where
  "with_repo resolve allowed actorDid repo s act =
     (case resolve repo of
        Inl e \<Rightarrow> (BadRequest e, s)
      | Inr didPath \<Rightarrow> if \<not> allowed actorDid didPath then (Unauthorized actorDid, s) else act didPath)"

definition AddSecret_handler ::
  "('s \<Rightarrow> UnlockedSecret \<Rightarrow> SecretError option \<times> 's) \<Rightarrow> (string \<Rightarrow> (string, string) result) \<Rightarrow>
   (string \<Rightarrow> string \<Rightarrow> bool) \<Rightarrow> Time \<Rightarrow> 's \<Rightarrow> string option \<Rightarrow> string \<Rightarrow> string \<Rightarrow> string \<Rightarrow> Response \<times> 's" where
  "AddSecret_handler add resolve allowed now s actor repo key v =
     (case actor of
        None \<Rightarrow> (BadRequest ''MissingActorDid'', s)
      | Some actorDid \<Rightarrow>
          if ValidateKey key \<noteq> None then (BadRequest ''key is not a valid identifier'', s)
          else with_repo resolve allowed actorDid repo s
            (\<lambda>didPath.
              let (err, s') = add s \<lparr>us_Key = key, us_Value = v, us_Repo = didPath, us_CreatedAt = now,
                                      us_CreatedBy = actorDid\<rparr>
              in ((case err of None \<Rightarrow> Done | Some e \<Rightarrow> ServerError e), s')))"

definition RemoveSecret_handler ::
  "('s \<Rightarrow> string \<Rightarrow> string \<Rightarrow> SecretError option \<times> 's) \<Rightarrow> (string \<Rightarrow> (string, string) result) \<Rightarrow>
   (string \<Rightarrow> string \<Rightarrow> bool) \<Rightarrow> 's \<Rightarrow> string option \<Rightarrow> string \<Rightarrow> string \<Rightarrow> Response \<times> 's" where
  "RemoveSecret_handler remove resolve allowed s actor repo key =
     (case actor of
        None \<Rightarrow> (BadRequest ''MissingActorDid'', s)
      | Some actorDid \<Rightarrow>
          with_repo resolve allowed actorDid repo s
            (\<lambda>didPath.
              let (err, s') = remove s didPath key
              in ((case err of None \<Rightarrow> Done | Some e \<Rightarrow> ServerError e), s')))"

definition ListSecrets_handler ::
  "('s \<Rightarrow> string \<Rightarrow> LockedSecret list) \<Rightarrow> (string \<Rightarrow> (string, string) result) \<Rightarrow>
   (string \<Rightarrow> string \<Rightarrow> bool) \<Rightarrow> 's \<Rightarrow> string option \<Rightarrow> string \<Rightarrow> Response" where
  "ListSecrets_handler locked resolve allowed s actor repo =
     (case actor of
        None \<Rightarrow> BadRequest ''MissingActorDid''
      | Some actorDid \<Rightarrow>
          if repo = [] then BadRequest ''empty params''
          else fst (with_repo resolve allowed actorDid repo s
            (\<lambda>didPath. (Listing (map (\<lambda>l. l\<lparr>ls_Repo := repo\<rparr>) (locked s didPath)), s))))"

section \<open>Only who may change the settings of a repository reaches its secrets\<close>

context secret_manager
begin

lemma add_handler_change:
  assumes "inv s" "lookup (snd (AddSecret_handler add resolve allowed now s actor repo key v)) r k \<noteq> lookup s r k"
  shows "\<exists>a. actor = Some a \<and> resolve repo = Inr r \<and> allowed a r \<and> k = key \<and> isValidKey key \<and> lookup s r k = None"
  using assms
  by (auto simp: AddSecret_handler_def with_repo_def ValidateKey_def split_beta Let_def add_lookup add_fails
      split: option.splits sum.splits if_splits)

lemma remove_handler_change:
  assumes "inv s" "lookup (snd (RemoveSecret_handler remove resolve allowed s actor repo key)) r k \<noteq> lookup s r k"
  shows "\<exists>a. actor = Some a \<and> resolve repo = Inr r \<and> allowed a r \<and> k = key"
  using assms
  by (auto simp: RemoveSecret_handler_def with_repo_def split_beta Let_def remove_lookup
      split: option.splits sum.splits if_splits)

lemma list_handler_keys:
  assumes "inv s" "ListSecrets_handler locked resolve allowed s actor repo = Listing ls"
  shows "\<exists>a didPath. actor = Some a \<and> resolve repo = Inr didPath \<and> allowed a didPath \<and>
    ls_Key ` set ls = {k. lookup s didPath k \<noteq> None}"
proof -
  obtain a didPath where a: "actor = Some a" "resolve repo = Inr didPath" "allowed a didPath"
    "ls = map (\<lambda>l. l\<lparr>ls_Repo := repo\<rparr>) (locked s didPath)"
    using assms(2) by (auto simp: ListSecrets_handler_def with_repo_def split: option.splits sum.splits if_splits)
  moreover from a(4) have "ls_Key ` set ls = {k. lookup s didPath k \<noteq> None}"
    using locked_keys [OF assms(1), of didPath] by (simp add: image_image)
  ultimately show ?thesis by blast
qed

end

text \<open>
  C27. With the SQLite manager a secret changes only through a request of an authenticated actor
  that may change the settings of the very repository the secret belongs to, and only the secret
  the request names; an existing secret is never overwritten; and a listing holds exactly the keys of
  a repository whose settings the actor may change.
\<close>

theorem secrets_guarded:
  assumes "table_ok s"
  shows "(table_lookup (snd (AddSecret_handler (Sqlite_AddSecret now) resolve allowed t s actor repo key v)) r k \<noteq>
       table_lookup s r k \<longrightarrow>
       (\<exists>a. actor = Some a \<and> resolve repo = Inr r \<and> allowed a r \<and> k = key \<and> isValidKey key \<and> table_lookup s r k = None)) \<and>
    (table_lookup (snd (RemoveSecret_handler Sqlite_RemoveSecret resolve allowed s actor repo key)) r k \<noteq>
       table_lookup s r k \<longrightarrow> (\<exists>a. actor = Some a \<and> resolve repo = Inr r \<and> allowed a r \<and> k = key)) \<and>
    (ListSecrets_handler (Sqlite_GetSecretsLocked parse) resolve allowed s actor repo = Listing ls \<longrightarrow>
       (\<exists>a didPath. actor = Some a \<and> resolve repo = Inr didPath \<and> allowed a didPath \<and>
         ls_Key ` set ls = {k. table_lookup s didPath k \<noteq> None}))"
  by (intro conjI impI)
    (erule sqlite.add_handler_change [OF assms] sqlite.remove_handler_change [OF assms] sqlite.list_handler_keys [OF assms])+

theorem secrets_guarded_witness:
  "table_lookup (snd (AddSecret_handler (Sqlite_AddSecret ''now'') Inr (\<lambda>a r. a = ''me'' \<and> r = ''r'') 0 []
     (Some ''me'') ''r'' ''K'' ''v'')) ''r'' ''K'' = Some ''v'' \<and>
   (\<exists>a. Some ''me'' = Some a \<and> (Inr ''r'' :: (string, string) result) = Inr ''r'' \<and> (a = ''me'' \<and> ''r'' = ''r''))"
proof -
  let ?add = "AddSecret_handler (Sqlite_AddSecret ''now'') Inr (\<lambda>a r. a = ''me'' \<and> r = ''r'') 0 [] (Some ''me'') ''r'' ''K'' ''v''"
  have "table_lookup (snd ?add) ''r'' ''K'' = Some ''v''" by code_simp
  moreover have "table_lookup [] ''r'' ''K'' = None" by code_simp
  ultimately show ?thesis
    using secrets_guarded [of "[]" "''now''" Inr "\<lambda>a r. a = ''me'' \<and> r = ''r''" 0 "Some ''me''" "''r''" "''K''" "''v''"
        "''r''" "''K''"] by (simp add: table_ok_def)
qed

section \<open>The paths of OpenBao do not separate repositories\<close>

lemma replaceAll_char: "replaceAll s [a] [b] = map (\<lambda>c. if c = a then b else c) s"
  by (induction s) (auto simp: hasPrefix_def)

lemma repo_name_map:
  "repo_name repo = map (\<lambda>c. if c = CHR ''/'' \<or> c = CHR '':'' \<or> c = CHR ''.'' then CHR ''_'' else c) repo"
  unfolding repo_name_def replaceAll_char map_map by (intro map_cong) auto

lemma repo_name_chars: "CHR ''/'' \<notin> set (repo_name r)" "CHR ''.'' \<notin> set (repo_name r)"
  by (auto simp: repo_name_map)

lemma valid_key_chars: "isValidKey key \<Longrightarrow> CHR ''/'' \<notin> set key \<and> CHR ''.'' \<notin> set key \<and> key \<noteq> []"
  by (auto simp: isValidKey_def list_all_iff key_start_def key_rest_def Let_def split: list.splits)

lemma clean_plain: "e \<noteq> [] \<Longrightarrow> CHR ''.'' \<notin> set e \<Longrightarrow> clean rooted acc (e # es) = clean rooted (e # acc) es"
  by auto

lemma path_Clean_relative:
  assumes "es \<noteq> []" "\<forall>e \<in> set es. CHR ''/'' \<notin> set e" "hd es \<noteq> []" "clean False [] es = cs" "joinWith ''/'' cs \<noteq> []"
  shows "path_Clean (joinWith ''/'' es) = joinWith ''/'' cs"
proof -
  have "\<not> hasPrefix (joinWith ''/'' es) ''/''"
    using assms(1-3) by (cases es; cases "hd es"; cases "tl es") (auto simp: hasPrefix_def)
  moreover have "splitOn CHR ''/'' (joinWith ''/'' es) = es"
    using assms(1,2) by (rule splitOn_join)
  ultimately show ?thesis using assms(4,5) by (simp add: path_Clean_def Let_def)
qed

lemma buildSecretPath_plain:
  assumes "r \<noteq> []" "isValidKey key"
  shows "buildSecretPath r key = joinWith ''/'' [''repos'', repo_name r, key]"
proof -
  have n: "repo_name r \<noteq> []" using assms(1) by (simp add: repo_name_map)
  have "buildSecretPath r key = path_Clean (joinWith ''/'' [''repos'', repo_name r, key])"
    using valid_key_chars [OF assms(2)] by (simp add: buildSecretPath_def path_Join_def buildRepoPath_def)
  also have "\<dots> = joinWith ''/'' [''repos'', repo_name r, key]"
    by (rule path_Clean_relative)
      (use n repo_name_chars [of r] valid_key_chars [OF assms(2)] in \<open>auto simp: clean_plain\<close>)
  finally show ?thesis .
qed

lemma map_filter_relabel:
  "List.map_filter (\<lambda>key. Option.bind (f key) (\<lambda>d. map_option (\<lambda>v. \<lparr>us_Key = g key d, us_Value = v, us_Repo = r,
      us_CreatedAt = h d, us_CreatedBy = i d\<rparr>) (j d))) keys =
   map (\<lambda>x. x\<lparr>us_Repo := r\<rparr>) (List.map_filter (\<lambda>key. Option.bind (f key) (\<lambda>d. map_option (\<lambda>v. \<lparr>us_Key = g key d,
      us_Value = v, us_Repo = r', us_CreatedAt = h d, us_CreatedBy = i d\<rparr>) (j d))) keys)"
  by (induction keys) (auto simp: map_filter_simps Option.bind_eq_Some_conv split: option.split)

text \<open>
  The OpenBao manager does not keep repositories apart. The path of a secret is built from a name in
  which slash, colon and dot are all replaced by the same character, so repositories of different
  users share their secrets; and \<^verbatim>\<open>RemoveSecret\<close>, which does not validate the key, follows a double
  dot in the key to the secret of any other repository.
\<close>

theorem openbao_paths_collide:
  assumes "r \<noteq> []" "victim \<noteq> []" "isValidKey key"
  shows "Bao_RemoveSecret kv s ''did:web:a.b/c'' key = Bao_RemoveSecret kv s ''did:web:a/b_c'' key \<and>
    Bao_GetSecretsUnlocked kv format parse now s ''did:web:a.b/c'' =
      map_sum id (map (\<lambda>x. x\<lparr>us_Repo := ''did:web:a.b/c''\<rparr>)) (Bao_GetSecretsUnlocked kv format parse now s ''did:web:a/b_c'') \<and>
    Bao_RemoveSecret kv s r (''../'' @ repo_name victim @ ''/'' @ key) = Bao_RemoveSecret kv s victim key"
proof -
  have "repo_name ''did:web:a.b/c'' = repo_name ''did:web:a/b_c''" by (simp add: repo_name_map)
  then have "buildRepoPath ''did:web:a.b/c'' = buildRepoPath ''did:web:a/b_c''" by (simp only: buildRepoPath_def)
  then have 1: "buildSecretPath ''did:web:a.b/c'' = buildSecretPath ''did:web:a/b_c''"
    "bao_keys kv s ''did:web:a.b/c'' = bao_keys kv s ''did:web:a/b_c''"
    "bao_read kv s ''did:web:a.b/c'' = bao_read kv s ''did:web:a/b_c''"
    by (simp_all only: fun_eq_iff buildSecretPath_def bao_keys_def bao_read_def simp_thms)
  have n: "repo_name r \<noteq> []" "repo_name victim \<noteq> []" using assms(1,2) by (simp_all add: repo_name_map)
  have "buildSecretPath r (''../'' @ repo_name victim @ ''/'' @ key) =
      path_Clean (joinWith ''/'' [''repos'', repo_name r, ''..'', repo_name victim, key])"
    by (simp add: buildSecretPath_def path_Join_def buildRepoPath_def)
  also have "\<dots> = joinWith ''/'' [''repos'', repo_name victim, key]"
    by (rule path_Clean_relative)
      (use n repo_name_chars [of r] repo_name_chars [of victim] valid_key_chars [OF assms(3)] in \<open>auto simp: clean_plain\<close>)
  also have "\<dots> = buildSecretPath victim key" by (simp only: buildSecretPath_plain [OF assms(2,3)])
  finally have 2: "buildSecretPath r (''../'' @ repo_name victim @ ''/'' @ key) = buildSecretPath victim key" .
  have 3: "Bao_GetSecretsUnlocked kv format parse now s ''did:web:a.b/c'' =
      map_sum id (map (\<lambda>x. x\<lparr>us_Repo := ''did:web:a.b/c''\<rparr>)) (Bao_GetSecretsUnlocked kv format parse now s ''did:web:a/b_c'')"
    unfolding Bao_GetSecretsUnlocked_def 1
    by (cases "bao_keys kv s ''did:web:a/b_c''") (simp_all add: map_filter_relabel)
  show ?thesis
    unfolding Bao_RemoveSecret_def 1 2 using 3 by blast
qed

theorem openbao_paths_collide_witness:
  "\<forall>(kv :: string KVClient) s.
     Bao_RemoveSecret kv s ''did:plc:x/r'' ''../did_plc_y_q/TOKEN'' = Bao_RemoveSecret kv s ''did:plc:y/q'' ''TOKEN''"
proof (intro allI)
  fix kv :: "string KVClient" and s :: string
  have "isValidKey ''TOKEN''" by code_simp
  moreover have "repo_name ''did:plc:y/q'' = ''did_plc_y_q''" by code_simp
  ultimately show "Bao_RemoveSecret kv s ''did:plc:x/r'' ''../did_plc_y_q/TOKEN'' = Bao_RemoveSecret kv s ''did:plc:y/q'' ''TOKEN''"
    using openbao_paths_collide [of "''did:plc:x/r''" "''did:plc:y/q''" "''TOKEN''" kv s] by simp
qed

end
