(* ===== verification/Threads.thy ===== *)
theory Threads
  imports Go_Prelude
begin

text \<open>
  Issues and discussions: \<^verbatim>\<open>appview/models/issue.go\<close> and \<^verbatim>\<open>appview/models/discussion.go\<close>. Both show their
  comments as threads and both list their participants, with code that differs only in the types;
  the threads are one definition over the accessors of a comment, and what they guarantee is proved
  once, in the locale \<open>threaded_comments\<close>, and interpreted for both.
\<close>

section \<open>Comment threads\<close>

text \<open>
  The map of top-level comments by their address; a later comment with the same address replaces an
  earlier one. Replies are then appended to their parent; a reply whose parent is not a top-level
  comment is dropped. Go iterates over the map in any order: \<open>order\<close> lists its keys. Neither sort is
  stable: the two sorting functions are arguments.
\<close>

type_synonym 'c item = "'c \<times> 'c list"

definition collect_toplevel :: "('c \<Rightarrow> string) \<Rightarrow> ('c \<Rightarrow> bool) \<Rightarrow> 'c list \<Rightarrow> (string \<rightharpoonup> 'c item)" where
  "collect_toplevel at_uri is_top comments =
     foldl (\<lambda>m c. if is_top c then m(at_uri c \<mapsto> (c, [])) else m) Map.empty comments"

definition attach :: "('c \<Rightarrow> string option) \<Rightarrow> (string \<rightharpoonup> 'c item) \<Rightarrow> 'c \<Rightarrow> (string \<rightharpoonup> 'c item)" where
  "attach reply_to m r =
     (case reply_to r of
        None \<Rightarrow> m
      | Some parentAt \<Rightarrow>
          case m parentAt of
            None \<Rightarrow> m
          | Some (self, replies) \<Rightarrow> m(parentAt \<mapsto> (self, replies @ [r])))"

definition thread_map ::
  "('c \<Rightarrow> string) \<Rightarrow> ('c \<Rightarrow> bool) \<Rightarrow> ('c \<Rightarrow> string option) \<Rightarrow> 'c list \<Rightarrow> (string \<rightharpoonup> 'c item)" where
  "thread_map at_uri is_top reply_to comments =
     foldl (attach reply_to) (collect_toplevel at_uri is_top comments) (filter (\<lambda>c. \<not> is_top c) comments)"

definition comment_list ::
  "('c \<Rightarrow> string) \<Rightarrow> ('c \<Rightarrow> bool) \<Rightarrow> ('c \<Rightarrow> string option) \<Rightarrow>
   ((string \<rightharpoonup> 'c item) \<Rightarrow> string list) \<Rightarrow> ('c item list \<Rightarrow> 'c item list) \<Rightarrow> ('c list \<Rightarrow> 'c list) \<Rightarrow>
   'c list \<Rightarrow> 'c item list" where
  "comment_list at_uri is_top reply_to order sort_items sort_replies comments =
     (let toplevel = thread_map at_uri is_top reply_to comments;
          listing = List.map_filter toplevel (order toplevel)
      in map (\<lambda>(self, replies). (self, sort_replies replies)) (sort_items listing))"

text \<open>What Go guarantees about iterating over a map: every key once.\<close>

definition lists_keys :: "((string \<rightharpoonup> 'c item) \<Rightarrow> string list) \<Rightarrow> bool" where
  "lists_keys order \<longleftrightarrow> (\<forall>m. finite (dom m) \<longrightarrow> distinct (order m) \<and> set (order m) = dom m)"

lemma lists_keys_exists: "lists_keys (\<lambda>m. sorted_list_of_set (dom m))"
  by (simp add: lists_keys_def)

section \<open>Issues\<close>

definition RepoIssueNSID :: string where "RepoIssueNSID = ''sh.tangled.repo.issue''"
definition RepoIssueCommentNSID :: string where "RepoIssueCommentNSID = ''sh.tangled.repo.issue.comment''"

record IssueComment =
  ic_Id :: int
  ic_Did :: string
  ic_Rkey :: string
  ic_IssueAt :: string
  ic_ReplyTo :: "string option"
  ic_Body :: string
  ic_Created :: Time
  ic_Edited :: "Time option"
  ic_Deleted :: "Time option"
  ic_Mentions :: "string list"
  ic_References :: "string list"

definition IssueComment_AtUri :: "IssueComment \<Rightarrow> string" where
  "IssueComment_AtUri c = ''at://'' @ ic_Did c @ ''/'' @ RepoIssueCommentNSID @ ''/'' @ ic_Rkey c"

definition IssueComment_IsTopLevel :: "IssueComment \<Rightarrow> bool" where
  "IssueComment_IsTopLevel c \<longleftrightarrow> ic_ReplyTo c = None"

definition IssueComment_IsReply :: "IssueComment \<Rightarrow> bool" where
  "IssueComment_IsReply c \<longleftrightarrow> ic_ReplyTo c \<noteq> None"

record IssueCommentRecord =
  icr_Body :: string
  icr_CreatedAt :: string
  icr_Issue :: string
  icr_Mentions :: "string list"
  icr_References :: "string list"
  icr_ReplyTo :: "string option"

definition IssueComment_AsRecord :: "(Time \<Rightarrow> string) \<Rightarrow> IssueComment \<Rightarrow> IssueCommentRecord" where
  "IssueComment_AsRecord format c =
     \<lparr>icr_Body = ic_Body c, icr_CreatedAt = format (ic_Created c), icr_Issue = ic_IssueAt c,
      icr_Mentions = ic_Mentions c, icr_References = ic_References c, icr_ReplyTo = ic_ReplyTo c\<rparr>"

text \<open>\<open>valid_uri\<close> says whether \<^verbatim>\<open>syntax.ParseATURI\<close> accepts a string; \<open>now\<close> is the clock.\<close>

definition IssueCommentFromRecord ::
  "(string \<Rightarrow> Time option) \<Rightarrow> (string \<Rightarrow> bool) \<Rightarrow> Time \<Rightarrow> string \<Rightarrow> string \<Rightarrow> IssueCommentRecord \<Rightarrow> IssueComment option" where
  "IssueCommentFromRecord parse valid_uri now did rkey r =
     (if \<not> valid_uri (icr_Issue r) then None
      else Some
        \<lparr>ic_Id = 0, ic_Did = did, ic_Rkey = rkey, ic_IssueAt = icr_Issue r, ic_ReplyTo = icr_ReplyTo r,
         ic_Body = icr_Body r, ic_Created = (case parse (icr_CreatedAt r) of None \<Rightarrow> now | Some t \<Rightarrow> t),
         ic_Edited = None, ic_Deleted = None, ic_Mentions = icr_Mentions r, ic_References = icr_References r\<rparr>)"

record Issue =
  is_Did :: string
  is_Rkey :: string
  is_RepoAt :: string
  is_Created :: Time
  is_Title :: string
  is_Body :: string
  is_Open :: bool
  is_Mentions :: "string list"
  is_References :: "string list"
  is_Comments :: "IssueComment list"

definition Issue_AtUri :: "Issue \<Rightarrow> string" where
  "Issue_AtUri i = ''at://'' @ is_Did i @ ''/'' @ RepoIssueNSID @ ''/'' @ is_Rkey i"

definition Issue_State :: "Issue \<Rightarrow> string" where
  "Issue_State i = (if is_Open i then ''open'' else ''closed'')"

record IssueRecord =
  ir_Body :: "string option"
  ir_CreatedAt :: string
  ir_Mentions :: "string list"
  ir_References :: "string list"
  ir_Repo :: string
  ir_Title :: string

definition Issue_AsRecord :: "(Time \<Rightarrow> string) \<Rightarrow> Issue \<Rightarrow> IssueRecord" where
  "Issue_AsRecord format i =
     \<lparr>ir_Body = Some (is_Body i), ir_CreatedAt = format (is_Created i), ir_Mentions = is_Mentions i,
      ir_References = is_References i, ir_Repo = is_RepoAt i, ir_Title = is_Title i\<rparr>"

definition IssueFromRecord :: "(string \<Rightarrow> Time option) \<Rightarrow> Time \<Rightarrow> string \<Rightarrow> string \<Rightarrow> IssueRecord \<Rightarrow> Issue" where
  "IssueFromRecord parse now did rkey r =
     \<lparr>is_Did = did, is_Rkey = rkey, is_RepoAt = ir_Repo r,
      is_Created = (case parse (ir_CreatedAt r) of None \<Rightarrow> now | Some t \<Rightarrow> t), is_Title = ir_Title r,
      is_Body = (case ir_Body r of None \<Rightarrow> [] | Some b \<Rightarrow> b), is_Open = True, is_Mentions = [],
      is_References = [], is_Comments = []\<rparr>"

definition Issue_Participants :: "Issue \<Rightarrow> string list" where
  "Issue_Participants i = addAll (addParticipant [] (is_Did i)) (map ic_Did (is_Comments i))"

definition CommentListItem_Participants :: "IssueComment item \<Rightarrow> string list" where
  "CommentListItem_Participants it = addAll (addParticipant [] (ic_Did (fst it))) (map ic_Did (snd it))"

definition Issue_CommentList ::
  "((string \<rightharpoonup> IssueComment item) \<Rightarrow> string list) \<Rightarrow> (IssueComment item list \<Rightarrow> IssueComment item list) \<Rightarrow>
   (IssueComment list \<Rightarrow> IssueComment list) \<Rightarrow> Issue \<Rightarrow> IssueComment item list" where
  "Issue_CommentList order sort_items sort_replies i =
     comment_list IssueComment_AtUri IssueComment_IsTopLevel ic_ReplyTo order sort_items sort_replies (is_Comments i)"

section \<open>Discussions\<close>

datatype DiscussionState = DiscussionClosed | DiscussionOpen | DiscussionMerged

fun DiscussionState_String :: "DiscussionState \<Rightarrow> string" where
  "DiscussionState_String DiscussionOpen = ''open''"
| "DiscussionState_String DiscussionMerged = ''merged''"
| "DiscussionState_String DiscussionClosed = ''closed''"

definition DiscussionNSID :: string where "DiscussionNSID = ''sh.tangled.repo.discussion''"
definition DiscussionCommentNSID :: string where "DiscussionCommentNSID = ''sh.tangled.repo.discussion.comment''"

record DiscussionPatch =
  dp_PushedByDid :: string
  dp_PatchHash :: string
  dp_Patch :: string
  dp_Added :: Time
  dp_Removed :: "Time option"

definition DiscussionPatch_IsActive :: "DiscussionPatch \<Rightarrow> bool" where
  "DiscussionPatch_IsActive p \<longleftrightarrow> dp_Removed p = None"

definition CanRemove :: "DiscussionPatch \<Rightarrow> string \<Rightarrow> bool \<Rightarrow> bool" where
  "CanRemove p userDid hasEditPerm \<longleftrightarrow> dp_PushedByDid p = userDid \<or> hasEditPerm"

record DiscussionComment =
  dc_Id :: int
  dc_Did :: string
  dc_Rkey :: string
  dc_DiscussionAt :: string
  dc_ReplyTo :: "string option"
  dc_Body :: string
  dc_Created :: Time

definition DiscussionComment_AtUri :: "DiscussionComment \<Rightarrow> string" where
  "DiscussionComment_AtUri c = ''at://'' @ dc_Did c @ ''/'' @ DiscussionCommentNSID @ ''/'' @ dc_Rkey c"

definition DiscussionComment_IsTopLevel :: "DiscussionComment \<Rightarrow> bool" where
  "DiscussionComment_IsTopLevel c \<longleftrightarrow> dc_ReplyTo c = None"

definition DiscussionComment_IsReply :: "DiscussionComment \<Rightarrow> bool" where
  "DiscussionComment_IsReply c \<longleftrightarrow> dc_ReplyTo c \<noteq> None"

record Discussion =
  di_Did :: string
  di_Rkey :: string
  di_Title :: string
  di_Body :: string
  di_TargetChannel :: string
  di_State :: DiscussionState
  di_Patches :: "DiscussionPatch list"
  di_Comments :: "DiscussionComment list"

definition Discussion_AtUri :: "Discussion \<Rightarrow> string" where
  "Discussion_AtUri d = ''at://'' @ di_Did d @ ''/'' @ DiscussionNSID @ ''/'' @ di_Rkey d"

definition ActivePatches :: "Discussion \<Rightarrow> DiscussionPatch list" where
  "ActivePatches d = filter DiscussionPatch_IsActive (di_Patches d)"

definition Discussion_Participants :: "Discussion \<Rightarrow> string list" where
  "Discussion_Participants d =
     addAll (addAll (addParticipant [] (di_Did d)) (map dp_PushedByDid (di_Patches d))) (map dc_Did (di_Comments d))"

definition Discussion_CommentList ::
  "((string \<rightharpoonup> DiscussionComment item) \<Rightarrow> string list) \<Rightarrow> (DiscussionComment item list \<Rightarrow> DiscussionComment item list) \<Rightarrow>
   (DiscussionComment list \<Rightarrow> DiscussionComment list) \<Rightarrow> Discussion \<Rightarrow> DiscussionComment item list" where
  "Discussion_CommentList order sort_items sort_replies d =
     comment_list DiscussionComment_AtUri DiscussionComment_IsTopLevel dc_ReplyTo order sort_items sort_replies
       (di_Comments d)"

definition Discussion_TotalComments :: "Discussion \<Rightarrow> nat" where
  "Discussion_TotalComments d = length (di_Comments d)"

definition DiscussionCommentListItem_Participants :: "DiscussionComment item \<Rightarrow> string list" where
  "DiscussionCommentListItem_Participants it = addAll (addParticipant [] (dc_Did (fst it))) (map dc_Did (snd it))"

section \<open>What the threads show\<close>

locale threaded_comments =
  fixes at_uri :: "'c \<Rightarrow> string"
    and is_top :: "'c \<Rightarrow> bool"
    and reply_to :: "'c \<Rightarrow> string option"
    and created :: "'c \<Rightarrow> Time"
  assumes is_top_iff: "is_top c \<longleftrightarrow> reply_to c = None"
begin

abbreviation toplevel_comments :: "'c list \<Rightarrow> 'c list" where
  "toplevel_comments comments \<equiv> filter is_top comments"

abbreviation replies_to :: "'c list \<Rightarrow> string \<Rightarrow> 'c list" where
  "replies_to comments u \<equiv> filter (\<lambda>r. reply_to r = Some u) comments"

lemma collect_toplevel_map_of:
  assumes "distinct (map at_uri (toplevel_comments comments))"
  shows "collect_toplevel at_uri is_top comments = map_of (map (\<lambda>c. (at_uri c, c, [])) (toplevel_comments comments))"
proof -
  have "foldl (\<lambda>m c. if is_top c then m(at_uri c \<mapsto> (c, [])) else m) m comments =
      m ++ map_of (map (\<lambda>c. (at_uri c, c, [])) (toplevel_comments comments))" for m :: "string \<rightharpoonup> 'c item"
    using assms
  proof (induction comments arbitrary: m)
    case (Cons c cs)
    let ?n = "map_of (map (\<lambda>c. (at_uri c, c, [] :: 'c list)) (toplevel_comments cs))"
    show ?case
    proof (cases "is_top c")
      case True
      with Cons.prems have "at_uri c \<notin> dom ?n" by (auto simp: dom_map_of_conv_image_fst)
      then have "m(at_uri c \<mapsto> (c, [])) ++ ?n = m ++ ?n(at_uri c \<mapsto> (c, []))"
        by (simp add: map_add_upd_left)
      moreover have "map_of (map (\<lambda>c. (at_uri c, c, [] :: 'c list)) (toplevel_comments (c # cs))) = ?n(at_uri c \<mapsto> (c, []))"
        using True by (simp add: fun_eq_iff)
      ultimately show ?thesis using True Cons by (simp only: foldl_Cons if_True filter.simps list.map distinct.simps)
    next
      case False
      with Cons show ?thesis by simp
    qed
  qed simp
  from this [of Map.empty] show ?thesis by (simp add: collect_toplevel_def)
qed

lemma attach_all:
  "foldl (attach reply_to) m rs u = map_option (\<lambda>(self, replies). (self, replies @ replies_to rs u)) (m u)"
proof (induction rs arbitrary: m)
  case Nil
  then show ?case by (cases "m u") auto
next
  case (Cons r rs)
  then show ?case
    by (cases "m u"; cases "reply_to r"; cases "m (the (reply_to r))") (auto simp: attach_def)
qed

lemma thread_map_at:
  assumes "distinct (map at_uri (toplevel_comments comments))" "c \<in> set (toplevel_comments comments)"
  shows "thread_map at_uri is_top reply_to comments (at_uri c) = Some (c, replies_to comments (at_uri c))"
proof -
  have "map_of (map (\<lambda>c. (at_uri c, c, [] :: 'c list)) (toplevel_comments comments)) (at_uri c) = Some (c, [])"
    using assms by (intro map_of_is_SomeI) (auto simp: o_def)
  moreover have "replies_to (filter (\<lambda>c. \<not> is_top c) comments) u = replies_to comments u" for u
    unfolding filter_filter by (intro filter_cong) (auto simp: is_top_iff)
  ultimately show ?thesis
    by (simp add: thread_map_def attach_all collect_toplevel_map_of [OF assms(1)])
qed

lemma thread_map_dom:
  assumes "distinct (map at_uri (toplevel_comments comments))"
  shows "dom (thread_map at_uri is_top reply_to comments) = at_uri ` set (toplevel_comments comments)"
proof -
  have "dom (thread_map at_uri is_top reply_to comments) = dom (collect_toplevel at_uri is_top comments)"
    by (auto simp: thread_map_def attach_all dom_def)
  then show ?thesis
    by (simp add: collect_toplevel_map_of [OF assms] dom_map_of_conv_image_fst image_image)
qed

lemma listing_mset:
  assumes "distinct (map at_uri (toplevel_comments comments))" "lists_keys order"
  shows "mset (List.map_filter (thread_map at_uri is_top reply_to comments)
      (order (thread_map at_uri is_top reply_to comments))) =
    mset (map (\<lambda>c. (c, replies_to comments (at_uri c))) (toplevel_comments comments))"
proof -
  let ?m = "thread_map at_uri is_top reply_to comments"
  let ?tops = "toplevel_comments comments"
  have fin: "finite (dom ?m)" by (simp add: thread_map_dom [OF assms(1)])
  then have keys: "distinct (order ?m)" "set (order ?m) = dom ?m"
    using assms(2) by (auto simp: lists_keys_def)
  have "mset (order ?m) = mset (map at_uri ?tops)"
  proof -
    have "set (order ?m) = set (map at_uri ?tops)"
      unfolding keys(2) thread_map_dom [OF assms(1)] by simp
    then show ?thesis using set_eq_iff_mset_eq_distinct [OF keys(1) assms(1)] by blast
  qed
  moreover have "List.map_filter ?m (order ?m) = map (\<lambda>k. the (?m k)) (order ?m)"
  proof -
    have "filter (\<lambda>x. ?m x \<noteq> None) (order ?m) = order ?m"
      using keys(2) by (intro filter_True) auto
    then show ?thesis unfolding List.map_filter_def by (simp only: o_def)
  qed
  ultimately have "mset (List.map_filter ?m (order ?m)) = mset (map (\<lambda>k. the (?m k)) (map at_uri ?tops))"
    by (metis mset_map)
  also have "map (\<lambda>k. the (?m k)) (map at_uri ?tops) = map (\<lambda>c. (c, replies_to comments (at_uri c))) ?tops"
    using thread_map_at [OF assms(1)] by auto
  finally show ?thesis .
qed

lemma comment_list_spec:
  assumes "distinct (map at_uri (toplevel_comments comments))" "lists_keys order"
    and "sorts_by (\<lambda>it. created (fst it)) sort_items" "sorts_by created sort_replies"
  shows "mset (map fst (comment_list at_uri is_top reply_to order sort_items sort_replies comments)) =
      mset (toplevel_comments comments) \<and>
    sorted (map (\<lambda>it. created (fst it)) (comment_list at_uri is_top reply_to order sort_items sort_replies comments)) \<and>
    (\<forall>it \<in> set (comment_list at_uri is_top reply_to order sort_items sort_replies comments).
       mset (snd it) = mset (replies_to comments (at_uri (fst it))) \<and> sorted (map created (snd it)))"
proof -
  let ?m = "thread_map at_uri is_top reply_to comments"
  let ?listing = "List.map_filter ?m (order ?m)"
  let ?L = "comment_list at_uri is_top reply_to order sort_items sort_replies comments"
  have L: "?L = map (\<lambda>(self, replies). (self, sort_replies replies)) (sort_items ?listing)"
    by (simp add: comment_list_def Let_def)
  have fst_L: "map fst ?L = map fst (sort_items ?listing)" "map (\<lambda>it. created (fst it)) ?L = map (\<lambda>it. created (fst it)) (sort_items ?listing)"
    unfolding L by (auto simp: split_beta)
  have m: "mset (sort_items ?listing) = mset (map (\<lambda>c. (c, replies_to comments (at_uri c))) (toplevel_comments comments))"
    using assms(3) listing_mset [OF assms(1,2)] by (simp add: sorts_by_def)
  have "mset (map fst (sort_items ?listing)) = mset (toplevel_comments comments)"
    unfolding mset_map m by (simp add: image_mset.compositionality o_def)
  moreover have "sorted (map (\<lambda>it. created (fst it)) (sort_items ?listing))"
    using assms(3) by (rule sorts_by_sorted)
  moreover have "mset (snd it) = mset (replies_to comments (at_uri (fst it))) \<and> sorted (map created (snd it))"
    if "it \<in> set ?L" for it
  proof -
    from that obtain c rs where it: "(c, rs) \<in> set (sort_items ?listing)" "it = (c, sort_replies rs)"
      unfolding L by auto
    have "set (sort_items ?listing) = set (map (\<lambda>c. (c, replies_to comments (at_uri c))) (toplevel_comments comments))"
      using m by (rule mset_eq_setD)
    with it(1) have "rs = replies_to comments (at_uri c)" by auto
    with it(2) assms(4) show ?thesis by (simp add: sorts_by_def)
  qed
  ultimately show ?thesis unfolding fst_L by blast
qed

end

interpretation issue: threaded_comments IssueComment_AtUri IssueComment_IsTopLevel ic_ReplyTo ic_Created
  by unfold_locales (simp add: IssueComment_IsTopLevel_def)

interpretation discussion: threaded_comments DiscussionComment_AtUri DiscussionComment_IsTopLevel dc_ReplyTo dc_Created
  by unfold_locales (simp add: DiscussionComment_IsTopLevel_def)

text \<open>
  The threads of an issue: every top-level comment opens exactly one thread, the threads are in the
  order of their creation, and a thread holds exactly the replies to its comment, in the order of
  their creation, whatever the map iteration and the unstable sorts do. A reply to a reply is in no
  thread.
\<close>

theorem Issue_CommentList_correct:
  assumes "distinct (map IssueComment_AtUri (filter IssueComment_IsTopLevel (is_Comments i)))" "lists_keys order"
    and "sorts_by (\<lambda>it. ic_Created (fst it)) sort_items" "sorts_by ic_Created sort_replies"
  shows "mset (map fst (Issue_CommentList order sort_items sort_replies i)) =
      mset (filter IssueComment_IsTopLevel (is_Comments i)) \<and>
    sorted (map (\<lambda>it. ic_Created (fst it)) (Issue_CommentList order sort_items sort_replies i)) \<and>
    (\<forall>it \<in> set (Issue_CommentList order sort_items sort_replies i).
       mset (snd it) = mset (filter (\<lambda>r. ic_ReplyTo r = Some (IssueComment_AtUri (fst it))) (is_Comments i)) \<and>
       sorted (map ic_Created (snd it)))"
  unfolding Issue_CommentList_def using assms by (rule issue.comment_list_spec)

definition sample_issue :: Issue where
  "sample_issue = \<lparr>is_Did = ''d'', is_Rkey = ''r'', is_RepoAt = [], is_Created = 0, is_Title = ''t'', is_Body = [],
     is_Open = True, is_Mentions = [], is_References = [],
     is_Comments =
       [\<lparr>ic_Id = 1, ic_Did = ''d'', ic_Rkey = ''1'', ic_IssueAt = [], ic_ReplyTo = None, ic_Body = [], ic_Created = 1,
         ic_Edited = None, ic_Deleted = None, ic_Mentions = [], ic_References = []\<rparr>]\<rparr>"

theorem Issue_CommentList_correct_witness:
  "mset (map fst (Issue_CommentList (\<lambda>m. sorted_list_of_set (dom m)) (sort_key (\<lambda>it. ic_Created (fst it)))
      (sort_key ic_Created) sample_issue)) = mset (filter IssueComment_IsTopLevel (is_Comments sample_issue))"
  using Issue_CommentList_correct [of sample_issue "\<lambda>m. sorted_list_of_set (dom m)"
      "sort_key (\<lambda>it. ic_Created (fst it))" "sort_key ic_Created"]
  by (simp add: lists_keys_exists sorts_by_sort_key sample_issue_def)

text \<open>
  The threads of a discussion have the same guarantee, and its participants are its creator,
  everybody who pushed a patch and everybody who commented, each once, the creator first.
\<close>

theorem Discussion_threads_and_participants:
  assumes "distinct (map DiscussionComment_AtUri (filter DiscussionComment_IsTopLevel (di_Comments d)))" "lists_keys order"
    and "sorts_by (\<lambda>it. dc_Created (fst it)) sort_items" "sorts_by dc_Created sort_replies"
  shows "(mset (map fst (Discussion_CommentList order sort_items sort_replies d)) =
      mset (filter DiscussionComment_IsTopLevel (di_Comments d)) \<and>
    sorted (map (\<lambda>it. dc_Created (fst it)) (Discussion_CommentList order sort_items sort_replies d)) \<and>
    (\<forall>it \<in> set (Discussion_CommentList order sort_items sort_replies d).
       mset (snd it) = mset (filter (\<lambda>r. dc_ReplyTo r = Some (DiscussionComment_AtUri (fst it))) (di_Comments d)) \<and>
       sorted (map dc_Created (snd it)))) \<and>
    distinct (Discussion_Participants d) \<and> hd (Discussion_Participants d) = di_Did d \<and>
    set (Discussion_Participants d) =
      insert (di_Did d) (dp_PushedByDid ` set (di_Patches d) \<union> dc_Did ` set (di_Comments d))"
proof -
  have p: "Discussion_Participants d = addAll [di_Did d] (map dp_PushedByDid (di_Patches d) @ map dc_Did (di_Comments d))"
    by (simp add: Discussion_Participants_def addAll_append)
  obtain ys where "Discussion_Participants d = [di_Did d] @ ys"
    unfolding p using addAll_prefix by blast
  moreover have "distinct (Discussion_Participants d)" unfolding p by (rule distinct_addAll) simp
  moreover have "set (Discussion_Participants d) =
      insert (di_Did d) (dp_PushedByDid ` set (di_Patches d) \<union> dc_Did ` set (di_Comments d))"
    unfolding p by simp
  ultimately show ?thesis
    using discussion.comment_list_spec [OF assms] unfolding Discussion_CommentList_def by (simp del: addAll_Cons)
qed

theorem Discussion_threads_and_participants_witness:
  "hd (Discussion_Participants \<lparr>di_Did = ''d'', di_Rkey = ''r'', di_Title = [], di_Body = [], di_TargetChannel = [],
     di_State = DiscussionOpen, di_Patches = [], di_Comments = []\<rparr>) = ''d''"
  using Discussion_threads_and_participants [of "\<lparr>di_Did = ''d'', di_Rkey = ''r'', di_Title = [], di_Body = [], di_TargetChannel = [],
     di_State = DiscussionOpen, di_Patches = [], di_Comments = []\<rparr>" "\<lambda>m. sorted_list_of_set (dom m)"
      "sort_key (\<lambda>it. dc_Created (fst it))" "sort_key dc_Created"]
  by (simp add: lists_keys_exists sorts_by_sort_key)

end
