(* ===== verification/Pulls.thy ===== *)
theory Pulls
  imports Patch_Combine
begin

text \<open>
  Pull requests and their stacks: \<^verbatim>\<open>appview/models/pull.go\<close>.

  A pointer to an \<^verbatim>\<open>ATURI\<close> is an address with the string it points to, because the code compares
  addresses; the field \<open>pl_RepoAt_addr\<close> is the address of the pull's own field \<^verbatim>\<open>RepoAt\<close>. Indexing a
  slice out of range panics: \<open>None\<close>. Labels and reverse mappings are not part of the record here.
\<close>

section \<open>Pulls\<close>

datatype PullState = PullClosed | PullOpen | PullMerged | PullDeleted

fun PullState_String :: "PullState \<Rightarrow> string" where
  "PullState_String PullOpen = ''open''"
| "PullState_String PullMerged = ''merged''"
| "PullState_String PullClosed = ''closed''"
| "PullState_String PullDeleted = ''deleted''"

definition PullState_IsOpen :: "PullState \<Rightarrow> bool" where "PullState_IsOpen p \<longleftrightarrow> p = PullOpen"
definition PullState_IsMerged :: "PullState \<Rightarrow> bool" where "PullState_IsMerged p \<longleftrightarrow> p = PullMerged"
definition PullState_IsClosed :: "PullState \<Rightarrow> bool" where "PullState_IsClosed p \<longleftrightarrow> p = PullClosed"
definition PullState_IsDeleted :: "PullState \<Rightarrow> bool" where "PullState_IsDeleted p \<longleftrightarrow> p = PullDeleted"

record PullComment =
  pc_OwnerDid :: string
  pc_CommentAt :: string
  pc_Body :: string
  pc_Created :: Time

record PullSubmission =
  sb_PullAt :: string
  sb_RoundNumber :: int
  sb_Patch :: string
  sb_Combined :: string
  sb_Comments :: "PullComment list"
  sb_SourceRev :: string
  sb_Created :: Time

record PullSource =
  src_Branch :: string
  src_RepoAt :: "(nat \<times> string) option"

record Pull =
  pl_PullId :: int
  pl_RepoAt :: string
  pl_RepoAt_addr :: nat
  pl_OwnerDid :: string
  pl_Rkey :: string
  pl_Title :: string
  pl_Body :: string
  pl_TargetBranch :: string
  pl_State :: PullState
  pl_Submissions :: "PullSubmission list"
  pl_Mentions :: "string list"
  pl_References :: "string list"
  pl_StackId :: string
  pl_ChangeId :: string
  pl_ParentChangeId :: string
  pl_Created :: Time
  pl_PullSource :: "PullSource option"

definition RepoPullNSID :: string where "RepoPullNSID = ''sh.tangled.repo.pull''"

definition PullComment_AtUri :: "PullComment \<Rightarrow> string" where
  "PullComment_AtUri c = pc_CommentAt c"

definition TotalComments :: "Pull \<Rightarrow> nat" where
  "TotalComments p = foldl (\<lambda>total s. total + length (sb_Comments s)) 0 (pl_Submissions p)"

definition LastRoundNumber :: "Pull \<Rightarrow> int" where
  "LastRoundNumber p = int (length (pl_Submissions p)) - 1"

definition LatestSubmission :: "Pull \<Rightarrow> PullSubmission option" where
  "LatestSubmission p =
     (let i = LastRoundNumber p in if 0 \<le> i then Some (pl_Submissions p ! nat i) else None)"

definition LatestPatch :: "Pull \<Rightarrow> string option" where
  "LatestPatch p = map_option sb_Patch (LatestSubmission p)"

definition LatestSha :: "Pull \<Rightarrow> string option" where
  "LatestSha p = map_option sb_SourceRev (LatestSubmission p)"

definition Pull_AtUri :: "Pull \<Rightarrow> string" where
  "Pull_AtUri p = ''at://'' @ pl_OwnerDid p @ ''/'' @ RepoPullNSID @ ''/'' @ pl_Rkey p"

definition IsPatchBased :: "Pull \<Rightarrow> bool" where
  "IsPatchBased p \<longleftrightarrow> pl_PullSource p = None"

definition IsBranchBased :: "Pull \<Rightarrow> bool" where
  "IsBranchBased p =
     (case pl_PullSource p of
        None \<Rightarrow> False
      | Some source \<Rightarrow> case src_RepoAt source of Some ptr \<Rightarrow> fst ptr = pl_RepoAt_addr p | None \<Rightarrow> True)"

definition IsForkBased :: "Pull \<Rightarrow> bool" where
  "IsForkBased p =
     (case pl_PullSource p of
        None \<Rightarrow> False
      | Some source \<Rightarrow> case src_RepoAt source of Some ptr \<Rightarrow> fst ptr \<noteq> pl_RepoAt_addr p | None \<Rightarrow> False)"

definition IsStacked :: "Pull \<Rightarrow> bool" where
  "IsStacked p \<longleftrightarrow> pl_StackId p \<noteq> []"

record PullRecordSource =
  rs_Branch :: string
  rs_Sha :: string
  rs_Repo :: "string option"

record PullRecord =
  prc_Title :: string
  prc_Body :: "string option"
  prc_Mentions :: "string list"
  prc_References :: "string list"
  prc_CreatedAt :: string
  prc_TargetRepo :: string
  prc_TargetBranch :: string
  prc_Source :: "PullRecordSource option"

definition Pull_AsRecord :: "(Time \<Rightarrow> string) \<Rightarrow> Pull \<Rightarrow> PullRecord option" where
  "Pull_AsRecord format p =
     map_option
       (\<lambda>source. \<lparr>prc_Title = pl_Title p, prc_Body = Some (pl_Body p), prc_Mentions = pl_Mentions p,
                  prc_References = pl_References p, prc_CreatedAt = format (pl_Created p),
                  prc_TargetRepo = pl_RepoAt p, prc_TargetBranch = pl_TargetBranch p, prc_Source = source\<rparr>)
       (case pl_PullSource p of
          None \<Rightarrow> Some None
        | Some src \<Rightarrow>
            map_option (\<lambda>sha. Some \<lparr>rs_Branch = src_Branch src, rs_Sha = sha, rs_Repo = map_option snd (src_RepoAt src)\<rparr>)
              (LatestSha p))"

text \<open>\<open>authority\<close> is \<^verbatim>\<open>ATURI.Authority\<close>.\<close>

definition PullSubmission_Participants :: "(string \<Rightarrow> string) \<Rightarrow> PullSubmission \<Rightarrow> string list" where
  "PullSubmission_Participants authority s =
     addAll (addParticipant [] (authority (sb_PullAt s))) (map pc_OwnerDid (sb_Comments s))"

definition Pull_Participants :: "(string \<Rightarrow> string) \<Rightarrow> Pull \<Rightarrow> string list" where
  "Pull_Participants authority p =
     addAll (addParticipant [] (pl_OwnerDid p))
       (concat (map (PullSubmission_Participants authority) (pl_Submissions p)))"

definition PullSubmission_IsFormatPatch :: "PullSubmission \<Rightarrow> bool" where
  "PullSubmission_IsFormatPatch s = IsFormatPatch (sb_Patch s)"

definition PullSubmission_AsFormatPatch :: "'e PatchEnv \<Rightarrow> PullSubmission \<Rightarrow> FormatPatch list" where
  "PullSubmission_AsFormatPatch env s =
     (case ExtractPatches env (sb_Patch s) of Inl e \<Rightarrow> [] | Inr patches \<Rightarrow> patches)"

definition PullSubmission_CombinedPatch :: "PullSubmission \<Rightarrow> string" where
  "PullSubmission_CombinedPatch s = (if sb_Combined s = [] then sb_Patch s else sb_Combined s)"

section \<open>Stacks\<close>

text \<open>The top of a stack is its first element.\<close>

type_synonym Stack = "Pull list"

fun position_from :: "int \<Rightarrow> Stack \<Rightarrow> Pull \<Rightarrow> int" where
  "position_from i [] pull = - 1"
| "position_from i (p # stack) pull =
     (if pl_ChangeId p = pl_ChangeId pull then i else position_from (i + 1) stack pull)"

definition Position :: "Stack \<Rightarrow> Pull \<Rightarrow> int" where
  "Position stack pull = position_from 0 stack pull"

definition Below :: "Stack \<Rightarrow> Pull \<Rightarrow> Stack" where
  "Below stack pull =
     (let position = Position stack pull in if position < 0 then [] else drop (nat position) stack)"

definition StrictlyBelow :: "Stack \<Rightarrow> Pull \<Rightarrow> Stack" where
  "StrictlyBelow stack pull =
     (let below = Below stack pull in if length below > 0 then drop 1 below else [])"

definition Above :: "Stack \<Rightarrow> Pull \<Rightarrow> Stack" where
  "Above stack pull =
     (let position = Position stack pull in if position < 0 then [] else take (nat (position + 1)) stack)"

definition StrictlyAbove :: "Stack \<Rightarrow> Pull \<Rightarrow> Stack" where
  "StrictlyAbove stack pull =
     (let above = Above stack pull in if length above > 0 then take (length above - 1) above else [])"

fun combined_loop :: "Stack \<Rightarrow> nat \<Rightarrow> nat \<Rightarrow> string option" where
  "combined_loop stack idx 0 = Some []"
| "combined_loop stack idx (Suc n) =
     (case LatestPatch (stack ! (length stack - 1 - idx)) of
        None \<Rightarrow> None
      | Some patch \<Rightarrow> map_option (\<lambda>rest. patch @ [newline] @ rest) (combined_loop stack (idx + 1) n))"

definition Stack_CombinedPatch :: "Stack \<Rightarrow> string option" where
  "Stack_CombinedPatch stack = combined_loop stack 0 (length stack)"

fun Mergeable :: "Stack \<Rightarrow> Stack" where
  "Mergeable [] = []"
| "Mergeable (p # stack) =
     (if pl_State p = PullMerged \<or> pl_State p = PullClosed then []
      else if pl_State p \<noteq> PullDeleted then p # Mergeable stack
      else Mergeable stack)"

section \<open>Properties\<close>

definition in_stack :: "Stack \<Rightarrow> Pull \<Rightarrow> bool" where
  "in_stack stack pull \<longleftrightarrow> pl_ChangeId pull \<in> pl_ChangeId ` set stack"

lemma position_from_spec:
  "position_from i stack pull =
     (if in_stack stack pull
      then i + int (length (takeWhile (\<lambda>p. pl_ChangeId p \<noteq> pl_ChangeId pull) stack)) else - 1)"
  by (induction stack arbitrary: i) (auto simp: in_stack_def)

lemma Position_spec:
  "Position stack pull =
     (if in_stack stack pull
      then int (length (takeWhile (\<lambda>p. pl_ChangeId p \<noteq> pl_ChangeId pull) stack)) else - 1)"
  by (simp add: Position_def position_from_spec)

lemma stack_split:
  assumes "in_stack stack pull"
  obtains above p below where "stack = above @ p # below" "pl_ChangeId p = pl_ChangeId pull"
    "\<forall>q \<in> set above. pl_ChangeId q \<noteq> pl_ChangeId pull"
    "Position stack pull = int (length above)"
proof -
  let ?P = "\<lambda>p. pl_ChangeId p \<noteq> pl_ChangeId pull"
  from assms have "\<exists>q \<in> set stack. \<not> ?P q" by (auto simp: in_stack_def)
  then have ne: "dropWhile ?P stack \<noteq> []" by (auto simp: dropWhile_eq_Nil_conv)
  then obtain p below where pb: "dropWhile ?P stack = p # below" by (cases "dropWhile ?P stack") auto
  then have "\<not> ?P p" using hd_dropWhile [OF ne] by simp
  moreover have "stack = takeWhile ?P stack @ p # below" using pb by (metis takeWhile_dropWhile_id)
  ultimately show thesis
    using that [of "takeWhile ?P stack" p below] assms by (auto simp: Position_spec dest: set_takeWhileD)
qed

lemma Mergeable_filter:
  "Mergeable stack =
     filter (\<lambda>p. pl_State p \<noteq> PullDeleted) (takeWhile (\<lambda>p. pl_State p \<noteq> PullMerged \<and> pl_State p \<noteq> PullClosed) stack)"
  by (induction stack) auto

lemma Mergeable_open: "p \<in> set (Mergeable stack) \<Longrightarrow> pl_State p = PullOpen"
  by (cases "pl_State p") (auto simp: Mergeable_filter dest: set_takeWhileD)

lemma LatestSubmission_last:
  "LatestSubmission p = (if pl_Submissions p = [] then None else Some (last (pl_Submissions p)))"
proof (cases "pl_Submissions p")
  case (Cons s ss)
  then show ?thesis
    by (simp add: LatestSubmission_def LastRoundNumber_def Let_def last_conv_nth)
qed (simp add: LatestSubmission_def LastRoundNumber_def)

lemma combined_loop_spec:
  assumes "idx + n = length stack" "\<forall>p \<in> set stack. pl_Submissions p \<noteq> []"
  shows "combined_loop stack idx n =
    Some (concat (map (\<lambda>p. sb_Patch (last (pl_Submissions p)) @ [newline]) (rev (take n stack))))"
  using assms(1)
proof (induction n arbitrary: idx)
  case (Suc n)
  from Suc.prems have i: "length stack - 1 - idx = n" "n < length stack" by auto
  then have "pl_Submissions (stack ! n) \<noteq> []" using assms(2) by auto
  moreover have "rev (take (Suc n) stack) = stack ! n # rev (take n stack)"
    using i(2) by (simp add: take_Suc_conv_app_nth)
  ultimately show ?case
    using Suc.IH [of "idx + 1"] Suc.prems i by (simp add: LatestPatch_def LatestSubmission_last)
qed simp

lemma Stack_CombinedPatch_spec:
  "\<forall>p \<in> set stack. pl_Submissions p \<noteq> [] \<Longrightarrow> Stack_CombinedPatch stack =
     Some (concat (map (\<lambda>p. sb_Patch (last (pl_Submissions p)) @ [newline]) (rev stack)))"
  using combined_loop_spec [of 0 "length stack" stack] unfolding Stack_CombinedPatch_def by simp


text \<open>
  A pull is exactly one of patch based, branch based and fork based. But which of the last two is
  decided by the addresses of the two repository fields, not by the repositories: a pull whose
  source names its own target repository through any other pointer counts as fork based.
\<close>

theorem pull_source_kinds:
  "of_bool (IsPatchBased p) + of_bool (IsBranchBased p) + of_bool (IsForkBased p) = (1 :: nat) \<and>
   (IsForkBased (p\<lparr>pl_PullSource := Some \<lparr>src_Branch = b, src_RepoAt = Some (addr, pl_RepoAt p)\<rparr>\<rparr>) \<longleftrightarrow>
      addr \<noteq> pl_RepoAt_addr p)"
  by (auto simp: IsPatchBased_def IsBranchBased_def IsForkBased_def split: option.split)

end
