(* ===== verification/Labels.thy ===== *)
theory Labels
  imports Go_Prelude
begin

text \<open>
  Labels: \<^verbatim>\<open>appview/models/label.go\<close> and the part of \<^verbatim>\<open>appview/labels/labels.go\<close> that turns the label
  panel of the user into label operations.

  A time is its number of nanoseconds since the epoch; the zero \<^verbatim>\<open>time.Time\<close> is the first instant
  of year 1. The clock is an argument where the code reads it. A label state is a Go map from label
  keys to sets of values in which the set itself may be nil: \<open>s k = None\<close> is a missing key and
  \<open>s k = Some None\<close> a key with a nil set.
\<close>

section \<open>Label definitions\<close>

definition ConcreteTypeNull :: string where "ConcreteTypeNull = ''null''"
definition ConcreteTypeString :: string where "ConcreteTypeString = ''string''"
definition ConcreteTypeInt :: string where "ConcreteTypeInt = ''integer''"
definition ConcreteTypeBool :: string where "ConcreteTypeBool = ''boolean''"
definition ValueTypeFormatAny :: string where "ValueTypeFormatAny = ''any''"
definition ValueTypeFormatDid :: string where "ValueTypeFormatDid = ''did''"

lemmas concrete_type_defs = ConcreteTypeNull_def ConcreteTypeString_def ConcreteTypeInt_def
  ConcreteTypeBool_def ValueTypeFormatAny_def ValueTypeFormatDid_def

record ValueType =
  vt_Type :: string
  vt_Format :: string
  vt_Enum :: "string list"

definition IsConcreteType :: "ValueType \<Rightarrow> bool" where
  "IsConcreteType vt \<longleftrightarrow>
     vt_Type vt = ConcreteTypeNull \<or> vt_Type vt = ConcreteTypeString \<or>
     vt_Type vt = ConcreteTypeInt \<or> vt_Type vt = ConcreteTypeBool"

definition IsNull :: "ValueType \<Rightarrow> bool" where
  "IsNull vt \<longleftrightarrow> vt_Type vt = ConcreteTypeNull"

definition IsString :: "ValueType \<Rightarrow> bool" where
  "IsString vt \<longleftrightarrow> vt_Type vt = ConcreteTypeString"

definition IsInt :: "ValueType \<Rightarrow> bool" where
  "IsInt vt \<longleftrightarrow> vt_Type vt = ConcreteTypeInt"

definition IsBool :: "ValueType \<Rightarrow> bool" where
  "IsBool vt \<longleftrightarrow> vt_Type vt = ConcreteTypeBool"

definition IsEnum :: "ValueType \<Rightarrow> bool" where
  "IsEnum vt \<longleftrightarrow> length (vt_Enum vt) > 0"

definition IsDidFormat :: "ValueType \<Rightarrow> bool" where
  "IsDidFormat vt \<longleftrightarrow> vt_Format vt = ValueTypeFormatDid"

definition IsAnyFormat :: "ValueType \<Rightarrow> bool" where
  "IsAnyFormat vt \<longleftrightarrow> vt_Format vt = ValueTypeFormatAny"

record LabelDefinition =
  ld_Id :: int
  ld_Did :: string
  ld_Rkey :: string
  ld_Name :: string
  ld_ValueType :: ValueType
  ld_Scope :: "string list option"
  ld_Color :: "string option"
  ld_Multiple :: bool
  ld_Created :: Time

definition LabelDefinitionNSID :: string where
  "LabelDefinitionNSID = ''sh.tangled.label.definition''"

definition LabelDefinition_AtUri :: "LabelDefinition \<Rightarrow> string" where
  "LabelDefinition_AtUri l = ''at://'' @ ld_Did l @ ''/'' @ LabelDefinitionNSID @ ''/'' @ ld_Rkey l"

text \<open>\<open>sha1_hex\<close> is the hexadecimal SHA-1 digest of a string: forty characters.\<close>

definition randomColor :: "(string \<Rightarrow> string) \<Rightarrow> string \<Rightarrow> string" where
  "randomColor sha1_hex seed =
     (let hexStr = sha1_hex seed;
          r = take 2 hexStr; g = take 2 (drop 2 hexStr); b = take 2 (drop 4 hexStr)
      in ''#'' @ r @ g @ b)"

definition GetColor :: "(string \<Rightarrow> string) \<Rightarrow> LabelDefinition \<Rightarrow> string" where
  "GetColor sha1_hex ld =
     (case ld_Color ld of
        None \<Rightarrow> randomColor sha1_hex (itoa (ld_Id ld) @ '':'' @ ld_Did ld @ '':'' @ ld_Rkey ld)
      | Some color \<Rightarrow> color)"

record ValueTypeRecord =
  vr_Type :: string
  vr_Format :: string
  vr_Enum :: "string list"

definition ValueType_AsRecord :: "ValueType \<Rightarrow> ValueTypeRecord" where
  "ValueType_AsRecord vt = \<lparr>vr_Type = vt_Type vt, vr_Format = vt_Format vt, vr_Enum = vt_Enum vt\<rparr>"

definition ValueTypeFromRecord :: "ValueTypeRecord \<Rightarrow> ValueType" where
  "ValueTypeFromRecord r = \<lparr>vt_Type = vr_Type r, vt_Format = vr_Format r, vt_Enum = vr_Enum r\<rparr>"

record LabelDefinitionRecord =
  lr_Color :: "string option"
  lr_CreatedAt :: string
  lr_Multiple :: "bool option"
  lr_Name :: string
  lr_Scope :: "string list option"
  lr_ValueType :: "ValueTypeRecord option"

definition LabelDefinition_AsRecord ::
  "(Time \<Rightarrow> string) \<Rightarrow> LabelDefinition \<Rightarrow> LabelDefinitionRecord" where
  "LabelDefinition_AsRecord format l =
     \<lparr>lr_Color = ld_Color l, lr_CreatedAt = format (ld_Created l), lr_Multiple = Some (ld_Multiple l),
      lr_Name = ld_Name l, lr_Scope = ld_Scope l,
      lr_ValueType = Some (ValueType_AsRecord (ld_ValueType l))\<rparr>"

definition zero_value_type :: ValueType where
  "zero_value_type = \<lparr>vt_Type = [], vt_Format = [], vt_Enum = []\<rparr>"

definition LabelDefinitionFromRecord ::
  "(string \<Rightarrow> Time option) \<Rightarrow> Time \<Rightarrow> string \<Rightarrow> string \<Rightarrow> LabelDefinitionRecord \<Rightarrow> LabelDefinition" where
  "LabelDefinitionFromRecord parse now did rkey r =
     \<lparr>ld_Id = 0, ld_Did = did, ld_Rkey = rkey, ld_Name = lr_Name r,
      ld_ValueType = (case lr_ValueType r of None \<Rightarrow> zero_value_type | Some v \<Rightarrow> ValueTypeFromRecord v),
      ld_Scope = lr_Scope r, ld_Color = lr_Color r,
      ld_Multiple = (case lr_Multiple r of None \<Rightarrow> False | Some b \<Rightarrow> b),
      ld_Created = (case parse (lr_CreatedAt r) of None \<Rightarrow> now | Some t \<Rightarrow> t)\<rparr>"

section \<open>Label operations\<close>

definition LabelOperationAdd :: string where "LabelOperationAdd = ''add''"
definition LabelOperationDel :: string where "LabelOperationDel = ''del''"

lemmas operation_defs = LabelOperationAdd_def LabelOperationDel_def

record LabelOp =
  lo_Id :: int
  lo_Did :: string
  lo_Rkey :: string
  lo_Subject :: string
  lo_Operation :: string
  lo_OperandKey :: string
  lo_OperandValue :: string
  lo_PerformedAt :: Time
  lo_IndexedAt :: Time

definition SortAt :: "Time \<Rightarrow> LabelOp \<Rightarrow> Time" where
  "SortAt now l =
     (let createdAt = lo_PerformedAt l;
          indexedAt = (if lo_IndexedAt l = zero_time then now else lo_IndexedAt l)
      in if createdAt < 0 then zero_time
         else if createdAt < indexedAt \<or> createdAt = indexedAt then createdAt
         else indexedAt)"

record Operand =
  od_Key :: string
  od_Value :: string

record LabelOpRecord =
  or_Add :: "Operand option list"
  or_Delete :: "Operand option list"
  or_PerformedAt :: string
  or_Subject :: string

definition mkOp :: "string \<Rightarrow> string \<Rightarrow> string \<Rightarrow> Time \<Rightarrow> string \<Rightarrow> Operand \<Rightarrow> LabelOp" where
  "mkOp did rkey subject performed operation operand =
     \<lparr>lo_Id = 0, lo_Did = did, lo_Rkey = rkey, lo_Subject = subject, lo_Operation = operation,
      lo_OperandKey = od_Key operand, lo_OperandValue = od_Value operand,
      lo_PerformedAt = performed, lo_IndexedAt = zero_time\<rparr>"

text \<open>Deletes first, then additions; nil operands are skipped.\<close>

definition LabelOpsFromRecord ::
  "(string \<Rightarrow> Time option) \<Rightarrow> Time \<Rightarrow> string \<Rightarrow> string \<Rightarrow> LabelOpRecord \<Rightarrow> LabelOp list" where
  "LabelOpsFromRecord parse now did rkey r =
     (let performed = (case parse (or_PerformedAt r) of None \<Rightarrow> now | Some t \<Rightarrow> t)
      in map (mkOp did rkey (or_Subject r) performed LabelOperationDel) (List.map_filter id (or_Delete r)) @
         map (mkOp did rkey (or_Subject r) performed LabelOperationAdd) (List.map_filter id (or_Add r)))"

definition empty_op_record :: LabelOpRecord where
  "empty_op_record = \<lparr>or_Add = [], or_Delete = [], or_PerformedAt = [], or_Subject = []\<rparr>"

definition op_operand :: "LabelOp \<Rightarrow> Operand" where
  "op_operand op = \<lparr>od_Key = lo_OperandKey op, od_Value = lo_OperandValue op\<rparr>"

fun as_record_loop :: "LabelOp list \<Rightarrow> LabelOpRecord \<Rightarrow> LabelOpRecord" where
  "as_record_loop [] r = r"
| "as_record_loop (op # ops) r =
     (if lo_Operation op = LabelOperationAdd then
        as_record_loop ops (r\<lparr>or_Add := or_Add r @ [Some (op_operand op)]\<rparr>)
      else if lo_Operation op = LabelOperationDel then
        as_record_loop ops (r\<lparr>or_Delete := or_Delete r @ [Some (op_operand op)]\<rparr>)
      else empty_op_record)"

definition LabelOpsAsRecord :: "(Time \<Rightarrow> string) \<Rightarrow> LabelOp list \<Rightarrow> LabelOpRecord" where
  "LabelOpsAsRecord format ops =
     (case ops of
        [] \<Rightarrow> empty_op_record
      | first # _ \<Rightarrow>
          as_record_loop ops
            \<lparr>or_Add = [], or_Delete = [], or_PerformedAt = format (lo_PerformedAt first),
             or_Subject = lo_Subject first\<rparr>)"

section \<open>Label states\<close>

type_synonym LabelState = "string \<Rightarrow> string set option option"

definition NewLabelState :: LabelState where
  "NewLabelState = (\<lambda>k. None)"

definition ContainsLabel :: "LabelState \<Rightarrow> string \<Rightarrow> bool" where
  "ContainsLabel s l = (case s l of Some (Some valset) \<Rightarrow> True | _ \<Rightarrow> False)"

definition ContainsLabelAndVal :: "LabelState \<Rightarrow> string \<Rightarrow> string \<Rightarrow> bool" where
  "ContainsLabelAndVal s l v = (case s l of Some (Some valset) \<Rightarrow> v \<in> valset | _ \<Rightarrow> False)"

definition GetValSet :: "LabelState \<Rightarrow> string \<Rightarrow> string set option" where
  "GetValSet s l = (case s l of Some valset \<Rightarrow> valset | None \<Rightarrow> Some {})"

type_synonym LabelDefs = "string \<rightharpoonup> LabelDefinition"

text \<open>
  The values of a key; a missing key and a nil set have none. \<^verbatim>\<open>ApplyLabelOp\<close> returns whether the
  operation was a no-op (\<^verbatim>\<open>LabelNoOpError\<close>) next to the state.
\<close>

definition cell_vals :: "string set option option \<Rightarrow> string set" where
  "cell_vals c = (case c of Some (Some S) \<Rightarrow> S | _ \<Rightarrow> {})"

definition vals :: "LabelState \<Rightarrow> string \<Rightarrow> string set" where
  "vals s k = cell_vals (s k)"

definition apply_add :: "LabelDefinition \<Rightarrow> LabelState \<Rightarrow> string \<Rightarrow> string \<Rightarrow> bool \<times> LabelState" where
  "apply_add def s k v =
     (let s1 = (if s k = None \<or> s k = Some None then s(k := Some (Some {})) else s)
      in if v \<in> vals s1 k then (True, s1)
         else if ld_Multiple def then (False, s1(k := Some (Some (insert v (vals s1 k)))))
         else (False, s1(k := Some (Some {v}))))"

definition apply_del :: "LabelDefinition \<Rightarrow> LabelState \<Rightarrow> string \<Rightarrow> string \<Rightarrow> bool \<times> LabelState" where
  "apply_del def s k v =
     (if s k = None then (True, s)
      else if v \<notin> vals s k then (True, s)
      else
        let s1 = (if ld_Multiple def then s(k := Some (Some (vals s k - {v}))) else s(k := None));
            s2 = (if vals s1 k = {} then s1(k := Some None) else s1)
        in (False, s2))"

definition ApplyLabelOp :: "LabelDefs \<Rightarrow> LabelState \<Rightarrow> LabelOp \<Rightarrow> bool \<times> LabelState" where
  "ApplyLabelOp defs s op =
     (case defs (lo_OperandKey op) of
        None \<Rightarrow> (False, s)
      | Some def \<Rightarrow>
          if lo_Operation op = LabelOperationAdd then apply_add def s (lo_OperandKey op) (lo_OperandValue op)
          else if lo_Operation op = LabelOperationDel then apply_del def s (lo_OperandKey op) (lo_OperandValue op)
          else (False, s))"

definition apply_seq :: "LabelDefs \<Rightarrow> LabelState \<Rightarrow> LabelOp list \<Rightarrow> LabelState" where
  "apply_seq defs s ops = foldl (\<lambda>s op. snd (ApplyLabelOp defs s op)) s ops"

text \<open>\<^verbatim>\<open>slices.SortFunc\<close> is the first argument; the clock is read once.\<close>

definition ApplyLabelOps ::
  "(LabelOp list \<Rightarrow> LabelOp list) \<Rightarrow> LabelDefs \<Rightarrow> LabelState \<Rightarrow> LabelOp list \<Rightarrow> LabelState" where
  "ApplyLabelOps sort_ops defs s ops = apply_seq defs s (sort_ops ops)"

section \<open>Reducing operations\<close>

definition IsInverse :: "LabelOp \<Rightarrow> LabelOp \<Rightarrow> bool" where
  "IsInverse op1 op2 =
     (if lo_OperandKey op1 \<noteq> lo_OperandKey op2 \<or> lo_OperandValue op1 \<noteq> lo_OperandValue op2 then False
      else (lo_Operation op1 = LabelOperationAdd \<and> lo_Operation op2 = LabelOperationDel) \<or>
           (lo_Operation op1 = LabelOperationDel \<and> lo_Operation op2 = LabelOperationAdd))"

text \<open>One round of the outer loop: look for the first kept inverse behind \<open>i\<close> and drop both.\<close>

definition reduce_step :: "LabelOp list \<Rightarrow> bool list \<Rightarrow> nat \<Rightarrow> bool list" where
  "reduce_step ops keep i =
     (if \<not> keep ! i then keep
      else case find (\<lambda>j. keep ! j \<and> IsInverse (ops ! i) (ops ! j)) [i + 1..<length ops] of
             None \<Rightarrow> keep
           | Some j \<Rightarrow> keep[i := False, j := False])"

definition kept :: "LabelOp list \<Rightarrow> bool list \<Rightarrow> LabelOp list" where
  "kept ops keep = map fst (filter snd (zip ops keep))"

definition ReduceLabelOps :: "LabelOp list \<Rightarrow> LabelOp list" where
  "ReduceLabelOps ops =
     (if length ops \<le> 1 then ops
      else kept ops (foldl (reduce_step ops) (replicate (length ops) True) [0..<length ops]))"

section \<open>The label panel\<close>

text \<open>
  The core of \<^verbatim>\<open>PerformLabelOp\<close>: delete everything that is set, add everything the form holds for a
  known label, validate, reduce, apply, and keep the operations that did something. Go iterates over
  the map of values and over the form in no fixed order: the order is given by the two lists. The
  validator may rewrite an operation or refuse it; it is an argument.
\<close>

definition panel_op :: "string \<Rightarrow> string \<Rightarrow> string \<Rightarrow> Time \<Rightarrow> Time \<Rightarrow> string \<Rightarrow> string \<times> string \<Rightarrow> LabelOp" where
  "panel_op did rkey subject performedAt indexedAt operation kv =
     \<lparr>lo_Id = 0, lo_Did = did, lo_Rkey = rkey, lo_Subject = subject, lo_Operation = operation,
      lo_OperandKey = fst kv, lo_OperandValue = snd kv, lo_PerformedAt = performedAt,
      lo_IndexedAt = indexedAt\<rparr>"

fun validate_ops :: "(LabelOp \<Rightarrow> ('e, LabelOp) result) \<Rightarrow> LabelOp list \<Rightarrow> ('e, LabelOp list) result" where
  "validate_ops validate [] = Inr []"
| "validate_ops validate (op # ops) =
     (case validate op of
        Inl e \<Rightarrow> Inl e
      | Inr op' \<Rightarrow> map_sum id ((#) op') (validate_ops validate ops))"

fun effective_ops :: "LabelDefs \<Rightarrow> LabelState \<Rightarrow> LabelOp list \<Rightarrow> LabelOp list \<times> LabelState" where
  "effective_ops defs s [] = ([], s)"
| "effective_ops defs s (op # ops) =
     (let (noop, s') = ApplyLabelOp defs s op;
          (rest, s'') = effective_ops defs s' ops
      in ((if noop then rest else op # rest), s''))"

definition PerformLabelOp ::
  "(LabelOp \<Rightarrow> ('e, LabelOp) result) \<Rightarrow> LabelDefs \<Rightarrow> LabelState \<Rightarrow>
   (string \<Rightarrow> string \<times> string \<Rightarrow> LabelOp) \<Rightarrow> (string \<times> string) list \<Rightarrow> (string \<times> string list) list \<Rightarrow>
   ('e, LabelOp list \<times> LabelState) result" where
  "PerformLabelOp validate defs s mk set_values form =
     (let dels = map (mk LabelOperationDel) set_values;
          adds = map (mk LabelOperationAdd)
                   (concat (map (\<lambda>(key, vs). if defs key = None then [] else map (Pair key) vs) form))
      in map_sum id (\<lambda>ops. effective_ops defs s (ReduceLabelOps ops)) (validate_ops validate (dels @ adds)))"

section \<open>What the state means\<close>

text \<open>
  The abstract state is the set of values of every label. \<open>spec_apply\<close> is what an operation is
  meant to do to it; \<open>conflicting\<close> are the operations whose order matters.
\<close>

definition spec_apply :: "LabelDefs \<Rightarrow> (string \<Rightarrow> string set) \<Rightarrow> LabelOp \<Rightarrow> string \<Rightarrow> string set" where
  "spec_apply defs A op =
     (let k = lo_OperandKey op; v = lo_OperandValue op
      in case defs k of
           None \<Rightarrow> A
         | Some def \<Rightarrow>
             if lo_Operation op = LabelOperationAdd then
               A(k := (if ld_Multiple def \<or> v \<in> A k then insert v (A k) else {v}))
             else if lo_Operation op = LabelOperationDel then
               A(k := (if ld_Multiple def \<or> v \<notin> A k then A k - {v} else {}))
             else A)"

definition cell_ok :: "LabelDefinition option \<Rightarrow> string set option option \<Rightarrow> bool" where
  "cell_ok d c \<longleftrightarrow> c \<noteq> Some (Some {}) \<and> finite (cell_vals c) \<and>
     (case d of None \<Rightarrow> c = None | Some def \<Rightarrow> ld_Multiple def \<or> card (cell_vals c) \<le> 1)"

definition state_ok :: "LabelDefs \<Rightarrow> LabelState \<Rightarrow> bool" where
  "state_ok defs s \<longleftrightarrow> (\<forall>k. cell_ok (defs k) (s k))"

text \<open>What an operation does to the entry of its label; a helper of the proofs.\<close>

definition cell_upd :: "LabelDefinition \<Rightarrow> string \<Rightarrow> string \<Rightarrow> string set option option \<Rightarrow> string set option option" where
  "cell_upd def operation v c =
     (if operation = LabelOperationAdd then
        if v \<in> cell_vals c then c
        else Some (Some (if ld_Multiple def then insert v (cell_vals c) else {v}))
      else if operation = LabelOperationDel then
        if v \<notin> cell_vals c then c
        else if ld_Multiple def \<and> cell_vals c \<noteq> {v} then Some (Some (cell_vals c - {v})) else Some None
      else c)"

definition conflicting :: "LabelDefs \<Rightarrow> LabelOp \<Rightarrow> LabelOp \<Rightarrow> bool" where
  "conflicting defs a b \<longleftrightarrow>
     lo_OperandKey a = lo_OperandKey b \<and>
     (case defs (lo_OperandKey a) of
        None \<Rightarrow> False
      | Some def \<Rightarrow>
          IsInverse a b \<or>
          \<not> ld_Multiple def \<and> lo_Operation a = LabelOperationAdd \<and> lo_Operation b = LabelOperationAdd \<and>
          lo_OperandValue a \<noteq> lo_OperandValue b)"

lemma operations_differ [simp]:
  "LabelOperationAdd \<noteq> LabelOperationDel" "LabelOperationDel \<noteq> LabelOperationAdd"
  by (simp_all add: operation_defs)

lemma cell_vals_simps [simp]:
  "cell_vals None = {}" "cell_vals (Some None) = {}" "cell_vals (Some (Some S)) = S"
  by (simp_all add: cell_vals_def)

lemma vals_upd [simp]: "vals (s(k := c)) = (vals s)(k := cell_vals c)"
  by (simp add: vals_def fun_eq_iff)

lemma vals_New [simp]: "vals NewLabelState = (\<lambda>k. {})"
  by (simp add: vals_def NewLabelState_def fun_eq_iff)

lemma ContainsLabelAndVal_vals: "ContainsLabelAndVal s k v \<longleftrightarrow> v \<in> vals s k"
  by (auto simp: ContainsLabelAndVal_def vals_def cell_vals_def split: option.splits)

lemma ContainsLabel_vals: "s k \<noteq> Some (Some {}) \<Longrightarrow> ContainsLabel s k \<longleftrightarrow> vals s k \<noteq> {}"
  by (auto simp: ContainsLabel_def vals_def cell_vals_def split: option.splits)

lemma apply_add_cell: "apply_add def s k v = (v \<in> vals s k, s(k := cell_upd def LabelOperationAdd v (s k)))"
proof (cases "v \<in> vals s k")
  case True
  then have "s k \<noteq> None \<and> s k \<noteq> Some None"
    by (metis cell_vals_simps(1,2) empty_iff vals_def)
  with True show ?thesis by (auto simp: apply_add_def cell_upd_def vals_def)
next
  case False
  then show ?thesis
    by (cases "s k = None \<or> s k = Some None") (auto simp: apply_add_def cell_upd_def vals_def Let_def)
qed

lemma apply_del_cell: "apply_del def s k v = (v \<notin> vals s k, s(k := cell_upd def LabelOperationDel v (s k)))"
proof (cases "v \<in> vals s k")
  case True
  then have "s k \<noteq> None" by (cases "s k") (auto simp: vals_def)
  moreover from True have "cell_vals (s k) - {v} = {} \<longleftrightarrow> cell_vals (s k) = {v}" by (auto simp: vals_def)
  ultimately show ?thesis using True by (simp add: apply_del_def cell_upd_def vals_def Let_def)
next
  case False
  then show ?thesis by (auto simp: apply_del_def cell_upd_def vals_def)
qed

lemma ApplyLabelOp_cell:
  "snd (ApplyLabelOp defs s op) =
     (case defs (lo_OperandKey op) of
        None \<Rightarrow> s
      | Some def \<Rightarrow> s(lo_OperandKey op :=
          cell_upd def (lo_Operation op) (lo_OperandValue op) (s (lo_OperandKey op))))"
  by (auto simp: ApplyLabelOp_def apply_add_cell apply_del_cell cell_upd_def split: option.split)

lemma ApplyLabelOp_noop:
  "fst (ApplyLabelOp defs s op) \<longleftrightarrow>
     defs (lo_OperandKey op) \<noteq> None \<and>
     (lo_Operation op = LabelOperationAdd \<and> lo_OperandValue op \<in> vals s (lo_OperandKey op) \<or>
      lo_Operation op = LabelOperationDel \<and> lo_OperandValue op \<notin> vals s (lo_OperandKey op))"
  by (auto simp: ApplyLabelOp_def apply_add_cell apply_del_cell split: option.split)

lemma cell_upd_vals:
  "cell_vals (cell_upd def operation v c) =
     (if operation = LabelOperationAdd then
        if ld_Multiple def \<or> v \<in> cell_vals c then insert v (cell_vals c) else {v}
      else if operation = LabelOperationDel then
        if ld_Multiple def \<or> v \<notin> cell_vals c then cell_vals c - {v} else {}
      else cell_vals c)"
  by (auto simp: cell_upd_def)

lemma ApplyLabelOp_vals: "vals (snd (ApplyLabelOp defs s op)) = spec_apply defs (vals s) op"
  by (auto simp: ApplyLabelOp_cell spec_apply_def Let_def cell_upd_vals vals_def [symmetric] fun_eq_iff
      split: option.split)

lemma apply_seq_Nil [simp]: "apply_seq defs s [] = s"
  by (simp add: apply_seq_def)

lemma apply_seq_Cons [simp]:
  "apply_seq defs s (op # ops) = apply_seq defs (snd (ApplyLabelOp defs s op)) ops"
  by (simp add: apply_seq_def)

lemma apply_seq_append [simp]: "apply_seq defs s (xs @ ys) = apply_seq defs (apply_seq defs s xs) ys"
  by (simp add: apply_seq_def)

lemma apply_seq_vals: "vals (apply_seq defs s ops) = foldl (spec_apply defs) (vals s) ops"
  by (induction ops arbitrary: s) (simp_all add: ApplyLabelOp_vals)

section \<open>The invariant of label states\<close>

lemma state_ok_New: "state_ok defs NewLabelState"
  by (simp add: state_ok_def cell_ok_def NewLabelState_def split: option.split)

lemma cell_ok_upd: "cell_ok (Some def) c \<Longrightarrow> cell_ok (Some def) (cell_upd def operation v c)"
  by (auto simp: cell_ok_def cell_upd_def)

lemma state_ok_apply: "state_ok defs s \<Longrightarrow> state_ok defs (snd (ApplyLabelOp defs s op))"
  by (auto simp: ApplyLabelOp_cell state_ok_def split: option.split intro: cell_ok_upd)
    (metis cell_ok_upd)

lemma state_ok_seq: "state_ok defs s \<Longrightarrow> state_ok defs (apply_seq defs s ops)"
  by (induction ops arbitrary: s) (simp_all add: state_ok_apply)

text \<open>
  C17. Applying any sequence of label operations to a fresh state refines the abstract
  specification, and keeps the invariant the templates rely on: a label is shown as present exactly
  if it has a value, a label without \<^verbatim>\<open>Multiple\<close> has at most one value, labels whose definition is
  gone have none; and the operation reports a no-op exactly if its label is known and its value is
  already (not) there.
\<close>

theorem ApplyLabelOp_refines:
  "vals (apply_seq defs NewLabelState ops) = foldl (spec_apply defs) (\<lambda>k. {}) ops \<and>
   (ContainsLabel (apply_seq defs NewLabelState ops) k \<longleftrightarrow>
      (\<exists>v. ContainsLabelAndVal (apply_seq defs NewLabelState ops) k v)) \<and>
   (case defs k of
      None \<Rightarrow> vals (apply_seq defs NewLabelState ops) k = {}
    | Some def \<Rightarrow> ld_Multiple def \<or> card (vals (apply_seq defs NewLabelState ops) k) \<le> 1) \<and>
   (fst (ApplyLabelOp defs (apply_seq defs NewLabelState ops) op) \<longleftrightarrow>
      defs (lo_OperandKey op) \<noteq> None \<and>
      (lo_Operation op = LabelOperationAdd \<and>
         ContainsLabelAndVal (apply_seq defs NewLabelState ops) (lo_OperandKey op) (lo_OperandValue op) \<or>
       lo_Operation op = LabelOperationDel \<and>
         \<not> ContainsLabelAndVal (apply_seq defs NewLabelState ops) (lo_OperandKey op) (lo_OperandValue op)))"
proof -
  let ?s = "apply_seq defs NewLabelState ops"
  have ok: "state_ok defs ?s" by (rule state_ok_seq [OF state_ok_New])
  then have "ContainsLabel ?s k \<longleftrightarrow> (\<exists>v. ContainsLabelAndVal ?s k v)"
    by (auto simp: ContainsLabel_vals ContainsLabelAndVal_vals state_ok_def cell_ok_def)
  moreover have "case defs k of None \<Rightarrow> vals ?s k = {} | Some def \<Rightarrow> ld_Multiple def \<or> card (vals ?s k) \<le> 1"
    using ok [unfolded state_ok_def, rule_format, of k] by (auto simp: cell_ok_def vals_def split: option.splits)
  ultimately show ?thesis
    by (simp add: apply_seq_vals ApplyLabelOp_noop ContainsLabelAndVal_vals)
qed

section \<open>The order of operations\<close>

lemma cell_upd_add:
  "cell_upd def LabelOperationAdd v c =
     (if v \<in> cell_vals c then c
      else Some (Some (if ld_Multiple def then insert v (cell_vals c) else {v})))"
  by (simp add: cell_upd_def)

lemma cell_upd_del:
  "cell_upd def LabelOperationDel v c =
     (if v \<notin> cell_vals c then c
      else if ld_Multiple def \<and> cell_vals c \<noteq> {v} then Some (Some (cell_vals c - {v})) else Some None)"
  by (simp add: cell_upd_def)

lemma add_add_commute:
  "ld_Multiple def \<or> v = w \<Longrightarrow>
   cell_upd def LabelOperationAdd v (cell_upd def LabelOperationAdd w c) =
   cell_upd def LabelOperationAdd w (cell_upd def LabelOperationAdd v c)"
  by (cases "v = w") (simp_all add: cell_upd_add insert_commute)

lemma del_del_commute:
  "cell_upd def LabelOperationDel v (cell_upd def LabelOperationDel w c) =
   cell_upd def LabelOperationDel w (cell_upd def LabelOperationDel v c)"
proof (cases "v = w \<or> v \<notin> cell_vals c \<or> w \<notin> cell_vals c")
  case True
  then show ?thesis by (cases "v = w"; cases "v \<in> cell_vals c"; cases "w \<in> cell_vals c") (auto simp: cell_upd_del)
next
  case False
  then have vw: "v \<noteq> w" "v \<in> cell_vals c" "w \<in> cell_vals c" by simp_all
  then have c: "cell_vals c \<noteq> {v}" "cell_vals c \<noteq> {w}" by (metis singletonD)+
  from vw have d: "cell_vals c - {w} = {v} \<longleftrightarrow> cell_vals c = {v, w}"
      "cell_vals c - {v} = {w} \<longleftrightarrow> cell_vals c = {v, w}" by auto
  have comm: "cell_vals c - {w} - {v} = cell_vals c - {v} - {w}" by blast
  show ?thesis
  proof (cases "ld_Multiple def")
    case m: True
    from m vw c have 1: "cell_upd def LabelOperationDel w c = Some (Some (cell_vals c - {w}))"
      "cell_upd def LabelOperationDel v c = Some (Some (cell_vals c - {v}))"
      by (simp_all add: cell_upd_del)
    from m vw show ?thesis
      unfolding 1 unfolding cell_upd_del cell_vals_simps d comm by simp
  next
    case False
    then show ?thesis by (simp add: cell_upd_del)
  qed
qed

lemma add_del_commute:
  assumes vw: "v \<noteq> w" and ok: "cell_ok (Some def) c"
  shows "cell_upd def LabelOperationAdd v (cell_upd def LabelOperationDel w c) =
         cell_upd def LabelOperationDel w (cell_upd def LabelOperationAdd v c)"
proof (cases "ld_Multiple def")
  case True
  show ?thesis
  proof (cases "w \<in> cell_vals c")
    case False
    with True vw show ?thesis by (auto simp: cell_upd_add cell_upd_del)
  next
    case w: True
    then have "insert v (cell_vals c) - {w} = insert v (cell_vals c - {w})" "insert v (cell_vals c) \<noteq> {w}"
      "v \<in> cell_vals c \<Longrightarrow> cell_vals c \<noteq> {w}"
      using vw by blast+
    with True vw w show ?thesis
      by (cases "cell_vals c = {w}") (simp_all add: cell_upd_add cell_upd_del)
  qed
next
  case False
  with ok have "card (cell_vals c) \<le> 1" "finite (cell_vals c)" by (auto simp: cell_ok_def)
  then consider "cell_vals c = {}" | x where "cell_vals c = {x}"
    by (metis card_0_eq card_1_singletonE le_eq_less_or_eq less_one)
  then show ?thesis
    using vw False by cases (auto simp: cell_upd_add cell_upd_del)
qed

lemma cell_upd_other:
  "a \<noteq> LabelOperationAdd \<Longrightarrow> a \<noteq> LabelOperationDel \<Longrightarrow> cell_upd def a v c = c"
  by (simp add: cell_upd_def)

lemma cell_upd_commute:
  assumes "v = w \<Longrightarrow> \<not> (a = LabelOperationAdd \<and> b = LabelOperationDel) \<and>
                     \<not> (a = LabelOperationDel \<and> b = LabelOperationAdd)"
    and "ld_Multiple def \<or> v = w \<or> \<not> (a = LabelOperationAdd \<and> b = LabelOperationAdd)"
    and "cell_ok (Some def) c"
  shows "cell_upd def a v (cell_upd def b w c) = cell_upd def b w (cell_upd def a v c)"
proof -
  consider "a = LabelOperationAdd" "b = LabelOperationAdd" | "a = LabelOperationAdd" "b = LabelOperationDel"
    | "a = LabelOperationDel" "b = LabelOperationAdd" | "a = LabelOperationDel" "b = LabelOperationDel"
    | "a \<notin> {LabelOperationAdd, LabelOperationDel}" | "b \<notin> {LabelOperationAdd, LabelOperationDel}"
    by blast
  then show ?thesis
  proof cases
    case 1
    with assms(2) show ?thesis by (auto intro: add_add_commute)
  next
    case 2
    with assms(1,3) show ?thesis by (auto intro: add_del_commute)
  next
    case 3
    with assms(1,3) show ?thesis by (metis add_del_commute)
  next
    case 4
    then show ?thesis by (simp add: del_del_commute)
  qed (simp_all add: cell_upd_other)
qed

lemma ApplyLabelOp_commute:
  assumes "state_ok defs s" "\<not> conflicting defs a b"
  shows "snd (ApplyLabelOp defs (snd (ApplyLabelOp defs s b)) a) =
         snd (ApplyLabelOp defs (snd (ApplyLabelOp defs s a)) b)"
proof (cases "lo_OperandKey a = lo_OperandKey b \<and> defs (lo_OperandKey a) \<noteq> None")
  case False
  then show ?thesis
    by (auto simp: ApplyLabelOp_cell fun_upd_twist split: option.split)
next
  case True
  then obtain def where d: "defs (lo_OperandKey a) = Some def" and k: "lo_OperandKey b = lo_OperandKey a"
    by (metis not_None_eq)
  from assms(1) d have "cell_ok (Some def) (s (lo_OperandKey a))"
    unfolding state_ok_def by metis
  moreover from assms(2) d k have
    "lo_OperandValue a = lo_OperandValue b \<Longrightarrow>
       \<not> (lo_Operation a = LabelOperationAdd \<and> lo_Operation b = LabelOperationDel) \<and>
       \<not> (lo_Operation a = LabelOperationDel \<and> lo_Operation b = LabelOperationAdd)"
    "ld_Multiple def \<or> lo_OperandValue a = lo_OperandValue b \<or>
       \<not> (lo_Operation a = LabelOperationAdd \<and> lo_Operation b = LabelOperationAdd)"
    by (auto simp: conflicting_def IsInverse_def)
  ultimately show ?thesis
    using cell_upd_commute [of "lo_OperandValue a" "lo_OperandValue b" "lo_Operation a" "lo_Operation b" def
        "s (lo_OperandKey a)"] d k
    by (simp add: ApplyLabelOp_cell)
qed

lemma conflicting_sym: "conflicting defs a b \<longleftrightarrow> conflicting defs b a"
  unfolding conflicting_def IsInverse_def by (auto split: option.splits)

lemma not_conflicting_refl: "\<not> conflicting defs a a"
  by (auto simp: conflicting_def IsInverse_def split: option.splits)

text \<open>
  C18. The label state does not depend on the order in which the operations are stored, nor on how
  the unstable sort orders operations with equal sort times, as long as no two operations with the
  same sort time conflict: one adds and one deletes the same value, or both set a label that has at
  most one value.
\<close>

theorem ApplyLabelOps_order_independent:
  assumes "sorts_by (SortAt now) srt" "sorts_by (SortAt now) srt'" "mset ops = mset ops'"
    and "\<forall>a \<in> set ops. \<forall>b \<in> set ops. SortAt now a = SortAt now b \<longrightarrow> \<not> conflicting defs a b"
  shows "ApplyLabelOps srt defs NewLabelState ops = ApplyLabelOps srt' defs NewLabelState ops'"
  unfolding ApplyLabelOps_def apply_seq_def
proof (rule foldl_sorted_commute [where I = "state_ok defs" and key = "SortAt now"])
  show "mset (srt ops) = mset (srt' ops')" using assms by (simp add: sorts_by_def)
  show "snd (ApplyLabelOp defs (snd (ApplyLabelOp defs s x)) y) =
        snd (ApplyLabelOp defs (snd (ApplyLabelOp defs s y)) x)"
    if "x \<in> set (srt ops)" "y \<in> set (srt ops)" "SortAt now x = SortAt now y" "state_ok defs s" for s x y
    using ApplyLabelOp_commute [OF that(4), of y x] that assms(1,4) by (simp add: sorts_by_set)
qed (use assms in \<open>auto simp: sorts_by_sorted state_ok_New state_ok_apply\<close>)

definition sample_def :: "bool \<Rightarrow> LabelDefinition" where
  "sample_def multi = \<lparr>ld_Id = 1, ld_Did = ''did:plc:a'', ld_Rkey = ''r'', ld_Name = ''tag'',
     ld_ValueType = zero_value_type, ld_Scope = None, ld_Color = None, ld_Multiple = multi, ld_Created = 0\<rparr>"

definition sample_op :: "string \<Rightarrow> string \<Rightarrow> string \<Rightarrow> Time \<Rightarrow> LabelOp" where
  "sample_op operation k v t = panel_op ''did:plc:a'' ''r'' ''at://s'' t t operation (k, v)"

lemmas sample_defs = sample_def_def sample_op_def panel_op_def zero_value_type_def

theorem ApplyLabelOps_order_independent_witness:
  "ApplyLabelOps (sort_key (SortAt 9)) [''k'' \<mapsto> sample_def True] NewLabelState
     [sample_op ''add'' ''k'' ''x'' 5, sample_op ''del'' ''k'' ''y'' 5] =
   ApplyLabelOps (sort_key (SortAt 9)) [''k'' \<mapsto> sample_def True] NewLabelState
     [sample_op ''del'' ''k'' ''y'' 5, sample_op ''add'' ''k'' ''x'' 5]"
  by (rule ApplyLabelOps_order_independent [where now = 9])
    (auto simp: sorts_by_sort_key conflicting_def IsInverse_def sample_defs operation_defs)

section \<open>Reducing a batch\<close>

definition occurs :: "string \<Rightarrow> string \<Rightarrow> string \<Rightarrow> LabelOp list \<Rightarrow> nat" where
  "occurs operation k v ops =
     length (filter (\<lambda>op. lo_Operation op = operation \<and> lo_OperandKey op = k \<and> lo_OperandValue op = v) ops)"

definition sign :: "string \<Rightarrow> string \<Rightarrow> LabelOp \<Rightarrow> int" where
  "sign k v op =
     (if lo_OperandKey op = k \<and> lo_OperandValue op = v then
        if lo_Operation op = LabelOperationAdd then 1 else if lo_Operation op = LabelOperationDel then -1 else 0
      else 0)"

lemma sum_sign_occurs:
  "(\<Sum>op\<leftarrow>ops. sign k v op) = int (occurs LabelOperationAdd k v ops) - int (occurs LabelOperationDel k v ops)"
  by (induction ops) (auto simp: occurs_def sign_def)

lemma kept_simps [simp]:
  "kept [] ks = []" "kept ops [] = []"
  "kept (x # xs) (b # bs) = (if b then x # kept xs bs else kept xs bs)"
  by (simp_all add: kept_def)

lemma kept_subseq: "subseq (kept ops keep) ops"
  by (induction ops keep rule: list_induct2') auto

lemma sum_kept:
  "length keep = length ops \<Longrightarrow>
   (\<Sum>op\<leftarrow>kept ops keep. g op) = (\<Sum>i<length ops. if keep ! i then g (ops ! i) else (0 :: int))"
  by (induction keep ops rule: list_induct2) (auto simp: sum.lessThan_Suc_shift simp del: sum.lessThan_Suc cong: if_cong)

lemma in_kept_iff:
  "length keep = length ops \<Longrightarrow>
   op \<in> set (kept ops keep) \<longleftrightarrow> (\<exists>i < length ops. keep ! i \<and> ops ! i = op)"
  by (auto simp: kept_def in_set_zip image_iff)

lemma IsInverse_sign: "IsInverse a b \<Longrightarrow> sign k v a + sign k v b = 0"
  by (auto simp: IsInverse_def sign_def split: if_splits)

lemma IsInverse_sym: "IsInverse a b \<longleftrightarrow> IsInverse b a"
  by (auto simp: IsInverse_def)

lemma IsInverse_irrefl [simp]: "\<not> IsInverse a a"
  by (auto simp: IsInverse_def)

lemma reduce_step_cases:
  obtains "reduce_step ops keep i = keep" "\<not> keep ! i"
  | "reduce_step ops keep i = keep" "\<And>j. i < j \<Longrightarrow> j < length ops \<Longrightarrow> keep ! j \<Longrightarrow> \<not> IsInverse (ops ! i) (ops ! j)"
  | j where "reduce_step ops keep i = keep[i := False, j := False]" "keep ! i" "keep ! j" "i < j" "j < length ops"
      "IsInverse (ops ! i) (ops ! j)"
proof (cases "keep ! i")
  case False
  with that(1) show thesis by (simp add: reduce_step_def)
next
  case True
  show thesis
  proof (cases "find (\<lambda>j. keep ! j \<and> IsInverse (ops ! i) (ops ! j)) [i + 1..<length ops]")
    case None
    with True have "reduce_step ops keep i = keep" by (simp add: reduce_step_def)
    moreover from None have "\<not> IsInverse (ops ! i) (ops ! j)" if "i < j" "j < length ops" "keep ! j" for j
      using that by (auto simp: find_None_iff)
    ultimately show thesis using that(2) by blast
  next
    case (Some j)
    then have "j \<in> set [i + 1..<length ops]" "keep ! j" "IsInverse (ops ! i) (ops ! j)"
      by (auto simp: find_Some_iff)
    moreover from Some True have "reduce_step ops keep i = keep[i := False, j := False]"
      by (simp add: reduce_step_def)
    ultimately show thesis using that(3) [of j] True by auto
  qed
qed

lemma reduce_step_length [simp]: "length (reduce_step ops keep i) = length keep"
  by (rule reduce_step_cases [of ops keep i]) simp_all

lemma reduce_step_le: "m < length keep \<Longrightarrow> reduce_step ops keep i ! m \<Longrightarrow> keep ! m"
  by (rule reduce_step_cases [of ops keep i]) (simp, simp, metis nth_list_update_neq)

lemma reduce_step_done:
  assumes "length keep = length ops" "i < length ops" "reduce_step ops keep i ! i"
    "i < j" "j < length ops" "reduce_step ops keep i ! j"
  shows "\<not> IsInverse (ops ! i) (ops ! j)"
  using assms by (cases rule: reduce_step_cases [of ops keep i]) (auto simp: nth_list_update)

lemma sum_drop_two:
  fixes h :: "nat \<Rightarrow> int"
  assumes "i < n" "j < n" "i \<noteq> j" "h i + h j = 0"
  shows "(\<Sum>m<n. if m = i \<or> m = j then 0 else h m) = (\<Sum>m<n. h m)"
proof -
  have "(\<Sum>m<n. if m = i \<or> m = j then 0 else h m) =
        (\<Sum>m<n. h m - (if m = i then h i else 0) - (if m = j then h j else 0))"
    using assms(3) by (intro sum.cong) auto
  also have "\<dots> = (\<Sum>m<n. h m) - h i - h j"
    using assms(1,2) by (simp add: sum_subtractf)
  finally show ?thesis using assms(4) by simp
qed

lemma reduce_step_sum:
  assumes "length keep = length ops" "i < length ops"
  shows "(\<Sum>op\<leftarrow>kept ops (reduce_step ops keep i). sign k v op) = (\<Sum>op\<leftarrow>kept ops keep. sign k v op)"
proof (cases rule: reduce_step_cases [of ops keep i])
  case (3 j)
  let ?h = "\<lambda>m. if keep ! m then sign k v (ops ! m) else 0"
  have "(\<Sum>m<length ops. if keep[i := False, j := False] ! m then sign k v (ops ! m) else 0) =
        (\<Sum>m<length ops. if m = i \<or> m = j then 0 else ?h m)"
    using assms 3 by (intro sum.cong) (auto simp: nth_list_update)
  also have "\<dots> = (\<Sum>m<length ops. ?h m)"
    by (rule sum_drop_two) (use assms 3 IsInverse_sign [of "ops ! i" "ops ! j" k v] in auto)
  finally show ?thesis using assms 3(1) by (simp add: sum_kept)
qed simp_all

definition reduced_upto :: "LabelOp list \<Rightarrow> nat \<Rightarrow> bool list \<Rightarrow> bool" where
  "reduced_upto ops n keep \<longleftrightarrow>
     (\<forall>i < n. \<forall>j < length ops. i < j \<longrightarrow> keep ! i \<longrightarrow> keep ! j \<longrightarrow> \<not> IsInverse (ops ! i) (ops ! j))"

lemma reduce_loop:
  assumes "n \<le> length ops"
  shows "length (foldl (reduce_step ops) (replicate (length ops) True) [0..<n]) = length ops \<and>
    reduced_upto ops n (foldl (reduce_step ops) (replicate (length ops) True) [0..<n]) \<and>
    (\<Sum>op\<leftarrow>kept ops (foldl (reduce_step ops) (replicate (length ops) True) [0..<n]). sign k v op) =
      (\<Sum>op\<leftarrow>ops. sign k v op)"
  using assms
proof (induction n)
  case 0
  have "kept ops (replicate (length ops) True) = ops" by (induction ops) auto
  then show ?case by (simp add: reduced_upto_def)
next
  case (Suc n)
  let ?keep = "foldl (reduce_step ops) (replicate (length ops) True) [0..<n]"
  from Suc have IH: "length ?keep = length ops" "reduced_upto ops n ?keep"
    "(\<Sum>op\<leftarrow>kept ops ?keep. sign k v op) = (\<Sum>op\<leftarrow>ops. sign k v op)" and n: "n < length ops"
    by auto
  have "reduced_upto ops (Suc n) (reduce_step ops ?keep n)"
    unfolding reduced_upto_def
  proof (intro allI impI)
    fix i j
    assume i: "i < Suc n" "j < length ops" "i < j" "reduce_step ops ?keep n ! i" "reduce_step ops ?keep n ! j"
    show "\<not> IsInverse (ops ! i) (ops ! j)"
    proof (cases "i = n")
      case True
      with i n IH(1) show ?thesis by (metis reduce_step_done)
    next
      case False
      with i IH n have "?keep ! i" "?keep ! j" by (auto intro: reduce_step_le)
      with False i IH(2) show ?thesis unfolding reduced_upto_def by (metis less_antisym)
    qed
  qed
  with IH n show ?case by (simp add: reduce_step_sum)
qed

lemma ReduceLabelOps_subseq: "subseq (ReduceLabelOps ops) ops"
  by (simp add: ReduceLabelOps_def kept_subseq)

lemma ReduceLabelOps_sum: "(\<Sum>op\<leftarrow>ReduceLabelOps ops. sign k v op) = (\<Sum>op\<leftarrow>ops. sign k v op)"
  using reduce_loop [of "length ops" ops] by (simp add: ReduceLabelOps_def)

lemma ReduceLabelOps_no_inverse:
  assumes "a \<in> set (ReduceLabelOps ops)" "b \<in> set (ReduceLabelOps ops)"
  shows "\<not> IsInverse a b"
proof (cases "length ops \<le> 1")
  case True
  then have "ops = [] \<or> (\<exists>x. ops = [x])" by (cases ops) auto
  with assms show ?thesis by (auto simp: ReduceLabelOps_def)
next
  case False
  let ?keep = "foldl (reduce_step ops) (replicate (length ops) True) [0..<length ops]"
  from False have r: "ReduceLabelOps ops = kept ops ?keep" by (simp add: ReduceLabelOps_def)
  have loop: "length ?keep = length ops" "reduced_upto ops (length ops) ?keep"
    using reduce_loop [of "length ops" ops] by auto
  from assms r loop obtain i j where ij: "i < length ops" "?keep ! i" "ops ! i = a"
    "j < length ops" "?keep ! j" "ops ! j = b"
    by (auto simp: in_kept_iff)
  consider "i < j" | "j < i" | "i = j" by linarith
  then show ?thesis
  proof cases
    case 1
    with loop(2) ij show ?thesis unfolding reduced_upto_def by metis
  next
    case 2
    with loop(2) ij have "\<not> IsInverse b a" unfolding reduced_upto_def by metis
    then show ?thesis by (simp add: IsInverse_sym)
  next
    case 3
    with ij show ?thesis by simp
  qed
qed

lemma occurs_pos_iff:
  "0 < occurs operation k v ops \<longleftrightarrow>
   (\<exists>op \<in> set ops. lo_Operation op = operation \<and> lo_OperandKey op = k \<and> lo_OperandValue op = v)"
  by (auto simp: occurs_def filter_empty_conv)

lemma ReduceLabelOps_one_side:
  "occurs LabelOperationAdd k v (ReduceLabelOps ops) = 0 \<or> occurs LabelOperationDel k v (ReduceLabelOps ops) = 0"
proof (rule ccontr)
  assume "\<not> ?thesis"
  then obtain a b where ab: "a \<in> set (ReduceLabelOps ops)" "b \<in> set (ReduceLabelOps ops)"
    "lo_Operation a = LabelOperationAdd" "lo_Operation b = LabelOperationDel"
    "lo_OperandKey a = lo_OperandKey b" "lo_OperandValue a = lo_OperandValue b"
    using occurs_pos_iff [of LabelOperationAdd k v] occurs_pos_iff [of LabelOperationDel k v]
    by (metis gr0I)
  then have "IsInverse a b" by (simp add: IsInverse_def)
  with ab(1,2) show False by (simp add: ReduceLabelOps_no_inverse)
qed

lemma ReduceLabelOps_counts:
  "occurs LabelOperationAdd k v (ReduceLabelOps ops) =
     occurs LabelOperationAdd k v ops - occurs LabelOperationDel k v ops"
  "occurs LabelOperationDel k v (ReduceLabelOps ops) =
     occurs LabelOperationDel k v ops - occurs LabelOperationAdd k v ops"
  using ReduceLabelOps_sum [of k v ops] ReduceLabelOps_one_side [of k v ops]
  unfolding sum_sign_occurs by linarith+

text \<open>
  Reducing a batch keeps the order of what remains and cancels every value against its
  inverse as often as possible: what is left of the additions (deletions) of a value is the excess
  of its additions over its deletions (deletions over additions), so never both.
\<close>

theorem ReduceLabelOps_correct:
  "subseq (ReduceLabelOps ops) ops \<and>
   occurs LabelOperationAdd k v (ReduceLabelOps ops) =
     occurs LabelOperationAdd k v ops - occurs LabelOperationDel k v ops \<and>
   occurs LabelOperationDel k v (ReduceLabelOps ops) =
     occurs LabelOperationDel k v ops - occurs LabelOperationAdd k v ops"
  by (simp add: ReduceLabelOps_subseq ReduceLabelOps_counts)

section \<open>The label panel, end to end\<close>

lemma subseq_distinct_filter: "subseq xs ys \<Longrightarrow> distinct ys \<Longrightarrow> xs = filter (\<lambda>x. x \<in> set xs) ys"
proof (induction rule: list_emb.induct)
  case (list_emb_Nil ys)
  then show ?case by simp
next
  case (list_emb_Cons xs ys y)
  moreover from this have "y \<notin> set xs" using list_emb_set [of "(=)" xs ys y] by auto
  ultimately show ?case by simp
next
  case (list_emb_Cons2 x y xs ys)
  then have "filter (\<lambda>z. z \<in> set (x # xs)) ys = filter (\<lambda>z. z \<in> set xs) ys"
    by (intro filter_cong) auto
  with list_emb_Cons2 show ?case by simp
qed

lemma panel_op_simps [simp]:
  "lo_Operation (panel_op did rkey subject t t' operation kv) = operation"
  "lo_OperandKey (panel_op did rkey subject t t' operation kv) = fst kv"
  "lo_OperandValue (panel_op did rkey subject t t' operation kv) = snd kv"
  by (simp_all add: panel_op_def)

lemma panel_op_inj: "panel_op did rkey subject t t' a kv = panel_op did rkey subject t t' b kw \<longleftrightarrow> a = b \<and> kv = kw"
  by (auto simp: panel_op_def prod_eq_iff)

lemma occurs_simps [simp]:
  "occurs operation k v [] = 0"
  "occurs operation k v (op # ops) =
     (if lo_Operation op = operation \<and> lo_OperandKey op = k \<and> lo_OperandValue op = v then 1 else 0) +
     occurs operation k v ops"
  "occurs operation k v (xs @ ys) = occurs operation k v xs + occurs operation k v ys"
  by (simp_all add: occurs_def)

lemma occurs_panel:
  "distinct kvs \<Longrightarrow> occurs operation k v (map (panel_op did rkey subject t t' a) kvs) =
     (if operation = a \<and> (k, v) \<in> set kvs then 1 else 0)"
  by (induction kvs) auto

lemma Reduce_panel:
  fixes did rkey subject t t'
  defines "mk \<equiv> panel_op did rkey subject t t'"
  assumes "distinct ds" "distinct as"
  shows "ReduceLabelOps (map (mk LabelOperationDel) ds @ map (mk LabelOperationAdd) as) =
    map (mk LabelOperationDel) (filter (\<lambda>kv. kv \<notin> set as) ds) @
    map (mk LabelOperationAdd) (filter (\<lambda>kv. kv \<notin> set ds) as)"
proof -
  let ?ops = "map (mk LabelOperationDel) ds @ map (mk LabelOperationAdd) as"
  let ?R = "ReduceLabelOps ?ops"
  have "distinct ?ops"
    using assms by (auto simp: distinct_map inj_on_def mk_def panel_op_inj)
  then have R: "?R = filter (\<lambda>x. x \<in> set ?R) ?ops"
    by (rule subseq_distinct_filter [OF ReduceLabelOps_subseq])
  have sub: "set ?R \<subseteq> set ?ops" by (subst R) auto
  have occ: "0 < occurs operation (fst kv) (snd kv) ?R \<longleftrightarrow> mk operation kv \<in> set ?R" for operation kv
    unfolding occurs_pos_iff
  proof
    assume "\<exists>op\<in>set ?R. lo_Operation op = operation \<and> lo_OperandKey op = fst kv \<and> lo_OperandValue op = snd kv"
    then obtain op where op: "op \<in> set ?R" "lo_Operation op = operation" "lo_OperandKey op = fst kv"
      "lo_OperandValue op = snd kv" by blast
    with sub have "op \<in> mk LabelOperationDel ` set ds \<union> mk LabelOperationAdd ` set as" by auto
    then have "\<exists>b kw. op = mk b kw" by blast
    with op(2-4) have "op = mk operation kv" by (auto simp: mk_def prod_eq_iff)
    with op(1) show "mk operation kv \<in> set ?R" by simp
  next
    assume "mk operation kv \<in> set ?R"
    then show "\<exists>op\<in>set ?R. lo_Operation op = operation \<and> lo_OperandKey op = fst kv \<and> lo_OperandValue op = snd kv"
      by (rule bexI [rotated]) (simp add: mk_def)
  qed
  have del: "mk LabelOperationDel kv \<in> set ?R \<longleftrightarrow> kv \<in> set ds \<and> kv \<notin> set as" for kv
    unfolding occ [symmetric] ReduceLabelOps_counts using assms(2,3) by (simp add: occurs_panel mk_def)
  have add: "mk LabelOperationAdd kv \<in> set ?R \<longleftrightarrow> kv \<in> set as \<and> kv \<notin> set ds" for kv
    unfolding occ [symmetric] ReduceLabelOps_counts using assms(2,3) by (simp add: occurs_panel mk_def)
  show ?thesis
    by (subst R) (auto simp: filter_map o_def del add intro!: arg_cong2 [of _ _ _ _ append] arg_cong [of _ _ "map _"]
        filter_cong)
qed

lemma effective_ops_snd: "snd (effective_ops defs s ops) = apply_seq defs s ops"
  by (induction ops arbitrary: s) (auto simp: split_beta Let_def)

lemma effective_ops_append:
  "effective_ops defs s (xs @ ys) =
     (fst (effective_ops defs s xs) @ fst (effective_ops defs (apply_seq defs s xs) ys),
      apply_seq defs s (xs @ ys))"
  by (induction xs arbitrary: s) (auto simp: split_beta Let_def effective_ops_snd prod_eq_iff)

lemma spec_apply_del:
  assumes "state_ok defs s" "lo_Operation op = LabelOperationDel" "defs (lo_OperandKey op) \<noteq> None"
  shows "spec_apply defs (vals s) op =
    (vals s)(lo_OperandKey op := vals s (lo_OperandKey op) - {lo_OperandValue op})"
proof -
  obtain def where def: "defs (lo_OperandKey op) = Some def" using assms(3) by blast
  have "cell_ok (Some def) (s (lo_OperandKey op))" using assms(1) def unfolding state_ok_def by metis
  then have "ld_Multiple def \<or> card (vals s (lo_OperandKey op)) \<le> 1" "finite (vals s (lo_OperandKey op))"
    by (auto simp: cell_ok_def vals_def)
  then have "vals s (lo_OperandKey op) - {lo_OperandValue op} = {}"
    if "\<not> ld_Multiple def" "lo_OperandValue op \<in> vals s (lo_OperandKey op)"
    using that by (metis Diff_eq_empty_iff card_le_Suc0_iff_eq insertI1 One_nat_def singletonI subsetI)
  then have "(if ld_Multiple def \<or> lo_OperandValue op \<notin> vals s (lo_OperandKey op)
       then vals s (lo_OperandKey op) - {lo_OperandValue op} else {}) =
    vals s (lo_OperandKey op) - {lo_OperandValue op}" by simp
  with assms(2) def show ?thesis by (simp add: spec_apply_def Let_def)
qed

lemma spec_apply_add:
  assumes "lo_Operation op = LabelOperationAdd" "defs (lo_OperandKey op) = Some def"
    "ld_Multiple def \<or> A (lo_OperandKey op) \<subseteq> {lo_OperandValue op}"
  shows "spec_apply defs A op = A(lo_OperandKey op := insert (lo_OperandValue op) (A (lo_OperandKey op)))"
proof -
  from assms(3) have "(if ld_Multiple def \<or> lo_OperandValue op \<in> A (lo_OperandKey op)
      then insert (lo_OperandValue op) (A (lo_OperandKey op)) else {lo_OperandValue op}) =
    insert (lo_OperandValue op) (A (lo_OperandKey op))" by auto
  with assms(1,2) show ?thesis by (simp add: spec_apply_def Let_def)
qed

lemma apply_panel_dels:
  assumes "state_ok defs s" "distinct kvs" "\<forall>(k, v) \<in> set kvs. v \<in> vals s k \<and> defs k \<noteq> None"
  shows "fst (effective_ops defs s (map (panel_op did rkey subject t t' LabelOperationDel) kvs)) =
      map (panel_op did rkey subject t t' LabelOperationDel) kvs \<and>
    vals (apply_seq defs s (map (panel_op did rkey subject t t' LabelOperationDel) kvs)) =
      (\<lambda>k. vals s k - {v. (k, v) \<in> set kvs})"
  using assms
proof (induction kvs arbitrary: s)
  case (Cons kv kvs)
  let ?op = "panel_op did rkey subject t t' LabelOperationDel kv"
  let ?s = "snd (ApplyLabelOp defs s ?op)"
  from Cons.prems have kv: "snd kv \<in> vals s (fst kv)" "defs (fst kv) \<noteq> None" by auto
  have vs: "vals ?s = (vals s)(fst kv := vals s (fst kv) - {snd kv})"
    using kv Cons.prems(1) by (simp add: ApplyLabelOp_vals spec_apply_del)
  then have un: "vals ?s k - {v. (k, v) \<in> set kvs} = vals s k - {v. (k, v) \<in> set (kv # kvs)}" for k
    by (cases kv) auto
  have "state_ok defs ?s" using Cons.prems(1) by (rule state_ok_apply)
  moreover have "\<forall>(k, v) \<in> set kvs. v \<in> vals ?s k \<and> defs k \<noteq> None"
    using Cons.prems(2,3) vs by auto
  moreover have "\<not> fst (ApplyLabelOp defs s ?op)" using kv by (simp add: ApplyLabelOp_noop)
  ultimately show ?case
    using Cons.IH [of ?s] Cons.prems(2) un by (simp add: split_beta Let_def)
qed simp

lemma apply_panel_adds:
  assumes "distinct kvs" "\<forall>(k, v) \<in> set kvs. v \<notin> vals s k \<and> defs k \<noteq> None"
    and "\<forall>k def. defs k = Some def \<longrightarrow> ld_Multiple def \<or>
           (\<forall>v \<in> vals s k \<union> {v. (k, v) \<in> set kvs}. \<forall>w \<in> vals s k \<union> {v. (k, v) \<in> set kvs}. v = w)"
  shows "fst (effective_ops defs s (map (panel_op did rkey subject t t' LabelOperationAdd) kvs)) =
      map (panel_op did rkey subject t t' LabelOperationAdd) kvs \<and>
    vals (apply_seq defs s (map (panel_op did rkey subject t t' LabelOperationAdd) kvs)) =
      (\<lambda>k. vals s k \<union> {v. (k, v) \<in> set kvs})"
  using assms
proof (induction kvs arbitrary: s)
  case (Cons kv kvs)
  let ?op = "panel_op did rkey subject t t' LabelOperationAdd kv"
  let ?s = "snd (ApplyLabelOp defs s ?op)"
  from Cons.prems obtain def where kv: "snd kv \<notin> vals s (fst kv)" "defs (fst kv) = Some def" by auto
  have "ld_Multiple def \<or> vals s (fst kv) \<subseteq> {snd kv}"
    using Cons.prems(3) [rule_format, OF kv(2)] by auto
  then have vs: "vals ?s = (vals s)(fst kv := insert (snd kv) (vals s (fst kv)))"
    using kv by (simp add: ApplyLabelOp_vals spec_apply_add)
  then have un: "vals ?s k \<union> {v. (k, v) \<in> set kvs} = vals s k \<union> {v. (k, v) \<in> set (kv # kvs)}" for k
    by (cases kv) auto
  have "\<forall>(k, v) \<in> set kvs. v \<notin> vals ?s k \<and> defs k \<noteq> None"
    using Cons.prems(1,2) vs by (cases kv) (auto split: if_splits)
  moreover have "\<not> fst (ApplyLabelOp defs s ?op)" using kv by (simp add: ApplyLabelOp_noop)
  ultimately show ?case
    using Cons.IH [of ?s] Cons.prems(1,3) un by (simp add: split_beta Let_def)
qed simp

definition requested :: "LabelDefs \<Rightarrow> (string \<times> string list) list \<Rightarrow> string \<Rightarrow> string set" where
  "requested defs form k = (if defs k = None then {} else \<Union> (set ` {vs. (k, vs) \<in> set form}))"

definition form_ok :: "LabelDefs \<Rightarrow> (string \<times> string list) list \<Rightarrow> bool" where
  "form_ok defs form \<longleftrightarrow> distinct (map fst form) \<and>
     (\<forall>(k, vs) \<in> set form. distinct vs \<and>
        (case defs k of None \<Rightarrow> True | Some def \<Rightarrow> ld_Multiple def \<or> length vs \<le> 1))"

definition panel_adds :: "LabelDefs \<Rightarrow> (string \<times> string list) list \<Rightarrow> (string \<times> string) list" where
  "panel_adds defs form =
     concat (map (\<lambda>(key, vs). if defs key = None then [] else map (Pair key) vs) form)"

lemma set_panel_adds: "(k, v) \<in> set (panel_adds defs form) \<longleftrightarrow> v \<in> requested defs form k"
  by (auto simp: panel_adds_def requested_def split: if_splits)

lemma distinct_panel_adds: "form_ok defs form \<Longrightarrow> distinct (panel_adds defs form)"
proof (induction form)
  case (Cons f form)
  then have "distinct (panel_adds defs form)" by (simp add: form_ok_def)
  moreover have "panel_adds defs (f # form) =
      (if defs (fst f) = None then [] else map (Pair (fst f)) (snd f)) @ panel_adds defs form"
    by (simp add: panel_adds_def split_beta)
  moreover have "(fst f, v) \<notin> set (panel_adds defs form)" for v
  proof
    assume "(fst f, v) \<in> set (panel_adds defs form)"
    then obtain vs where "(fst f, vs) \<in> set form"
      by (auto simp: set_panel_adds requested_def split: if_splits)
    then have "fst f \<in> set (map fst form)" by (metis fst_conv image_eqI list.set_map)
    with Cons.prems show False by (simp add: form_ok_def)
  qed
  ultimately show ?case
    using Cons.prems by (auto simp: form_ok_def distinct_map inj_on_def)
qed (simp add: panel_adds_def)

lemma requested_single:
  assumes "form_ok defs form" "defs k = Some def" "\<not> ld_Multiple def" "v \<in> requested defs form k"
    "w \<in> requested defs form k"
  shows "v = w"
proof -
  from assms(4,5) obtain vs ws where vw: "(k, vs) \<in> set form" "v \<in> set vs" "(k, ws) \<in> set form" "w \<in> set ws"
    using assms(2) by (auto simp: requested_def)
  with assms(1) have "vs = ws" by (auto simp: form_ok_def dest: eq_key_imp_eq_value)
  moreover from assms(1-3) vw(1) have "length vs \<le> 1" by (fastforce simp: form_ok_def)
  ultimately show ?thesis using vw(2,4) by (cases vs) auto
qed

lemma validate_ops_id: "(\<And>op. validate op = Inr op) \<Longrightarrow> validate_ops validate ops = Inr ops"
  by (induction ops) simp_all

lemma state_ok_known: "state_ok defs s \<Longrightarrow> v \<in> vals s k \<Longrightarrow> defs k \<noteq> None"
  by (cases "defs k") (auto simp: state_ok_def cell_ok_def vals_def dest: spec [of _ k])

text \<open>
  Deleting what was set and is not selected and then adding what is selected and was not set has an
  effect with every operation and leaves what is selected.
\<close>

lemma panel_effect:
  assumes ok: "state_ok defs s" and form: "form_ok defs form" "distinct set_values"
    and sv: "set set_values = {(k, v). v \<in> vals s k}"
    and dops: "dops = map (panel_op did rkey subject t t' LabelOperationDel) (filter (\<lambda>kv. kv \<notin> set (panel_adds defs form)) set_values)"
    and aops: "aops = map (panel_op did rkey subject t t' LabelOperationAdd) (filter (\<lambda>kv. kv \<notin> set set_values) (panel_adds defs form))"
  shows "effective_ops defs s (dops @ aops) = (dops @ aops, apply_seq defs s (dops @ aops)) \<and>
    vals (apply_seq defs s (dops @ aops)) = requested defs form"
proof -
  let ?ds = "filter (\<lambda>kv. kv \<notin> set (panel_adds defs form)) set_values"
  let ?as = "filter (\<lambda>kv. kv \<notin> set set_values) (panel_adds defs form)"
  let ?s1 = "apply_seq defs s dops"
  have "\<forall>(k, v) \<in> set ?ds. v \<in> vals s k \<and> defs k \<noteq> None" using sv state_ok_known [OF ok] by auto
  then have dels: "fst (effective_ops defs s dops) = dops" "vals ?s1 = (\<lambda>k. vals s k - {v. (k, v) \<in> set ?ds})"
    using apply_panel_dels [of defs s ?ds did rkey subject t t'] ok form(2) unfolding dops by auto
  have left: "vals ?s1 k = vals s k \<inter> requested defs form k" for k
  proof -
    have "{v. (k, v) \<in> set ?ds} = vals s k - requested defs form k" using sv by (auto simp: set_panel_adds)
    then show ?thesis unfolding dels(2) by blast
  qed
  have new: "{v. (k, v) \<in> set ?as} = requested defs form k - vals s k" for k
    using sv by (auto simp: set_panel_adds)
  have "\<forall>(k, v) \<in> set ?as. v \<notin> vals ?s1 k \<and> defs k \<noteq> None"
  proof clarify
    fix k v
    assume "(k, v) \<in> set ?as"
    then have v: "v \<in> requested defs form k" "v \<notin> vals s k" using new [of k] by blast+
    then have "defs k \<noteq> None" by (auto simp: requested_def split: if_splits)
    with v show "v \<notin> vals ?s1 k \<and> defs k \<noteq> None" unfolding left by blast
  qed
  moreover have "\<forall>k def. defs k = Some def \<longrightarrow> ld_Multiple def \<or>
      (\<forall>v \<in> vals ?s1 k \<union> {v. (k, v) \<in> set ?as}. \<forall>w \<in> vals ?s1 k \<union> {v. (k, v) \<in> set ?as}. v = w)"
    unfolding left new using requested_single [OF form(1)] by blast
  moreover have "distinct ?as" using form(1) by (simp add: distinct_panel_adds)
  ultimately have adds: "fst (effective_ops defs ?s1 aops) = aops"
    "vals (apply_seq defs ?s1 aops) = (\<lambda>k. vals ?s1 k \<union> {v. (k, v) \<in> set ?as})"
    using apply_panel_adds [of ?as ?s1 defs did rkey subject t t'] unfolding aops by blast+
  have "vals (apply_seq defs ?s1 aops) = requested defs form" unfolding adds(2) left new by (rule ext) blast
  with dels(1) adds(1) show ?thesis by (simp add: effective_ops_append)
qed



section \<open>Records\<close>

lemma as_record_loop_panel:
  assumes "\<forall>op \<in> set ops. lo_Operation op = LabelOperationAdd \<or> lo_Operation op = LabelOperationDel"
  shows "as_record_loop ops r =
    r\<lparr>or_Add := or_Add r @ map (Some \<circ> op_operand) (filter (\<lambda>op. lo_Operation op = LabelOperationAdd) ops),
      or_Delete := or_Delete r @ map (Some \<circ> op_operand) (filter (\<lambda>op. lo_Operation op = LabelOperationDel) ops)\<rparr>"
  using assms by (induction ops arbitrary: r) auto

lemma map_filter_Some [simp]: "List.map_filter id (map (Some \<circ> f) xs) = map f xs"
  by (induction xs) (simp_all add: map_filter_simps)

text \<open>
  A batch of operations of one user on one subject survives being published as a record and
  read back: the same deletions and the same additions come back, each in its order, deletions
  first, with the author, subject and time of the batch.
\<close>

theorem LabelOps_record_roundtrip:
  assumes "\<forall>op \<in> set ops. lo_Operation op = LabelOperationAdd \<or> lo_Operation op = LabelOperationDel"
    and "\<forall>op \<in> set ops. lo_Id op = 0 \<and> lo_Did op = did \<and> lo_Rkey op = rkey \<and> lo_Subject op = subject \<and>
           lo_PerformedAt op = t \<and> lo_IndexedAt op = zero_time"
    and "parse (format t) = Some t"
  shows "LabelOpsFromRecord parse now did rkey (LabelOpsAsRecord format ops) =
    filter (\<lambda>op. lo_Operation op = LabelOperationDel) ops @ filter (\<lambda>op. lo_Operation op = LabelOperationAdd) ops"
proof (cases ops)
  case Nil
  then show ?thesis
    by (simp add: LabelOpsFromRecord_def LabelOpsAsRecord_def empty_op_record_def map_filter_simps)
next
  case (Cons op rest)
  have mk: "map (mkOp did rkey subject t operation \<circ> op_operand) (filter (\<lambda>op. lo_Operation op = operation) ops) =
      filter (\<lambda>op. lo_Operation op = operation) ops" for operation
    using assms(2) by (intro map_idI) (auto simp: mkOp_def op_operand_def)
  have "LabelOpsAsRecord format ops = as_record_loop ops
      \<lparr>or_Add = [], or_Delete = [], or_PerformedAt = format t, or_Subject = subject\<rparr>"
    using assms(2) Cons by (simp add: LabelOpsAsRecord_def)
  then show ?thesis
    using assms(3) mk by (simp add: as_record_loop_panel [OF assms(1)] LabelOpsFromRecord_def)
qed

theorem LabelOps_record_roundtrip_witness:
  "LabelOpsFromRecord (\<lambda>x. Some 0) 7 ''d'' ''r''
     (LabelOpsAsRecord (\<lambda>t. ''1970'') [panel_op ''d'' ''r'' ''s'' 0 zero_time ''add'' (''k'', ''v'')]) =
   filter (\<lambda>op. lo_Operation op = LabelOperationDel) [panel_op ''d'' ''r'' ''s'' 0 zero_time ''add'' (''k'', ''v'')] @
   filter (\<lambda>op. lo_Operation op = LabelOperationAdd) [panel_op ''d'' ''r'' ''s'' 0 zero_time ''add'' (''k'', ''v'')]"
  by (rule LabelOps_record_roundtrip [where subject = "''s''" and t = 0])
    (auto simp: panel_op_def operation_defs)

end
