(* ===== verification/RBAC.thy ===== *)
theory RBAC
  imports Go_Prelude
begin

text \<open>
  Access control: \<^verbatim>\<open>rbac/rbac.go\<close>, \<^verbatim>\<open>rbac/util.go\<close>, \<^verbatim>\<open>rbac/pijul_permissions.go\<close>, \<^verbatim>\<open>rbac/permissions.go\<close>.

  The policy engine (package \<^verbatim>\<open>casbin\<close>) is not part of the repository: it is the argument \<open>C\<close> of every
  operation, a record of the calls the code makes, over a state of its own. \<open>casbin_ok\<close> is what
  casbin documents about these calls for the model text in \<^verbatim>\<open>rbac.go\<close>, in terms of the policy rules
  and the grouping rules of a state: adding several rules is all or nothing, as is removing them, and
  a request is granted by a rule for the same domain, object and action whose subject the user reaches
  over at most ten grouping rules of the domain.
\<close>

section \<open>The policy engine\<close>

type_synonym rule = "string \<times> string \<times> string \<times> string"
type_synonym grouping = "string \<times> string \<times> string"

record ('s, 'e) Casbin =
  AddPolicies :: "'s \<Rightarrow> rule list \<Rightarrow> ('e, 's) result"
  RemovePolicies :: "'s \<Rightarrow> rule list \<Rightarrow> ('e, 's) result"
  AddGroupingPolicy :: "'s \<Rightarrow> string \<Rightarrow> string \<Rightarrow> string \<Rightarrow> ('e, 's) result"
  RemoveGroupingPolicy :: "'s \<Rightarrow> string \<Rightarrow> string \<Rightarrow> string \<Rightarrow> ('e, 's) result"
  DeleteDomains :: "'s \<Rightarrow> string \<Rightarrow> ('e, 's) result"
  Casbin_GetDomainsForUser :: "'s \<Rightarrow> string \<Rightarrow> ('e, string list) result"
  GetImplicitUsersForRole :: "'s \<Rightarrow> string \<Rightarrow> string \<Rightarrow> ('e, string list) result"
  GetImplicitRolesForUser :: "'s \<Rightarrow> string \<Rightarrow> string \<Rightarrow> ('e, string list) result"
  GetImplicitUsersForResourceByDomain :: "'s \<Rightarrow> string \<Rightarrow> string \<Rightarrow> ('e, rule list) result"
  GetPermissionsForUserInDomain :: "'s \<Rightarrow> string \<Rightarrow> string \<Rightarrow> rule list"
  Enforce :: "'s \<Rightarrow> string \<Rightarrow> string \<Rightarrow> string \<Rightarrow> string \<Rightarrow> ('e, bool) result"

definition edges :: "grouping set \<Rightarrow> string \<Rightarrow> (string \<times> string) set" where
  "edges G d = {(x, y). (x, y, d) \<in> G}"

definition link :: "grouping set \<Rightarrow> string \<Rightarrow> string \<Rightarrow> string \<Rightarrow> bool" where
  "link G d u r \<longleftrightarrow> (\<exists>n \<le> 10. (u, r) \<in> edges G d ^^ n)"

definition granted :: "rule set \<Rightarrow> grouping set \<Rightarrow> string \<Rightarrow> string \<Rightarrow> string \<Rightarrow> string \<Rightarrow> bool" where
  "granted P G u d ob act \<longleftrightarrow> (\<exists>p. (p, d, ob, act) \<in> P \<and> link G d u p)"

definition casbin_ok :: "('s, 'e) Casbin \<Rightarrow> ('s \<Rightarrow> rule set) \<Rightarrow> ('s \<Rightarrow> grouping set) \<Rightarrow> bool" where
  "casbin_ok C pol grp \<longleftrightarrow>
     (\<forall>s rs s'. AddPolicies C s rs = Inr s' \<longrightarrow>
        grp s' = grp s \<and> pol s' = (if set rs \<inter> pol s = {} then pol s \<union> set rs else pol s)) \<and>
     (\<forall>s rs s'. RemovePolicies C s rs = Inr s' \<longrightarrow>
        grp s' = grp s \<and> pol s' = (if set rs \<subseteq> pol s then pol s - set rs else pol s)) \<and>
     (\<forall>s u r d s'. AddGroupingPolicy C s u r d = Inr s' \<longrightarrow> pol s' = pol s \<and> grp s' = insert (u, r, d) (grp s)) \<and>
     (\<forall>s u r d s'. RemoveGroupingPolicy C s u r d = Inr s' \<longrightarrow> pol s' = pol s \<and> grp s' = grp s - {(u, r, d)}) \<and>
     (\<forall>s u d ob act. Enforce C s u d ob act = Inr (granted (pol s) (grp s) u d ob act)) \<and>
     (\<forall>s u d rs. GetImplicitRolesForUser C s u d = Inr rs \<longrightarrow> set rs = {r. r \<noteq> u \<and> link (grp s) d u r})"

section \<open>Domains\<close>

definition spindlePrefix :: string where "spindlePrefix = ''spindle:''"

definition isSpindle :: "string \<Rightarrow> bool" where
  "isSpindle domain \<longleftrightarrow> hasPrefix domain spindlePrefix"

definition isNotSpindle :: "string \<Rightarrow> bool" where
  "isNotSpindle domain \<longleftrightarrow> \<not> isSpindle domain"

definition intoSpindle :: "string \<Rightarrow> string" where
  "intoSpindle domain = (if \<not> isSpindle domain then spindlePrefix @ domain else domain)"

definition unSpindle :: "string \<Rightarrow> string" where
  "unSpindle domain = (if \<not> isSpindle domain then domain else trimPrefix domain spindlePrefix)"

text \<open>\<^verbatim>\<open>strings.SplitN(repo, "/", 2)[0]\<close> is what precedes the first slash.\<close>

definition checkRepoFormat :: "string \<Rightarrow> bool" where
  "checkRepoFormat repo \<longleftrightarrow> hasPrefix (takeWhile (\<lambda>c. c \<noteq> CHR ''/'') repo) ''did:''"

section \<open>Operations\<close>

text \<open>An error is one of casbin's, or \<open>InvalidRepo\<close>.\<close>

datatype 'e rbac_error = CasbinError 'e | InvalidRepo string

definition lift :: "('e, 'a) result \<Rightarrow> ('e rbac_error, 'a) result" where
  "lift r = map_sum CasbinError id r"

definition AddKnot :: "('s, 'e) Casbin \<Rightarrow> 's \<Rightarrow> string \<Rightarrow> ('e rbac_error, 's) result" where
  "AddKnot C s knot =
     lift (bind_result
       (AddPolicies C s
          [(''server:owner'', knot, knot, ''server:invite''), (''server:member'', knot, knot, ''repo:create'')])
       (\<lambda>s1. AddGroupingPolicy C s1 ''server:owner'' ''server:member'' knot))"

definition AddSpindle :: "('s, 'e) Casbin \<Rightarrow> 's \<Rightarrow> string \<Rightarrow> ('e rbac_error, 's) result" where
  "AddSpindle C s spindle0 =
     (let spindle = intoSpindle spindle0
      in lift (bind_result
           (AddPolicies C s [(''server:owner'', spindle, spindle, ''server:invite'')])
           (\<lambda>s1. AddGroupingPolicy C s1 ''server:owner'' ''server:member'' spindle)))"

definition RemoveSpindle :: "('s, 'e) Casbin \<Rightarrow> 's \<Rightarrow> string \<Rightarrow> ('e rbac_error, 's) result" where
  "RemoveSpindle C s spindle = lift (DeleteDomains C s (intoSpindle spindle))"

definition RemoveKnot :: "('s, 'e) Casbin \<Rightarrow> 's \<Rightarrow> string \<Rightarrow> ('e rbac_error, 's) result" where
  "RemoveKnot C s knot = lift (DeleteDomains C s knot)"

definition getDomainsForUser ::
  "('s, 'e) Casbin \<Rightarrow> 's \<Rightarrow> string \<Rightarrow> (string \<Rightarrow> bool) \<Rightarrow> (string \<Rightarrow> string) \<Rightarrow> ('e rbac_error, string list) result" where
  "getDomainsForUser C s did keepFunc stripFunc =
     map_sum CasbinError (\<lambda>domains. map stripFunc (filter keepFunc domains)) (Casbin_GetDomainsForUser C s did)"

definition GetKnotsForUser :: "('s, 'e) Casbin \<Rightarrow> 's \<Rightarrow> string \<Rightarrow> ('e rbac_error, string list) result" where
  "GetKnotsForUser C s did = getDomainsForUser C s did isNotSpindle unSpindle"

definition GetSpindlesForUser :: "('s, 'e) Casbin \<Rightarrow> 's \<Rightarrow> string \<Rightarrow> ('e rbac_error, string list) result" where
  "GetSpindlesForUser C s did = getDomainsForUser C s did isSpindle unSpindle"

definition addOwner :: "('s, 'e) Casbin \<Rightarrow> 's \<Rightarrow> string \<Rightarrow> string \<Rightarrow> ('e rbac_error, 's) result" where
  "addOwner C s domain owner = lift (AddGroupingPolicy C s owner ''server:owner'' domain)"

definition removeOwner :: "('s, 'e) Casbin \<Rightarrow> 's \<Rightarrow> string \<Rightarrow> string \<Rightarrow> ('e rbac_error, 's) result" where
  "removeOwner C s domain owner = lift (RemoveGroupingPolicy C s owner ''server:owner'' domain)"

definition addMember :: "('s, 'e) Casbin \<Rightarrow> 's \<Rightarrow> string \<Rightarrow> string \<Rightarrow> ('e rbac_error, 's) result" where
  "addMember C s domain member = lift (AddGroupingPolicy C s member ''server:member'' domain)"

definition removeMember :: "('s, 'e) Casbin \<Rightarrow> 's \<Rightarrow> string \<Rightarrow> string \<Rightarrow> ('e rbac_error, 's) result" where
  "removeMember C s domain member = lift (RemoveGroupingPolicy C s member ''server:member'' domain)"

definition AddKnotOwner where "AddKnotOwner C s domain owner = addOwner C s domain owner"
definition RemoveKnotOwner where "RemoveKnotOwner C s domain owner = removeOwner C s domain owner"
definition AddKnotMember where "AddKnotMember C s domain member = addMember C s domain member"
definition RemoveKnotMember where "RemoveKnotMember C s domain member = removeMember C s domain member"
definition AddSpindleOwner where "AddSpindleOwner C s domain owner = addOwner C s (intoSpindle domain) owner"
definition RemoveSpindleOwner where "RemoveSpindleOwner C s domain owner = removeOwner C s (intoSpindle domain) owner"
definition AddSpindleMember where "AddSpindleMember C s domain member = addMember C s (intoSpindle domain) member"
definition RemoveSpindleMember where
  "RemoveSpindleMember C s domain member = removeMember C s (intoSpindle domain) member"

definition repoPolicies :: "string \<Rightarrow> string \<Rightarrow> string \<Rightarrow> rule list" where
  "repoPolicies member domain repo =
     [(member, domain, repo, ''repo:settings''),
      (member, domain, repo, ''repo:push''),
      (member, domain, repo, ''repo:owner''),
      (member, domain, repo, ''repo:invite''),
      (member, domain, repo, ''repo:delete''),
      (''server:owner'', domain, repo, ''repo:delete'')]"

definition collaboratorPolicies :: "string \<Rightarrow> string \<Rightarrow> string \<Rightarrow> rule list" where
  "collaboratorPolicies collaborator domain repo =
     [(collaborator, domain, repo, ''repo:collaborator''),
      (collaborator, domain, repo, ''repo:settings''),
      (collaborator, domain, repo, ''repo:push'')]"

definition pijulOwnerPolicies :: "string \<Rightarrow> string \<Rightarrow> string \<Rightarrow> rule list" where
  "pijulOwnerPolicies member domain repo =
     [(member, domain, repo, ''pijul:read''),
      (member, domain, repo, ''pijul:create_discussion''),
      (member, domain, repo, ''pijul:edit_discussion''),
      (member, domain, repo, ''pijul:tag_discussion''),
      (member, domain, repo, ''pijul:apply''),
      (member, domain, repo, ''pijul:edit_channels''),
      (member, domain, repo, ''pijul:edit_tags''),
      (member, domain, repo, ''pijul:edit_permissions'')]"

definition pijulCollaboratorPolicies :: "string \<Rightarrow> string \<Rightarrow> string \<Rightarrow> rule list" where
  "pijulCollaboratorPolicies collaborator domain repo =
     [(collaborator, domain, repo, ''pijul:read''),
      (collaborator, domain, repo, ''pijul:create_discussion''),
      (collaborator, domain, repo, ''pijul:edit_discussion''),
      (collaborator, domain, repo, ''pijul:tag_discussion''),
      (collaborator, domain, repo, ''pijul:apply''),
      (collaborator, domain, repo, ''pijul:edit_channels''),
      (collaborator, domain, repo, ''pijul:edit_tags'')]"

definition change_policies ::
  "('s \<Rightarrow> rule list \<Rightarrow> ('e, 's) result) \<Rightarrow> 's \<Rightarrow> string \<Rightarrow> rule list \<Rightarrow> ('e rbac_error, 's) result" where
  "change_policies change s repo policies =
     (if \<not> checkRepoFormat repo then Inl (InvalidRepo repo) else lift (change s policies))"

definition AddRepo where
  "AddRepo C s member domain repo = change_policies (AddPolicies C) s repo (repoPolicies member domain repo)"
definition RemoveRepo where
  "RemoveRepo C s member domain repo = change_policies (RemovePolicies C) s repo (repoPolicies member domain repo)"
definition AddCollaborator where
  "AddCollaborator C s collaborator domain repo =
     change_policies (AddPolicies C) s repo (collaboratorPolicies collaborator domain repo)"
definition RemoveCollaborator where
  "RemoveCollaborator C s collaborator domain repo =
     change_policies (RemovePolicies C) s repo (collaboratorPolicies collaborator domain repo)"
definition AddPijulRepoPermissions where
  "AddPijulRepoPermissions C s member domain repo =
     change_policies (AddPolicies C) s repo (pijulOwnerPolicies member domain repo)"
definition RemovePijulRepoPermissions where
  "RemovePijulRepoPermissions C s member domain repo =
     change_policies (RemovePolicies C) s repo (pijulOwnerPolicies member domain repo)"
definition AddPijulCollaboratorPermissions where
  "AddPijulCollaboratorPermissions C s collaborator domain repo =
     change_policies (AddPolicies C) s repo (pijulCollaboratorPolicies collaborator domain repo)"
definition RemovePijulCollaboratorPermissions where
  "RemovePijulCollaboratorPermissions C s collaborator domain repo =
     change_policies (RemovePolicies C) s repo (pijulCollaboratorPolicies collaborator domain repo)"

section \<open>Questions\<close>

definition GetUserByRole :: "('s, 'e) Casbin \<Rightarrow> 's \<Rightarrow> string \<Rightarrow> string \<Rightarrow> ('e rbac_error, string list) result" where
  "GetUserByRole C s role domain =
     map_sum CasbinError (\<lambda>members. compact (sort (filter (\<lambda>m. hasPrefix m ''did:'') members)))
       (GetImplicitUsersForRole C s role domain)"

definition GetKnotUsersByRole where "GetKnotUsersByRole C s role domain = GetUserByRole C s role domain"
definition GetSpindleUsersByRole where
  "GetSpindleUsersByRole C s role domain = GetUserByRole C s role (intoSpindle domain)"

definition GetUserByRoleInRepo ::
  "('s, 'e) Casbin \<Rightarrow> 's \<Rightarrow> string \<Rightarrow> string \<Rightarrow> string \<Rightarrow> ('e rbac_error, string list) result" where
  "GetUserByRoleInRepo C s role domain repo =
     map_sum CasbinError
       (\<lambda>policies. compact (sort (filter (\<lambda>u. hasPrefix u ''did:'') (map fst policies))))
       (GetImplicitUsersForResourceByDomain C s repo domain)"

definition isRole :: "('s, 'e) Casbin \<Rightarrow> 's \<Rightarrow> string \<Rightarrow> string \<Rightarrow> string \<Rightarrow> ('e rbac_error, bool) result" where
  "isRole C s user role domain =
     map_sum CasbinError (\<lambda>roles. role \<in> set roles) (GetImplicitRolesForUser C s user domain)"

definition isInviteAllowed :: "('s, 'e) Casbin \<Rightarrow> 's \<Rightarrow> string \<Rightarrow> string \<Rightarrow> ('e rbac_error, bool) result" where
  "isInviteAllowed C s user domain = lift (Enforce C s user domain domain ''server:invite'')"

definition IsKnotOwner where "IsKnotOwner C s user domain = isRole C s user ''server:owner'' domain"
definition IsKnotMember where "IsKnotMember C s user domain = isRole C s user ''server:member'' domain"
definition IsSpindleOwner where "IsSpindleOwner C s user domain = isRole C s user ''server:owner'' (intoSpindle domain)"
definition IsSpindleMember where "IsSpindleMember C s user domain = isRole C s user ''server:member'' (intoSpindle domain)"
definition IsKnotInviteAllowed where "IsKnotInviteAllowed C s user domain = isInviteAllowed C s user domain"
definition IsSpindleInviteAllowed where
  "IsSpindleInviteAllowed C s user domain = isInviteAllowed C s user (intoSpindle domain)"
definition IsRepoCreateAllowed where "IsRepoCreateAllowed C s user domain = Enforce C s user domain domain ''repo:create''"
definition IsRepoDeleteAllowed where "IsRepoDeleteAllowed C s user domain repo = Enforce C s user domain repo ''repo:delete''"
definition IsRepoOwner where "IsRepoOwner C s user domain repo = Enforce C s user domain repo ''repo:owner''"
definition IsRepoCollaborator where
  "IsRepoCollaborator C s user domain repo = Enforce C s user domain repo ''repo:collaborator''"
definition IsPushAllowed where "IsPushAllowed C s user domain repo = Enforce C s user domain repo ''repo:push''"
definition IsSettingsAllowed where "IsSettingsAllowed C s user domain repo = Enforce C s user domain repo ''repo:settings''"
definition IsCollaboratorInviteAllowed where
  "IsCollaboratorInviteAllowed C s user domain repo = Enforce C s user domain repo ''repo:invite''"

definition GetPermissionsInRepo :: "('s, 'e) Casbin \<Rightarrow> 's \<Rightarrow> string \<Rightarrow> string \<Rightarrow> string \<Rightarrow> string list" where
  "GetPermissionsInRepo C s user domain repo =
     map (\<lambda>(_, _, _, act). act)
       (filter (\<lambda>(_, _, ob, _). ob = repo) (GetPermissionsForUserInDomain C s user domain))"

section \<open>Roles\<close>

text \<open>
  The grouping rules the code ever adds: users become owners or members of a server, and owners are
  members.
\<close>

definition groups_ok :: "grouping set \<Rightarrow> bool" where
  "groups_ok G \<longleftrightarrow>
     (\<forall>(x, y, d) \<in> G. (y = ''server:owner'' \<or> y = ''server:member'') \<and>
        (hasPrefix x ''did:'' \<or> x = ''server:owner'' \<and> y = ''server:member''))"

lemma roles_not_did [simp]: "\<not> hasPrefix ''server:owner'' ''did:''" "\<not> hasPrefix ''server:member'' ''did:''"
  by (simp_all add: hasPrefix_def)

lemma link_refl [simp]: "link G d u u"
  unfolding link_def by (rule exI [of _ 0]) simp

lemma link_step: "(u, r, d) \<in> G \<Longrightarrow> link G d u r"
  unfolding link_def by (rule exI [of _ 1]) (simp add: edges_def)

lemma edge_target: "groups_ok G \<Longrightarrow> (x, y) \<in> edges G d \<Longrightarrow> y = ''server:owner'' \<or> y = ''server:member''"
  by (auto simp: groups_ok_def edges_def)

lemma edge_source: "groups_ok G \<Longrightarrow> (x, ''server:owner'') \<in> edges G d \<Longrightarrow> hasPrefix x ''did:''"
  by (auto simp: groups_ok_def edges_def)

lemma link_did:
  assumes "groups_ok G" "hasPrefix p ''did:''" "link G d u p"
  shows "u = p"
proof -
  from assms(3) obtain n where n: "(u, p) \<in> edges G d ^^ n" by (auto simp: link_def)
  then show ?thesis
  proof (cases n)
    case (Suc m)
    with n obtain x where "(x, p) \<in> edges G d" by auto
    with assms(1,2) edge_target show ?thesis by force
  qed simp
qed

lemma link_owner:
  assumes "groups_ok G" "hasPrefix u ''did:''"
  shows "link G d u ''server:owner'' \<longleftrightarrow> (u, ''server:owner'', d) \<in> G"
proof
  assume "link G d u ''server:owner''"
  then obtain n where n: "(u, ''server:owner'') \<in> edges G d ^^ n" by (auto simp: link_def)
  with assms(2) obtain m where m: "n = Suc m" by (cases n) auto
  with n obtain x where x: "(u, x) \<in> edges G d ^^ m" "(x, ''server:owner'') \<in> edges G d" by auto
  have "hasPrefix x ''did:''" using assms(1) x(2) by (rule edge_source)
  moreover have "x = ''server:owner'' \<or> x = ''server:member''" if "m = Suc k" for k
    using x(1) that assms(1) edge_target by fastforce
  ultimately have "m = 0" by (cases m) auto
  with x show "(u, ''server:owner'', d) \<in> G" by (simp add: edges_def)
qed (rule link_step)

lemma granted_insert:
  "granted (P \<union> R) G u d ob act \<longleftrightarrow> granted P G u d ob act \<or> granted R G u d ob act"
  by (auto simp: granted_def)

lemma granted_empty: "granted {} G u d ob act \<longleftrightarrow> False"
  by (simp add: granted_def)

lemma granted_rule:
  "granted (insert (p, d', ob', act') R) G u d ob act \<longleftrightarrow>
     d = d' \<and> ob = ob' \<and> act = act' \<and> link G d u p \<or> granted R G u d ob act"
  by (auto simp: granted_def)

lemma link_did_iff: "groups_ok G \<Longrightarrow> hasPrefix p ''did:'' \<Longrightarrow> link G d u p \<longleftrightarrow> u = p"
  using link_did by auto

lemma granted_repo_policies:
  assumes "groups_ok G" "hasPrefix member ''did:''" "hasPrefix u ''did:''"
  shows "granted (set (repoPolicies member domain repo)) G u d ob act \<longleftrightarrow>
    d = domain \<and> ob = repo \<and>
    (u = member \<and> act \<in> {''repo:settings'', ''repo:push'', ''repo:owner'', ''repo:invite'', ''repo:delete''} \<or>
     act = ''repo:delete'' \<and> (u, ''server:owner'', domain) \<in> G)"
proof -
  have "granted (set (repoPolicies member domain repo)) G u d ob act \<longleftrightarrow>
    d = domain \<and> ob = repo \<and> act = ''repo:settings'' \<and> u = member \<or> d = domain \<and> ob = repo \<and> act = ''repo:push'' \<and> u = member \<or>
    d = domain \<and> ob = repo \<and> act = ''repo:owner'' \<and> u = member \<or> d = domain \<and> ob = repo \<and> act = ''repo:invite'' \<and> u = member \<or>
    d = domain \<and> ob = repo \<and> act = ''repo:delete'' \<and> u = member \<or>
    d = domain \<and> ob = repo \<and> act = ''repo:delete'' \<and> (u, ''server:owner'', d) \<in> G"
    unfolding repoPolicies_def list.set granted_rule granted_empty link_did_iff [OF assms(1,2)] link_owner [OF assms(1,3)]
    by (simp only: simp_thms)
  then show ?thesis unfolding insert_iff empty_iff by (cases "d = domain"; cases "ob = repo"; cases "u = member") simp_all
qed

lemma granted_collaborator_policies:
  assumes "groups_ok G" "hasPrefix c ''did:''"
  shows "granted (set (collaboratorPolicies c domain repo)) G u d ob act \<longleftrightarrow>
    d = domain \<and> ob = repo \<and> u = c \<and> act \<in> {''repo:collaborator'', ''repo:settings'', ''repo:push''}"
  unfolding collaboratorPolicies_def list.set granted_rule granted_empty link_did_iff [OF assms]
  by blast

section \<open>Laws of the engine\<close>

lemma casbin_enforce: "casbin_ok C pol grp \<Longrightarrow> Enforce C s u d ob act = Inr (granted (pol s) (grp s) u d ob act)"
  by (simp add: casbin_ok_def)

lemma casbin_add:
  "casbin_ok C pol grp \<Longrightarrow> AddPolicies C s rs = Inr s' \<Longrightarrow>
   grp s' = grp s \<and> pol s' = (if set rs \<inter> pol s = {} then pol s \<union> set rs else pol s)"
  unfolding casbin_ok_def by meson

lemma casbin_remove:
  "casbin_ok C pol grp \<Longrightarrow> RemovePolicies C s rs = Inr s' \<Longrightarrow>
   grp s' = grp s \<and> pol s' = (if set rs \<subseteq> pol s then pol s - set rs else pol s)"
  unfolding casbin_ok_def by meson

lemma casbin_group_add:
  "casbin_ok C pol grp \<Longrightarrow> AddGroupingPolicy C s u r d = Inr s' \<Longrightarrow> pol s' = pol s \<and> grp s' = insert (u, r, d) (grp s)"
  unfolding casbin_ok_def by meson

lemma casbin_group_remove:
  "casbin_ok C pol grp \<Longrightarrow> RemoveGroupingPolicy C s u r d = Inr s' \<Longrightarrow> pol s' = pol s \<and> grp s' = grp s - {(u, r, d)}"
  unfolding casbin_ok_def by meson

lemma change_policies_Inr: "change_policies change s repo rs = Inr s' \<Longrightarrow> change s rs = Inr s'"
  by (auto simp: change_policies_def lift_def map_sum_Inr_iff split: if_splits)

lemma add_policies:
  assumes "casbin_ok C pol grp" "change_policies (AddPolicies C) s repo rs = Inr s'"
  shows "grp s' = grp s \<and> pol s' = (if set rs \<inter> pol s = {} then pol s \<union> set rs else pol s)"
  using casbin_add [OF assms(1) change_policies_Inr [OF assms(2)]] .

lemma remove_policies:
  assumes "casbin_ok C pol grp" "change_policies (RemovePolicies C) s repo rs = Inr s'"
  shows "grp s' = grp s \<and> pol s' = (if set rs \<subseteq> pol s then pol s - set rs else pol s)"
  using casbin_remove [OF assms(1) change_policies_Inr [OF assms(2)]] .

lemmas questions = IsRepoDeleteAllowed_def IsRepoOwner_def IsRepoCollaborator_def IsPushAllowed_def
  IsSettingsAllowed_def IsCollaboratorInviteAllowed_def

section \<open>A policy engine that keeps the laws\<close>

text \<open>An engine over a list of rules and a list of groupings, to show that the laws can hold.\<close>

definition list_casbin :: "(rule list \<times> grouping list, string) Casbin" where
  "list_casbin =
     \<lparr>AddPolicies = (\<lambda>(ps, gs) rs. Inr (if set rs \<inter> set ps = {} then (ps @ rs, gs) else (ps, gs))),
      RemovePolicies = (\<lambda>(ps, gs) rs. Inr (if set rs \<subseteq> set ps then (filter (\<lambda>p. p \<notin> set rs) ps, gs) else (ps, gs))),
      AddGroupingPolicy = (\<lambda>(ps, gs) u r d. Inr (ps, (u, r, d) # gs)),
      RemoveGroupingPolicy = (\<lambda>(ps, gs) u r d. Inr (ps, filter (\<lambda>g. g \<noteq> (u, r, d)) gs)),
      DeleteDomains = (\<lambda>(ps, gs) d. Inr (filter (\<lambda>(_, d', _, _). d' \<noteq> d) ps, filter (\<lambda>(_, _, d'). d' \<noteq> d) gs)),
      Casbin_GetDomainsForUser = (\<lambda>(ps, gs) u. Inr (remdups (map (\<lambda>(_, _, d). d) (filter (\<lambda>(x, _, _). x = u) gs)))),
      GetImplicitUsersForRole = (\<lambda>(ps, gs) r d. Inr (filter (\<lambda>u. link (set gs) d u r) (remdups (map fst gs)))),
      GetImplicitRolesForUser =
        (\<lambda>(ps, gs) u d. Inr (filter (\<lambda>r. r \<noteq> u \<and> link (set gs) d u r) (map (\<lambda>(_, r, _). r) gs))),
      GetImplicitUsersForResourceByDomain = (\<lambda>(ps, gs) ob d. Inr (filter (\<lambda>(_, d', ob', _). d' = d \<and> ob' = ob) ps)),
      GetPermissionsForUserInDomain = (\<lambda>(ps, gs) u d. filter (\<lambda>(u', d', _, _). u' = u \<and> d' = d) ps),
      Enforce = (\<lambda>(ps, gs) u d ob act. Inr (granted (set ps) (set gs) u d ob act))\<rparr>"

lemma link_target: "link G d u r \<Longrightarrow> r \<noteq> u \<Longrightarrow> \<exists>x. (x, r, d) \<in> G"
proof -
  assume "link G d u r" "r \<noteq> u"
  then obtain n where n: "(u, r) \<in> edges G d ^^ n" by (auto simp: link_def)
  with \<open>r \<noteq> u\<close> obtain m where "n = Suc m" by (cases n) auto
  with n show ?thesis by (auto simp: edges_def)
qed

lemma list_casbin_roles:
  "set (filter (\<lambda>r. r \<noteq> u \<and> link (set gs) d u r) (map (\<lambda>(_, r, _). r) gs)) = {r. r \<noteq> u \<and> link (set gs) d u r}"
  using link_target [of "set gs" d u] by (force simp: image_iff)

lemma list_casbin_ok: "casbin_ok list_casbin (\<lambda>s. set (fst s)) (\<lambda>s. set (snd s))"
  unfolding casbin_ok_def list_casbin_def using list_casbin_roles by auto

text \<open>
  C10. A new repository: its owner, and nobody else, may push, change its settings and invite
  collaborators; it may be deleted by its owner and by the owners of the server; and no right on
  anything else changes.
\<close>

theorem AddRepo_permissions:
  assumes "casbin_ok C pol grp" "groups_ok (grp s)" "hasPrefix member ''did:''" "hasPrefix u ''did:''"
    and "\<forall>p act. (p, domain, repo, act) \<notin> pol s" "AddRepo C s member domain repo = Inr s'"
  shows "IsPushAllowed C s' u domain repo = Inr (u = member) \<and>
    IsSettingsAllowed C s' u domain repo = Inr (u = member) \<and>
    IsRepoOwner C s' u domain repo = Inr (u = member) \<and>
    IsCollaboratorInviteAllowed C s' u domain repo = Inr (u = member) \<and>
    IsRepoCollaborator C s' u domain repo = Inr False \<and>
    IsRepoDeleteAllowed C s' u domain repo = Inr (u = member \<or> (u, ''server:owner'', domain) \<in> grp s) \<and>
    ((d, ob) \<noteq> (domain, repo) \<longrightarrow> Enforce C s' u d ob act = Enforce C s u d ob act)"
proof -
  have "set (repoPolicies member domain repo) \<inter> pol s = {}"
    using assms(5) by (auto simp: repoPolicies_def)
  then have s': "grp s' = grp s" "pol s' = pol s \<union> set (repoPolicies member domain repo)"
    using add_policies [OF assms(1)] assms(6) unfolding AddRepo_def by metis+
  have e: "Enforce C s' u d ob act = Inr (granted (pol s) (grp s) u d ob act \<or>
      d = domain \<and> ob = repo \<and>
      (u = member \<and> act \<in> {''repo:settings'', ''repo:push'', ''repo:owner'', ''repo:invite'', ''repo:delete''} \<or>
       act = ''repo:delete'' \<and> (u, ''server:owner'', domain) \<in> grp s))" for d ob act
    unfolding casbin_enforce [OF assms(1)] s' granted_insert granted_repo_policies [OF assms(2-4)] ..
  have "\<not> granted (pol s) (grp s) u domain repo act" for act using assms(5) by (auto simp: granted_def)
  then show ?thesis
    unfolding questions e casbin_enforce [OF assms(1), of s] by auto
qed

theorem AddRepo_permissions_witness:
  "\<exists>s'. AddRepo list_casbin ([], []) ''did:plc:a'' ''knot'' ''did:plc:a/r'' = Inr s' \<and>
     IsPushAllowed list_casbin s' ''did:plc:a'' ''knot'' ''did:plc:a/r'' = Inr (''did:plc:a'' = ''did:plc:a'')"
proof -
  obtain s' where s': "AddRepo list_casbin ([], []) ''did:plc:a'' ''knot'' ''did:plc:a/r'' = Inr s'"
    by (simp add: AddRepo_def change_policies_def checkRepoFormat_def hasPrefix_def lift_def list_casbin_def)
  then show ?thesis
    using AddRepo_permissions [OF list_casbin_ok _ _ _ _ s', of "''did:plc:a''"]
    by (simp add: groups_ok_def hasPrefix_def)
qed

text \<open>
  A collaborator: adding one who has none of a collaborator's rights yet gives that user, and
  nobody else, the right to push, to change the settings and the mark of a collaborator; ownership
  and the rights to invite and delete stay as they were; removing the collaborator takes exactly these
  rights away again.
\<close>

theorem AddCollaborator_permissions:
  assumes "casbin_ok C pol grp" "groups_ok (grp s)" "hasPrefix c ''did:''"
    and "set (collaboratorPolicies c domain repo) \<inter> pol s = {}" "AddCollaborator C s c domain repo = Inr s'"
  shows "IsPushAllowed C s' u domain repo = map_sum id (\<lambda>b. b \<or> u = c) (IsPushAllowed C s u domain repo) \<and>
    IsSettingsAllowed C s' u domain repo = map_sum id (\<lambda>b. b \<or> u = c) (IsSettingsAllowed C s u domain repo) \<and>
    IsRepoCollaborator C s' u domain repo = map_sum id (\<lambda>b. b \<or> u = c) (IsRepoCollaborator C s u domain repo) \<and>
    IsRepoOwner C s' u domain repo = IsRepoOwner C s u domain repo \<and>
    IsCollaboratorInviteAllowed C s' u domain repo = IsCollaboratorInviteAllowed C s u domain repo \<and>
    IsRepoDeleteAllowed C s' u domain repo = IsRepoDeleteAllowed C s u domain repo \<and>
    (RemoveCollaborator C s' c domain repo = Inr s'' \<longrightarrow> Enforce C s'' u d ob act = Enforce C s u d ob act)"
proof -
  have s': "grp s' = grp s" "pol s' = pol s \<union> set (collaboratorPolicies c domain repo)"
    using add_policies [OF assms(1)] assms(4,5) unfolding AddCollaborator_def by metis+
  have e: "Enforce C s' u d ob act = Inr (granted (pol s) (grp s) u d ob act \<or>
      d = domain \<and> ob = repo \<and> u = c \<and> act \<in> {''repo:collaborator'', ''repo:settings'', ''repo:push''})" for d ob act
    unfolding casbin_enforce [OF assms(1)] s' granted_insert granted_collaborator_policies [OF assms(2,3)] ..
  have "Enforce C s'' u d ob act = Enforce C s u d ob act" if "RemoveCollaborator C s' c domain repo = Inr s''"
  proof -
    have "grp s'' = grp s" "pol s'' = pol s' - set (collaboratorPolicies c domain repo)"
      using remove_policies [OF assms(1)] that s' unfolding RemoveCollaborator_def by auto
    moreover from this have "pol s'' = pol s" using s' assms(4) by auto
    ultimately show ?thesis by (simp add: casbin_enforce [OF assms(1)])
  qed
  then show ?thesis
    unfolding questions e casbin_enforce [OF assms(1), of s] by auto
qed

theorem AddCollaborator_permissions_witness:
  "\<exists>s'. AddCollaborator list_casbin ([], []) ''did:plc:b'' ''knot'' ''did:plc:a/r'' = Inr s' \<and>
     IsRepoOwner list_casbin s' ''did:plc:b'' ''knot'' ''did:plc:a/r'' =
       IsRepoOwner list_casbin ([], []) ''did:plc:b'' ''knot'' ''did:plc:a/r''"
proof -
  obtain s' where s': "AddCollaborator list_casbin ([], []) ''did:plc:b'' ''knot'' ''did:plc:a/r'' = Inr s'"
    by (simp add: AddCollaborator_def change_policies_def checkRepoFormat_def hasPrefix_def lift_def list_casbin_def)
  then show ?thesis
    using AddCollaborator_permissions [OF list_casbin_ok _ _ _ s', of "''did:plc:b''"]
    by (simp add: groups_ok_def hasPrefix_def)
qed

text \<open>
  Removing a repository does not take the rights of its collaborators away: whoever could push as
  a collaborator still can, also to a repository that is later created under the same name.
\<close>

theorem RemoveRepo_keeps_collaborators:
  assumes "casbin_ok C pol grp" "c \<noteq> member" "c \<noteq> ''server:owner''"
    and "(c, domain, repo, ''repo:push'') \<in> pol s" "RemoveRepo C s member domain repo = Inr s'"
  shows "IsPushAllowed C s' c domain repo = Inr True"
proof -
  have "(c, domain, repo, ''repo:push'') \<in> pol s'"
    using remove_policies [OF assms(1)] assms(2-5) unfolding RemoveRepo_def
    by (auto simp: repoPolicies_def split: if_splits)
  then show ?thesis
    by (auto simp: IsPushAllowed_def casbin_enforce [OF assms(1)] granted_def)
qed

theorem RemoveRepo_keeps_collaborators_witness:
  "\<exists>s'. RemoveRepo list_casbin (collaboratorPolicies ''did:plc:b'' ''knot'' ''did:plc:a/r'', [])
       ''did:plc:a'' ''knot'' ''did:plc:a/r'' = Inr s' \<and>
     IsPushAllowed list_casbin s' ''did:plc:b'' ''knot'' ''did:plc:a/r'' = Inr True"
proof -
  obtain s' where s': "RemoveRepo list_casbin (collaboratorPolicies ''did:plc:b'' ''knot'' ''did:plc:a/r'', [])
       ''did:plc:a'' ''knot'' ''did:plc:a/r'' = Inr s'"
    by (simp add: RemoveRepo_def change_policies_def checkRepoFormat_def hasPrefix_def lift_def list_casbin_def)
  then show ?thesis
    using RemoveRepo_keeps_collaborators [OF list_casbin_ok _ _ _ s'] by (simp add: collaboratorPolicies_def)
qed

end
