(* ===== verification/Validators.thy ===== *)
theory Validators
  imports Labels RBAC Patch_Combine
begin

text \<open>
  The validators of the web application: \<^verbatim>\<open>appview/validator\<close>.

  Validation returns an error or the value as the code leaves it, since the code rewrites what it
  accepts in place. Errors are the messages of the code; a message that quotes a Go string with
  \<^verbatim>\<open>%q\<close> quotes it through the argument \<open>quote\<close>. What the code asks of other packages is an
  argument as well: the syntax of NSIDs and AT-URIs, the resolver of identities, the HTML
  sanitizer and the parser of URLs.
\<close>

section \<open>Label definitions\<close>

definition is_alnum :: "char \<Rightarrow> bool" where
  "is_alnum c \<longleftrightarrow> (let n = of_char c :: nat in 97 \<le> n \<and> n \<le> 122 \<or> 65 \<le> n \<and> n \<le> 90 \<or> 48 \<le> n \<and> n \<le> 57)"

definition labelNameRegex :: "string \<Rightarrow> bool" where
  "labelNameRegex s \<longleftrightarrow>
     s \<noteq> [] \<and> is_alnum (hd s) \<and> is_alnum (last s) \<and>
     list_all (\<lambda>c. is_alnum c \<or> c = CHR ''_'' \<or> c = CHR ''-'') s"

definition is_hex_digit :: "char \<Rightarrow> bool" where
  "is_hex_digit c \<longleftrightarrow> (let n = of_char c :: nat in 97 \<le> n \<and> n \<le> 102 \<or> 65 \<le> n \<and> n \<le> 70 \<or> 48 \<le> n \<and> n \<le> 57)"

definition colorRegex :: "string \<Rightarrow> bool" where
  "colorRegex s \<longleftrightarrow> length s = 7 \<and> hd s = CHR ''#'' \<and> list_all is_hex_digit (tl s)"

text \<open>\<^verbatim>\<open>strings.ToUpper\<close> on the ASCII strings it is applied to here.\<close>

definition upper_char :: "char \<Rightarrow> char" where
  "upper_char c = (let n = of_char c :: nat in if 97 \<le> n \<and> n \<le> 122 then char_of (n - 32) else c)"

definition validScopes :: "string list" where
  "validScopes = [''sh.tangled.repo.issue'', ''sh.tangled.repo.pull'']"

text \<open>A slice as \<^verbatim>\<open>%v\<close> prints it, and as \<^verbatim>\<open>%q\<close> prints it once its elements are quoted.\<close>

definition show_list :: "string list \<Rightarrow> string" where
  "show_list vs = ''['' @ joinWith '' '' vs @ '']''"

fun validate_scopes :: "(string \<Rightarrow> (string, unit) result) \<Rightarrow> (string \<Rightarrow> string) \<Rightarrow> string list \<Rightarrow> (string, unit) result" where
  "validate_scopes parseNSID quote [] = Inr ()"
| "validate_scopes parseNSID quote (s # ss) =
     (case parseNSID s of
        Inl e \<Rightarrow> Inl (''failed to parse scope: '' @ e)
      | Inr _ \<Rightarrow>
          if s \<notin> set validScopes then Inl (''invalid scope: scope must be present in '' @ show_list (map quote validScopes))
          else validate_scopes parseNSID quote ss)"

definition expand_color :: "string \<Rightarrow> string" where
  "expand_color color =
     (if length color = 4
      then [CHR ''#'', color ! 1, color ! 1, color ! 2, color ! 2, color ! 3, color ! 3] else color)"

definition validate_color :: "string option \<Rightarrow> (string, string option) result" where
  "validate_color c =
     (case c of
        None \<Rightarrow> Inr None
      | Some raw \<Rightarrow>
          let color = trimSpace raw
          in if color = [] then Inr None
             else if \<not> colorRegex color then Inl ''color must be a valid hex color (e.g. #79FFE1 or #000)''
             else Inr (Some (map upper_char (expand_color color))))"

definition ValidateLabelDefinition ::
  "(string \<Rightarrow> (string, unit) result) \<Rightarrow> (string \<Rightarrow> string) \<Rightarrow> LabelDefinition \<Rightarrow> (string, LabelDefinition) result" where
  "ValidateLabelDefinition parseNSID quote l =
     (let vt = ld_ValueType l
      in if ld_Name l = [] then Inl ''label name is empty''
         else if length (ld_Name l) > 40 then Inl ''label name too long (max 40 graphemes)''
         else if length (ld_Name l) < 1 then Inl ''label name too short (min 1 grapheme)''
         else if \<not> labelNameRegex (ld_Name l) then
           Inl ''label name contains invalid characters (use only letters, numbers, hyphens, and underscores)''
         else if \<not> IsConcreteType vt then
           Inl (''invalid value type: '' @ quote (vt_Type vt) @ '' (must be one of: null, boolean, integer, string)'')
         else if IsNull vt \<and> IsEnum vt then Inl ''null type cannot be used in conjunction with enum type''
         else if IsNull vt \<and> ld_Multiple l then Inl ''null type labels cannot be multiple''
         else if IsNull vt \<and> \<not> IsAnyFormat vt then Inl ''format cannot be used in conjunction with null type''
         else if \<not> IsAnyFormat vt \<and> IsEnum vt then
           Inl ''enum types cannot be used in conjunction with format specification''
         else if \<not> IsAnyFormat vt \<and> \<not> IsString vt then
           Inl ''format specifications are only permitted on string types''
         else case ld_Scope l of
                None \<Rightarrow> Inl ''scope is required''
              | Some scopes \<Rightarrow>
                  case validate_scopes parseNSID quote scopes of
                    Inl e \<Rightarrow> Inl e
                  | Inr _ \<Rightarrow> map_sum id (\<lambda>color. l\<lparr>ld_Color := color\<rparr>) (validate_color (ld_Color l)))"

section \<open>Label operations\<close>

record LabelRepo =
  lrp_Knot :: string
  lrp_DidSlashRepo :: string

record ValidatorEnv =
  parseATURI :: "string \<Rightarrow> (string, unit) result"
  resolveIdent :: "string \<Rightarrow> (string, string) result"
  quote_value :: "string \<Rightarrow> string"

text \<open>
  \<^verbatim>\<open>fmt.Sscanf(v, "%d", new(int))\<close> succeeds: after white space (a newline is an error), an optional sign
  and at least one decimal digit, whose value fits 64 bits. What follows the digits is not looked at.
\<close>

definition scan_int :: "string \<Rightarrow> bool" where
  "scan_int v =
     (let t = strip_any (filter (\<lambda>w. w \<noteq> [newline]) space_runes) v;
          neg = hasPrefix t ''-'';
          u = (if neg \<or> hasPrefix t ''+'' then tl t else t);
          ds = takeWhile is_digit u;
          x = digits_value ds
      in ds \<noteq> [] \<and> (if neg then - x \<ge> - (2 ^ 63) else x < 2 ^ 63))"

definition enum_error :: "ValidatorEnv \<Rightarrow> ValueType \<Rightarrow> string \<Rightarrow> string option" where
  "enum_error env vt v =
     (if IsEnum vt \<and> v \<notin> set (vt_Enum vt)
      then Some (''value '' @ quote_value env v @ '' is not in allowed enum values '' @ show_list (vt_Enum vt))
      else None)"

definition validateOperandValue :: "ValidatorEnv \<Rightarrow> LabelDefinition \<Rightarrow> LabelOp \<Rightarrow> (string, LabelOp) result" where
  "validateOperandValue env def op =
     (let vt = ld_ValueType def; v = lo_OperandValue op
      in if v = [] then Inr (op\<lparr>lo_Operation := LabelOperationDel\<rparr>)
         else if vt_Type vt = ConcreteTypeNull then
           if v \<noteq> ''null'' then Inl (''null type requires empty value, got '' @ quote_value env v) else Inr op
         else if vt_Type vt = ConcreteTypeString then
           (case enum_error env vt v of
              Some e \<Rightarrow> Inl e
            | None \<Rightarrow>
                if vt_Format vt = ValueTypeFormatDid then
                  (case resolveIdent env v of
                     Inl e \<Rightarrow> Inl (''failed to resolve did/handle: '' @ e)
                   | Inr did \<Rightarrow> Inr (op\<lparr>lo_OperandValue := did\<rparr>))
                else if vt_Format vt = ValueTypeFormatAny \<or> vt_Format vt = [] then Inr op
                else Inl (''unsupported format constraint: '' @ quote_value env (vt_Format vt)))
         else if vt_Type vt = ConcreteTypeInt then
           if v = [] then Inl ''integer type requires non-empty value''
           else if \<not> scan_int v then Inl (''value '' @ quote_value env v @ '' is not a valid integer'')
           else (case enum_error env vt v of Some e \<Rightarrow> Inl e | None \<Rightarrow> Inr op)
         else if vt_Type vt = ConcreteTypeBool then
           if v \<noteq> ''true'' \<and> v \<noteq> ''false'' then
             Inl (''boolean type requires value to be '' @ [CHR 0x27] @ ''true'' @ [CHR 0x27] @ '' or '' @ [CHR 0x27] @
                  ''false'' @ [CHR 0x27] @ '', got '' @ quote_value env v)
           else (case enum_error env vt v of Some e \<Rightarrow> Inl e | None \<Rightarrow> Inr op)
         else Inl (''unsupported value type: '' @ quote_value env (vt_Type vt)))"

definition ValidateLabelOp ::
  "ValidatorEnv \<Rightarrow> ('s, string) Casbin \<Rightarrow> 's \<Rightarrow> LabelDefinition option \<Rightarrow> LabelRepo option \<Rightarrow> LabelOp option \<Rightarrow>
   (string, LabelOp) result" where
  "ValidateLabelOp env C s labelDef repo labelOp =
     (case (labelDef, repo, labelOp) of
        (None, _, _) \<Rightarrow> Inl ''label definition is required''
      | (_, None, _) \<Rightarrow> Inl ''repo is required''
      | (_, _, None) \<Rightarrow> Inl ''label operation is required''
      | (Some def, Some repo, Some op) \<Rightarrow>
          (case IsPushAllowed C s (lo_Did op) (lrp_Knot repo) (lrp_DidSlashRepo repo) of
             Inl e \<Rightarrow> Inl (''failed to enforce permissions: '' @ e)
           | Inr False \<Rightarrow> Inl ''unauhtorized label operation''
           | Inr True \<Rightarrow>
               let expectedKey = LabelDefinition_AtUri def
               in if lo_OperandKey op \<noteq> expectedKey then
                    Inl (''operand key '' @ quote_value env (lo_OperandKey op) @
                         '' does not match label definition URI '' @ quote_value env expectedKey)
                  else if lo_Operation op \<noteq> LabelOperationAdd \<and> lo_Operation op \<noteq> LabelOperationDel then
                    Inl (''invalid operation: '' @ quote_value env (lo_Operation op) @ '' (must be '' @ [CHR 0x27] @ ''add'' @
                         [CHR 0x27] @ '' or '' @ [CHR 0x27] @ ''del'' @ [CHR 0x27] @ '')'')
                  else if lo_Subject op = [] then Inl ''subject URI is required''
                  else case parseATURI env (lo_Subject op) of
                         Inl e \<Rightarrow> Inl (''invalid subject URI: '' @ e)
                       | Inr _ \<Rightarrow>
                           case validateOperandValue env def op of
                             Inl e \<Rightarrow> Inl (''invalid operand value: '' @ e)
                           | Inr op' \<Rightarrow>
                               if lo_PerformedAt op' = zero_time then Inl ''performed_at timestamp is required''
                               else Inr op'))"

section \<open>Topics\<close>

definition maxTopicLen :: nat where "maxTopicLen = 50"
definition maxTopics :: nat where "maxTopics = 20"

definition topicRE :: "string \<Rightarrow> bool" where
  "topicRE s \<longleftrightarrow> s \<noteq> [] \<and>
     list_all (\<lambda>c. let n = of_char c :: nat in 97 \<le> n \<and> n \<le> 122 \<or> 48 \<le> n \<and> n \<le> 57 \<or> n = 45) s"

fun collect_topics :: "string list \<Rightarrow> string list \<Rightarrow> (string, string list) result" where
  "collect_topics topicSet [] = Inr topicSet"
| "collect_topics topicSet (t # parts) =
     (if t \<in> set topicSet then collect_topics topicSet parts
      else if length t > maxTopicLen then
        Inl (''topic '' @ [CHR 0x27] @ t @ [CHR 0x27] @ '' is too long (maximum '' @ digits maxTopics @ '' characters)'')
      else if \<not> topicRE t then
        Inl (''topic '' @ [CHR 0x27] @ t @ [CHR 0x27] @
             '' contains invalid characters (allowed: lowercase letters, digits, hyphens)'')
      else collect_topics (topicSet @ [t]) parts)"

text \<open>\<open>order\<close> is the order in which the keys of the set are collected.\<close>

definition ValidateRepoTopicStr :: "(string list \<Rightarrow> string list) \<Rightarrow> string \<Rightarrow> (string, string list) result" where
  "ValidateRepoTopicStr order topicsStr =
     (let trimmed = trimSpace topicsStr
      in if trimmed = [] then Inr []
         else
           let parts = Fields trimmed
           in if length parts > maxTopics then
                Inl (''too many topics: '' @ digits (length parts) @ '' (maximum '' @ digits maxTopics @ '')'')
              else map_sum id order (collect_topics [] parts))"

section \<open>Patches, issues, strings and URIs\<close>

datatype 'e patch_validation = PatchEmpty | PatchInvalid "'e valid_error"

definition ValidatePatch :: "'e PatchEnv \<Rightarrow> string option \<Rightarrow> ('e patch_validation, string) result" where
  "ValidatePatch env patch =
     (case patch of
        None \<Rightarrow> Inl PatchEmpty
      | Some p \<Rightarrow>
          if p = [] then Inl PatchEmpty
          else
            let p' = (if \<not> IsFormatPatch p \<and> \<not> hasSuffix p [newline] then p @ [newline] else p)
            in case IsPatchValid env p' of Some e \<Rightarrow> Inl (PatchInvalid e) | None \<Rightarrow> Inr p')"

text \<open>\<open>parents\<close> is what the database returns for the parent: its own \<^verbatim>\<open>ReplyTo\<close>, for every row.\<close>

definition ValidateIssueComment ::
  "(string \<Rightarrow> (string, string option list) result) \<Rightarrow> (string \<Rightarrow> string) \<Rightarrow> string option \<Rightarrow> string \<Rightarrow> string option" where
  "ValidateIssueComment parents sanitizeDefault replyTo body =
     (let depth_error =
        (case replyTo of
           None \<Rightarrow> None
         | Some parent \<Rightarrow>
             case parents parent of
               Inl e \<Rightarrow> Some (''failed to fetch parent comment: '' @ e)
             | Inr rows \<Rightarrow>
                 if length rows \<noteq> 1 then Some (''incorrect number of parent comments returned: '' @ digits (length rows))
                 else if rows ! 0 \<noteq> None then Some ''incorrect depth, this comment is replying at depth >1''
                 else None)
      in case depth_error of
           Some e \<Rightarrow> Some e
         | None \<Rightarrow>
             if trimSpace (sanitizeDefault body) = [] then Some ''body is empty after HTML sanitization'' else None)"

definition ValidateIssue :: "(string \<Rightarrow> string) \<Rightarrow> (string \<Rightarrow> string) \<Rightarrow> string \<Rightarrow> string \<Rightarrow> string option" where
  "ValidateIssue sanitizeDescription sanitizeDefault title body =
     (if title = [] then Some ''issue title is empty''
      else if body = [] then Some ''issue body is empty''
      else if trimSpace (sanitizeDescription title) = [] then Some ''title is empty after HTML sanitization''
      else if trimSpace (sanitizeDefault body) = [] then Some ''body is empty after HTML sanitization''
      else None)"

text \<open>
  \<^verbatim>\<open>utf8.RuneCountInString\<close>: a well-formed encoding counts once, every other byte counts as one rune. The
  second byte is restricted after the first bytes E0, ED, F0 and F4.
\<close>

definition continuation :: "nat \<Rightarrow> nat \<Rightarrow> string \<Rightarrow> bool" where
  "continuation lo hi s = (case s of [] \<Rightarrow> False | c # _ \<Rightarrow> lo \<le> of_char c \<and> of_char c \<le> hi)"

definition rune_width :: "string \<Rightarrow> nat" where
  "rune_width s =
     (let b = of_char (hd s) :: nat;
          lo = (if b = 0xE0 then 0xA0 else if b = 0xF0 then 0x90 else 0x80);
          hi = (if b = 0xED then 0x9F else if b = 0xF4 then 0x8F else 0xBF);
          c1 = continuation lo hi (drop 1 s); c2 = continuation 0x80 0xBF (drop 2 s); c3 = continuation 0x80 0xBF (drop 3 s)
      in if 0xC2 \<le> b \<and> b \<le> 0xDF \<and> c1 then 2
         else if 0xE0 \<le> b \<and> b \<le> 0xEF \<and> c1 \<and> c2 then 3
         else if 0xF0 \<le> b \<and> b \<le> 0xF4 \<and> c1 \<and> c2 \<and> c3 then 4
         else 1)"

function RuneCountInString :: "string \<Rightarrow> nat" where
  "RuneCountInString [] = 0"
| "RuneCountInString (c # s) = Suc (RuneCountInString (drop (rune_width (c # s)) (c # s)))"
  by pat_completeness auto
termination
  by (relation "measure length") (auto simp: rune_width_def Let_def)

definition ValidateString :: "string \<Rightarrow> string \<Rightarrow> string \<Rightarrow> string list" where
  "ValidateString filename description contents =
     (if RuneCountInString filename > 140 then [''filename too long''] else []) @
     (if RuneCountInString description > 280 then [''description too long''] else []) @
     (if length contents = 0 then [''contents is empty''] else [])"

definition ValidateURI :: "(string \<Rightarrow> (string, string) result) \<Rightarrow> string \<Rightarrow> string option" where
  "ValidateURI parse_scheme uri =
     (case parse_scheme uri of
        Inl _ \<Rightarrow> Some ''invalid uri format''
      | Inr scheme \<Rightarrow> if scheme = [] then Some ''uri scheme missing'' else None)"

section \<open>What is accepted\<close>

lemma upper_hex: "is_hex_digit c \<Longrightarrow> is_hex_digit (upper_char c) \<and> upper_char (upper_char c) = upper_char c"
  by (auto simp: is_hex_digit_def upper_char_def Let_def)

lemma hex_not_space: "is_hex_digit c \<or> c = CHR ''#'' \<Longrightarrow> \<forall>w \<in> set space_runes. c \<notin> set w"
  by (auto simp: space_runes_def is_hex_digit_def Let_def)

lemma trimSpace_color:
  assumes "colorRegex c"
  shows "trimSpace c = c"
proof -
  from assms obtain x y where c: "c = CHR ''#'' # x @ [y]" "is_hex_digit y"
    by (cases c; cases "tl c" rule: rev_cases) (auto simp: colorRegex_def)
  then have "\<forall>w \<in> set space_runes. CHR ''#'' \<notin> set w \<and> y \<notin> set w" using hex_not_space by blast
  then obtain b where "trimSpace c = CHR ''#'' # x @ y # b"
    using trimSpace_keeps [of "CHR ''#''" y x "[]"] c by auto
  moreover have "length (trimSpace c) \<le> length c" by simp
  ultimately show ?thesis using c by simp
qed

lemma upper_color:
  assumes "colorRegex c"
  shows "colorRegex (map upper_char c) \<and> map upper_char (map upper_char c) = map upper_char c"
proof -
  from assms obtain t where c: "c = CHR ''#'' # t" "length t = 6" "list_all is_hex_digit t"
    by (cases c) (auto simp: colorRegex_def)
  have h: "upper_char CHR ''#'' = CHR ''#''" by (simp add: upper_char_def)
  moreover have "list_all is_hex_digit (map upper_char t)" "map upper_char (map upper_char t) = map upper_char t"
    using c(3) upper_hex by (induction t) auto
  ultimately show ?thesis using c by (simp add: colorRegex_def)
qed

lemma validate_color_canonical:
  assumes "validate_color c = Inr c'"
  shows "validate_color c' = Inr c' \<and> (case c' of None \<Rightarrow> True | Some x \<Rightarrow> colorRegex x \<and> map upper_char x = x)"
proof (cases c')
  case (Some x)
  with assms obtain raw where raw: "colorRegex (trimSpace raw)" "x = map upper_char (expand_color (trimSpace raw))"
    by (auto simp: validate_color_def Let_def split: option.splits if_splits)
  then have x: "x = map upper_char (trimSpace raw)" by (simp add: expand_color_def colorRegex_def)
  with upper_color [OF raw(1)] have c: "colorRegex x" "map upper_char x = x" by simp_all
  then have "trimSpace x = x" "x \<noteq> []" "expand_color x = x"
    by (auto simp: trimSpace_color expand_color_def) (auto simp: colorRegex_def)
  with c Some show ?thesis by (simp add: validate_color_def)
qed (simp add: validate_color_def)

lemma validate_scopes_subset: "validate_scopes nsid q ss = Inr () \<Longrightarrow> set ss \<subseteq> set validScopes"
  by (induction ss) (auto split: sum.splits if_splits)

definition shape_ok :: "(string \<Rightarrow> (string, unit) result) \<Rightarrow> (string \<Rightarrow> string) \<Rightarrow> LabelDefinition \<Rightarrow> bool" where
  "shape_ok nsid q l \<longleftrightarrow>
     ld_Name l \<noteq> [] \<and> length (ld_Name l) \<le> 40 \<and> labelNameRegex (ld_Name l) \<and> IsConcreteType (ld_ValueType l) \<and>
     (IsNull (ld_ValueType l) \<longrightarrow> \<not> IsEnum (ld_ValueType l) \<and> \<not> ld_Multiple l \<and> IsAnyFormat (ld_ValueType l)) \<and>
     (\<not> IsAnyFormat (ld_ValueType l) \<longrightarrow> \<not> IsEnum (ld_ValueType l) \<and> IsString (ld_ValueType l)) \<and>
     (\<exists>scopes. ld_Scope l = Some scopes \<and> validate_scopes nsid q scopes = Inr ())"

lemma ValidateLabelDefinition_shape:
  assumes "shape_ok nsid q l"
  shows "ValidateLabelDefinition nsid q l = map_sum id (\<lambda>color. l\<lparr>ld_Color := color\<rparr>) (validate_color (ld_Color l))"
proof -
  from assms obtain scopes where sc: "ld_Scope l = Some scopes" "validate_scopes nsid q scopes = Inr ()"
    and ne: "ld_Name l \<noteq> []" "\<not> length (ld_Name l) > 40" "\<not> length (ld_Name l) < 1"
    and c: "labelNameRegex (ld_Name l)" "IsConcreteType (ld_ValueType l)"
      "\<not> (IsNull (ld_ValueType l) \<and> IsEnum (ld_ValueType l))" "\<not> (IsNull (ld_ValueType l) \<and> ld_Multiple l)"
      "\<not> (IsNull (ld_ValueType l) \<and> \<not> IsAnyFormat (ld_ValueType l))"
      "\<not> (\<not> IsAnyFormat (ld_ValueType l) \<and> IsEnum (ld_ValueType l))"
      "\<not> (\<not> IsAnyFormat (ld_ValueType l) \<and> \<not> IsString (ld_ValueType l))"
    unfolding shape_ok_def by (cases "ld_Name l") auto
  show ?thesis
    by (simp only: ValidateLabelDefinition_def Let_def sc ne c option.case sum.case if_False if_True not_True_eq_False)
qed

lemma ValidateLabelDefinition_Inr:
  assumes "ValidateLabelDefinition nsid q l = Inr l'"
  shows "shape_ok nsid q l"
  using assms unfolding ValidateLabelDefinition_def Let_def shape_ok_def
  by (simp split: if_splits option.splits sum.splits) blast

text \<open>
  A label definition that is accepted has a well-formed name of at most 40 bytes, a concrete value
  type, scopes among issues and pulls, and a marker label (of type null) is neither multiple nor an
  enumeration. Validation changes nothing but the color, which it brings to the form of a hash and
  six upper-case hex digits, and accepts its own result unchanged.
\<close>

theorem ValidateLabelDefinition_correct:
  assumes "ValidateLabelDefinition nsid q l = Inr l'"
  shows "labelNameRegex (ld_Name l') \<and> length (ld_Name l') \<le> 40 \<and> IsConcreteType (ld_ValueType l') \<and>
    (IsNull (ld_ValueType l') \<longrightarrow> \<not> ld_Multiple l' \<and> \<not> IsEnum (ld_ValueType l')) \<and>
    (\<exists>scopes. ld_Scope l' = Some scopes \<and> set scopes \<subseteq> set validScopes) \<and>
    (case ld_Color l' of None \<Rightarrow> True | Some c \<Rightarrow> colorRegex c \<and> map upper_char c = c) \<and>
    l' = l\<lparr>ld_Color := ld_Color l'\<rparr> \<and> ValidateLabelDefinition nsid q l' = Inr l'"
proof -
  have ok: "shape_ok nsid q l" using assms by (rule ValidateLabelDefinition_Inr)
  then obtain color where c: "validate_color (ld_Color l) = Inr color" "l' = l\<lparr>ld_Color := color\<rparr>"
    using assms by (auto simp: ValidateLabelDefinition_shape map_sum_Inr_iff)
  note can = validate_color_canonical [OF c(1)]
  have ok': "shape_ok nsid q l'" using ok c(2) by (simp add: shape_ok_def)
  have "ValidateLabelDefinition nsid q l' = Inr l'"
    unfolding ValidateLabelDefinition_shape [OF ok'] using can c(2) by simp
  moreover have "\<exists>scopes. ld_Scope l' = Some scopes \<and> set scopes \<subseteq> set validScopes"
    using ok' validate_scopes_subset unfolding shape_ok_def by blast
  moreover have "labelNameRegex (ld_Name l') \<and> length (ld_Name l') \<le> 40 \<and> IsConcreteType (ld_ValueType l') \<and>
    (IsNull (ld_ValueType l') \<longrightarrow> \<not> ld_Multiple l' \<and> \<not> IsEnum (ld_ValueType l'))"
    using ok' unfolding shape_ok_def by blast
  moreover have "case ld_Color l' of None \<Rightarrow> True | Some c \<Rightarrow> colorRegex c \<and> map upper_char c = c"
    "l' = l\<lparr>ld_Color := ld_Color l'\<rparr>" using can c(2) by simp_all
  ultimately show ?thesis by blast
qed

definition marker_label :: LabelDefinition where
  "marker_label = (sample_def False)\<lparr>ld_ValueType := \<lparr>vt_Type = ''null'', vt_Format = ''any'', vt_Enum = []\<rparr>,
     ld_Scope := Some [''sh.tangled.repo.issue''], ld_Color := Some '' #79ffe1''\<rparr>"

theorem ValidateLabelDefinition_correct_witness:
  "\<exists>l'. ValidateLabelDefinition (\<lambda>_. Inr ()) id marker_label = Inr l' \<and>
     ValidateLabelDefinition (\<lambda>_. Inr ()) id l' = Inr l' \<and> ld_Color l' = Some ''#79FFE1''"
proof -
  have v: "ValidateLabelDefinition (\<lambda>_. Inr ()) id marker_label = Inr (marker_label\<lparr>ld_Color := Some ''#79FFE1''\<rparr>)"
    by code_simp
  with ValidateLabelDefinition_correct [OF v] show ?thesis by simp
qed

section \<open>Accepted operations\<close>

text \<open>A value fits a value type: the code's own checks, without the rewriting.\<close>

definition fits :: "ValidatorEnv \<Rightarrow> ValueType \<Rightarrow> string \<Rightarrow> bool" where
  "fits env vt v \<longleftrightarrow>
     (IsNull vt \<longrightarrow> v = ''null'') \<and> (IsBool vt \<longrightarrow> v = ''true'' \<or> v = ''false'') \<and> (IsInt vt \<longrightarrow> scan_int v) \<and>
     (IsEnum vt \<and> \<not> IsNull vt \<longrightarrow> v \<in> set (vt_Enum vt)) \<and> (IsString vt \<and> IsDidFormat vt \<longrightarrow> is_ok (resolveIdent env v))"

lemma validateOperandValue_Inr:
  assumes "validateOperandValue env def op = Inr op'"
  shows "(if lo_OperandValue op = [] then op' = op\<lparr>lo_Operation := LabelOperationDel\<rparr>
    else fits env (ld_ValueType def) (lo_OperandValue op) \<and>
      (\<exists>v. op' = op\<lparr>lo_OperandValue := v\<rparr> \<and>
        (v = lo_OperandValue op \<or> IsString (ld_ValueType def) \<and> IsDidFormat (ld_ValueType def) \<and>
           resolveIdent env (lo_OperandValue op) = Inr v)))"
proof (cases "lo_OperandValue op = []")
  case True
  with assms show ?thesis by (simp add: validateOperandValue_def)
next
  case False
  consider "vt_Type (ld_ValueType def) = ConcreteTypeNull" | "vt_Type (ld_ValueType def) = ConcreteTypeString"
    | "vt_Type (ld_ValueType def) = ConcreteTypeInt" | "vt_Type (ld_ValueType def) = ConcreteTypeBool"
    using assms False by (auto simp: validateOperandValue_def Let_def split: if_splits)
  then show ?thesis
    using assms False
    by cases (auto simp: validateOperandValue_def Let_def fits_def enum_error_def concrete_type_defs
        IsNull_def IsBool_def IsInt_def IsString_def IsDidFormat_def split: if_splits option.splits sum.splits
        intro: exI [of _ "lo_OperandValue op"])
qed

text \<open>
  A label operation is accepted only from someone who may push to the repository, only for the
  label it names, as an addition or a deletion with a time and a subject, and only if a value that is
  not empty fits the value type of the label. An empty value turns the operation into a deletion;
  otherwise nothing is changed but a handle, which is replaced by the DID it resolves to.
\<close>

theorem ValidateLabelOp_sound:
  assumes "ValidateLabelOp env C s (Some def) (Some repo) (Some op) = Inr op'"
  shows "IsPushAllowed C s (lo_Did op) (lrp_Knot repo) (lrp_DidSlashRepo repo) = Inr True \<and>
    lo_OperandKey op' = LabelDefinition_AtUri def \<and> lo_Operation op' \<in> {LabelOperationAdd, LabelOperationDel} \<and>
    lo_Subject op' \<noteq> [] \<and> parseATURI env (lo_Subject op') = Inr () \<and> lo_PerformedAt op' \<noteq> zero_time \<and>
    (if lo_OperandValue op = [] then op' = op\<lparr>lo_Operation := LabelOperationDel\<rparr>
     else fits env (ld_ValueType def) (lo_OperandValue op) \<and>
       (\<exists>v. op' = op\<lparr>lo_OperandValue := v\<rparr> \<and>
         (v = lo_OperandValue op \<or> IsString (ld_ValueType def) \<and> IsDidFormat (ld_ValueType def) \<and>
            resolveIdent env (lo_OperandValue op) = Inr v)))"
proof -
  have op: "IsPushAllowed C s (lo_Did op) (lrp_Knot repo) (lrp_DidSlashRepo repo) = Inr True"
    "lo_OperandKey op = LabelDefinition_AtUri def" "lo_Operation op \<in> {LabelOperationAdd, LabelOperationDel}"
    "lo_Subject op \<noteq> []" "parseATURI env (lo_Subject op) = Inr ()" "lo_PerformedAt op' \<noteq> zero_time"
    and v: "validateOperandValue env def op = Inr op'"
    using assms by (auto simp: ValidateLabelOp_def Let_def split: sum.splits bool.splits if_splits)
  note vals = validateOperandValue_Inr [OF v]
  then have "lo_OperandKey op' = lo_OperandKey op" "lo_Subject op' = lo_Subject op"
    "lo_Operation op' = lo_Operation op \<or> lo_Operation op' = LabelOperationDel"
    by (auto split: if_splits)
  with op vals show ?thesis by (auto simp del: if_split)
qed

definition sample_env :: ValidatorEnv where
  "sample_env = \<lparr>parseATURI = (\<lambda>_. Inr ()), resolveIdent = (\<lambda>s. Inr (''did:plc:'' @ s)), quote_value = id\<rparr>"

definition assignee_label :: LabelDefinition where
  "assignee_label = (sample_def True)\<lparr>ld_ValueType := \<lparr>vt_Type = ''string'', vt_Format = ''did'', vt_Enum = []\<rparr>\<rparr>"

theorem ValidateLabelOp_sound_witness:
  "\<exists>op'. ValidateLabelOp sample_env list_casbin ([(''did:plc:a'', ''knot'', ''did:plc:a/r'', ''repo:push'')], [])
       (Some assignee_label) (Some \<lparr>lrp_Knot = ''knot'', lrp_DidSlashRepo = ''did:plc:a/r''\<rparr>)
       (Some (sample_op ''add'' (LabelDefinition_AtUri assignee_label) ''bob'' 5)) = Inr op' \<and>
     lo_OperandValue op' = ''did:plc:bob'' \<and> fits sample_env (ld_ValueType assignee_label) ''bob''"
proof -
  have "IsPushAllowed list_casbin ([(''did:plc:a'', ''knot'', ''did:plc:a/r'', ''repo:push'')], [])
      ''did:plc:a'' ''knot'' ''did:plc:a/r'' = Inr True"
    by (auto simp: IsPushAllowed_def list_casbin_def granted_def)
  then have v: "ValidateLabelOp sample_env list_casbin ([(''did:plc:a'', ''knot'', ''did:plc:a/r'', ''repo:push'')], [])
       (Some assignee_label) (Some \<lparr>lrp_Knot = ''knot'', lrp_DidSlashRepo = ''did:plc:a/r''\<rparr>)
       (Some (sample_op ''add'' (LabelDefinition_AtUri assignee_label) ''bob'' 5)) =
     Inr ((sample_op ''add'' (LabelDefinition_AtUri assignee_label) ''bob'' 5)\<lparr>lo_OperandValue := ''did:plc:bob''\<rparr>)"
    by (simp add: ValidateLabelOp_def validateOperandValue_def sample_env_def assignee_label_def sample_defs
        enum_error_def IsEnum_def concrete_type_defs operation_defs ValueTypeFormatDid_def zero_time_def)
  show ?thesis using ValidateLabelOp_sound [OF v] v by (simp add: sample_defs)
qed

section \<open>Accepted topics\<close>

definition topic_ok :: "string \<Rightarrow> bool" where
  "topic_ok t \<longleftrightarrow> length t \<le> maxTopicLen \<and> topicRE t"

lemma collect_topics_Inr:
  "collect_topics ts parts = Inr ts' \<longleftrightarrow>
     list_all (\<lambda>t. t \<in> set ts \<or> topic_ok t) parts \<and> ts' = foldl (\<lambda>acc t. if t \<in> set acc then acc else acc @ [t]) ts parts"
proof (induction parts arbitrary: ts)
  case (Cons t parts)
  consider "t \<in> set ts" | "t \<notin> set ts" "\<not> topic_ok t" | "t \<notin> set ts" "topic_ok t" by blast
  then show ?case
  proof cases
    case 3
    then have "(\<lambda>x. x \<in> set (ts @ [t]) \<or> topic_ok x) = (\<lambda>x. x \<in> set ts \<or> topic_ok x)" by auto
    moreover from 3 have "collect_topics ts (t # parts) = collect_topics (ts @ [t]) parts"
      by (simp add: topic_ok_def)
    ultimately show ?thesis using 3 Cons.IH [of "ts @ [t]"] by simp
  next
    case 2
    then show ?thesis by (simp add: topic_ok_def)
  next
    case 1
    then show ?thesis using Cons.IH [of ts] by simp
  qed
qed auto

lemma insert_fold:
  "distinct acc \<Longrightarrow> distinct (foldl (\<lambda>acc t. if t \<in> set acc then acc else acc @ [t]) acc ts) \<and>
     set (foldl (\<lambda>acc t. if t \<in> set acc then acc else acc @ [t]) acc ts) = set acc \<union> set ts"
  by (induction ts arbitrary: acc) auto

lemma insert_fold_distinct:
  "distinct (acc @ ts) \<Longrightarrow> foldl (\<lambda>acc t. if t \<in> set acc then acc else acc @ [t]) acc ts = acc @ ts"
  by (induction ts arbitrary: acc) auto

lemma topic_char: "topicRE t \<Longrightarrow> c \<in> set t \<Longrightarrow> \<forall>w \<in> set space_runes. c \<notin> set w"
  by (auto simp: topicRE_def list_all_iff Let_def space_runes_def)

lemma fields_loop_plain:
  "\<forall>c \<in> set t. \<forall>w \<in> set space_runes. c \<notin> set w \<Longrightarrow> fields_loop cur (t @ s) = fields_loop (rev t @ cur) s"
proof (induction t arbitrary: cur)
  case (Cons c t)
  then have "find (\<lambda>w. w \<noteq> [] \<and> hasPrefix (c # t @ s) w) space_runes = None"
    by (auto simp: find_None_iff hasPrefix_iff) (metis append_eq_Cons_conv list.set_intros(1) )
  with Cons show ?case by simp
qed simp

lemma fields_loop_space: "fields_loop cur (CHR '' '' # s) = flush cur @ fields_loop [] s"
  by (simp add: space_runes_def hasPrefix_def)

lemma fields_loop_topics:
  "list_all topicRE ts \<Longrightarrow> fields_loop [] (joinWith '' '' ts) = ts"
proof (induction ts)
  case (Cons t ts)
  then have t: "\<forall>c \<in> set t. \<forall>w \<in> set space_runes. c \<notin> set w" "t \<noteq> []"
    using topic_char by (auto simp: topicRE_def)
  show ?case
  proof (cases "ts = []")
    case True
    with fields_loop_plain [OF t(1), of "[]" "[]"] t(2) show ?thesis by (simp add: flush_def)
  next
    case False
    with fields_loop_plain [OF t(1), of "[]"] t(2) Cons show ?thesis
      by (simp add: joinWith_Cons fields_loop_space flush_def del: fields_loop.simps(2))
  qed
qed (simp add: flush_def)

lemma joinWith_ends:
  "list_all (\<lambda>t. t \<noteq> []) ts \<Longrightarrow> ts \<noteq> [] \<Longrightarrow>
     joinWith sep ts \<noteq> [] \<and> hd (joinWith sep ts) = hd (hd ts) \<and> last (joinWith sep ts) = last (last ts)"
  by (induction sep ts rule: joinWith.induct) auto

lemma strip_any_plain: "\<forall>w \<in> set ws. c \<notin> set w \<Longrightarrow> strip_any ws (c # s) = c # s"
  using strip_any_stops [of ws c "[]" s] strip_any_suffix [of "c # s" ws]
  by (metis append_Nil append_eq_append_conv length_append add_le_same_cancel1 le_zero_eq length_0_conv
      append.assoc append_is_Nil_conv self_append_conv2)

lemma trimSpace_plain:
  assumes "\<forall>w \<in> set space_runes. hd s \<notin> set w \<and> last s \<notin> set w"
  shows "trimSpace s = s"
proof (cases s)
  case (Cons c a)
  then have l: "rev s = last s # rev (butlast s)" by (metis append_butlast_last_id list.distinct(1) rev_eq_Cons_iff rev_rev_ident)
  have "strip_any space_runes s = s" using assms Cons strip_any_plain [of space_runes c a] by simp
  moreover have "strip_any (map rev space_runes) (rev s) = rev s"
    unfolding l by (rule strip_any_plain) (use assms in auto)
  ultimately show ?thesis by (simp add: trimSpace_def)
qed (simp add: trimSpace_def strip_any.simps find_None_iff hasPrefix_def space_runes_def)

lemma trimSpace_topics:
  assumes "list_all topicRE ts"
  shows "trimSpace (joinWith '' '' ts) = joinWith '' '' ts"
proof (cases "ts = []")
  case False
  with assms have t: "topicRE (hd ts)" "topicRE (last ts)" by (simp_all add: list_all_iff)
  then have "hd (hd ts) \<in> set (hd ts)" "last (last ts) \<in> set (last ts)" by (simp_all add: topicRE_def)
  with t have "\<forall>w \<in> set space_runes. hd (hd ts) \<notin> set w \<and> last (last ts) \<notin> set w" using topic_char by blast
  moreover have "list_all (\<lambda>t. t \<noteq> []) ts" using assms by (auto simp: list_all_iff topicRE_def)
  ultimately show ?thesis using joinWith_ends [of ts "'' ''"] False by (intro trimSpace_plain) simp
qed (use trimSpace_infix [of "[]"] in simp)

lemma Fields_trim_topics: "list_all topicRE ts \<Longrightarrow> Fields (trimSpace (joinWith '' '' ts)) = ts"
  by (simp add: Fields_def trimSpace_topics fields_loop_topics)

lemma ValidateRepoTopicStr_Inr:
  "ValidateRepoTopicStr order s = Inr ts \<longleftrightarrow>
     length (Fields (trimSpace s)) \<le> maxTopics \<and> list_all topic_ok (Fields (trimSpace s)) \<and>
     ts = (if trimSpace s = [] then [] else
       order (foldl (\<lambda>acc t. if t \<in> set acc then acc else acc @ [t]) [] (Fields (trimSpace s))))"
proof (cases "trimSpace s = []")
  case True
  then show ?thesis by (auto simp: ValidateRepoTopicStr_def Fields_def flush_def)
next
  case False
  have "map_sum id order x = Inr ts \<longleftrightarrow> (\<exists>y. x = Inr y \<and> ts = order y)" for x :: "string + string list"
    by (cases x) auto
  with False show ?thesis
    by (simp add: ValidateRepoTopicStr_def Let_def collect_topics_Inr not_less)
qed

text \<open>
  The topics of a repository: a string is accepted exactly if it has at most 20 words, each of at
  most 50 lower-case letters, digits and hyphens; the result holds each of the words once, in
  whatever order the keys of a Go map come; and the result written out with spaces is accepted
  again and gives the same topics.
\<close>

theorem ValidateRepoTopicStr_correct:
  assumes order: "\<And>xs. distinct xs \<Longrightarrow> distinct (order xs) \<and> set (order xs) = set xs"
  shows "((\<exists>ts. ValidateRepoTopicStr order s = Inr ts) \<longleftrightarrow>
      length (Fields (trimSpace s)) \<le> 20 \<and> list_all (\<lambda>t. length t \<le> 50 \<and> topicRE t) (Fields (trimSpace s))) \<and>
    (ValidateRepoTopicStr order s = Inr ts \<longrightarrow>
      distinct ts \<and> length ts \<le> 20 \<and> set ts = set (Fields (trimSpace s)) \<and>
      (\<exists>ts'. ValidateRepoTopicStr order (joinWith '' '' ts) = Inr ts' \<and> distinct ts' \<and> set ts' = set ts))"
proof -
  let ?F = "Fields (trimSpace s)"
  have ok: "topic_ok = (\<lambda>t. length t \<le> 50 \<and> topicRE t)" by (simp add: topic_ok_def maxTopicLen_def fun_eq_iff)
  have "distinct ts \<and> length ts \<le> 20 \<and> set ts = set ?F \<and>
      (\<exists>ts'. ValidateRepoTopicStr order (joinWith '' '' ts) = Inr ts' \<and> distinct ts' \<and> set ts' = set ts)"
    if v: "ValidateRepoTopicStr order s = Inr ts"
  proof -
    have e: "trimSpace s = [] \<Longrightarrow> ?F = []" by (simp add: Fields_def flush_def)
    from v have F: "length ?F \<le> 20" "list_all topic_ok ?F" by (simp_all add: ValidateRepoTopicStr_Inr maxTopics_def)
    have ts: "distinct ts \<and> set ts = set ?F"
      using v e insert_fold [of "[]" ?F] order by (auto simp: ValidateRepoTopicStr_Inr split: if_splits)
    then have len: "length ts \<le> 20"
      using F(1) card_length [of ?F] by (metis distinct_card le_trans)
    have "list_all topic_ok ts" "list_all topicRE ts" using F(2) ts by (auto simp: list_all_iff topic_ok_def)
    then have "ValidateRepoTopicStr order (joinWith '' '' ts) = Inr (if trimSpace (joinWith '' '' ts) = [] then [] else order ts)"
      using len ts insert_fold_distinct [of "[]" ts] Fields_trim_topics
      by (simp add: ValidateRepoTopicStr_Inr maxTopics_def)
    moreover have "trimSpace (joinWith '' '' ts) = [] \<Longrightarrow> ts = []"
      using Fields_trim_topics [OF \<open>list_all topicRE ts\<close>] by (simp add: Fields_def flush_def)
    ultimately show ?thesis using ts len order [of ts] by auto
  qed
  then show ?thesis by (simp add: ValidateRepoTopicStr_Inr ok maxTopics_def)
qed

theorem ValidateRepoTopicStr_correct_witness:
  "ValidateRepoTopicStr rev ''go git  go '' = Inr [''git'', ''go''] \<and> distinct [''git'', ''go''] \<and>
   (\<exists>ts'. ValidateRepoTopicStr rev (joinWith '' '' [''git'', ''go'']) = Inr ts' \<and> set ts' = {''git'', ''go''})"
proof -
  have v: "ValidateRepoTopicStr rev ''go git  go '' = Inr [''git'', ''go'']" by code_simp
  have "distinct [''git'', ''go''] \<and> length [''git'', ''go''] \<le> 20 \<and>
      set [''git'', ''go''] = set (Fields (trimSpace ''go git  go '')) \<and>
      (\<exists>ts'. ValidateRepoTopicStr rev (joinWith '' '' [''git'', ''go'']) = Inr ts' \<and> distinct ts' \<and>
        set ts' = set [''git'', ''go''])"
    by (rule conjunct2 [OF ValidateRepoTopicStr_correct, THEN mp, OF _ v]) simp
  moreover have "set [''git'', ''go''] = {''git'', ''go''}" by simp
  ultimately show ?thesis using v by metis
qed

end
