(* ===== verification/Pull_Store.thy ===== *)
theory Pull_Store
  imports Pulls Validators
begin

text \<open>
  Pull requests in the database and the handlers that change them: \<^verbatim>\<open>appview/db/pulls.go\<close> and the state
  changes, stacks and resubmissions of \<^verbatim>\<open>appview/pulls/pulls.go\<close>.

  The tables are a list of pulls with their submissions and the counter of numbers per repository; a
  statement fails exactly where it breaks a unique constraint. A handler returns the outcome shown to the
  user and the state afterwards; a transaction that is not committed leaves the tables as they were.
  The records of the user's personal data server are the writes sent to it. Whether the calls
  to other services succeed is given by \<open>PdsEnv\<close>.
\<close>

section \<open>Tables\<close>

record PullDb =
  pd_pulls :: "Pull list"
  pd_seqs :: "string \<rightharpoonup> int"

text \<open>
  The tables set the times of creation themselves and have no place for mentions, so these are gone when a pull
  is read back. The first submission is the one stored; every caller has one, otherwise the code panics.
\<close>

definition Db_NewPull :: "Time \<Rightarrow> PullDb \<Rightarrow> Pull \<Rightarrow> (PullDb \<times> Pull) option" where
  "Db_NewPull now db pull =
     (let nextId = (case pd_seqs db (pl_RepoAt pull) of None \<Rightarrow> 1 | Some n \<Rightarrow> n);
          pull' = pull\<lparr>pl_PullId := nextId, pl_State := PullOpen\<rparr>;
          row = pull'\<lparr>pl_Submissions := map (\<lambda>s. s\<lparr>sb_PullAt := Pull_AtUri pull, sb_RoundNumber := 0, sb_Created := now\<rparr>)
                    (take 1 (pl_Submissions pull)), pl_Mentions := [], pl_Created := now\<rparr>
      in if \<exists>p \<in> set (pd_pulls db). Pull_AtUri p = Pull_AtUri pull \<or> pl_RepoAt p = pl_RepoAt pull \<and> pl_PullId p = nextId
         then None
         else Some (\<lparr>pd_pulls = pd_pulls db @ [row], pd_seqs = (pd_seqs db)(pl_RepoAt pull \<mapsto> nextId + 1)\<rparr>, pull'))"

definition NextPullId :: "PullDb \<Rightarrow> string \<Rightarrow> int option" where
  "NextPullId db repoAt = map_option (\<lambda>n. n - 1) (pd_seqs db repoAt)"

definition update_pulls :: "(Pull \<Rightarrow> bool) \<Rightarrow> (Pull \<Rightarrow> Pull) \<Rightarrow> PullDb \<Rightarrow> PullDb" where
  "update_pulls P f db = db\<lparr>pd_pulls := map (\<lambda>p. if P p then f p else p) (pd_pulls db)\<rparr>"

definition SetPullState :: "PullDb \<Rightarrow> string \<Rightarrow> int \<Rightarrow> PullState \<Rightarrow> PullDb" where
  "SetPullState db repoAt pullId pullState =
     update_pulls (\<lambda>p. pl_RepoAt p = repoAt \<and> pl_PullId p = pullId \<and> (pl_State p \<noteq> PullDeleted \<or> pl_State p \<noteq> PullMerged))
       (\<lambda>p. p\<lparr>pl_State := pullState\<rparr>) db"

definition Db_ClosePull :: "PullDb \<Rightarrow> string \<Rightarrow> int \<Rightarrow> PullDb" where
  "Db_ClosePull db repoAt pullId = SetPullState db repoAt pullId PullClosed"
definition Db_ReopenPull :: "PullDb \<Rightarrow> string \<Rightarrow> int \<Rightarrow> PullDb" where
  "Db_ReopenPull db repoAt pullId = SetPullState db repoAt pullId PullOpen"
definition Db_MergePull :: "PullDb \<Rightarrow> string \<Rightarrow> int \<Rightarrow> PullDb" where
  "Db_MergePull db repoAt pullId = SetPullState db repoAt pullId PullMerged"
definition Db_DeletePull :: "PullDb \<Rightarrow> string \<Rightarrow> int \<Rightarrow> PullDb" where
  "Db_DeletePull db repoAt pullId = SetPullState db repoAt pullId PullDeleted"

text \<open>A round number is unique for a pull; a submission needs its pull. \<open>now\<close> is the time of creation.\<close>

definition Db_ResubmitPull :: "Time \<Rightarrow> PullDb \<Rightarrow> string \<Rightarrow> int \<Rightarrow> string \<Rightarrow> string \<Rightarrow> string \<Rightarrow> PullDb option" where
  "Db_ResubmitPull now db pullAt newRoundNumber newPatch combinedPatch newSourceRev =
     (case find (\<lambda>p. Pull_AtUri p = pullAt) (pd_pulls db) of
        None \<Rightarrow> None
      | Some p \<Rightarrow>
          if newRoundNumber \<in> sb_RoundNumber ` set (pl_Submissions p) then None
          else Some (update_pulls (\<lambda>p. Pull_AtUri p = pullAt)
            (\<lambda>p. p\<lparr>pl_Submissions := pl_Submissions p @
               [\<lparr>sb_PullAt = pullAt, sb_RoundNumber = newRoundNumber, sb_Patch = newPatch, sb_Combined = combinedPatch,
                 sb_Comments = [], sb_SourceRev = newSourceRev, sb_Created = now\<rparr>]\<rparr>) db))"

definition SetPullParentChangeId :: "PullDb \<Rightarrow> string \<Rightarrow> string \<Rightarrow> string \<Rightarrow> string \<Rightarrow> PullDb" where
  "SetPullParentChangeId db parentChangeId repoAt ownerDid changeId =
     update_pulls (\<lambda>p. pl_RepoAt p = repoAt \<and> pl_OwnerDid p = ownerDid \<and> pl_ChangeId p = changeId)
       (\<lambda>p. p\<lparr>pl_ParentChangeId := parentChangeId\<rparr>) db"

record PullCount =
  pcn_Open :: nat
  pcn_Merged :: nat
  pcn_Closed :: nat
  pcn_Deleted :: nat

definition GetPullCount :: "PullDb \<Rightarrow> string \<Rightarrow> PullCount" where
  "GetPullCount db repoAt =
     (let n = (\<lambda>st. length (filter (\<lambda>p. pl_State p = st \<and> pl_RepoAt p = repoAt) (pd_pulls db)))
      in \<lparr>pcn_Open = n PullOpen, pcn_Merged = n PullMerged, pcn_Closed = n PullClosed, pcn_Deleted = n PullDeleted\<rparr>)"

text \<open>
  The pulls that pass a filter, the one with the highest number first; pulls of different repositories may
  have the same number and come in any order, so the order is an argument. The submissions of a
  pull are kept in the order of their rounds.
\<close>

definition GetPulls :: "(Pull list \<Rightarrow> Pull list) \<Rightarrow> (Pull \<Rightarrow> bool) \<Rightarrow> PullDb \<Rightarrow> Pull list" where
  "GetPulls order_by flt db =
     order_by (map (\<lambda>p. p\<lparr>pl_Submissions := sort_key sb_RoundNumber (pl_Submissions p)\<rparr>) (filter flt (pd_pulls db)))"

datatype go_error = Panic | Err string

text \<open>The walk from the top of a stack to its bottom. It need not end: then the value is \<open>None\<close>.\<close>

partial_function (option) stack_loop :: "(string \<rightharpoonup> Pull) \<Rightarrow> Pull \<Rightarrow> (go_error, Stack) result option" where
  "stack_loop changeIdMap topPull =
     (if pl_ParentChangeId topPull \<noteq> [] then
        (case changeIdMap (pl_ParentChangeId topPull) of
           None \<Rightarrow> Some (Inl (Err ''failed to find parent pull request, stack is malformed''))
         | Some nxt \<Rightarrow>
             Option.bind (stack_loop changeIdMap nxt) (\<lambda>r. Some (map_sum id ((#) topPull) r)))
      else Some (Inr [topPull]))"

definition change_map :: "Pull list \<Rightarrow> (string \<rightharpoonup> Pull)" where
  "change_map unorderedPulls = map_of (rev (map (\<lambda>p. (pl_ChangeId p, p)) unorderedPulls))"

definition GetStack :: "(Pull list \<Rightarrow> Pull list) \<Rightarrow> PullDb \<Rightarrow> string \<Rightarrow> (go_error, Stack) result option" where
  "GetStack order_by db stackId =
     (let unorderedPulls = GetPulls order_by (\<lambda>p. pl_StackId p = stackId \<and> pl_State p \<noteq> PullDeleted) db;
          parents = filter (\<lambda>c. c \<noteq> []) (map pl_ParentChangeId unorderedPulls)
      in case find (\<lambda>p. pl_ChangeId p \<notin> set parents) unorderedPulls of
           None \<Rightarrow> Some (Inl Panic)
         | Some topPull \<Rightarrow> stack_loop (change_map unorderedPulls) topPull)"

definition GetAbandonedPulls :: "(Pull list \<Rightarrow> Pull list) \<Rightarrow> PullDb \<Rightarrow> string \<Rightarrow> Pull list" where
  "GetAbandonedPulls order_by db stackId = GetPulls order_by (\<lambda>p. pl_StackId p = stackId \<and> pl_State p = PullDeleted) db"

section \<open>Closing, reopening and merging\<close>

record RepoInfo =
  ri_RepoAt :: string
  ri_Knot :: string
  ri_DidSlashRepo :: string

definition IsOwner :: "string list \<Rightarrow> bool" where "IsOwner roles \<longleftrightarrow> ''repo:owner'' \<in> set roles"
definition IsCollaborator :: "string list \<Rightarrow> bool" where "IsCollaborator roles \<longleftrightarrow> ''repo:collaborator'' \<in> set roles"

definition isCloseAllowed :: "('s, 'e) Casbin \<Rightarrow> 's \<Rightarrow> RepoInfo \<Rightarrow> string \<Rightarrow> Pull \<Rightarrow> bool" where
  "isCloseAllowed C s f did pull \<longleftrightarrow>
     (let roles = GetPermissionsInRepo C s did (ri_Knot f) (ri_DidSlashRepo f)
      in IsOwner roles \<or> IsCollaborator roles \<or> did = pl_OwnerDid pull)"

definition pulls_to_close :: "Stack \<Rightarrow> Pull \<Rightarrow> Pull list" where
  "pulls_to_close stack pull = pull # (if IsStacked pull then StrictlyBelow stack pull else [])"

definition pulls_to_reopen :: "Stack \<Rightarrow> Pull \<Rightarrow> Pull list" where
  "pulls_to_reopen stack pull = pull # (if IsStacked pull then StrictlyAbove stack pull else [])"

definition pulls_to_merge :: "Stack \<Rightarrow> Pull \<Rightarrow> Pull list" where
  "pulls_to_merge stack pull = pull # (if IsStacked pull then Mergeable (StrictlyBelow stack pull) else [])"

text \<open>\<open>committed\<close> says whether the transaction begins and commits. The pulls returned are those notified about.\<close>

definition ClosePull ::
  "('s, 'e) Casbin \<Rightarrow> 's \<Rightarrow> RepoInfo \<Rightarrow> string \<Rightarrow> Stack \<Rightarrow> Pull \<Rightarrow> bool \<Rightarrow> PullDb \<Rightarrow> PullDb \<times> Pull list" where
  "ClosePull C s f did stack pull committed db =
     (if \<not> isCloseAllowed C s f did pull \<or> \<not> committed then (db, [])
      else (foldl (\<lambda>db p. Db_ClosePull db (ri_RepoAt f) (pl_PullId p)) db (pulls_to_close stack pull),
            map (\<lambda>p. p\<lparr>pl_State := PullClosed\<rparr>) (pulls_to_close stack pull)))"

definition ReopenPull ::
  "('s, 'e) Casbin \<Rightarrow> 's \<Rightarrow> RepoInfo \<Rightarrow> string \<Rightarrow> Stack \<Rightarrow> Pull \<Rightarrow> bool \<Rightarrow> PullDb \<Rightarrow> PullDb \<times> Pull list" where
  "ReopenPull C s f did stack pull committed db =
     (if \<not> isCloseAllowed C s f did pull \<or> \<not> committed then (db, [])
      else (foldl (\<lambda>db p. Db_ReopenPull db (ri_RepoAt f) (pl_PullId p)) db (pulls_to_reopen stack pull),
            map (\<lambda>p. p\<lparr>pl_State := PullOpen\<rparr>) (pulls_to_reopen stack pull)))"

text \<open>\<open>merge\<close> is the call to the knot with the combined patch: \<open>True\<close> if it merged.\<close>

definition MergePull ::
  "(string \<Rightarrow> bool) \<Rightarrow> RepoInfo \<Rightarrow> Stack \<Rightarrow> Pull \<Rightarrow> bool \<Rightarrow> PullDb \<Rightarrow> (PullDb \<times> Pull list) option" where
  "MergePull merge f stack pull committed db =
     (case Stack_CombinedPatch (pulls_to_merge stack pull) of
        None \<Rightarrow> None
      | Some patch \<Rightarrow>
          Some (if \<not> merge patch \<or> \<not> committed then (db, [])
            else (foldl (\<lambda>db p. Db_MergePull db (ri_RepoAt f) (pl_PullId p)) db (pulls_to_merge stack pull),
                  map (\<lambda>p. p\<lparr>pl_State := PullMerged\<rparr>) (pulls_to_merge stack pull))))"

section \<open>Stacks from patches\<close>

text \<open>
  \<open>np_title\<close>, \<open>np_body\<close> and \<open>np_sha\<close> read the header of a patch, \<open>np_mentions\<close> is the resolver of
  mentions and references, \<open>np_rkey\<close> the clock of record keys. A notice ends with the text of the error that
  caused it; of the error of \<^verbatim>\<open>ExtractPatches\<close> this text is left out.
\<close>

record NewPullEnv =
  np_title :: "FormatPatch \<Rightarrow> string"
  np_body :: "FormatPatch \<Rightarrow> string"
  np_sha :: "FormatPatch \<Rightarrow> string"
  np_mentions :: "string \<Rightarrow> string list \<times> string list"
  np_rkey :: "nat \<Rightarrow> string"
  np_now :: Time

definition initial_pull ::
  "NewPullEnv \<Rightarrow> string \<Rightarrow> string \<Rightarrow> string \<Rightarrow> PullSource option \<Rightarrow> string \<Rightarrow> nat \<Rightarrow> string \<Rightarrow> string \<Rightarrow> FormatPatch \<Rightarrow> Pull" where
  "initial_pull E repoAt did targetBranch pullSource stackId i changeId parentChangeId fp =
     \<lparr>pl_PullId = 0, pl_RepoAt = repoAt, pl_RepoAt_addr = 0, pl_OwnerDid = did, pl_Rkey = np_rkey E i, pl_Title = np_title E fp,
      pl_Body = np_body E fp, pl_TargetBranch = targetBranch, pl_State = PullClosed,
      pl_Submissions = [\<lparr>sb_PullAt = [], sb_RoundNumber = 0, sb_Patch = fp_Raw fp, sb_Combined = fp_Raw fp, sb_Comments = [],
                          sb_SourceRev = np_sha E fp, sb_Created = zero_time\<rparr>],
      pl_Mentions = fst (np_mentions E (np_body E fp)), pl_References = snd (np_mentions E (np_body E fp)),
      pl_StackId = stackId, pl_ChangeId = changeId, pl_ParentChangeId = parentChangeId, pl_Created = np_now E,
      pl_PullSource = pullSource\<rparr>"

fun build_stack ::
  "NewPullEnv \<Rightarrow> string \<Rightarrow> string \<Rightarrow> string \<Rightarrow> PullSource option \<Rightarrow> string \<Rightarrow> nat \<Rightarrow> string \<Rightarrow> FormatPatch list \<Rightarrow> (string, Stack) result" where
  "build_stack E repoAt did targetBranch pullSource stackId i parentChangeId [] = Inr []"
| "build_stack E repoAt did targetBranch pullSource stackId i parentChangeId (fp # fps) =
     (case ChangeId fp of
        None \<Rightarrow> Inl ''Stacking is only supported if all patches contain a change-id commit header.''
      | Some changeId \<Rightarrow>
          map_sum id ((#) (initial_pull E repoAt did targetBranch pullSource stackId i changeId parentChangeId fp))
            (build_stack E repoAt did targetBranch pullSource stackId (Suc i) changeId fps))"

definition newStack ::
  "'e PatchEnv \<Rightarrow> NewPullEnv \<Rightarrow> string \<Rightarrow> string \<Rightarrow> string \<Rightarrow> string \<Rightarrow> PullSource option \<Rightarrow> string \<Rightarrow> (string, Stack) result" where
  "newStack penv E repoAt did targetBranch patch pullSource stackId =
     (case ExtractPatches penv patch of
        Inl e \<Rightarrow> Inl ''Failed to extract patches''
      | Inr formatPatches \<Rightarrow>
          if formatPatches = [] then Inl ''No patches found in the generated format-patch.''
          else build_stack E repoAt did targetBranch pullSource stackId 0 [] formatPatches)"

section \<open>Creating and resubmitting\<close>

text \<open>A write to the personal data server: the record and the patch uploaded with it.\<close>

datatype PdsWrite = PdsCreate string PullRecord string | PdsUpdate string PullRecord string | PdsDelete string

record PdsEnv =
  pe_client :: bool
  pe_upload :: bool
  pe_apply :: bool
  pe_commit :: bool
  pe_format :: "Time \<Rightarrow> string"

record PullsState =
  pst_db :: PullDb
  pst_pds :: "PdsWrite list"

datatype outcome = Notice string | Location | Crash

fun new_pulls :: "Time \<Rightarrow> PullDb \<Rightarrow> Pull list \<Rightarrow> (PullDb \<times> Pull list) option" where
  "new_pulls now db [] = Some (db, [])"
| "new_pulls now db (p # ps) =
     (case Db_NewPull now db p of
        None \<Rightarrow> None
      | Some (db1, p') \<Rightarrow> map_option (\<lambda>(db2, ps'). (db2, p' # ps')) (new_pulls now db1 ps))"

text \<open>The record of a pull with its patch; without a submission the code panics.\<close>

definition create_write :: "PdsEnv \<Rightarrow> Pull \<Rightarrow> string option \<Rightarrow> PdsWrite option" where
  "create_write P p patch =
     (case (Pull_AsRecord (pe_format P) p, patch) of
        (Some rec, Some blob) \<Rightarrow> Some (PdsCreate (pl_Rkey p) rec blob)
      | _ \<Rightarrow> None)"

definition createStackedPullRequest ::
  "'e PatchEnv \<Rightarrow> NewPullEnv \<Rightarrow> PdsEnv \<Rightarrow> string \<Rightarrow> string \<Rightarrow> string \<Rightarrow> string \<Rightarrow> string \<Rightarrow> PullSource option \<Rightarrow> string \<Rightarrow>
   PullsState \<Rightarrow> outcome \<times> PullsState" where
  "createStackedPullRequest penv E P repoAt did targetBranch patch sourceRev pullSource stackId st =
     (if sourceRev = [] then (Notice ''Stacking is only supported on branch and fork based pull-requests.'', st)
      else case newStack penv E repoAt did targetBranch patch pullSource stackId of
             Inl e \<Rightarrow> (Notice (''Failed to create stack: '' @ e), st)
           | Inr stack \<Rightarrow>
               if \<not> pe_client P \<or> \<not> pe_upload P then (Notice ''Failed to create pull request. Try again later.'', st)
               else
                 (case those (map (\<lambda>p. create_write P p (LatestPatch p)) stack) of
                    None \<Rightarrow> (Crash, st)
                  | Some writes \<Rightarrow>
                      if \<not> pe_apply P then (Notice ''Failed to create stacked pull request. Try again later.'', st)
                      else
                        let st1 = st\<lparr>pst_pds := pst_pds st @ writes\<rparr>
                        in (case new_pulls (np_now E) (pst_db st) stack of
                              None \<Rightarrow> (Notice ''Failed to create pull request. Try again later.'', st1)
                            | Some (db', _) \<Rightarrow>
                                if \<not> pe_commit P then (Notice ''Failed to create pull request. Try again later.'', st1)
                                else (Location, st1\<lparr>pst_db := db'\<rparr>))))"

text \<open>
  The pulls of the two stacks by change; of pulls with the same change the last one counts. \<open>iter\<close> is the
  order in which the keys of a Go map come.
\<close>

definition deletions :: "(string list \<Rightarrow> string list) \<Rightarrow> Stack \<Rightarrow> Stack \<Rightarrow> Pull list" where
  "deletions iter origStack new =
     map (\<lambda>c. the (change_map origStack c)) (iter (filter (\<lambda>c. change_map new c = None) (remdups (map pl_ChangeId origStack))))"

definition additions :: "(string list \<Rightarrow> string list) \<Rightarrow> Stack \<Rightarrow> Stack \<Rightarrow> Pull list" where
  "additions iter origStack new =
     map (\<lambda>c. the (change_map new c)) (iter (filter (\<lambda>c. change_map origStack c = None) (remdups (map pl_ChangeId new))))"

definition updated :: "(string list \<Rightarrow> string list) \<Rightarrow> Stack \<Rightarrow> Stack \<Rightarrow> (Pull \<times> Pull) list" where
  "updated iter origStack new =
     map (\<lambda>c. (the (change_map origStack c), the (change_map new c)))
       (iter (filter (\<lambda>c. change_map origStack c \<noteq> None) (remdups (map pl_ChangeId new))))"

text \<open>Merged pulls are skipped; a panic of the code is \<open>Inl\<close> of \<open>Panic\<close>.\<close>

fun resubmit_all :: "Time \<Rightarrow> PullDb \<Rightarrow> (Pull \<times> Pull) list \<Rightarrow> (go_error, PullDb) result" where
  "resubmit_all now db [] = Inr db"
| "resubmit_all now db ((op, np) # ps) =
     (if pl_State op = PullMerged then resubmit_all now db ps
      else case LatestSubmission np of
             None \<Rightarrow> Inl Panic
           | Some sub \<Rightarrow>
               (case Db_ResubmitPull now db (Pull_AtUri op) (int (length (pl_Submissions op))) (sb_Patch sub) (sb_Combined sub)
                       (sb_SourceRev sub) of
                  None \<Rightarrow> Inl (Err ''Failed to resubmit pull request. Try again later.'')
                | Some db' \<Rightarrow> resubmit_all now db' ps))"

definition stack_writes :: "(string list \<Rightarrow> string list) \<Rightarrow> PdsEnv \<Rightarrow> string \<Rightarrow> Stack \<Rightarrow> Stack \<Rightarrow> PdsWrite list option" where
  "stack_writes iter P patch origStack new =
     those
       (map (\<lambda>p. Some (PdsDelete (pl_Rkey p))) (filter (\<lambda>p. pl_State p \<noteq> PullMerged) (deletions iter origStack new)) @
        map (\<lambda>p. map_option (\<lambda>rec. PdsCreate (pl_Rkey p) rec patch) (Pull_AsRecord (pe_format P) p)) (additions iter origStack new) @
        map (\<lambda>(op, np). map_option (\<lambda>rec. PdsUpdate (pl_Rkey op) rec patch) (Pull_AsRecord (pe_format P) np))
          (filter (\<lambda>(op, np). pl_State op \<noteq> PullMerged) (updated iter origStack new)))"

definition resubmit_db :: "(string list \<Rightarrow> string list) \<Rightarrow> Time \<Rightarrow> PullDb \<Rightarrow> Stack \<Rightarrow> Stack \<Rightarrow> (go_error, PullDb) result" where
  "resubmit_db iter now db origStack new =
     (let db1 = foldl (\<lambda>db p. Db_DeletePull db (pl_RepoAt p) (pl_PullId p)) db
                  (filter (\<lambda>p. pl_State p \<noteq> PullMerged) (deletions iter origStack new))
      in case new_pulls now db1 (additions iter origStack new) of
           None \<Rightarrow> Inl (Err ''Failed to resubmit pull request. Try again later.'')
         | Some (db2, _) \<Rightarrow>
             map_sum id
               (\<lambda>db3. foldl (\<lambda>db p. SetPullParentChangeId db (pl_ParentChangeId p) (pl_RepoAt p) (pl_OwnerDid p) (pl_ChangeId p)) db3 new)
               (resubmit_all now db2 (updated iter origStack new)))"

definition resubmitStackedPullHelper ::
  "(string list \<Rightarrow> string list) \<Rightarrow> 'e PatchEnv \<Rightarrow> NewPullEnv \<Rightarrow> PdsEnv \<Rightarrow> string \<Rightarrow> string \<Rightarrow> Pull \<Rightarrow> string \<Rightarrow> string \<Rightarrow> Stack \<Rightarrow> PullsState \<Rightarrow> outcome \<times> PullsState" where
  "resubmitStackedPullHelper iter penv E P repoAt did pull patch stackId origStack st =
     (case newStack penv E repoAt did (pl_TargetBranch pull) patch (pl_PullSource pull) stackId of
        Inl e \<Rightarrow> (Notice ''Failed to merge pull request. Try again later.'', st)
      | Inr new \<Rightarrow>
          if \<not> pe_client P then (Notice ''Failed to create pull request. Try again later.'', st)
          else
            (case resubmit_db iter (np_now E) (pst_db st) origStack new of
               Inl Panic \<Rightarrow> (Crash, st)
             | Inl (Err e) \<Rightarrow> (Notice e, st)
             | Inr db' \<Rightarrow>
                 if \<not> pe_upload P \<and> (additions iter origStack new \<noteq> [] \<or>
                       filter (\<lambda>(op, np). pl_State op \<noteq> PullMerged) (updated iter origStack new) \<noteq> [])
                 then (Notice ''Failed to update pull request on the PDS. Try again later.'', st)
                 else
                   (case stack_writes iter P patch origStack new of
                      None \<Rightarrow> (Crash, st)
                    | Some writes \<Rightarrow>
                        if \<not> pe_commit P then (Notice ''Failed to resubmit pull request. Try again later.'', st)
                        else if \<not> pe_apply P then
                          (Notice ''Failed to create stacked pull request. Try again later.'', st\<lparr>pst_db := db'\<rparr>)
                        else (Location, st\<lparr>pst_db := db', pst_pds := pst_pds st @ writes\<rparr>))))"

text \<open>
  A pull that is no stack. The record on the server must exist (\<open>found\<close>); the record of a pull without a
  source has none, and writing the revision into it panics.
\<close>

definition resubmitPullHelper ::
  "'e PatchEnv \<Rightarrow> NewPullEnv \<Rightarrow> PdsEnv \<Rightarrow> bool \<Rightarrow> ('e patch_validation \<Rightarrow> string) \<Rightarrow> Pull \<Rightarrow> string \<Rightarrow> string \<Rightarrow> string \<Rightarrow> PullsState \<Rightarrow>
   outcome \<times> PullsState" where
  "resubmitPullHelper penv E P found message pull patch combined sourceRev st =
     (case ValidatePatch penv (Some patch) of
        Inl e \<Rightarrow> (Notice (message e), st)
      | Inr patch' \<Rightarrow>
          (case LatestSubmission pull of
             None \<Rightarrow> (Crash, st)
           | Some latest \<Rightarrow>
               if patch' = sb_Patch latest then (Notice ''Patch is identical to previous submission.'', st)
               else if (IsBranchBased pull \<or> IsForkBased pull) \<and> sourceRev = sb_SourceRev latest then
                 (Notice ''This branch has not changed since the last submission.'', st)
               else
                 (case Db_ResubmitPull (np_now E) (pst_db st) (Pull_AtUri pull) (int (length (pl_Submissions pull))) patch' combined sourceRev of
                    None \<Rightarrow> (Notice ''Failed to create pull request. Try again later.'', st)
                  | Some db' \<Rightarrow>
                      if \<not> pe_client P then (Notice ''Failed to create pull request. Try again later.'', st)
                      else if \<not> found then (Notice ''Failed to update pull, no record found on PDS.'', st)
                      else if \<not> pe_upload P then (Notice ''Failed to update pull request on the PDS. Try again later.'', st)
                      else
                        (case Pull_AsRecord (pe_format P) pull of
                           None \<Rightarrow> (Crash, st)
                         | Some rec \<Rightarrow>
                             (case prc_Source rec of
                                None \<Rightarrow> (Crash, st)
                              | Some src \<Rightarrow>
                                  if \<not> pe_apply P then (Notice ''Failed to update pull request on the PDS. Try again later.'', st)
                                  else
                                    let st1 = st\<lparr>pst_pds := pst_pds st @ [PdsUpdate (pl_Rkey pull)
                                          (rec\<lparr>prc_CreatedAt := pe_format P (np_now E), prc_Source := Some (src\<lparr>rs_Sha := sourceRev\<rparr>)\<rparr>) patch']\<rparr>
                                    in if \<not> pe_commit P then (Notice ''Failed to resubmit pull.'', st1)
                                       else (Location, st1\<lparr>pst_db := db'\<rparr>))))))"

section \<open>State changes\<close>

lemma SetPullState_spec:
  "SetPullState db r n st = update_pulls (\<lambda>p. pl_RepoAt p = r \<and> pl_PullId p = n) (\<lambda>p. p\<lparr>pl_State := st\<rparr>) db"
  by (auto simp: SetPullState_def update_pulls_def)

lemma update_state_twice:
  assumes "\<And>p. P (p\<lparr>pl_State := st\<rparr>) = P p"
  shows "update_pulls P (\<lambda>p. p\<lparr>pl_State := st\<rparr>) (update_pulls Q (\<lambda>p. p\<lparr>pl_State := st\<rparr>) db) =
    update_pulls (\<lambda>p. Q p \<or> P p) (\<lambda>p. p\<lparr>pl_State := st\<rparr>) db"
proof -
  have "map (\<lambda>p. if P p then p\<lparr>pl_State := st\<rparr> else p) (map (\<lambda>p. if Q p then p\<lparr>pl_State := st\<rparr> else p) ps) =
      map (\<lambda>p. if Q p \<or> P p then p\<lparr>pl_State := st\<rparr> else p) ps" for ps
    using assms by simp
  then show ?thesis by (simp add: update_pulls_def del: map_map)
qed

lemma update_none: "update_pulls (\<lambda>p. False) f db = db"
  by (simp add: update_pulls_def)

lemma set_all_states:
  "foldl (\<lambda>db p. SetPullState db r (pl_PullId p) st) db ps =
     update_pulls (\<lambda>p. pl_RepoAt p = r \<and> pl_PullId p \<in> pl_PullId ` set ps) (\<lambda>p. p\<lparr>pl_State := st\<rparr>) db"
  by (induction ps arbitrary: db) (simp_all add: update_none SetPullState_spec update_state_twice conj_disj_distribL)

lemma delete_all_states:
  "foldl (\<lambda>db p. Db_DeletePull db (pl_RepoAt p) (pl_PullId p)) db ps =
     update_pulls (\<lambda>p. (pl_RepoAt p, pl_PullId p) \<in> (\<lambda>q. (pl_RepoAt q, pl_PullId q)) ` set ps) (\<lambda>p. p\<lparr>pl_State := PullDeleted\<rparr>) db"
  by (induction ps arbitrary: db) (simp_all add: Db_DeletePull_def update_none SetPullState_spec update_state_twice)


section \<open>Reading a stack\<close>

text \<open>A stack as it should be: every pull builds on the next one, the last on nothing.\<close>

fun chain :: "Stack \<Rightarrow> bool" where
  "chain [] \<longleftrightarrow> False"
| "chain [p] \<longleftrightarrow> pl_ParentChangeId p = []"
| "chain (p # q # ps) \<longleftrightarrow> pl_ParentChangeId p = pl_ChangeId q \<and> chain (q # ps)"

definition stack_ok :: "Stack \<Rightarrow> bool" where
  "stack_ok ps \<longleftrightarrow> chain ps \<and> distinct (map pl_ChangeId ps) \<and> [] \<notin> pl_ChangeId ` set ps"

lemma change_map_perm:
  assumes "distinct (map pl_ChangeId ps)" "mset us = mset ps" "p \<in> set ps"
  shows "change_map us (pl_ChangeId p) = Some p"
proof -
  have "mset (map pl_ChangeId us) = mset (map pl_ChangeId ps)" using assms(2) by simp
  then have "distinct (map pl_ChangeId us)" using assms(1) mset_eq_imp_distinct_iff by blast
  moreover have "p \<in> set us" using assms(2,3) mset_eq_setD by blast
  ultimately show ?thesis
    unfolding change_map_def by (intro map_of_is_SomeI) (auto simp: rev_map [symmetric] comp_def)
qed

lemma stack_loop_chain:
  assumes "chain ps" "[] \<notin> pl_ChangeId ` set ps" "\<And>p. p \<in> set ps \<Longrightarrow> m (pl_ChangeId p) = Some p"
  shows "stack_loop m (hd ps) = Some (Inr ps)"
  using assms
proof (induction ps rule: chain.induct)
  case (2 p)
  then show ?case by (subst stack_loop.simps) simp
next
  case (3 p q ps)
  then have "stack_loop m q = Some (Inr (q # ps))" by simp
  with 3 show ?case by (subst stack_loop.simps) auto
qed simp

lemma chain_parents:
  "chain ps \<Longrightarrow> [] \<notin> pl_ChangeId ` set ps \<Longrightarrow>
    set (filter (\<lambda>c. c \<noteq> []) (map pl_ParentChangeId ps)) = pl_ChangeId ` set (tl ps)"
  by (induction ps rule: chain.induct) auto

lemma find_top:
  assumes "stack_ok ps" "mset us = mset ps"
  shows "find (\<lambda>p. pl_ChangeId p \<notin> set (filter (\<lambda>c. c \<noteq> []) (map pl_ParentChangeId us))) us = Some (hd ps)"
proof -
  from assms(1) have c: "chain ps" "[] \<notin> pl_ChangeId ` set ps" "distinct (map pl_ChangeId ps)" by (auto simp: stack_ok_def)
  then obtain t rest where ps: "ps = t # rest" by (cases ps) auto
  have su: "set us = set ps" using assms(2) mset_eq_setD by blast
  have "set (filter (\<lambda>c. c \<noteq> []) (map pl_ParentChangeId us)) = set (filter (\<lambda>c. c \<noteq> []) (map pl_ParentChangeId ps))"
    using su by simp
  also have "\<dots> = pl_ChangeId ` set rest" using chain_parents [OF c(1,2)] ps by simp
  finally have S: "set (filter (\<lambda>c. c \<noteq> []) (map pl_ParentChangeId us)) = pl_ChangeId ` set rest" .
  have top: "pl_ChangeId p \<notin> pl_ChangeId ` set rest \<longleftrightarrow> p = t" if "p \<in> set us" for p
    using that su c(3) ps by auto
  have "t \<in> set us" using su ps by simp
  then have "find (\<lambda>p. pl_ChangeId p \<notin> pl_ChangeId ` set rest) us \<noteq> None" using top by (auto simp: find_None_iff)
  then obtain p where p: "find (\<lambda>p. pl_ChangeId p \<notin> pl_ChangeId ` set rest) us = Some p" by blast
  then have "p \<in> set us \<and> pl_ChangeId p \<notin> pl_ChangeId ` set rest" by (auto simp: find_Some_iff)
  then have "p = t" using top by blast
  with p S ps show ?thesis by simp
qed

lemma GetStack_chain:
  assumes "stack_ok ps" "mset (GetPulls order_by (\<lambda>p. pl_StackId p = stackId \<and> pl_State p \<noteq> PullDeleted) db) = mset ps"
  shows "GetStack order_by db stackId = Some (Inr ps)"
proof -
  have "stack_loop (change_map (GetPulls order_by (\<lambda>p. pl_StackId p = stackId \<and> pl_State p \<noteq> PullDeleted) db)) (hd ps) = Some (Inr ps)"
    using assms by (intro stack_loop_chain) (auto simp: stack_ok_def intro: change_map_perm)
  with find_top [OF assms] show ?thesis unfolding GetStack_def Let_def by (simp del: set_filter set_map)
qed

section \<open>Stacks of patches\<close>

text \<open>What is stored of a new pull: the pull under a number of its own, open, with its first submission.\<close>

definition stored_as :: "Pull \<Rightarrow> Pull \<Rightarrow> bool" where
  "stored_as p row \<longleftrightarrow>
     row = p\<lparr>pl_PullId := pl_PullId row, pl_State := PullOpen,
       pl_Submissions := map (\<lambda>s. s\<lparr>sb_PullAt := Pull_AtUri p, sb_RoundNumber := 0, sb_Created := pl_Created row\<rparr>)
         (take 1 (pl_Submissions p)),
       pl_Mentions := [], pl_Created := pl_Created row\<rparr>"

lemma stored_as_fields:
  assumes "stored_as p row"
  shows "pl_ChangeId row = pl_ChangeId p" "pl_ParentChangeId row = pl_ParentChangeId p" "pl_StackId row = pl_StackId p"
    "pl_State row = PullOpen" "pl_RepoAt row = pl_RepoAt p" "Pull_AtUri row = Pull_AtUri p" "pl_OwnerDid row = pl_OwnerDid p"
    "pl_Submissions row = map (\<lambda>s. s\<lparr>sb_PullAt := Pull_AtUri p, sb_RoundNumber := 0, sb_Created := pl_Created row\<rparr>) (take 1 (pl_Submissions p))"
  by (subst assms [unfolded stored_as_def], simp add: Pull_AtUri_def)+

lemma Db_NewPull_stored:
  assumes "Db_NewPull now db p = Some (db', p')"
  obtains row where "pd_pulls db' = pd_pulls db @ [row]" "stored_as p row"
  using assms by (auto simp: Db_NewPull_def Let_def stored_as_def split: if_splits)

lemma new_pulls_stored:
  assumes "new_pulls now db ps = Some (db', ps')"
  shows "\<exists>rows. pd_pulls db' = pd_pulls db @ rows \<and> list_all2 stored_as ps rows"
  using assms
proof (induction ps arbitrary: db ps')
  case (Cons p ps)
  then obtain db1 p1 ps1 where 1: "Db_NewPull now db p = Some (db1, p1)" "new_pulls now db1 ps = Some (db', ps1)"
    by (auto split: option.splits)
  from Db_NewPull_stored [OF 1(1)] obtain row where "pd_pulls db1 = pd_pulls db @ [row]" "stored_as p row" .
  with Cons.IH [OF 1(2)] show ?case by (metis append.assoc append_Cons append_Nil list_all2_Cons)
qed simp

lemma list_all2_rightD: "list_all2 R xs ys \<Longrightarrow> y \<in> set ys \<Longrightarrow> \<exists>x \<in> set xs. R x y"
  by (induction xs ys rule: list_all2_induct) auto

fun bottom_up :: "string \<Rightarrow> Stack \<Rightarrow> bool" where
  "bottom_up par [] \<longleftrightarrow> True"
| "bottom_up par (p # ps) \<longleftrightarrow> pl_ParentChangeId p = par \<and> bottom_up (pl_ChangeId p) ps"

lemma bottom_up_chain:
  "bottom_up (pl_ChangeId (hd acc)) ps \<Longrightarrow> chain acc \<Longrightarrow> chain (rev ps @ acc)"
proof (induction ps arbitrary: acc)
  case (Cons p ps)
  then have "chain (p # acc)" by (cases acc) auto
  with Cons.IH [of "p # acc"] Cons.prems show ?case by simp
qed simp

lemma bottom_up_rev:
  assumes "bottom_up [] ps" "ps \<noteq> []"
  shows "chain (rev ps)"
  using assms bottom_up_chain [of "[hd ps]" "tl ps"] by (cases ps) auto

lemma bottom_up_parents:
  "bottom_up par ps \<Longrightarrow> map pl_ParentChangeId ps = butlast (par # map pl_ChangeId ps)"
  by (induction ps arbitrary: par) auto

lemma build_stack_spec:
  assumes "build_stack E repoAt did tb src stackId i par fps = Inr ps"
  shows "bottom_up par ps \<and> map (Some \<circ> pl_ChangeId) ps = map ChangeId fps \<and>
    (\<forall>p \<in> set ps. pl_StackId p = stackId \<and> length (pl_Submissions p) = 1) \<and>
    map LatestPatch ps = map (Some \<circ> fp_Raw) fps"
  using assms
proof (induction fps arbitrary: i par ps)
  case (Cons fp fps)
  obtain c where c: "ChangeId fp = Some c" using Cons.prems by (cases "ChangeId fp") auto
  then obtain qs where q: "build_stack E repoAt did tb src stackId (Suc i) c fps = Inr qs"
    "ps = initial_pull E repoAt did tb src stackId i c par fp # qs"
    using Cons.prems by (cases "build_stack E repoAt did tb src stackId (Suc i) c fps") auto
  show ?case
    using Cons.IH [OF q(1)] q(2) c by (simp add: initial_pull_def LatestPatch_def LatestSubmission_last)
qed simp

lemma newStack_spec:
  assumes "newStack penv E repoAt did tb patch src stackId = Inr stack"
  obtains fps where "ExtractPatches penv patch = Inr fps" "fps \<noteq> []" "stack \<noteq> []" "bottom_up [] stack"
    "map (Some \<circ> pl_ChangeId) stack = map ChangeId fps" "map LatestPatch stack = map (Some \<circ> fp_Raw) fps"
    "\<forall>p \<in> set stack. pl_StackId p = stackId \<and> length (pl_Submissions p) = 1"
proof -
  obtain fps where f: "ExtractPatches penv patch = Inr fps" "fps \<noteq> []"
    "build_stack E repoAt did tb src stackId 0 [] fps = Inr stack"
    using assms by (auto simp: newStack_def split: sum.splits if_splits)
  from build_stack_spec [OF f(3)] f(2) have "stack \<noteq> []" by auto
  with build_stack_spec [OF f(3)] f that show thesis by blast
qed

lemma created_stack:
  assumes "createStackedPullRequest penv E P repoAt did tb patch sha src stackId st = (Location, st')"
  obtains stack db' ps' where "newStack penv E repoAt did tb patch src stackId = Inr stack"
    "new_pulls (np_now E) (pst_db st) stack = Some (db', ps')" "pst_db st' = db'"
proof (cases "newStack penv E repoAt did tb patch src stackId")
  case (Inr stack)
  obtain writes where "those (map (\<lambda>p. create_write P p (LatestPatch p)) stack) = Some writes"
    using assms Inr by (auto simp: createStackedPullRequest_def split: if_splits option.splits)
  with assms Inr that show thesis
    by (cases "new_pulls (np_now E) (pst_db st) stack") (auto simp: createStackedPullRequest_def Let_def split: if_splits)
qed (use assms in \<open>simp add: createStackedPullRequest_def split: if_splits\<close>)

text \<open>The pulls read after a stack was created under an identifier that was not in use.\<close>

lemma created_pulls:
  assumes order: "\<And>xs. mset (order_by xs) = mset xs"
    and created: "createStackedPullRequest penv E P repoAt did tb patch sha src stackId st = (Location, st')"
    and fresh: "stackId \<notin> pl_StackId ` set (pd_pulls (pst_db st))"
  obtains stack rows where "newStack penv E repoAt did tb patch src stackId = Inr stack"
    "list_all2 stored_as stack rows"
    "mset (GetPulls order_by (\<lambda>p. pl_StackId p = stackId \<and> pl_State p \<noteq> PullDeleted) (pst_db st')) = mset rows"
proof -
  from created_stack [OF created] obtain stack db' ps' where s: "newStack penv E repoAt did tb patch src stackId = Inr stack"
    "new_pulls (np_now E) (pst_db st) stack = Some (db', ps')" "pst_db st' = db'" .
  from new_pulls_stored [OF s(2)] obtain rows
    where r: "pd_pulls db' = pd_pulls (pst_db st) @ rows" "list_all2 stored_as stack rows" by blast
  have stack: "\<forall>p \<in> set stack. pl_StackId p = stackId \<and> length (pl_Submissions p) = 1"
    by (rule newStack_spec [OF s(1)])
  have row: "pl_StackId q = stackId \<and> pl_State q = PullOpen \<and> length (pl_Submissions q) \<le> 1" if "q \<in> set rows" for q
  proof -
    from list_all2_rightD [OF r(2) that] obtain p where "p \<in> set stack" "stored_as p q" by blast
    with stored_as_fields [of p q] stack show ?thesis by simp
  qed
  have "filter (\<lambda>p. pl_StackId p = stackId \<and> pl_State p \<noteq> PullDeleted) (pd_pulls db') = rows"
  proof -
    have "filter (\<lambda>p. pl_StackId p = stackId \<and> pl_State p \<noteq> PullDeleted) (pd_pulls (pst_db st)) = []"
      using fresh by (intro filter_False) blast
    moreover have "filter (\<lambda>p. pl_StackId p = stackId \<and> pl_State p \<noteq> PullDeleted) rows = rows"
      using row by (intro filter_True) simp
    ultimately show ?thesis by (simp only: r(1) filter_append append_Nil)
  qed
  moreover have "map (\<lambda>p. p\<lparr>pl_Submissions := sort_key sb_RoundNumber (pl_Submissions p)\<rparr>) rows = rows"
  proof (rule map_idI)
    fix q assume "q \<in> set rows"
    then have "length (pl_Submissions q) \<le> 1" using row by blast
    then have "sort_key sb_RoundNumber (pl_Submissions q) = pl_Submissions q"
      by (cases "pl_Submissions q") auto
    then show "q\<lparr>pl_Submissions := sort_key sb_RoundNumber (pl_Submissions q)\<rparr> = q" by simp
  qed
  ultimately have "mset (GetPulls order_by (\<lambda>p. pl_StackId p = stackId \<and> pl_State p \<noteq> PullDeleted) db') = mset rows"
    by (simp add: GetPulls_def order)
  with that s r show thesis by simp
qed

lemma stored_rows:
  assumes "list_all2 stored_as stack rows" "\<forall>p \<in> set stack. length (pl_Submissions p) = 1"
  shows "map pl_ChangeId rows = map pl_ChangeId stack" "map pl_ParentChangeId rows = map pl_ParentChangeId stack"
    "map LatestPatch rows = map LatestPatch stack" "map pl_State rows = map (\<lambda>_. PullOpen) stack" "length rows = length stack"
  using assms
proof (induction stack rows rule: list_all2_induct)
  case (Cons p stack row rows)
  {
    case 3
    then obtain s where "pl_Submissions p = [s]" by (auto simp: length_Suc_conv)
    with 3 Cons show ?case by (simp add: stored_as_fields LatestPatch_def LatestSubmission_last)
  }
qed (auto simp: stored_as_fields)

lemma bottom_up_rows:
  "map pl_ChangeId rows = map pl_ChangeId ps \<Longrightarrow> map pl_ParentChangeId rows = map pl_ParentChangeId ps \<Longrightarrow>
   bottom_up par ps \<Longrightarrow> bottom_up par rows"
  by (induction ps arbitrary: rows par) auto

text \<open>
  C15. The stack a user creates is the stack that is read back: if no two patches of the series have the
  same change identifier and none is empty, then after a successful request under a fresh stack
  identifier the pulls are found with the last patch on top, each with its own change, its own patch and
  open, in whatever order the database returns them.
\<close>

theorem created_stack_is_read_back:
  assumes order: "\<And>xs. mset (order_by xs) = mset xs"
    and created: "createStackedPullRequest penv E P repoAt did tb patch sha src stackId st = (Location, st')"
    and fresh: "stackId \<notin> pl_StackId ` set (pd_pulls (pst_db st))"
    and patches: "ExtractPatches penv patch = Inr fps" "distinct (map ChangeId fps)" "Some [] \<notin> ChangeId ` set fps"
  shows "\<exists>ps. GetStack order_by (pst_db st') stackId = Some (Inr ps) \<and>
    map (\<lambda>p. (Some (pl_ChangeId p), LatestPatch p, pl_State p)) ps =
      map (\<lambda>fp. (ChangeId fp, Some (fp_Raw fp), PullOpen)) (rev fps)"
proof -
  obtain stack rows where c: "newStack penv E repoAt did tb patch src stackId = Inr stack" "list_all2 stored_as stack rows"
    "mset (GetPulls order_by (\<lambda>p. pl_StackId p = stackId \<and> pl_State p \<noteq> PullDeleted) (pst_db st')) = mset rows"
    using created_pulls [OF order created fresh] by blast
  from newStack_spec [OF c(1)] patches(1) have s: "stack \<noteq> []" "bottom_up [] stack"
    "map (Some \<circ> pl_ChangeId) stack = map ChangeId fps" "map LatestPatch stack = map (Some \<circ> fp_Raw) fps"
    "\<forall>p \<in> set stack. length (pl_Submissions p) = 1" by auto
  note r = stored_rows [OF c(2) s(5)]
  have ids: "map (\<lambda>p. Some (pl_ChangeId p)) rows = map ChangeId fps"
    using arg_cong [OF r(1), of "map Some"] s(3) by (simp add: comp_def)
  have "stack_ok (rev rows)"
    unfolding stack_ok_def
  proof (intro conjI)
    show "chain (rev rows)" using bottom_up_rows [OF r(1,2) s(2)] r(5) s(1) by (intro bottom_up_rev) auto
    have "distinct (map Some (map pl_ChangeId rows))" using ids patches(2) by (simp add: comp_def)
    then have "distinct (map pl_ChangeId rows)" by (rule distinct_map [THEN iffD1, THEN conjunct1])
    then show "distinct (map pl_ChangeId (rev rows))" by (simp add: rev_map [symmetric])
    have "Some ` pl_ChangeId ` set rows = ChangeId ` set fps"
      using arg_cong [OF ids, of set] by (simp add: image_image)
    then show "[] \<notin> pl_ChangeId ` set (rev rows)" using patches(3) by auto
  qed
  moreover have "mset (GetPulls order_by (\<lambda>p. pl_StackId p = stackId \<and> pl_State p \<noteq> PullDeleted) (pst_db st')) = mset (rev rows)"
    using c(3) by simp
  ultimately have "GetStack order_by (pst_db st') stackId = Some (Inr (rev rows))" by (rule GetStack_chain)
  moreover have "map (\<lambda>p. (Some (pl_ChangeId p), LatestPatch p, pl_State p)) rows =
      map (\<lambda>fp. (ChangeId fp, Some (fp_Raw fp), PullOpen)) fps"
    using ids r(3,4) s(4) by (auto simp: list_eq_iff_nth_eq)
  ultimately show ?thesis by (metis (no_types, lifting) rev_map)
qed

definition sample_patch_env :: "string PatchEnv" where
  "sample_patch_env =
     \<lparr>pe_Apply = \<lambda>_ _. Inr [], pe_Parse = \<lambda>patch. ([], patch, None),
      pe_ParsePatchHeader = \<lambda>h. Inr [(''Change-Id'', [take 1 (drop 46 h)])],
      pe_CreateTemp = \<lambda>_. Inr (), pe_WriteString = \<lambda>_ _. Inr (), pe_diff = \<lambda>_ _ _ _. Not_run []\<rparr>"

definition sample_pull_env :: NewPullEnv where
  "sample_pull_env =
     \<lparr>np_title = fp_Raw, np_body = \<lambda>_. [], np_sha = \<lambda>_. ''e4'', np_mentions = \<lambda>_. ([], []),
      np_rkey = \<lambda>i. replicate (Suc i) CHR ''k'', np_now = zero_time\<rparr>"

definition sample_pds :: PdsEnv where
  "sample_pds = \<lparr>pe_client = True, pe_upload = True, pe_apply = True, pe_commit = True, pe_format = \<lambda>_. []\<rparr>"

definition sample_series :: "string \<Rightarrow> string" where
  "sample_series changes =
     concat (map (\<lambda>c. ''From '' @ replicate 40 CHR ''0'' @ '' '' @ [c] @ [newline]) changes)"

definition no_pulls :: PullsState where
  "no_pulls = \<lparr>pst_db = \<lparr>pd_pulls = [], pd_seqs = Map.empty\<rparr>, pst_pds = []\<rparr>"

lemmas sample_stack_defs = sample_patch_env_def sample_pull_env_def sample_pds_def sample_series_def no_pulls_def

lemma sample_extract:
  "ExtractPatches sample_patch_env (sample_series ''ab'') =
     Inr (map (\<lambda>c. \<lparr>fp_Files = [], fp_RawHeaders = [(''Change-Id'', [[c]])],
       fp_Raw = ''From '' @ replicate 40 CHR ''0'' @ '' '' @ [c]\<rparr>) ''ab'')"
  by code_simp

definition sample_created :: "string \<Rightarrow> outcome \<times> PullsState" where
  "sample_created changes =
     createStackedPullRequest sample_patch_env sample_pull_env sample_pds ''at://o/r/1'' ''did:a'' ''main'' (sample_series changes) ''e4''
       None ''s'' no_pulls"

lemma sample_created_Location: "fst (sample_created ''ab'') = Location" "fst (sample_created ''aa'') = Location"
  by code_simp+

theorem created_stack_is_read_back_witness:
  "\<exists>p q. GetStack rev (pst_db (snd (sample_created ''ab''))) ''s'' = Some (Inr [p, q]) \<and>
     pl_ChangeId p = ''b'' \<and> pl_ChangeId q = ''a'' \<and> pl_State p = PullOpen"
proof -
  have c: "createStackedPullRequest sample_patch_env sample_pull_env sample_pds ''at://o/r/1'' ''did:a'' ''main''
      (sample_series ''ab'') ''e4'' None ''s'' no_pulls = (Location, snd (sample_created ''ab''))"
    using sample_created_Location(1) unfolding sample_created_def by (metis prod.collapse)
  have "''s'' \<notin> pl_StackId ` set (pd_pulls (pst_db no_pulls))" by (simp add: no_pulls_def)
  from created_stack_is_read_back [OF _ c this sample_extract, of rev]
  show ?thesis by (auto simp: ChangeId_def map_eq_Cons_conv)
qed

lemma last_repeats:
  assumes "map Some xs = map g ys" "ys \<noteq> []" "g (last ys) \<in> g ` set (butlast ys)"
  shows "set (butlast xs) = set xs"
proof -
  obtain vs v where ys: "ys = vs @ [v]" using assms(2) by (cases ys rule: rev_cases) auto
  moreover obtain us u where xs: "xs = us @ [u]" using assms(1) ys by (cases xs rule: rev_cases) auto
  ultimately have "map Some us = map g vs" "Some u = g v" using assms(1) by auto
  moreover have "g v \<in> set (map g vs)" using assms(3) ys by simp
  ultimately have "Some u \<in> set (map Some us)" by simp
  then show ?thesis using xs by auto
qed

text \<open>
  Nothing requires the change identifiers of a series to differ: if the last patch repeats the
  identifier of an earlier one, the request succeeds, and from then on reading the stack panics.
\<close>

theorem repeated_change_breaks_stack:
  assumes order: "\<And>xs. mset (order_by xs) = mset xs"
    and created: "createStackedPullRequest penv E P repoAt did tb patch sha src stackId st = (Location, st')"
    and fresh: "stackId \<notin> pl_StackId ` set (pd_pulls (pst_db st))"
    and patches: "ExtractPatches penv patch = Inr fps" "ChangeId (last fps) \<in> ChangeId ` set (butlast fps)" "Some [] \<notin> ChangeId ` set fps"
  shows "GetStack order_by (pst_db st') stackId = Some (Inl Panic)"
proof -
  obtain stack rows where c: "newStack penv E repoAt did tb patch src stackId = Inr stack" "list_all2 stored_as stack rows"
    "mset (GetPulls order_by (\<lambda>p. pl_StackId p = stackId \<and> pl_State p \<noteq> PullDeleted) (pst_db st')) = mset rows"
    using created_pulls [OF order created fresh] by blast
  from newStack_spec [OF c(1)] patches(1) have s: "stack \<noteq> []" "bottom_up [] stack"
    "map (Some \<circ> pl_ChangeId) stack = map ChangeId fps" "fps \<noteq> []"
    "\<forall>p \<in> set stack. length (pl_Submissions p) = 1" by auto
  note r = stored_rows [OF c(2) s(5)]
  let ?ids = "map pl_ChangeId stack"
  have ids: "map Some ?ids = map ChangeId fps" using s(3) by simp
  have set_us: "set (GetPulls order_by (\<lambda>p. pl_StackId p = stackId \<and> pl_State p \<noteq> PullDeleted) (pst_db st')) = set rows"
    using c(3) mset_eq_setD by blast
  have "Some ` set ?ids = ChangeId ` set fps" using arg_cong [OF ids, of set] by (simp add: image_image)
  then have ne: "[] \<notin> set ?ids" using patches(3) by auto
  have all: "set (butlast ?ids) = set ?ids" by (rule last_repeats [OF ids s(4) patches(2)])
  have "map pl_ParentChangeId rows = [] # butlast ?ids"
    using r(2) bottom_up_parents [OF s(2)] s(1) by simp
  then have "pl_ParentChangeId ` set rows = insert [] (set (butlast ?ids))" by (metis list.simps(15) set_map)
  moreover have "pl_ChangeId ` set rows = set ?ids" using r(1) by (metis set_map)
  ultimately have "\<forall>p \<in> set rows. pl_ChangeId p \<in> pl_ParentChangeId ` set rows \<and> pl_ChangeId p \<noteq> []"
    using ne all by (metis image_eqI insertI2)
  then have "find (\<lambda>p. pl_ChangeId p \<notin> set (filter (\<lambda>c. c \<noteq> []) (map pl_ParentChangeId
      (GetPulls order_by (\<lambda>p. pl_StackId p = stackId \<and> pl_State p \<noteq> PullDeleted) (pst_db st')))))
      (GetPulls order_by (\<lambda>p. pl_StackId p = stackId \<and> pl_State p \<noteq> PullDeleted) (pst_db st')) = None"
    by (simp add: find_None_iff set_us)
  then show ?thesis unfolding GetStack_def Let_def by simp
qed

theorem repeated_change_breaks_stack_witness:
  "GetStack rev (pst_db (snd (sample_created ''aa''))) ''s'' = Some (Inl Panic)"
proof -
  have c: "createStackedPullRequest sample_patch_env sample_pull_env sample_pds ''at://o/r/1'' ''did:a'' ''main''
      (sample_series ''aa'') ''e4'' None ''s'' no_pulls = (Location, snd (sample_created ''aa''))"
    using sample_created_Location(2) unfolding sample_created_def by (metis prod.collapse)
  have f: "''s'' \<notin> pl_StackId ` set (pd_pulls (pst_db no_pulls))" by (simp add: no_pulls_def)
  have "ExtractPatches sample_patch_env (sample_series ''aa'') =
     Inr (map (\<lambda>c. \<lparr>fp_Files = [], fp_RawHeaders = [(''Change-Id'', [[c]])],
       fp_Raw = ''From '' @ replicate 40 CHR ''0'' @ '' '' @ [c]\<rparr>) ''aa'')"
    by code_simp
  from repeated_change_breaks_stack [OF _ c f this, of rev] show ?thesis by (simp add: ChangeId_def)
qed

end
