(* ===== verification/Pull_Resubmit.thy ===== *)
theory Pull_Resubmit
  imports Pull_Store
begin

text \<open>
  What a resubmission of a stack does: the closed form of its loops over the tables, the difference of two
  stacks, and that the stack read back afterwards is the new series of patches.
\<close>

section \<open>Resubmissions\<close>

text \<open>The rounds that a resubmission of a list of pulls adds to a pull, and the parent a new stack gives it.\<close>

definition rounds_for :: "Time \<Rightarrow> (Pull \<times> Pull) list \<Rightarrow> Pull \<Rightarrow> PullSubmission list" where
  "rounds_for now ps p =
     map (\<lambda>(op, np). \<lparr>sb_PullAt = Pull_AtUri op, sb_RoundNumber = int (length (pl_Submissions op)),
            sb_Patch = sb_Patch (last (pl_Submissions np)), sb_Combined = sb_Combined (last (pl_Submissions np)),
            sb_Comments = [], sb_SourceRev = sb_SourceRev (last (pl_Submissions np)), sb_Created = now\<rparr>)
       (filter (\<lambda>(op, np). pl_State op \<noteq> PullMerged \<and> Pull_AtUri op = Pull_AtUri p) ps)"

definition add_rounds :: "Time \<Rightarrow> (Pull \<times> Pull) list \<Rightarrow> Pull \<Rightarrow> Pull" where
  "add_rounds now ps p = p\<lparr>pl_Submissions := pl_Submissions p @ rounds_for now ps p\<rparr>"

definition same_change :: "Pull \<Rightarrow> Pull \<Rightarrow> bool" where
  "same_change p q \<longleftrightarrow> pl_RepoAt p = pl_RepoAt q \<and> pl_OwnerDid p = pl_OwnerDid q \<and> pl_ChangeId p = pl_ChangeId q"

definition reparent :: "Stack \<Rightarrow> Pull \<Rightarrow> Pull" where
  "reparent new p = (case find (same_change p) (rev new) of None \<Rightarrow> p | Some q \<Rightarrow> p\<lparr>pl_ParentChangeId := pl_ParentChangeId q\<rparr>)"

lemma Db_ResubmitPull_spec:
  assumes "Db_ResubmitPull now db uri n patch comb sha = Some db'"
  shows "pd_pulls db' = map (\<lambda>p. if Pull_AtUri p = uri then p\<lparr>pl_Submissions := pl_Submissions p @
      [\<lparr>sb_PullAt = uri, sb_RoundNumber = n, sb_Patch = patch, sb_Combined = comb, sb_Comments = [], sb_SourceRev = sha,
        sb_Created = now\<rparr>]\<rparr> else p) (pd_pulls db)"
  using assms by (auto simp: Db_ResubmitPull_def update_pulls_def split: option.splits if_splits)

lemma Pull_AtUri_update [simp]:
  "Pull_AtUri (p\<lparr>pl_Submissions := x\<rparr>) = Pull_AtUri p" "Pull_AtUri (p\<lparr>pl_State := st\<rparr>) = Pull_AtUri p"
  "Pull_AtUri (p\<lparr>pl_ParentChangeId := c\<rparr>) = Pull_AtUri p" "Pull_AtUri (p\<lparr>pl_PullId := n\<rparr>) = Pull_AtUri p"
  by (simp_all add: Pull_AtUri_def)

lemma resubmit_all_spec:
  assumes "resubmit_all now db ps = Inr db'"
  shows "pd_pulls db' = map (add_rounds now ps) (pd_pulls db)"
  using assms
proof (induction ps arbitrary: db)
  case Nil
  then show ?case by (simp add: add_rounds_def rounds_for_def)
next
  case (Cons x ps)
  obtain op np where x: "x = (op, np)" by (cases x)
  show ?case
  proof (cases "pl_State op = PullMerged")
    case True
    with Cons x show ?thesis by (simp add: add_rounds_def rounds_for_def)
  next
    case False
    with Cons.prems x have ne: "pl_Submissions np \<noteq> []" by (auto simp: LatestSubmission_last)
    let ?s = "last (pl_Submissions np)"
    obtain db1 where 1: "Db_ResubmitPull now db (Pull_AtUri op) (int (length (pl_Submissions op))) (sb_Patch ?s) (sb_Combined ?s)
        (sb_SourceRev ?s) = Some db1" "resubmit_all now db1 ps = Inr db'"
      using Cons.prems x False ne by (auto simp: LatestSubmission_last split: option.splits)
    show ?thesis
      unfolding Cons.IH [OF 1(2)] Db_ResubmitPull_spec [OF 1(1)]
      using x False by (simp add: add_rounds_def rounds_for_def)
  qed
qed

lemma same_change_update [simp]:
  "same_change (p\<lparr>pl_ParentChangeId := c\<rparr>) = same_change p" "same_change (p\<lparr>pl_Submissions := x\<rparr>) = same_change p"
  "same_change (p\<lparr>pl_State := st\<rparr>) = same_change p"
  by (simp_all add: same_change_def fun_eq_iff)

lemma set_parents_spec:
  "pd_pulls (foldl (\<lambda>db p. SetPullParentChangeId db (pl_ParentChangeId p) (pl_RepoAt p) (pl_OwnerDid p) (pl_ChangeId p)) db new) =
     map (reparent new) (pd_pulls db)"
proof (induction new arbitrary: db)
  case Nil
  then show ?case by (simp add: reparent_def map_idI)
next
  case (Cons q new)
  have "reparent new (if pl_RepoAt p = pl_RepoAt q \<and> pl_OwnerDid p = pl_OwnerDid q \<and> pl_ChangeId p = pl_ChangeId q
      then p\<lparr>pl_ParentChangeId := pl_ParentChangeId q\<rparr> else p) = reparent (q # new) p" for p
    by (cases "same_change p q") (auto simp: reparent_def find_append same_change_def [symmetric] split: option.splits)
  then show ?case by (simp add: Cons.IH, simp add: SetPullParentChangeId_def update_pulls_def)
qed

definition mark_deleted :: "Pull list \<Rightarrow> Pull \<Rightarrow> Pull" where
  "mark_deleted ds p =
     (if \<exists>q \<in> set ds. pl_State q \<noteq> PullMerged \<and> pl_RepoAt p = pl_RepoAt q \<and> pl_PullId p = pl_PullId q
      then p\<lparr>pl_State := PullDeleted\<rparr> else p)"

lemma pulls_of_update: "pd_pulls (update_pulls P f db) = map (\<lambda>p. if P p then f p else p) (pd_pulls db)"
  by (simp add: update_pulls_def)

lemma delete_all_spec:
  "pd_pulls (foldl (\<lambda>db p. Db_DeletePull db (pl_RepoAt p) (pl_PullId p)) db (filter (\<lambda>p. pl_State p \<noteq> PullMerged) ds)) =
     map (mark_deleted ds) (pd_pulls db)"
proof -
  have "(pl_RepoAt p, pl_PullId p) \<in> (\<lambda>q. (pl_RepoAt q, pl_PullId q)) ` set (filter (\<lambda>p. pl_State p \<noteq> PullMerged) ds) \<longleftrightarrow>
      (\<exists>q \<in> set ds. pl_State q \<noteq> PullMerged \<and> pl_RepoAt p = pl_RepoAt q \<and> pl_PullId p = pl_PullId q)" for p :: Pull
    by (auto simp: image_iff)
  then have "(\<lambda>p. if (pl_RepoAt p, pl_PullId p) \<in> (\<lambda>q. (pl_RepoAt q, pl_PullId q)) ` set (filter (\<lambda>p. pl_State p \<noteq> PullMerged) ds)
      then p\<lparr>pl_State := PullDeleted\<rparr> else p) = mark_deleted ds"
    unfolding mark_deleted_def by (intro ext) (simp only:)
  then show ?thesis unfolding delete_all_states pulls_of_update by (rule arg_cong)
qed

lemma new_pulls_fresh:
  assumes "new_pulls now db ps = Some (db', ps')" "p \<in> set ps"
  shows "Pull_AtUri p \<notin> Pull_AtUri ` set (pd_pulls db)"
  using assms
proof (induction ps arbitrary: db ps')
  case (Cons q ps)
  then obtain db1 q1 ps1 where 1: "Db_NewPull now db q = Some (db1, q1)" "new_pulls now db1 ps = Some (db', ps1)"
    by (auto split: option.splits)
  have "Pull_AtUri q \<notin> Pull_AtUri ` set (pd_pulls db)" using 1(1) by (auto simp: Db_NewPull_def Let_def split: if_splits)
  moreover have "set (pd_pulls db) \<subseteq> set (pd_pulls db1)" by (rule Db_NewPull_stored [OF 1(1)]) auto
  ultimately show ?case using Cons.IH [OF 1(2)] Cons.prems(2) by auto
qed simp

lemma mark_deleted_fields [simp]:
  "Pull_AtUri (mark_deleted ds p) = Pull_AtUri p" "pl_StackId (mark_deleted ds p) = pl_StackId p"
  by (simp_all add: mark_deleted_def)

lemma resubmit_db_spec:
  assumes "resubmit_db iter now db origStack new = Inr db'"
  obtains rows where "list_all2 stored_as (additions iter origStack new) rows"
    "\<And>p. p \<in> set (additions iter origStack new) \<Longrightarrow> Pull_AtUri p \<notin> Pull_AtUri ` set (pd_pulls db)"
    "pd_pulls db' = map (reparent new \<circ> add_rounds now (updated iter origStack new))
       (map (mark_deleted (deletions iter origStack new)) (pd_pulls db) @ rows)"
proof -
  let ?db1 = "foldl (\<lambda>db p. Db_DeletePull db (pl_RepoAt p) (pl_PullId p)) db
      (filter (\<lambda>p. pl_State p \<noteq> PullMerged) (deletions iter origStack new))"
  obtain db2 ps where 1: "new_pulls now ?db1 (additions iter origStack new) = Some (db2, ps)"
    using assms by (cases "new_pulls now ?db1 (additions iter origStack new)") (auto simp: resubmit_db_def)
  from assms obtain db3 where 2: "resubmit_all now db2 (updated iter origStack new) = Inr db3"
    "db' = foldl (\<lambda>db p. SetPullParentChangeId db (pl_ParentChangeId p) (pl_RepoAt p) (pl_OwnerDid p) (pl_ChangeId p)) db3 new"
    unfolding resubmit_db_def Let_def 1 by (auto simp: map_sum_Inr_iff)
  from new_pulls_stored [OF 1] obtain rows where
    "pd_pulls db2 = map (mark_deleted (deletions iter origStack new)) (pd_pulls db) @ rows"
    "list_all2 stored_as (additions iter origStack new) rows" unfolding delete_all_spec by blast
  moreover have "Pull_AtUri p \<notin> Pull_AtUri ` set (pd_pulls db)" if "p \<in> set (additions iter origStack new)" for p
    using new_pulls_fresh [OF 1 that] unfolding delete_all_spec by (simp add: image_image)
  ultimately show thesis using that resubmit_all_spec [OF 2(1)] 2(2) by (simp add: set_parents_spec)
qed

lemma change_map_None: "change_map ps c = None \<longleftrightarrow> c \<notin> pl_ChangeId ` set ps"
  by (simp add: change_map_def map_of_eq_None_iff image_image)

lemma change_map_Some: "distinct (map pl_ChangeId ps) \<Longrightarrow> p \<in> set ps \<Longrightarrow> the (change_map ps (pl_ChangeId p)) = p"
  using change_map_perm [of ps ps p] by simp

lemma iter_set: "(\<And>xs. mset (iter xs) = mset xs) \<Longrightarrow> set (iter xs) = set xs"
  by (metis set_mset_mset)

lemma iter_distinct: "(\<And>xs. mset (iter xs) = mset xs) \<Longrightarrow> distinct (iter xs) = distinct xs"
  by (metis mset_eq_imp_distinct_iff)

text \<open>The three parts of the difference of two stacks whose changes differ from each other.\<close>

lemma deletions_set:
  assumes "\<And>xs. mset (iter xs) = mset xs" "distinct (map pl_ChangeId orig)"
  shows "set (deletions iter orig new) = {p \<in> set orig. pl_ChangeId p \<notin> pl_ChangeId ` set new}"
proof -
  have "set (deletions iter orig new) =
      (\<lambda>c. the (change_map orig c)) ` pl_ChangeId ` {p \<in> set orig. pl_ChangeId p \<notin> pl_ChangeId ` set new}"
    by (auto simp: deletions_def iter_set [OF assms(1)] change_map_None)
  also have "\<dots> = id ` {p \<in> set orig. pl_ChangeId p \<notin> pl_ChangeId ` set new}"
    unfolding image_image by (rule image_cong) (simp_all add: change_map_Some [OF assms(2)])
  finally show ?thesis by simp
qed

lemma additions_set:
  assumes "\<And>xs. mset (iter xs) = mset xs" "distinct (map pl_ChangeId new)"
  shows "set (additions iter orig new) = {p \<in> set new. pl_ChangeId p \<notin> pl_ChangeId ` set orig}"
    "distinct (map pl_ChangeId (additions iter orig new))"
proof -
  have "set (additions iter orig new) =
      (\<lambda>c. the (change_map new c)) ` pl_ChangeId ` {p \<in> set new. pl_ChangeId p \<notin> pl_ChangeId ` set orig}"
    by (auto simp: additions_def iter_set [OF assms(1)] change_map_None)
  also have "\<dots> = id ` {p \<in> set new. pl_ChangeId p \<notin> pl_ChangeId ` set orig}"
    unfolding image_image by (rule image_cong) (simp_all add: change_map_Some [OF assms(2)])
  finally show "set (additions iter orig new) = {p \<in> set new. pl_ChangeId p \<notin> pl_ChangeId ` set orig}" by simp
  let ?cs = "filter (\<lambda>c. change_map orig c = None) (remdups (map pl_ChangeId new))"
  have "map pl_ChangeId (additions iter orig new) = map (\<lambda>c. c) (iter ?cs)"
    unfolding additions_def map_map
  proof (rule map_cong [OF refl])
    fix c assume "c \<in> set (iter ?cs)"
    then obtain p where "p \<in> set new" "c = pl_ChangeId p" by (auto simp: iter_set [OF assms(1)])
    then show "(pl_ChangeId \<circ> (\<lambda>c. the (change_map new c))) c = c" by (simp add: change_map_Some [OF assms(2)])
  qed
  then show "distinct (map pl_ChangeId (additions iter orig new))" by (simp add: iter_distinct [OF assms(1)])
qed

lemma updated_set:
  assumes "\<And>xs. mset (iter xs) = mset xs" "distinct (map pl_ChangeId orig)" "distinct (map pl_ChangeId new)"
  shows "set (updated iter orig new) = {(op, np). op \<in> set orig \<and> np \<in> set new \<and> pl_ChangeId op = pl_ChangeId np}"
    "distinct (updated iter orig new)"
proof -
  let ?f = "\<lambda>c. (the (change_map orig c), the (change_map new c))"
  let ?cs = "filter (\<lambda>c. change_map orig c \<noteq> None) (remdups (map pl_ChangeId new))"
  have c: "set (iter ?cs) = pl_ChangeId ` set orig \<inter> pl_ChangeId ` set new"
    by (auto simp: iter_set [OF assms(1)] change_map_None simp del: not_None_eq)
  have f: "?f (pl_ChangeId op) = (op, np)" if "op \<in> set orig" "np \<in> set new" "pl_ChangeId op = pl_ChangeId np" for op np
    using that change_map_Some [OF assms(2), of op] change_map_Some [OF assms(3), of np] by simp
  have "?f ` (pl_ChangeId ` set orig \<inter> pl_ChangeId ` set new) =
      {(op, np). op \<in> set orig \<and> np \<in> set new \<and> pl_ChangeId op = pl_ChangeId np}" (is "?l = ?r")
  proof
    show "?l \<subseteq> ?r"
    proof
      fix x assume "x \<in> ?l"
      then obtain op np where "op \<in> set orig" "np \<in> set new" "pl_ChangeId op = pl_ChangeId np" "x = ?f (pl_ChangeId op)" by auto
      then show "x \<in> ?r" using f [of op np] by simp
    qed
    show "?r \<subseteq> ?l"
    proof
      fix x assume "x \<in> ?r"
      then obtain op np where "op \<in> set orig" "np \<in> set new" "pl_ChangeId op = pl_ChangeId np" "x = (op, np)" by auto
      moreover from this have "pl_ChangeId op \<in> pl_ChangeId ` set orig \<inter> pl_ChangeId ` set new" by (metis IntI imageI)
      ultimately show "x \<in> ?l" using f [of op np] by (metis (no_types, lifting) image_eqI)
    qed
  qed
  then show "set (updated iter orig new) = {(op, np). op \<in> set orig \<and> np \<in> set new \<and> pl_ChangeId op = pl_ChangeId np}"
    unfolding updated_def set_map c by simp
  have "inj_on ?f (set (iter ?cs))"
    unfolding c
  proof (rule inj_onI)
    fix a b assume a: "a \<in> pl_ChangeId ` set orig \<inter> pl_ChangeId ` set new" and b: "b \<in> pl_ChangeId ` set orig \<inter> pl_ChangeId ` set new"
      and "?f a = ?f b"
    then have e: "the (change_map orig a) = the (change_map orig b)" by simp
    from a b obtain p q where "p \<in> set orig" "q \<in> set orig" "a = pl_ChangeId p" "b = pl_ChangeId q" by auto
    with e show "a = b" by (simp add: change_map_Some [OF assms(2)])
  qed
  then show "distinct (updated iter orig new)"
    unfolding updated_def by (simp add: distinct_map iter_distinct [OF assms(1)])
qed

lemma permute_by_key:
  assumes "distinct (map f xs)" "distinct ks" "set ks = f ` set xs"
  obtains ys where "mset ys = mset xs" "map f ys = ks"
proof -
  define ys where "ys = map (the_inv_into (set xs) f) ks"
  have inj: "inj_on f (set xs)" using assms(1) by (simp add: distinct_map)
  have fk: "f (the_inv_into (set xs) f k) = k" "the_inv_into (set xs) f k \<in> set xs" if "k \<in> set ks" for k
    using that assms(3) inj by (auto simp: f_the_inv_into_f intro: the_inv_into_into)
  have "map f ys = ks" using fk(1) by (simp add: ys_def map_idI)
  moreover have "mset ys = mset xs"
  proof -
    have "distinct ys" using calculation assms(2) by (metis distinct_map)
    moreover have "set ys = set xs"
      using inj assms(3) the_inv_into_onto [OF inj] by (simp add: ys_def)
    moreover have "distinct xs" using assms(1) by (simp add: distinct_map)
    ultimately show ?thesis using set_eq_iff_mset_eq_distinct by blast
  qed
  ultimately show thesis by (rule that [rotated])
qed

lemma pointwise_by_key:
  assumes "map f ys = map f zs" "distinct (map f zs)" "\<And>y. y \<in> set ys \<Longrightarrow> \<exists>z \<in> set zs. f y = f z \<and> R y z"
  shows "list_all2 R ys zs"
proof (rule list_all2_all_nthI)
  show len: "length ys = length zs" using assms(1) map_eq_imp_length_eq by blast
  fix i assume i: "i < length ys"
  then have k: "f (ys ! i) = f (zs ! i)" using assms(1) len by (metis nth_map)
  from i assms(3) [of "ys ! i"] obtain z where z: "z \<in> set zs" "f (ys ! i) = f z" "R (ys ! i) z" by auto
  have "zs ! i \<in> set zs" using i len by simp
  with z(1,2) k assms(2) have "z = zs ! i" by (metis distinct_map inj_onD)
  with z(3) show "R (ys ! i) (zs ! i)" by simp
qed

lemma distinct_set_singleton:
  assumes "distinct ys" "set ys = {x}"
  shows "ys = [x]"
proof (cases ys)
  case (Cons y zs)
  with assms have "y = x" "set zs \<subseteq> {x}" "x \<notin> set zs" by auto
  then have "set zs = {}" using subset_singletonD [of "set zs" x] by auto
  with Cons \<open>y = x\<close> show ?thesis by simp
qed (use assms in simp)

lemma filter_unique:
  assumes "distinct xs" "x \<in> set xs" "P x" "\<And>y. y \<in> set xs \<Longrightarrow> P y \<Longrightarrow> y = x"
  shows "filter P xs = [x]"
proof (rule distinct_set_singleton)
  show "set (filter P xs) = {x}"
  proof (rule set_eqI)
    fix y
    show "y \<in> set (filter P xs) \<longleftrightarrow> y \<in> {x}"
      unfolding set_filter mem_Collect_eq singleton_iff using assms(2,3) assms(4) [of y] by metis
  qed
qed (simp add: assms(1))

lemma joined_keys:
  assumes "distinct (map f ps)" "map f rows = map f as" "distinct (map f as)" "f ` set as = N - f ` set ps"
  shows "distinct (map f (filter (\<lambda>p. f p \<in> N) ps @ rows))" "f ` set (filter (\<lambda>p. f p \<in> N) ps @ rows) = N"
proof -
  have k: "f ` set (filter (\<lambda>p. f p \<in> N) ps) = f ` set ps \<inter> N" by auto
  have r: "f ` set rows = N - f ` set ps" using arg_cong [OF assms(2), of set] assms(4) by simp
  show "distinct (map f (filter (\<lambda>p. f p \<in> N) ps @ rows))"
    unfolding map_append distinct_append set_map k r using assms(1-3) distinct_map_filter [OF assms(1)] by auto
  show "f ` set (filter (\<lambda>p. f p \<in> N) ps @ rows) = N" unfolding set_append image_Un k r by blast
qed

text \<open>What the constraints of the tables and the numbering of rounds guarantee.\<close>

definition tables_ok :: "PullDb \<Rightarrow> bool" where
  "tables_ok db \<longleftrightarrow>
     distinct (map Pull_AtUri (pd_pulls db)) \<and> distinct (map (\<lambda>p. (pl_RepoAt p, pl_PullId p)) (pd_pulls db)) \<and>
     (\<forall>p \<in> set (pd_pulls db). map sb_RoundNumber (pl_Submissions p) = map int [0..<length (pl_Submissions p)])"

definition tidy :: "Pull \<Rightarrow> Pull" where
  "tidy p = p\<lparr>pl_Submissions := sort_key sb_RoundNumber (pl_Submissions p)\<rparr>"

lemma tidy_fields [simp]:
  "pl_ChangeId (tidy p) = pl_ChangeId p" "pl_ParentChangeId (tidy p) = pl_ParentChangeId p" "pl_State (tidy p) = pl_State p"
  "pl_RepoAt (tidy p) = pl_RepoAt p" "pl_PullId (tidy p) = pl_PullId p" "pl_OwnerDid (tidy p) = pl_OwnerDid p"
  "Pull_AtUri (tidy p) = Pull_AtUri p" "length (pl_Submissions (tidy p)) = length (pl_Submissions p)"
  by (simp_all add: tidy_def)

lemma add_rounds_fields [simp]:
  "pl_ChangeId (add_rounds now ups p) = pl_ChangeId p" "pl_StackId (add_rounds now ups p) = pl_StackId p"
  "pl_State (add_rounds now ups p) = pl_State p" "pl_ParentChangeId (add_rounds now ups p) = pl_ParentChangeId p"
  "same_change (add_rounds now ups p) = same_change p"
  by (simp_all add: add_rounds_def)

lemma reparent_fields [simp]:
  "pl_ChangeId (reparent new p) = pl_ChangeId p" "pl_StackId (reparent new p) = pl_StackId p"
  "pl_State (reparent new p) = pl_State p" "pl_Submissions (reparent new p) = pl_Submissions p"
  by (simp_all add: reparent_def split: option.split)

lemma reparent_parent:
  assumes "distinct (map pl_ChangeId new)" "q \<in> set new" "same_change p q"
  shows "pl_ParentChangeId (reparent new p) = pl_ParentChangeId q"
proof -
  obtain r where r: "find (same_change p) (rev new) = Some r"
    using assms(2,3) by (cases "find (same_change p) (rev new)") (auto simp: find_None_iff)
  then have "r \<in> set new" "same_change p r" by (auto simp: find_Some_iff in_set_conv_nth intro: nth_mem [of _ "rev new", simplified])
  then have "r = q" using assms by (auto simp: same_change_def distinct_map inj_on_def)
  with r show ?thesis by (simp add: reparent_def)
qed

lemma kept_pulls:
  assumes ok: "tables_ok db"
    and orig: "set orig = tidy ` {p \<in> set (pd_pulls db). pl_StackId p = stackId \<and> pl_State p \<noteq> PullDeleted}"
    and ds: "set ds = {p \<in> set orig. pl_ChangeId p \<notin> N}"
    and merged: "\<forall>p \<in> set orig. pl_State p = PullMerged \<longrightarrow> pl_ChangeId p \<in> N"
  shows "filter (\<lambda>p. pl_StackId p = stackId \<and> pl_State p \<noteq> PullDeleted) (map (mark_deleted ds) (pd_pulls db)) =
    filter (\<lambda>p. pl_ChangeId p \<in> N) (filter (\<lambda>p. pl_StackId p = stackId \<and> pl_State p \<noteq> PullDeleted) (pd_pulls db))"
proof -
  let ?F = "\<lambda>p. pl_StackId p = stackId \<and> pl_State p \<noteq> PullDeleted"
  have marked: "mark_deleted ds p = (if pl_ChangeId p \<in> N then p else p\<lparr>pl_State := PullDeleted\<rparr>)"
    if p: "p \<in> set (pd_pulls db)" "?F p" for p
  proof -
    have tp: "tidy p \<in> set orig" using p orig by blast
    have "(\<exists>q \<in> set ds. pl_State q \<noteq> PullMerged \<and> pl_RepoAt p = pl_RepoAt q \<and> pl_PullId p = pl_PullId q) \<longleftrightarrow> pl_ChangeId p \<notin> N"
    proof
      assume "\<exists>q \<in> set ds. pl_State q \<noteq> PullMerged \<and> pl_RepoAt p = pl_RepoAt q \<and> pl_PullId p = pl_PullId q"
      then obtain q where q: "q \<in> set orig" "pl_ChangeId q \<notin> N" "pl_RepoAt p = pl_RepoAt q" "pl_PullId p = pl_PullId q"
        using ds by blast
      then obtain p' where p': "p' \<in> set (pd_pulls db)" "q = tidy p'" using orig by blast
      with q p ok have "p' = p" by (auto simp: tables_ok_def distinct_map inj_on_def)
      with q(2) p'(2) show "pl_ChangeId p \<notin> N" by simp
    next
      assume "pl_ChangeId p \<notin> N"
      with tp ds merged have "tidy p \<in> set ds" "pl_State (tidy p) \<noteq> PullMerged" by auto
      then show "\<exists>q \<in> set ds. pl_State q \<noteq> PullMerged \<and> pl_RepoAt p = pl_RepoAt q \<and> pl_PullId p = pl_PullId q"
        by (intro bexI [of _ "tidy p"]) simp_all
    qed
    then show ?thesis unfolding mark_deleted_def by simp
  qed
  have F: "?F (mark_deleted ds p) \<longleftrightarrow> ?F p \<and> pl_ChangeId p \<in> N" if "p \<in> set (pd_pulls db)" for p
  proof (cases "?F p")
    case True
    with marked [OF that] show ?thesis by simp
  next
    case False
    then show ?thesis by (auto simp: mark_deleted_def)
  qed
  have "filter ?F (map (mark_deleted ds) (pd_pulls db)) =
      map (mark_deleted ds) (filter (\<lambda>p. ?F p \<and> pl_ChangeId p \<in> N) (pd_pulls db))"
    unfolding filter_map comp_def by (rule arg_cong [OF filter_cong [OF refl F]])
  also have "\<dots> = filter (\<lambda>p. ?F p \<and> pl_ChangeId p \<in> N) (pd_pulls db)"
    using marked by (intro map_idI) auto
  finally show ?thesis by (simp only: filter_filter conj_assoc)
qed
text \<open>A pull as it is read after the resubmission, against the pull of the new series it stands for.\<close>

definition renewed :: "Pull \<Rightarrow> Pull \<Rightarrow> bool" where
  "renewed y q \<longleftrightarrow>
     pl_ParentChangeId y = pl_ParentChangeId q \<and> (pl_State y \<noteq> PullMerged \<longrightarrow> LatestPatch y = LatestPatch q)"

lemma tidy_extended:
  assumes "map sb_RoundNumber ss = map int [0..<length ss]" "sb_RoundNumber s = int (length ss)"
  shows "sort_key sb_RoundNumber (ss @ [s]) = ss @ [s]"
proof (rule sort_key_id_if_sorted)
  have "map sb_RoundNumber (ss @ [s]) = map int [0..<Suc (length ss)]" using assms by simp
  moreover have "sorted (map int [0..<Suc (length ss)])" by (simp add: sorted_iff_nth_mono del: upt_Suc)
  ultimately show "sorted (map sb_RoundNumber (ss @ [s]))" by (simp only:)
qed

lemma kept_renewed:
  assumes p: "tables_ok db" "p \<in> set (pd_pulls db)" "op = tidy p" "op \<in> set orig" "same_change p q"
    and q: "q \<in> set new" "length (pl_Submissions q) = 1" "distinct (map pl_ChangeId new)"
    and orig: "set orig \<subseteq> tidy ` set (pd_pulls db)"
    and ups: "set ups = {(op, np). op \<in> set orig \<and> np \<in> set new \<and> pl_ChangeId op = pl_ChangeId np}" "distinct ups"
  shows "renewed (tidy (reparent new (add_rounds now ups p))) q"
  unfolding renewed_def
proof (intro conjI impI)
  let ?g = "reparent new (add_rounds now ups p)"
  show "pl_ParentChangeId (tidy ?g) = pl_ParentChangeId q"
    using reparent_parent [OF q(3,1), of "add_rounds now ups p"] p(5) by simp
  assume "pl_State (tidy ?g) \<noteq> PullMerged"
  then have open_p: "pl_State op \<noteq> PullMerged" using p(3) by simp
  have cid: "pl_ChangeId p = pl_ChangeId q" using p(5) by (simp add: same_change_def)
  have "filter (\<lambda>(op, np). pl_State op \<noteq> PullMerged \<and> Pull_AtUri op = Pull_AtUri p) ups = [(op, q)]"
  proof (rule filter_unique [OF ups(2)])
    show "(op, q) \<in> set ups" using ups(1) p(3,4) q(1) cid by simp
    show "case (op, q) of (op, np) \<Rightarrow> pl_State op \<noteq> PullMerged \<and> Pull_AtUri op = Pull_AtUri p" using open_p p(3) by simp
    fix y assume y: "y \<in> set ups" "case y of (op, np) \<Rightarrow> pl_State op \<noteq> PullMerged \<and> Pull_AtUri op = Pull_AtUri p"
    obtain o1 n1 where y1: "y = (o1, n1)" by (cases y)
    with y ups(1) have n: "o1 \<in> set orig" "n1 \<in> set new" "pl_ChangeId o1 = pl_ChangeId n1" "Pull_AtUri o1 = Pull_AtUri p" by auto
    then obtain p1 where p1: "p1 \<in> set (pd_pulls db)" "o1 = tidy p1" using orig by blast
    have "inj_on Pull_AtUri (set (pd_pulls db))" using p(1) by (simp add: tables_ok_def distinct_map)
    with p1 n(4) p(2) have "p1 = p" by (metis inj_onD tidy_fields(7))
    moreover have "n1 = q" using n(2,3) p1 \<open>p1 = p\<close> cid q(1,3) by (metis distinct_map inj_onD tidy_fields(1))
    ultimately show "y = (op, q)" using y1 p1 p(3) by simp
  qed
  then have subs: "\<exists>s. pl_Submissions ?g = pl_Submissions p @ [s] \<and> sb_RoundNumber s = int (length (pl_Submissions p)) \<and>
      sb_Patch s = sb_Patch (last (pl_Submissions q))"
    using p(3) by (simp add: add_rounds_def rounds_for_def)
  then obtain s where s: "pl_Submissions ?g = pl_Submissions p @ [s]" "sb_RoundNumber s = int (length (pl_Submissions p))"
    "sb_Patch s = sb_Patch (last (pl_Submissions q))" by blast
  have "map sb_RoundNumber (pl_Submissions p) = map int [0..<length (pl_Submissions p)]" using p(1,2) by (simp add: tables_ok_def)
  from tidy_extended [OF this s(2)] s(1) have "pl_Submissions (tidy ?g) = pl_Submissions p @ [s]" by (simp add: tidy_def)
  with s(3) q(2) show "LatestPatch (tidy ?g) = LatestPatch q"
    by (auto simp: LatestPatch_def LatestSubmission_last)
qed

lemma added_renewed:
  assumes a: "a \<in> set new" "stored_as a row" "length (pl_Submissions a) = 1" "distinct (map pl_ChangeId new)"
    and uri: "Pull_AtUri a \<notin> Pull_AtUri ` set orig"
    and ups: "set ups = {(op, np). op \<in> set orig \<and> np \<in> set new \<and> pl_ChangeId op = pl_ChangeId np}"
  shows "renewed (tidy (reparent new (add_rounds now ups row))) a"
proof -
  note f = stored_as_fields [OF a(2)]
  have "filter (\<lambda>(op, np). pl_State op \<noteq> PullMerged \<and> Pull_AtUri op = Pull_AtUri row) ups = []"
    unfolding filter_empty_conv ups(1)
  proof (intro ballI notI)
    fix x
    assume x: "x \<in> {(op, np). op \<in> set orig \<and> np \<in> set new \<and> pl_ChangeId op = pl_ChangeId np}"
      "case x of (op, np) \<Rightarrow> pl_State op \<noteq> PullMerged \<and> Pull_AtUri op = Pull_AtUri row"
    then have "Pull_AtUri a = Pull_AtUri (fst x)" "fst x \<in> set orig" using f(6) by auto
    with uri show False by (metis imageI)
  qed
  then have "add_rounds now ups row = row" by (simp add: add_rounds_def rounds_for_def)
  moreover have "same_change row a" using f by (simp add: same_change_def)
  moreover obtain s where "pl_Submissions a = [s]" using a(3) by (auto simp: length_Suc_conv)
  ultimately show ?thesis
    using reparent_parent [OF a(4,1), of row] f(8)
    by (simp add: renewed_def LatestPatch_def LatestSubmission_last tidy_def)
qed
lemma build_stack_owner:
  "build_stack E repoAt did tb src stackId i par fps = Inr ps \<Longrightarrow>
    \<forall>p \<in> set ps. pl_RepoAt p = repoAt \<and> pl_OwnerDid p = did"
  by (induction fps arbitrary: i par ps) (auto simp: initial_pull_def map_sum_Inr_iff split: option.splits)

lemma newStack_owner:
  assumes "newStack penv E repoAt did tb patch src stackId = Inr stack" "p \<in> set stack"
  shows "pl_RepoAt p = repoAt" "pl_OwnerDid p = did"
  using assms build_stack_owner by (auto simp: newStack_def split: sum.splits if_splits)

lemma resubmitted:
  assumes "resubmitStackedPullHelper iter penv E P repoAt did pull patch stackId orig st = (Location, st')"
  obtains new where "newStack penv E repoAt did (pl_TargetBranch pull) patch (pl_PullSource pull) stackId = Inr new"
    "resubmit_db iter (np_now E) (pst_db st) orig new = Inr (pst_db st')"
proof (cases "newStack penv E repoAt did (pl_TargetBranch pull) patch (pl_PullSource pull) stackId")
  case (Inr new)
  then show thesis
  proof (cases "resubmit_db iter (np_now E) (pst_db st) orig new")
    case (Inl e)
    with Inr assms show thesis by (cases e) (auto simp: resubmitStackedPullHelper_def split: if_splits)
  next
    case (Inr db')
    with \<open>newStack _ _ _ _ _ _ _ _ = Inr new\<close> assms have "pst_db st' = db'"
      by (cases "stack_writes iter P patch orig new") (auto simp: resubmitStackedPullHelper_def split: if_splits)
    with Inr \<open>newStack _ _ _ _ _ _ _ _ = Inr new\<close> that show thesis by blast
  qed
qed (use assms in \<open>simp add: resubmitStackedPullHelper_def\<close>)

text \<open>The stack that the tables hold under an identifier.\<close>

definition stack_in :: "PullDb \<Rightarrow> string \<Rightarrow> Stack \<Rightarrow> bool" where
  "stack_in db stackId ps \<longleftrightarrow>
     distinct (map pl_ChangeId ps) \<and>
     mset ps = mset (map tidy (filter (\<lambda>p. pl_StackId p = stackId \<and> pl_State p \<noteq> PullDeleted) (pd_pulls db)))"

lemma resubmit_db_rows:
  assumes ok: "tables_ok db" "stack_in db stackId orig" "resubmit_db iter now db orig new = Inr db'"
    and iter: "\<And>xs. mset (iter xs) = mset xs"
    and new: "distinct (map pl_ChangeId new)" "\<And>p. p \<in> set new \<Longrightarrow> pl_StackId p = stackId \<and> length (pl_Submissions p) = 1"
    and own: "\<And>p q. p \<in> set orig \<Longrightarrow> q \<in> set new \<Longrightarrow> pl_ChangeId p = pl_ChangeId q \<Longrightarrow> same_change p q"
    and merged: "\<forall>p \<in> set orig. pl_State p = PullMerged \<longrightarrow> pl_ChangeId p \<in> pl_ChangeId ` set new"
  obtains xs where "mset xs = mset (map tidy (filter (\<lambda>p. pl_StackId p = stackId \<and> pl_State p \<noteq> PullDeleted) (pd_pulls db')))"
    "distinct (map pl_ChangeId xs)" "pl_ChangeId ` set xs = pl_ChangeId ` set new"
    "\<And>x. x \<in> set xs \<Longrightarrow> \<exists>q \<in> set new. pl_ChangeId x = pl_ChangeId q \<and> renewed x q"
proof -
  let ?F = "\<lambda>p. pl_StackId p = stackId \<and> pl_State p \<noteq> PullDeleted"
  let ?N = "pl_ChangeId ` set new"
  let ?g = "reparent new \<circ> add_rounds now (updated iter orig new)"
  let ?K = "filter (\<lambda>p. pl_ChangeId p \<in> ?N) (filter ?F (pd_pulls db))"
  from ok(2) have orig: "distinct (map pl_ChangeId orig)" "mset orig = mset (map tidy (filter ?F (pd_pulls db)))"
    by (auto simp: stack_in_def)
  have oset: "set orig = tidy ` {p \<in> set (pd_pulls db). ?F p}" using mset_eq_setD [OF orig(2)] by simp
  obtain rows where r: "list_all2 stored_as (additions iter orig new) rows"
    "\<And>p. p \<in> set (additions iter orig new) \<Longrightarrow> Pull_AtUri p \<notin> Pull_AtUri ` set (pd_pulls db)"
    "pd_pulls db' = map ?g (map (mark_deleted (deletions iter orig new)) (pd_pulls db) @ rows)"
    by (rule resubmit_db_spec [OF ok(3)]) blast
  note a = additions_set [where iter = iter, OF iter new(1), of orig]
  note u = updated_set [where iter = iter, OF iter orig(1) new(1)]
  have rowF: "?F x" if "x \<in> set rows" for x
  proof -
    from list_all2_rightD [OF r(1) that] obtain p where "p \<in> set new" "stored_as p x" using a(1) by blast
    with stored_as_fields [of p x] new(2) [of p] show ?thesis by simp
  qed
  have ids_rows: "map pl_ChangeId rows = map pl_ChangeId (additions iter orig new)"
    using r(1) by (induction rule: list_all2_induct) (auto simp: stored_as_fields)
  have K: "filter ?F (map (mark_deleted (deletions iter orig new)) (pd_pulls db)) = ?K"
    by (rule kept_pulls [OF ok(1) oset deletions_set [where iter = iter, OF iter orig(1)] merged])
  have F: "filter ?F (pd_pulls db') = map ?g (?K @ rows)"
  proof -
    have "filter ?F (map ?g xs) = map ?g (filter ?F xs)" for xs by (simp add: filter_map comp_def)
    then show ?thesis using rowF by (simp only: r(3) filter_append K) (simp add: filter_True)
  qed
  show thesis
  proof (rule that [of "map tidy (map ?g (?K @ rows))"])
    show "mset (map tidy (map ?g (?K @ rows))) = mset (map tidy (filter ?F (pd_pulls db')))" by (simp only: F)
    have ids: "map pl_ChangeId (map tidy (map ?g (?K @ rows))) = map pl_ChangeId (?K @ rows)" by simp
    have "mset (map pl_ChangeId orig) = mset (map pl_ChangeId (filter ?F (pd_pulls db)))"
      using arg_cong [OF orig(2), of "image_mset pl_ChangeId"] by (simp add: comp_def multiset.map_comp)
    then have dF: "distinct (map pl_ChangeId (filter ?F (pd_pulls db)))" using orig(1) mset_eq_imp_distinct_iff by blast
    have "pl_ChangeId ` set (additions iter orig new) = ?N - pl_ChangeId ` set (filter ?F (pd_pulls db))"
    proof -
      have "pl_ChangeId ` set orig = pl_ChangeId ` set (filter ?F (pd_pulls db))" by (simp add: oset image_image)
      then show ?thesis unfolding a(1) by auto
    qed
    note joined = joined_keys [OF dF ids_rows a(2) this]
    show "distinct (map pl_ChangeId (map tidy (map ?g (?K @ rows))))" using joined(1) by (simp only: ids)
    show "pl_ChangeId ` set (map tidy (map ?g (?K @ rows))) = ?N"
      using arg_cong [OF ids, of set] joined(2) by (simp only: set_map)
    fix x assume "x \<in> set (map tidy (map ?g (?K @ rows)))"
    then obtain p where x: "x = tidy (?g p)" and "p \<in> set ?K \<or> p \<in> set rows" by auto
    then show "\<exists>q \<in> set new. pl_ChangeId x = pl_ChangeId q \<and> renewed x q"
    proof (elim disjE)
      assume "p \<in> set ?K"
      then obtain q where p: "p \<in> set (pd_pulls db)" "tidy p \<in> set orig" "q \<in> set new" "pl_ChangeId p = pl_ChangeId q"
        using oset by auto
      with own [of "tidy p" q] have "same_change p q" by (simp add: same_change_def)
      then have "renewed (tidy (reparent new (add_rounds now (updated iter orig new) p))) q"
        using p oset new by (intro kept_renewed [OF ok(1) p(1) refl p(2) _ p(3) _ new(1) _ u]) auto
      with x p show ?thesis by (intro bexI [of _ q]) auto
    next
      assume "p \<in> set rows"
      from list_all2_rightD [OF r(1) this] obtain q where q: "q \<in> set (additions iter orig new)" "stored_as q p" by blast
      then have n: "q \<in> set new" using a(1) by simp
      have "Pull_AtUri q \<notin> Pull_AtUri ` set orig" using r(2) [OF q(1)] by (auto simp: oset)
      then have "renewed (tidy (reparent new (add_rounds now (updated iter orig new) p))) q"
        using new(2) [OF n] by (intro added_renewed [OF n q(2) _ new(1) _ u(1)]) auto
      with x n stored_as_fields(1) [OF q(2)] show ?thesis by (intro bexI [of _ q]) auto
    qed
  qed
qed
lemma series_ids:
  assumes "map (Some \<circ> pl_ChangeId) new = map ChangeId fps" "distinct (map ChangeId fps)" "Some [] \<notin> ChangeId ` set fps"
  shows "distinct (map pl_ChangeId new)" "[] \<notin> pl_ChangeId ` set new"
    "Some c \<in> ChangeId ` set fps \<longleftrightarrow> c \<in> pl_ChangeId ` set new"
proof -
  have ids: "map Some (map pl_ChangeId new) = map ChangeId fps" using assms(1) by simp
  then have "distinct (map Some (map pl_ChangeId new))" using assms(2) by (simp only:)
  then show "distinct (map pl_ChangeId new)" by (rule distinct_map [THEN iffD1, THEN conjunct1])
  have s: "Some ` pl_ChangeId ` set new = ChangeId ` set fps" using arg_cong [OF ids, of set] by (simp add: image_image)
  then show "[] \<notin> pl_ChangeId ` set new" "Some c \<in> ChangeId ` set fps \<longleftrightarrow> c \<in> pl_ChangeId ` set new"
    using assms(3) by (auto simp: s [symmetric])
qed

lemma stack_ok_renewed:
  assumes "map pl_ChangeId ys = map pl_ChangeId (rev new)" "list_all2 renewed ys (rev new)"
    and new: "new \<noteq> []" "bottom_up [] new" "distinct (map pl_ChangeId new)" "[] \<notin> pl_ChangeId ` set new"
  shows "stack_ok ys"
  unfolding stack_ok_def
proof (intro conjI)
  have "map pl_ParentChangeId ys = map pl_ParentChangeId (rev new)"
    using assms(2) by (induction rule: list_all2_induct) (auto simp: renewed_def)
  then have "bottom_up [] (rev ys)"
    using assms(1) by (intro bottom_up_rows [OF _ _ new(2)]) (simp_all add: rev_map [symmetric])
  moreover have "rev ys \<noteq> []" using assms(1) new(1) by auto
  ultimately show "chain ys" using bottom_up_rev [of "rev ys"] by simp
  show "distinct (map pl_ChangeId ys)" using assms(1) new(3) by (simp add: rev_map [symmetric])
  have "pl_ChangeId ` set ys = pl_ChangeId ` set new" using arg_cong [OF assms(1), of set] by simp
  then show "[] \<notin> pl_ChangeId ` set ys" using new(4) by simp
qed

lemma renewed_series:
  assumes "map pl_ChangeId ys = map pl_ChangeId qs" "list_all2 renewed ys qs"
    "list_all2 (\<lambda>q fp. ChangeId fp = Some (pl_ChangeId q) \<and> LatestPatch q = Some (fp_Raw fp)) qs fps"
  shows "list_all2 (\<lambda>p fp. ChangeId fp = Some (pl_ChangeId p) \<and> (pl_State p \<noteq> PullMerged \<longrightarrow> LatestPatch p = Some (fp_Raw fp))) ys fps"
  using assms by (auto simp: list_all2_conv_all_nth list_eq_iff_nth_eq renewed_def)

lemma series_pairs:
  assumes "map (Some \<circ> pl_ChangeId) new = map ChangeId fps" "map LatestPatch new = map (Some \<circ> fp_Raw) fps"
  shows "list_all2 (\<lambda>q fp. ChangeId fp = Some (pl_ChangeId q) \<and> LatestPatch q = Some (fp_Raw fp)) new fps"
  using assms by (induction new arbitrary: fps) (auto simp: map_eq_Cons_conv)

text \<open>
  C2. Resubmitting a stack replaces it by the new series: if the tables are consistent, the pulls of the
  stack belong to the user and the repository, the changes of the series differ and none is empty, and every
  merged pull of the stack is still in the series, then after a successful request the stack read back has
  exactly the changes of the series, the last patch on top, and every pull that is not merged has the patch
  of the series as its newest submission. This holds in whatever order maps are traversed and rows are returned.
\<close>

theorem resubmitted_stack_is_the_series:
  assumes request: "resubmitStackedPullHelper iter penv E P repoAt did pull patch stackId orig st = (Location, st')"
    and tables: "tables_ok (pst_db st)" "stack_in (pst_db st) stackId orig"
    and own: "\<And>p. p \<in> set orig \<Longrightarrow> pl_RepoAt p = repoAt \<and> pl_OwnerDid p = did"
    and series: "ExtractPatches penv patch = Inr fps" "distinct (map ChangeId fps)" "Some [] \<notin> ChangeId ` set fps"
    and merged: "\<And>p. p \<in> set orig \<Longrightarrow> pl_State p = PullMerged \<Longrightarrow> Some (pl_ChangeId p) \<in> ChangeId ` set fps"
    and orders: "\<And>xs. mset (iter xs) = mset xs" "\<And>xs. mset (order_by xs) = mset xs"
  shows "\<exists>ps. GetStack order_by (pst_db st') stackId = Some (Inr ps) \<and>
    list_all2 (\<lambda>p fp. ChangeId fp = Some (pl_ChangeId p) \<and> (pl_State p \<noteq> PullMerged \<longrightarrow> LatestPatch p = Some (fp_Raw fp))) ps (rev fps)"
proof -
  let ?F = "\<lambda>p. pl_StackId p = stackId \<and> pl_State p \<noteq> PullDeleted"
  obtain new where new: "newStack penv E repoAt did (pl_TargetBranch pull) patch (pl_PullSource pull) stackId = Inr new"
    "resubmit_db iter (np_now E) (pst_db st) orig new = Inr (pst_db st')" by (rule resubmitted [OF request])
  from newStack_spec [OF new(1)] series(1) have n: "new \<noteq> []" "bottom_up [] new"
    "map (Some \<circ> pl_ChangeId) new = map ChangeId fps" "map LatestPatch new = map (Some \<circ> fp_Raw) fps"
    "\<And>p. p \<in> set new \<Longrightarrow> pl_StackId p = stackId \<and> length (pl_Submissions p) = 1" by auto
  note ids = series_ids [OF n(3) series(2,3)]
  have mrg: "\<forall>p \<in> set orig. pl_State p = PullMerged \<longrightarrow> pl_ChangeId p \<in> pl_ChangeId ` set new"
    using merged ids(3) by auto
  have same: "same_change p q" if "p \<in> set orig" "q \<in> set new" "pl_ChangeId p = pl_ChangeId q" for p q
    using own [OF that(1)] newStack_owner [OF new(1) that(2)] that(3) by (simp add: same_change_def)
  obtain xs where xs: "mset xs = mset (map tidy (filter ?F (pd_pulls (pst_db st'))))" "distinct (map pl_ChangeId xs)"
    "pl_ChangeId ` set xs = pl_ChangeId ` set new"
    "\<And>x. x \<in> set xs \<Longrightarrow> \<exists>q \<in> set new. pl_ChangeId x = pl_ChangeId q \<and> renewed x q"
    by (rule resubmit_db_rows [OF tables new(2) orders(1) ids(1) n(5) same mrg], assumption+) (rule that)
  obtain ys where ys: "mset ys = mset xs" "map pl_ChangeId ys = map pl_ChangeId (rev new)"
  proof (rule permute_by_key [OF xs(2)])
    show "distinct (map pl_ChangeId (rev new))" using ids(1) by (simp add: rev_map [symmetric])
    show "set (map pl_ChangeId (rev new)) = pl_ChangeId ` set xs" using xs(3) by simp
  qed
  have R: "list_all2 renewed ys (rev new)"
  proof (rule pointwise_by_key [OF ys(2)])
    show "distinct (map pl_ChangeId (rev new))" using ids(1) by (simp add: rev_map [symmetric])
    fix y assume "y \<in> set ys"
    then show "\<exists>z \<in> set (rev new). pl_ChangeId y = pl_ChangeId z \<and> renewed y z" using xs(4) [of y] mset_eq_setD [OF ys(1)] by simp
  qed
  have "stack_ok ys" by (rule stack_ok_renewed [OF ys(2) R n(1,2) ids(1,2)])
  moreover have "mset (GetPulls order_by ?F (pst_db st')) = mset ys"
    using xs(1) ys(1) by (simp add: GetPulls_def orders(2) tidy_def [abs_def])
  ultimately have "GetStack order_by (pst_db st') stackId = Some (Inr ys)" by (rule GetStack_chain)
  moreover have "list_all2 (\<lambda>q fp. ChangeId fp = Some (pl_ChangeId q) \<and> LatestPatch q = Some (fp_Raw fp)) (rev new) (rev fps)"
    using series_pairs [OF n(3,4)] by simp
  ultimately show ?thesis using renewed_series [OF ys(2) R] by blast
qed

definition sample_stack :: Stack where
  "sample_stack = rev (map tidy (pd_pulls (pst_db (snd (sample_created ''ab'')))))"

definition sample_resubmitted :: "outcome \<times> PullsState" where
  "sample_resubmitted =
     resubmitStackedPullHelper rev sample_patch_env (sample_pull_env\<lparr>np_rkey := \<lambda>i. replicate (Suc i) CHR ''m''\<rparr>) sample_pds
       ''at://o/r/1'' ''did:a'' (hd sample_stack) (sample_series ''ac'') ''s'' sample_stack (snd (sample_created ''ab''))"

lemma sample_stack_facts:
  "fst sample_resubmitted = Location"
  "list_all (\<lambda>p. pl_StackId p = ''s'' \<and> pl_State p \<noteq> PullDeleted) (pd_pulls (pst_db (snd (sample_created ''ab''))))"
  "distinct (map pl_ChangeId sample_stack)"
  "list_all (\<lambda>p. pl_RepoAt p = ''at://o/r/1'' \<and> pl_OwnerDid p = ''did:a'' \<and> pl_State p \<noteq> PullMerged) sample_stack"
  "tables_ok (pst_db (snd (sample_created ''ab'')))"
  by code_simp+

theorem resubmitted_stack_is_the_series_witness:
  "\<exists>p q. GetStack rev (pst_db (snd sample_resubmitted)) ''s'' = Some (Inr [p, q]) \<and> pl_ChangeId p = ''c'' \<and> pl_ChangeId q = ''a''"
proof -
  have r: "resubmitStackedPullHelper rev sample_patch_env (sample_pull_env\<lparr>np_rkey := \<lambda>i. replicate (Suc i) CHR ''m''\<rparr>) sample_pds
      ''at://o/r/1'' ''did:a'' (hd sample_stack) (sample_series ''ac'') ''s'' sample_stack (snd (sample_created ''ab'')) =
      (Location, snd sample_resubmitted)"
    using sample_stack_facts(1) unfolding sample_resubmitted_def by (metis prod.collapse)
  have s: "stack_in (pst_db (snd (sample_created ''ab''))) ''s'' sample_stack"
    using sample_stack_facts(2,3) by (simp add: stack_in_def sample_stack_def list_all_iff)
  have e: "ExtractPatches sample_patch_env (sample_series ''ac'') =
     Inr (map (\<lambda>c. \<lparr>fp_Files = [], fp_RawHeaders = [(''Change-Id'', [[c]])],
       fp_Raw = ''From '' @ replicate 40 CHR ''0'' @ '' '' @ [c]\<rparr>) ''ac'')"
    by code_simp
  have own: "pl_RepoAt p = ''at://o/r/1'' \<and> pl_OwnerDid p = ''did:a''" "pl_State p \<noteq> PullMerged" if "p \<in> set sample_stack" for p
    using that sample_stack_facts(4) by (auto simp: list_all_iff)
  from resubmitted_stack_is_the_series [OF r sample_stack_facts(5) s own(1) e, of rev] own(2)
  show ?thesis by (auto simp: ChangeId_def list_all2_Cons2)
qed

text \<open>
  The condition on merged pulls is needed. When a pull of the stack was merged and the rest is resubmitted
  without it, no pull builds on it any more, and it builds on none. If it has the highest number of the
  stack, because it was added below the others by an earlier resubmission, the stack that is read
  back is this pull alone.
\<close>

lemma merged_pull_hides_stack:
  assumes "GetPulls order_by (\<lambda>p. pl_StackId p = stackId \<and> pl_State p \<noteq> PullDeleted) db = c # us"
    "pl_ParentChangeId c = []" "pl_ChangeId c \<noteq> []" "pl_ChangeId c \<notin> pl_ParentChangeId ` set us"
  shows "GetStack order_by db stackId = Some (Inr [c])"
proof -
  have "stack_loop (change_map (c # us)) c = Some (Inr [c])" using assms(2) by (subst stack_loop.simps) simp
  with assms show ?thesis by (simp add: GetStack_def)
qed

section \<open>Resubmitting a single pull\<close>

definition new_round :: "Time \<Rightarrow> Pull \<Rightarrow> string \<Rightarrow> string \<Rightarrow> string \<Rightarrow> PullSubmission" where
  "new_round now pull patch combined sha =
     \<lparr>sb_PullAt = Pull_AtUri pull, sb_RoundNumber = int (length (pl_Submissions pull)), sb_Patch = patch, sb_Combined = combined,
      sb_Comments = [], sb_SourceRev = sha, sb_Created = now\<rparr>"

lemma resubmit_one_Location:
  assumes "resubmitPullHelper penv E P found message pull patch combined sha st = (Location, st')"
  obtains patch' latest rec src where "ValidatePatch penv (Some patch) = Inr patch'" "LatestSubmission pull = Some latest"
    "patch' \<noteq> sb_Patch latest" "\<not> ((IsBranchBased pull \<or> IsForkBased pull) \<and> sha = sb_SourceRev latest)"
    "Pull_AsRecord (pe_format P) pull = Some rec" "prc_Source rec = Some src"
    "Db_ResubmitPull (np_now E) (pst_db st) (Pull_AtUri pull) (int (length (pl_Submissions pull))) patch' combined sha = Some (pst_db st')"
proof (cases "ValidatePatch penv (Some patch)")
  case (Inr patch')
  note defs = resubmitPullHelper_def Inr sum.case
  obtain latest where l: "LatestSubmission pull = Some latest" using assms by (cases "LatestSubmission pull") (auto simp: defs)
  obtain db' where d: "Db_ResubmitPull (np_now E) (pst_db st) (Pull_AtUri pull) (int (length (pl_Submissions pull))) patch' combined sha = Some db'"
    using assms by (cases "Db_ResubmitPull (np_now E) (pst_db st) (Pull_AtUri pull) (int (length (pl_Submissions pull))) patch' combined sha")
      (auto simp: defs l split: if_splits)
  obtain rec where r: "Pull_AsRecord (pe_format P) pull = Some rec"
    using assms by (cases "Pull_AsRecord (pe_format P) pull") (auto simp: defs l d split: if_splits)
  obtain src where s: "prc_Source rec = Some src"
    using assms by (cases "prc_Source rec") (auto simp: defs l d r split: if_splits)
  have "pst_db st' = db'" "patch' \<noteq> sb_Patch latest" "\<not> ((IsBranchBased pull \<or> IsForkBased pull) \<and> sha = sb_SourceRev latest)"
    using assms s by (auto simp: defs l d r Let_def split: if_splits)
  with that Inr l r s d show thesis by blast
qed (use assms in \<open>simp add: resubmitPullHelper_def\<close>)

lemma resubmit_one_failed:
  "fst (resubmitPullHelper penv E P found message pull patch combined sha st) \<noteq> Location \<Longrightarrow>
   pst_db (snd (resubmitPullHelper penv E P found message pull patch combined sha st)) = pst_db st"
  by (auto simp: resubmitPullHelper_def Let_def split: sum.splits option.splits if_splits)

text \<open>
  A pull that is no stack is resubmitted only with a valid patch that differs from the last one and, as
  it must have a source, with a new revision; then the pull gets one more round with this patch, and no
  other pull changes. In every other case the tables stay as they were. A pull made from a patch alone is
  never resubmitted: its record has no source, and the handler panics on it.
\<close>

theorem resubmitPullHelper_correct:
  "(case resubmitPullHelper penv E P found message pull patch combined sha st of (res, st') \<Rightarrow>
     if res = Location
     then \<not> IsPatchBased pull \<and>
       (\<exists>patch' latest. ValidatePatch penv (Some patch) = Inr patch' \<and> LatestSubmission pull = Some latest \<and>
          patch' \<noteq> sb_Patch latest \<and> sha \<noteq> sb_SourceRev latest \<and>
          pd_pulls (pst_db st') = map (\<lambda>p. if Pull_AtUri p = Pull_AtUri pull
            then p\<lparr>pl_Submissions := pl_Submissions p @ [new_round (np_now E) pull patch' combined sha]\<rparr> else p) (pd_pulls (pst_db st)))
     else pst_db st' = pst_db st)"
proof -
  obtain res st' where r: "resubmitPullHelper penv E P found message pull patch combined sha st = (res, st')" by fastforce
  show ?thesis
  proof (cases "res = Location")
    case True
    with r have "resubmitPullHelper penv E P found message pull patch combined sha st = (Location, st')" by simp
    then obtain patch' latest rec src where *: "ValidatePatch penv (Some patch) = Inr patch'" "LatestSubmission pull = Some latest"
      "patch' \<noteq> sb_Patch latest" "\<not> ((IsBranchBased pull \<or> IsForkBased pull) \<and> sha = sb_SourceRev latest)"
      "Pull_AsRecord (pe_format P) pull = Some rec" "prc_Source rec = Some src"
      "Db_ResubmitPull (np_now E) (pst_db st) (Pull_AtUri pull) (int (length (pl_Submissions pull))) patch' combined sha = Some (pst_db st')"
      by (rule resubmit_one_Location)
    from *(5,6) have src: "pl_PullSource pull \<noteq> None" by (auto simp: Pull_AsRecord_def split: option.splits)
    then have "IsBranchBased pull \<or> IsForkBased pull" by (auto simp: IsBranchBased_def IsForkBased_def split: option.split)
    with *(4) have "sha \<noteq> sb_SourceRev latest" by blast
    with * src True r Db_ResubmitPull_spec [OF *(7)] show ?thesis by (simp add: IsPatchBased_def new_round_def)
  next
    case False
    with r resubmit_one_failed [of penv E P found message pull patch combined sha st] show ?thesis by simp
  qed
qed

lemma patch_based_resubmission_panics:
  assumes "IsPatchBased pull" "ValidatePatch penv (Some patch) = Inr patch'" "LatestSubmission pull = Some latest"
    "patch' \<noteq> sb_Patch latest" "pe_client P" "pe_upload P" "found"
    "Db_ResubmitPull (np_now E) (pst_db st) (Pull_AtUri pull) (int (length (pl_Submissions pull))) patch' combined sha = Some db'"
  shows "resubmitPullHelper penv E P found message pull patch combined sha st = (Crash, st)"
  using assms by (simp add: resubmitPullHelper_def Pull_AsRecord_def IsPatchBased_def IsBranchBased_def IsForkBased_def)

section \<open>The invariant of the tables\<close>

text \<open>The requests of users, in any order, with any outcome of the calls to other services. Errors are strings here.\<close>

inductive pulls_reach :: "('s, 'e) Casbin \<Rightarrow> PullsState \<Rightarrow> bool" for C where
  reach_empty: "pulls_reach C \<lparr>pst_db = \<lparr>pd_pulls = [], pd_seqs = Map.empty\<rparr>, pst_pds = []\<rparr>"
| reach_close: "pulls_reach C st \<Longrightarrow> pulls_reach C (st\<lparr>pst_db := fst (ClosePull C s f did stack pull committed (pst_db st))\<rparr>)"
| reach_reopen: "pulls_reach C st \<Longrightarrow> pulls_reach C (st\<lparr>pst_db := fst (ReopenPull C s f did stack pull committed (pst_db st))\<rparr>)"
| reach_merge: "pulls_reach C st \<Longrightarrow> MergePull merge f stack pull committed (pst_db st) = Some (db', merged) \<Longrightarrow>
    pulls_reach C (st\<lparr>pst_db := db'\<rparr>)"
| reach_create: "pulls_reach C st \<Longrightarrow>
    pulls_reach C (snd (createStackedPullRequest (penv :: string PatchEnv) E P repoAt did tb patch sha src stackId st))"
| reach_resubmit: "pulls_reach C st \<Longrightarrow> pull \<in> set (GetPulls order_by flt (pst_db st)) \<Longrightarrow> (\<And>xs. mset (order_by xs) = mset xs) \<Longrightarrow>
    pulls_reach C (snd (resubmitPullHelper (penv :: string PatchEnv) E P found message pull patch combined sha st))"
| reach_resubmit_stack: "pulls_reach C st \<Longrightarrow> GetStack order_by (pst_db st) stackId = Some (Inr orig) \<Longrightarrow>
    (\<And>xs. mset (order_by xs) = mset xs) \<Longrightarrow> (\<And>xs. mset (iter xs) = mset xs) \<Longrightarrow>
    pulls_reach C (snd (resubmitStackedPullHelper iter (penv :: string PatchEnv) E P repoAt did pull patch stackId orig st))"

definition rounds_ok :: "Pull \<Rightarrow> bool" where
  "rounds_ok p \<longleftrightarrow> map sb_RoundNumber (pl_Submissions p) = map int [0..<length (pl_Submissions p)]"

lemma tables_ok_alt:
  "tables_ok db \<longleftrightarrow> distinct (map Pull_AtUri (pd_pulls db)) \<and> distinct (map (\<lambda>p. (pl_RepoAt p, pl_PullId p)) (pd_pulls db)) \<and>
     (\<forall>p \<in> set (pd_pulls db). rounds_ok p)"
  by (simp add: tables_ok_def rounds_ok_def)

lemma tables_ok_map:
  assumes "tables_ok db" "pd_pulls db' = map f (pd_pulls db)"
    "\<And>p. Pull_AtUri (f p) = Pull_AtUri p" "\<And>p. pl_RepoAt (f p) = pl_RepoAt p" "\<And>p. pl_PullId (f p) = pl_PullId p"
    "\<And>p. p \<in> set (pd_pulls db) \<Longrightarrow> rounds_ok p \<Longrightarrow> rounds_ok (f p)"
  shows "tables_ok db'"
  using assms by (simp add: tables_ok_alt comp_def)

lemma tables_ok_states:
  "tables_ok db \<Longrightarrow> tables_ok (update_pulls P (\<lambda>p. p\<lparr>pl_State := x\<rparr>) db)"
  by (rule tables_ok_map [OF _ pulls_of_update]) (auto simp: rounds_ok_def)

lemma Db_NewPull_ok:
  assumes "Db_NewPull now db p = Some (db', p')" "tables_ok db"
  shows "tables_ok db'"
proof -
  define n where "n = (case pd_seqs db (pl_RepoAt p) of None \<Rightarrow> 1 | Some n \<Rightarrow> n)"
  have fresh: "\<forall>q \<in> set (pd_pulls db). Pull_AtUri q \<noteq> Pull_AtUri p \<and> \<not> (pl_RepoAt q = pl_RepoAt p \<and> pl_PullId q = n)"
    using assms(1) by (auto simp: Db_NewPull_def Let_def n_def [symmetric] split: if_splits)
  from assms(1) obtain row where r: "pd_pulls db' = pd_pulls db @ [row]" "stored_as p row"
    "Pull_AtUri row = Pull_AtUri p" "pl_RepoAt row = pl_RepoAt p" "pl_PullId row = n"
    by (auto simp: Db_NewPull_def Let_def n_def [symmetric] stored_as_def Pull_AtUri_def split: if_splits)
  have new: "Pull_AtUri row \<notin> Pull_AtUri ` set (pd_pulls db)"
    "(pl_RepoAt row, pl_PullId row) \<notin> (\<lambda>p. (pl_RepoAt p, pl_PullId p)) ` set (pd_pulls db)"
    using fresh r(3-5) by (auto simp: image_iff)
  have "rounds_ok row"
    using stored_as_fields(8) [OF r(2)] by (cases "pl_Submissions p") (simp_all add: rounds_ok_def)
  with r(1) new assms(2) show ?thesis by (simp add: tables_ok_alt)
qed

lemma new_pulls_ok: "new_pulls now db ps = Some (db', ps') \<Longrightarrow> tables_ok db \<Longrightarrow> tables_ok db'"
  by (induction ps arbitrary: db ps') (auto split: option.splits intro: Db_NewPull_ok)

lemma rounds_ok_add: "rounds_ok p \<Longrightarrow> sb_RoundNumber s = int (length (pl_Submissions p)) \<Longrightarrow>
    rounds_ok (p\<lparr>pl_Submissions := pl_Submissions p @ [s]\<rparr>)"
  by (simp add: rounds_ok_def)

lemma change_map_SomeD: "change_map ps c = Some p \<Longrightarrow> p \<in> set ps \<and> pl_ChangeId p = c"
  by (auto simp: change_map_def dest: map_of_SomeD)

lemma updated_ops:
  assumes "\<And>xs. mset (iter xs) = mset xs"
  shows "distinct (map fst (updated iter orig new))" "fst ` set (updated iter orig new) \<subseteq> set orig"
proof -
  let ?cs = "filter (\<lambda>c. change_map orig c \<noteq> None) (remdups (map pl_ChangeId new))"
  have op: "the (change_map orig c) \<in> set orig \<and> pl_ChangeId (the (change_map orig c)) = c" if "c \<in> set (iter ?cs)" for c
  proof -
    from that have "change_map orig c \<noteq> None" by (simp add: iter_set [OF assms])
    then obtain p where "change_map orig c = Some p" by blast
    with change_map_SomeD [OF this] show ?thesis by simp
  qed
  have ops: "map fst (updated iter orig new) = map (\<lambda>c. the (change_map orig c)) (iter ?cs)"
    unfolding updated_def map_map comp_def fst_conv ..
  have "distinct (iter ?cs)" unfolding iter_distinct [where iter = iter, OF assms] by simp
  moreover have "inj_on (\<lambda>c. the (change_map orig c)) (set (iter ?cs))"
  proof (rule inj_onI)
    fix a b assume "a \<in> set (iter ?cs)" "b \<in> set (iter ?cs)" "the (change_map orig a) = the (change_map orig b)"
    with op [of a] op [of b] show "a = b" by metis
  qed
  ultimately show "distinct (map fst (updated iter orig new))" unfolding ops distinct_map by blast
  have "fst ` set (updated iter orig new) = (\<lambda>c. the (change_map orig c)) ` set (iter ?cs)"
    using arg_cong [OF ops, of set] unfolding set_map .
  also have "\<dots> \<subseteq> set orig" using op by (intro image_subsetI) blast
  finally show "fst ` set (updated iter orig new) \<subseteq> set orig" .
qed

lemma GetPulls_tidy: "(\<And>xs. mset (order_by xs) = mset xs) \<Longrightarrow> set (GetPulls order_by flt db) = tidy ` {p \<in> set (pd_pulls db). flt p}"
  by (simp add: GetPulls_def iter_set tidy_def [abs_def])

lemma stack_loop_set:
  assumes "stack_loop m p = Some r"
  shows "\<forall>ps. r = Inr ps \<longrightarrow> set ps \<subseteq> insert p (ran m)"
proof (rule stack_loop.raw_induct [OF _ assms])
  fix loop m p r
  assume IH: "\<And>m p r. loop m p = Some r \<Longrightarrow> \<forall>ps. r = Inr ps \<longrightarrow> set ps \<subseteq> insert p (ran m)"
    and step: "(if pl_ParentChangeId p \<noteq> [] then
        (case m (pl_ParentChangeId p) of
           None \<Rightarrow> Some (Inl (Err ''failed to find parent pull request, stack is malformed''))
         | Some nxt \<Rightarrow> Option.bind (loop m nxt) (\<lambda>r. Some (map_sum id ((#) p) r)))
      else Some (Inr [p])) = Some (r :: (go_error, Stack) result)"
  show "\<forall>ps. r = Inr ps \<longrightarrow> set ps \<subseteq> insert p (ran m)"
  proof (intro allI impI)
    fix ps assume r: "r = Inr ps"
    show "set ps \<subseteq> insert p (ran m)"
    proof (cases "pl_ParentChangeId p = []")
      case False
      with step r obtain nxt r' where n: "m (pl_ParentChangeId p) = Some nxt" "loop m nxt = Some r'" "Inr ps = map_sum id ((#) p) r'"
        by (auto split: option.splits bind_splits)
      then obtain qs where "r' = Inr qs" "ps = p # qs" by (metis map_sum_Inr_iff)
      with IH [OF n(2)] have "set ps \<subseteq> insert p (insert nxt (ran m))" by auto
      moreover have "nxt \<in> ran m" using n(1) by (rule ranI)
      ultimately show ?thesis by (simp add: insert_absorb)
    qed (use step r in auto)
  qed
qed

lemma find_SomeD: "find P xs = Some x \<Longrightarrow> x \<in> set xs"
  by (induction xs) (auto split: if_splits)

lemma GetStack_rows:
  assumes "GetStack order_by db stackId = Some (Inr ps)" "\<And>xs. mset (order_by xs) = mset xs"
  shows "set ps \<subseteq> tidy ` set (pd_pulls db)"
proof -
  let ?us = "GetPulls order_by (\<lambda>p. pl_StackId p = stackId \<and> pl_State p \<noteq> PullDeleted) db"
  from assms(1) obtain t where t: "t \<in> set ?us" "stack_loop (change_map ?us) t = Some (Inr ps)"
    by (auto simp: GetStack_def Let_def dest: find_SomeD split: option.splits)
  have "ran (change_map ?us) \<subseteq> set ?us" by (auto simp: ran_def dest: change_map_SomeD)
  with stack_loop_set [OF t(2)] t(1) have "set ps \<subseteq> set ?us" by auto
  with GetPulls_tidy [OF assms(2)] show ?thesis by blast
qed

lemma rounds_for_single:
  assumes "distinct (map fst ups)" "\<And>op. op \<in> fst ` set ups \<Longrightarrow> Pull_AtUri op = Pull_AtUri p \<Longrightarrow> op = o1"
  shows "rounds_for now ups p = [] \<or>
    (\<exists>s. rounds_for now ups p = [s] \<and> sb_RoundNumber s = int (length (pl_Submissions o1)) \<and> o1 \<in> fst ` set ups \<and> Pull_AtUri o1 = Pull_AtUri p)"
proof -
  let ?xs = "filter (\<lambda>(op, np). pl_State op \<noteq> PullMerged \<and> Pull_AtUri op = Pull_AtUri p) ups"
  have x: "fst x = o1 \<and> x \<in> set ups \<and> Pull_AtUri o1 = Pull_AtUri p" if "x \<in> set ?xs" for x
  proof -
    obtain op np where e: "x = (op, np)" by (cases x)
    with that have "(op, np) \<in> set ups" "Pull_AtUri op = Pull_AtUri p" by (auto simp del: filter_eq_Cons_iff)
    moreover from this(1) have "op \<in> fst ` set ups" by force
    ultimately show ?thesis using assms(2) [of op] e by auto
  qed
  have d: "distinct (map fst ?xs)" by (rule distinct_map_filter [OF assms(1)])
  show ?thesis
  proof (cases ?xs)
    case Nil
    then show ?thesis by (simp add: rounds_for_def)
  next
    case (Cons y ys)
    have y: "fst y = o1" "y \<in> set ups" "Pull_AtUri o1 = Pull_AtUri p" using x [of y] Cons by simp_all
    have "ys = []"
    proof (cases ys)
      case (Cons z zs)
      with \<open>?xs = y # ys\<close> x [of z] y(1) d show ?thesis by simp
    qed
    with Cons y show ?thesis by (cases y) (auto simp: rounds_for_def image_iff intro: bexI [of _ y])
  qed
qed

lemma resubmit_db_ok:
  assumes "resubmit_db iter now db orig new = Inr db'" "tables_ok db" "set orig \<subseteq> tidy ` set (pd_pulls db)"
    and iter: "\<And>xs. mset (iter xs) = mset xs"
  shows "tables_ok db'"
proof -
  let ?ups = "updated iter orig new"
  obtain db2 where 2: "pd_pulls db' = map (reparent new \<circ> add_rounds now ?ups) (pd_pulls db2)" "tables_ok db2"
    "\<And>p. p \<in> set (pd_pulls db) \<Longrightarrow> mark_deleted (deletions iter orig new) p \<in> set (pd_pulls db2)"
  proof -
    let ?db1 = "foldl (\<lambda>db p. Db_DeletePull db (pl_RepoAt p) (pl_PullId p)) db
        (filter (\<lambda>p. pl_State p \<noteq> PullMerged) (deletions iter orig new))"
    obtain db2 ps where n: "new_pulls now ?db1 (additions iter orig new) = Some (db2, ps)"
      using assms(1) by (cases "new_pulls now ?db1 (additions iter orig new)") (auto simp: resubmit_db_def)
    have "pd_pulls db' = map (reparent new \<circ> add_rounds now ?ups) (pd_pulls db2)"
      using assms(1) unfolding resubmit_db_def Let_def n
      by (auto simp: map_sum_Inr_iff set_parents_spec dest!: resubmit_all_spec)
    moreover have "tables_ok ?db1" unfolding delete_all_states by (rule tables_ok_states [OF assms(2)])
    then have "tables_ok db2" by (rule new_pulls_ok [OF n])
    moreover have "mark_deleted (deletions iter orig new) p \<in> set (pd_pulls db2)" if "p \<in> set (pd_pulls db)" for p
      using new_pulls_stored [OF n] that unfolding delete_all_spec by auto
    ultimately show thesis by (rule that)
  qed
  have inj: "inj_on Pull_AtUri (set (pd_pulls db2))" using 2(2) by (simp add: tables_ok_alt distinct_map)
  note u = updated_ops [where iter = iter, OF iter, of orig new]
  have op: "length (pl_Submissions op) = length (pl_Submissions p)"
    if "op \<in> fst ` set ?ups" "Pull_AtUri op = Pull_AtUri p" "p \<in> set (pd_pulls db2)" for op p
  proof -
    from that(1) u(2) assms(3) obtain p0 where p0: "p0 \<in> set (pd_pulls db)" "op = tidy p0" by blast
    then have "mark_deleted (deletions iter orig new) p0 = p"
      using 2(3) [OF p0(1)] that(2,3) inj by (intro inj_onD [OF inj]) simp_all
    then have "pl_Submissions p = pl_Submissions p0" by (auto simp: mark_deleted_def split: if_splits)
    with p0(2) show ?thesis by simp
  qed
  have uni: "op = op'" if "op \<in> fst ` set ?ups" "op' \<in> fst ` set ?ups" "Pull_AtUri op = Pull_AtUri op'" for op op'
  proof -
    from that(1,2) u(2) assms(3) obtain p0 p1 where p: "p0 \<in> set (pd_pulls db)" "op = tidy p0" "p1 \<in> set (pd_pulls db)" "op' = tidy p1"
      by blast
    moreover have "inj_on Pull_AtUri (set (pd_pulls db))" using assms(2) by (simp add: tables_ok_alt distinct_map)
    ultimately show ?thesis using that(3) by (auto dest: inj_onD)
  qed
  show ?thesis
  proof (rule tables_ok_map [OF 2(2,1)])
    fix p assume p: "p \<in> set (pd_pulls db2)" "rounds_ok p"
    show "rounds_ok ((reparent new \<circ> add_rounds now ?ups) p)"
    proof (cases "\<exists>o1 \<in> fst ` set ?ups. Pull_AtUri o1 = Pull_AtUri p")
      case True
      then obtain o1 where o1: "o1 \<in> fst ` set ?ups" "Pull_AtUri o1 = Pull_AtUri p" by blast
      have single: "op = o1" if "op \<in> fst ` set ?ups" "Pull_AtUri op = Pull_AtUri p" for op
        using uni [OF that(1) o1(1)] that(2) o1(2) by simp
      from rounds_for_single [OF u(1), of p o1 now] single have "rounds_for now ?ups p = [] \<or>
          (\<exists>s. rounds_for now ?ups p = [s] \<and> sb_RoundNumber s = int (length (pl_Submissions o1)))" by blast
      then show ?thesis
        using rounds_ok_add [OF p(2)] p(2) op [OF o1 p(1)] by (auto simp: add_rounds_def rounds_ok_def)
    next
      case False
      then have "rounds_for now ?ups p = []" by (auto simp: rounds_for_def filter_empty_conv image_iff)
      then show ?thesis using p(2) by (simp add: add_rounds_def rounds_ok_def)
    qed
  qed (simp_all add: add_rounds_def reparent_def split: option.split)
qed

lemma resubmit_one_ok:
  assumes "Db_ResubmitPull now db (Pull_AtUri pull) (int (length (pl_Submissions pull))) patch comb sha = Some db'"
    "tables_ok db" "pull \<in> tidy ` set (pd_pulls db)"
  shows "tables_ok db'"
proof (rule tables_ok_map [OF assms(2) Db_ResubmitPull_spec [OF assms(1)]])
  from assms(3) obtain p0 where p0: "p0 \<in> set (pd_pulls db)" "pull = tidy p0" by blast
  fix p assume p: "p \<in> set (pd_pulls db)" "rounds_ok p"
  have "p = p0" if "Pull_AtUri p = Pull_AtUri pull"
    using that p0 p(1) assms(2) by (auto simp: tables_ok_alt distinct_map dest: inj_onD)
  with p(2) p0(2) show "rounds_ok (if Pull_AtUri p = Pull_AtUri pull then p\<lparr>pl_Submissions := pl_Submissions p @
      [\<lparr>sb_PullAt = Pull_AtUri pull, sb_RoundNumber = int (length (pl_Submissions pull)), sb_Patch = patch, sb_Combined = comb,
        sb_Comments = [], sb_SourceRev = sha, sb_Created = now\<rparr>]\<rparr> else p)"
    by (auto intro: rounds_ok_add)
qed auto

lemma create_ok:
  assumes "tables_ok (pst_db st)"
  shows "tables_ok (pst_db (snd (createStackedPullRequest penv E P repoAt did tb patch sha src stackId st)))"
  using assms by (auto simp: createStackedPullRequest_def Let_def dest: new_pulls_ok split: sum.split option.split)

lemma resubmitStacked_ok:
  assumes "tables_ok (pst_db st)" "set orig \<subseteq> tidy ` set (pd_pulls (pst_db st))" "\<And>xs. mset (iter xs) = mset xs"
  shows "tables_ok (pst_db (snd (resubmitStackedPullHelper iter penv E P repoAt did pull patch stackId orig st)))"
proof -
  have "pst_db (snd (resubmitStackedPullHelper iter penv E P repoAt did pull patch stackId orig st)) = pst_db st \<or>
      (\<exists>new. resubmit_db iter (np_now E) (pst_db st) orig new =
        Inr (pst_db (snd (resubmitStackedPullHelper iter penv E P repoAt did pull patch stackId orig st))))"
    by (auto simp: resubmitStackedPullHelper_def split: sum.split option.split go_error.split)
  then show ?thesis using assms(1) resubmit_db_ok [OF _ assms] by fastforce
qed

lemma resubmitPull_ok:
  assumes "tables_ok (pst_db st)" "pull \<in> tidy ` set (pd_pulls (pst_db st))"
  shows "tables_ok (pst_db (snd (resubmitPullHelper penv E P found message pull patch combined sha st)))"
proof (cases "resubmitPullHelper penv E P found message pull patch combined sha st")
  case (Pair res st')
  show ?thesis
  proof (cases "res = Location")
    case True
    with Pair have "resubmitPullHelper penv E P found message pull patch combined sha st = (Location, st')" by simp
    then show ?thesis by (rule resubmit_one_Location) (use Pair resubmit_one_ok [OF _ assms] in auto)
  next
    case False
    with Pair resubmit_one_failed [of penv E P found message pull patch combined sha st] assms(1) show ?thesis by simp
  qed
qed



end
