(* ===== verification/Knot_Guard.thy ===== *)
theory Knot_Guard
  imports RBAC
begin

text \<open>
  The way of an SSH command to a repository: \<^verbatim>\<open>guard/guard.go\<close>, which runs in place of the shell of a
  user, and the handlers \<^verbatim>\<open>PushAllowed\<close> and \<^verbatim>\<open>Guard\<close> of the internal server of a knot
  (\<^verbatim>\<open>knotserver/internal.go\<close>), which it asks.

  The resolver of identities and \<^verbatim>\<open>securejoin.SecureJoin\<close> are arguments; the latter returns a path and
  an error, of which the code mostly drops the error. The HTTP client is an argument of the guard, so
  that the guard can be run against the handler. Logging, the message of the day and the output of
  the commands are not modelled.
\<close>

section \<open>Identities\<close>

record Identity =
  id_DID :: string
  id_Handle :: string
  id_InvalidHandle :: bool
  id_PDS :: string

type_synonym resolver = "string \<Rightarrow> (string, Identity) result"
type_synonym joiner = "string \<Rightarrow> string \<Rightarrow> string \<times> string option"

definition resolve_valid :: "resolver \<Rightarrow> string \<Rightarrow> Identity option" where
  "resolve_valid resolveIdent s =
     (case resolveIdent s of Inl _ \<Rightarrow> None | Inr ident \<Rightarrow> if id_InvalidHandle ident then None else Some ident)"

definition ThisServer :: string where "ThisServer = ''thisserver''"
definition PijulApply :: string where "PijulApply = ''pijul:apply''"

section \<open>The internal server\<close>

definition StatusOK :: nat where "StatusOK = 200"
definition StatusNoContent :: nat where "StatusNoContent = 204"
definition StatusBadRequest :: nat where "StatusBadRequest = 400"
definition StatusForbidden :: nat where "StatusForbidden = 403"
definition StatusInternalServerError :: nat where "StatusInternalServerError = 500"

lemmas status_codes = StatusOK_def StatusNoContent_def StatusBadRequest_def StatusForbidden_def StatusInternalServerError_def

definition allowed :: "('e, bool) result \<Rightarrow> bool" where
  "allowed r = (case r of Inl _ \<Rightarrow> False | Inr ok \<Rightarrow> ok)"

definition PushAllowed :: "('s, 'e) Casbin \<Rightarrow> 's \<Rightarrow> string \<Rightarrow> string \<Rightarrow> nat" where
  "PushAllowed C s user repo =
     (if user = [] \<or> repo = [] then StatusBadRequest
      else if \<not> allowed (IsPushAllowed C s user ThisServer repo) then StatusForbidden
      else StatusNoContent)"

definition repo_components :: "string \<Rightarrow> string list" where
  "repo_components repo = splitOn CHR ''/'' (trimPrefix (trimSet repo [CHR 0x27, CHR 0x22]) ''/'')"

definition Guard :: "resolver \<Rightarrow> joiner \<Rightarrow> ('s, 'e) Casbin \<Rightarrow> 's \<Rightarrow> string \<Rightarrow> string \<Rightarrow> string \<Rightarrow> nat \<times> string" where
  "Guard resolveIdent secureJoin C s incomingUser repo gitCommand =
     (if incomingUser = [] \<or> repo = [] \<or> gitCommand = [] then
        (StatusBadRequest, ''invalid internal request'' @ [newline])
      else if length (repo_components repo) \<noteq> 2 then
        (StatusBadRequest, ''invalid repo format, needs <user>/<repo> or /<user>/<repo>'' @ [newline])
      else
        let repoOwner = repo_components repo ! 0; repoName = repo_components repo ! 1
        in case resolve_valid resolveIdent repoOwner of
             None \<Rightarrow> (StatusInternalServerError, ''error resolving handle: invalid handle'' @ [newline])
           | Some repoOwnerIdent \<Rightarrow>
               let qualifiedRepo = fst (secureJoin (id_DID repoOwnerIdent) repoName)
               in if gitCommand = ''git-receive-pack'' \<and>
                     \<not> allowed (IsPushAllowed C s incomingUser ThisServer qualifiedRepo) then (StatusForbidden, repo)
                  else if gitCommand = ''pijul-protocol'' \<and>
                     \<not> allowed (Enforce C s incomingUser ThisServer qualifiedRepo PijulApply) then (StatusForbidden, repo)
                  else (StatusOK, qualifiedRepo))"

section \<open>The guard\<close>

fun pijul_args :: "string \<Rightarrow> string \<Rightarrow> string list \<Rightarrow> (string, string \<times> string) result" where
  "pijul_args repo version [] = Inr (repo, version)"
| "pijul_args repo version (arg # args) =
     (if arg = ''--repository'' \<or> arg = ''-r'' then
        (case args of [] \<Rightarrow> Inl ''missing --repository value'' | v # rest \<Rightarrow> pijul_args v version rest)
      else if hasPrefix arg ''--repository='' then pijul_args (trimPrefix arg ''--repository='') version args
      else if arg = ''--version'' then
        (case args of [] \<Rightarrow> Inl ''missing --version value'' | v # rest \<Rightarrow> pijul_args repo v rest)
      else if hasPrefix arg ''--version='' then pijul_args repo (trimPrefix arg ''--version='') args
      else pijul_args repo version args)"

definition parsePijulProtocolArgs :: "string list \<Rightarrow> (string, string \<times> string) result" where
  "parsePijulProtocolArgs args =
     (case pijul_args [] [] args of
        Inl e \<Rightarrow> Inl e
      | Inr (repo, version) \<Rightarrow> if repo = [] then Inl ''missing --repository'' else Inr (repo, version))"

text \<open>\<open>get\<close> is the request to the endpoint with its three query parameters: an error, or status and body.\<close>

type_synonym guard_client = "string \<Rightarrow> string \<Rightarrow> string \<Rightarrow> (string, nat \<times> string) result"

definition guardAndQualifyRepo :: "guard_client \<Rightarrow> string \<Rightarrow> string \<Rightarrow> string \<Rightarrow> (string, string) result" where
  "guardAndQualifyRepo get incomingUser repo gitCommand =
     (case get incomingUser repo gitCommand of
        Inl e \<Rightarrow> Inl e
      | Inr (status, body) \<Rightarrow>
          if status = StatusOK then Inr body
          else if status = StatusForbidden then Inl ''access denied: user not allowed''
          else Inl body)"

text \<open>
  The end of a run: the process exits with a message, returns an error, or runs a program with
  arguments and the environment variables it adds.
\<close>

datatype guard_outcome =
  Exit int string
| Failed string
| Execute string "string list" "(string \<times> string) list"

definition validCommands :: "string list" where
  "validCommands = [''git-receive-pack'', ''git-upload-pack'', ''git-upload-archive'']"

definition Run_pijul :: "guard_client \<Rightarrow> joiner \<Rightarrow> string \<Rightarrow> string \<Rightarrow> string list \<Rightarrow> guard_outcome" where
  "Run_pijul get secureJoin gitDir incomingUser cmdParts =
     (if cmdParts ! 1 \<noteq> ''protocol'' then Failed ''access denied: invalid pijul command''
      else case parsePijulProtocolArgs (drop 2 cmdParts) of
             Inl e \<Rightarrow> Failed e
           | Inr (repoPath, version) \<Rightarrow>
               if version \<noteq> [] \<and> version \<noteq> ''3'' then Failed ''unsupported pijul protocol version''
               else case guardAndQualifyRepo get incomingUser repoPath ''pijul-protocol'' of
                      Inl e \<Rightarrow> Exit 1 e
                    | Inr qualifiedRepoPath \<Rightarrow>
                        let fullPath = fst (secureJoin gitDir qualifiedRepoPath)
                        in Execute ''pijul''
                             ([''protocol'', ''--repository'', fullPath] @
                              (if version \<noteq> [] then [''--version'', version] else [])) [])"

definition Run_git :: "guard_client \<Rightarrow> joiner \<Rightarrow> string \<Rightarrow> string \<Rightarrow> string list \<Rightarrow> guard_outcome" where
  "Run_git get secureJoin gitDir incomingUser cmdParts =
     (let gitCommand = cmdParts ! 0; repoPath = cmdParts ! 1
      in if gitCommand \<notin> set validCommands then Failed ''access denied: invalid git command''
         else case guardAndQualifyRepo get incomingUser repoPath gitCommand of
                Inl e \<Rightarrow> Exit 1 e
              | Inr qualifiedRepoPath \<Rightarrow>
                  Execute gitCommand [fst (secureJoin gitDir qualifiedRepoPath)] [(''GIT_USER_DID'', incomingUser)])"

definition Run :: "guard_client \<Rightarrow> joiner \<Rightarrow> string \<Rightarrow> string \<Rightarrow> string \<Rightarrow> guard_outcome" where
  "Run get secureJoin gitDir incomingUser sshCommand =
     (if incomingUser = [] then Exit (- 1) ''access denied: no user specified''
      else if sshCommand = [] then
        Exit (- 1) (''Hi @'' @ incomingUser @ ''! You'' @ [CHR 0x27] @ ''ve successfully authenticated.'')
      else
        let cmdParts = Fields sshCommand
        in if length cmdParts < 2 then Exit (- 1) ''invalid command format''
           else if cmdParts ! 0 = ''pijul'' then Run_pijul get secureJoin gitDir incomingUser cmdParts
           else Run_git get secureJoin gitDir incomingUser cmdParts)"

section \<open>What is run\<close>

lemma allowed_iff: "allowed r \<longleftrightarrow> r = Inr True"
  by (auto simp: allowed_def split: sum.splits)

text \<open>The right a command needs on the repository, as the access control names it.\<close>

definition needs :: "string \<Rightarrow> string option" where
  "needs gitCommand =
     (if gitCommand = ''git-receive-pack'' then Some ''repo:push''
      else if gitCommand = ''pijul-protocol'' then Some ''pijul:apply'' else None)"

definition may :: "('s, 'e) Casbin \<Rightarrow> 's \<Rightarrow> string \<Rightarrow> string \<Rightarrow> string \<Rightarrow> bool" where
  "may C s user qualifiedRepo gitCommand =
     (case needs gitCommand of None \<Rightarrow> True | Some act \<Rightarrow> Enforce C s user ThisServer qualifiedRepo act = Inr True)"

text \<open>The repository a path names: its owner's DID joined with its name.\<close>

definition named_repo :: "resolver \<Rightarrow> joiner \<Rightarrow> string \<Rightarrow> string option" where
  "named_repo resolveIdent secureJoin repo =
     (if length (repo_components repo) \<noteq> 2 then None
      else map_option (\<lambda>ident. fst (secureJoin (id_DID ident) (repo_components repo ! 1)))
             (resolve_valid resolveIdent (repo_components repo ! 0)))"

lemma Guard_OK:
  "Guard res join C s user repo cmd = (StatusOK, q) \<longleftrightarrow>
     user \<noteq> [] \<and> repo \<noteq> [] \<and> cmd \<noteq> [] \<and> named_repo res join repo = Some q \<and> may C s user q cmd"
  by (auto simp: Guard_def named_repo_def may_def needs_def allowed_iff status_codes PijulApply_def IsPushAllowed_def Let_def
      split: option.splits)

lemma guardAndQualifyRepo_Inr:
  "guardAndQualifyRepo (\<lambda>u r c. Inr (Guard res join C s u r c)) user repo cmd = Inr q \<longleftrightarrow>
     Guard res join C s user repo cmd = (StatusOK, q)"
  by (auto simp: guardAndQualifyRepo_def status_codes split: prod.splits)

text \<open>The command a guard asks for: its name, the path as written and the arguments it leads to.\<close>

definition requested :: "string \<Rightarrow> (string \<times> string \<times> (string \<Rightarrow> string \<times> string list)) option" where
  "requested sshCommand =
     (let parts = Fields sshCommand
      in if length parts < 2 then None
         else if parts ! 0 = ''pijul'' then
           (if parts ! 1 \<noteq> ''protocol'' then None
            else case parsePijulProtocolArgs (drop 2 parts) of
                   Inl _ \<Rightarrow> None
                 | Inr (repo, version) \<Rightarrow>
                     if version \<notin> {[], ''3''} then None
                     else Some (''pijul-protocol'', repo, \<lambda>p. (''pijul'',
                       [''protocol'', ''--repository'', p] @ (if version = [] then [] else [''--version'', version]))))
         else if parts ! 0 \<in> set validCommands then Some (parts ! 0, parts ! 1, \<lambda>p. (parts ! 0, [p])) else None)"

lemma Run_None:
  assumes "requested ssh = None"
  shows "Run get join gitDir user ssh \<noteq> Execute prog args env"
  using assms unfolding requested_def Run_def Let_def Run_pijul_def Run_git_def
  by (auto split: sum.splits if_splits)

lemma Run_Some:
  assumes "user \<noteq> []" "requested ssh = Some (cmd, repo, run)"
  shows "\<exists>env. Run get join gitDir user ssh =
    (case guardAndQualifyRepo get user repo cmd of
       Inl e \<Rightarrow> Exit 1 e
     | Inr q \<Rightarrow> Execute (fst (run (fst (join gitDir q)))) (snd (run (fst (join gitDir q)))) env)"
proof (cases "Fields ssh ! 0 = ''pijul''")
  case True
  with assms(2) obtain version where r: "\<not> length (Fields ssh) < 2" "Fields ssh ! 1 = ''protocol''"
    "parsePijulProtocolArgs (drop 2 (Fields ssh)) = Inr (repo, version)" "\<not> (version \<noteq> [] \<and> version \<noteq> ''3'')"
    and cmd: "cmd = ''pijul-protocol''" "run = (\<lambda>p. (''pijul'', [''protocol'', ''--repository'', p] @
      (if version = [] then [] else [''--version'', version])))"
    by (auto simp: requested_def Let_def split: if_splits sum.splits)
  have "ssh \<noteq> []" using r(1) by (auto simp: Fields_def flush_def)
  then show ?thesis
    using assms(1) True r(1,2) unfolding Run_def Run_pijul_def Let_def
    by (simp add: r(3) cmd split: sum.split) (use r(4) in auto)
next
  case False
  with assms(2) have r: "\<not> length (Fields ssh) < 2" "Fields ssh ! 0 \<in> set validCommands" "cmd = Fields ssh ! 0"
    "repo = Fields ssh ! 1" "run = (\<lambda>p. (Fields ssh ! 0, [p]))"
    by (auto simp: requested_def Let_def split: if_splits)
  have "ssh \<noteq> []" using r(1) by (auto simp: Fields_def flush_def)
  with assms(1) False r show ?thesis by (simp add: Run_def Run_git_def Let_def split: sum.split)
qed

text \<open>
  C1. A guard that asks the internal server of its knot executes a program exactly if the SSH command is
  well formed, the path names a repository and the user holds the right the command needs there:
  \<open>repo:push\<close> for \<open>git-receive-pack\<close>, \<open>pijul:apply\<close> for \<open>pijul protocol\<close>, none for reading with Git. The
  program then runs on that very repository below the directory of the knot.
\<close>

theorem guard_executes_iff_allowed:
  fixes C :: "('s, 'e) Casbin"
  assumes "user \<noteq> []" "ssh \<noteq> []"
  shows "(\<exists>env. Run (\<lambda>u r c. Inr (Guard resolveIdent secureJoin C s u r c)) secureJoin gitDir user ssh = Execute prog args env) \<longleftrightarrow>
    (\<exists>cmd repo run q. requested ssh = Some (cmd, repo, run) \<and> repo \<noteq> [] \<and> cmd \<noteq> [] \<and>
       named_repo resolveIdent secureJoin repo = Some q \<and> may C s user q cmd \<and> (prog, args) = run (fst (secureJoin gitDir q)))"
proof -
  let ?ask = "guardAndQualifyRepo (\<lambda>u r c. Inr (Guard resolveIdent secureJoin C s u r c)) user"
  have ask: "?ask repo cmd = Inr q \<longleftrightarrow>
      repo \<noteq> [] \<and> cmd \<noteq> [] \<and> named_repo resolveIdent secureJoin repo = Some q \<and> may C s user q cmd" for repo cmd q
    using assms by (simp add: guardAndQualifyRepo_Inr Guard_OK)
  show ?thesis
  proof (cases "requested ssh")
    case None
    then show ?thesis using Run_None by auto
  next
    case (Some t)
    obtain cmd repo run where t: "t = (cmd, repo, run)" by (cases t)
    with Some assms obtain env where "Run (\<lambda>u r c. Inr (Guard resolveIdent secureJoin C s u r c)) secureJoin gitDir user ssh =
      (case ?ask repo cmd of Inl e \<Rightarrow> Exit 1 e
       | Inr q \<Rightarrow> Execute (fst (run (fst (secureJoin gitDir q)))) (snd (run (fst (secureJoin gitDir q)))) env)"
      using Run_Some by blast
    then have "(\<exists>env. Run (\<lambda>u r c. Inr (Guard resolveIdent secureJoin C s u r c)) secureJoin gitDir user ssh =
        Execute prog args env) \<longleftrightarrow> (\<exists>q. ?ask repo cmd = Inr q \<and> (prog, args) = run (fst (secureJoin gitDir q)))"
      by (cases "?ask repo cmd") (auto simp: prod_eq_iff)
    also have "\<dots> \<longleftrightarrow> (\<exists>cmd' repo' run' q. Some t = Some (cmd', repo', run') \<and> repo' \<noteq> [] \<and> cmd' \<noteq> [] \<and>
        named_repo resolveIdent secureJoin repo' = Some q \<and> may C s user q cmd' \<and>
        (prog, args) = run' (fst (secureJoin gitDir q)))"
      unfolding ask t by auto
    finally show ?thesis unfolding Some .
  qed
qed

definition sample_resolver :: resolver where
  "sample_resolver h =
     (if h = ''bob'' then Inr \<lparr>id_DID = ''did:plc:b'', id_Handle = h, id_InvalidHandle = False, id_PDS = ''pds''\<rparr>
      else Inl ''not found'')"

definition plain_join :: joiner where
  "plain_join a b = (a @ ''/'' @ b, None)"

theorem guard_executes_iff_allowed_witness:
  "\<exists>env. Run (\<lambda>u r c. Inr (Guard sample_resolver plain_join list_casbin
        ([(''did:plc:a'', ''thisserver'', ''did:plc:b/r'', ''repo:push'')], []) u r c)) plain_join ''/home/git''
      ''did:plc:a'' ''git-receive-pack /bob/r'' = Execute ''git-receive-pack'' [''/home/git/did:plc:b/r''] env"
proof -
  have "requested ''git-receive-pack /bob/r'' = Some (''git-receive-pack'', ''/bob/r'', \<lambda>p. (''git-receive-pack'', [p]))"
    by (simp add: requested_def Fields_def space_runes_def hasPrefix_def flush_def validCommands_def)
  moreover have "named_repo sample_resolver plain_join ''/bob/r'' = Some ''did:plc:b/r''"
    by (simp add: named_repo_def repo_components_def trimSet_def trimPrefix_def hasPrefix_def resolve_valid_def
        sample_resolver_def plain_join_def)
  moreover have "may list_casbin ([(''did:plc:a'', ''thisserver'', ''did:plc:b/r'', ''repo:push'')], []) ''did:plc:a''
      ''did:plc:b/r'' ''git-receive-pack''"
    by (simp add: may_def needs_def list_casbin_def granted_def ThisServer_def)
  ultimately show ?thesis
    by (intro guard_executes_iff_allowed [THEN iffD2]) (auto simp: plain_join_def)
qed

end
