(* ===== verification/Knot_Hooks.thy ===== *)
theory Knot_Hooks
  imports Knot_Guard Workflow Spindle_Run
begin

text \<open>
  What a push does on a knot: the hook program (\<^verbatim>\<open>hook/hook.go\<close>), the handler of the post-receive hook
  (\<^verbatim>\<open>knotserver/internal.go\<close>), the parser of its payload and the meta data of a ref update
  (\<^verbatim>\<open>knotserver/git/post_receive.go\<close>), and the event log of the knot (\<^verbatim>\<open>knotserver/db/events.go\<close> and
  \<^verbatim>\<open>knotserver/events.go\<close>).

  Git itself is an argument: the fields of \<open>GitOps\<close> are the calls the code makes to an opened repository,
  of type \<open>'g\<close>. JSON encoders and the clock of record keys are arguments as well. A hash is the
  string of its hexadecimal digits; \<open>newHash\<close> reads one.
\<close>

section \<open>The payload\<close>

type_synonym Hash = string

definition zero_hash :: Hash where
  "zero_hash = replicate 40 CHR ''0''"

record PostReceiveLine =
  pl_OldSha :: Hash
  pl_NewSha :: Hash
  pl_Ref :: string

fun parse_lines :: "(string \<Rightarrow> Hash) \<Rightarrow> string list \<Rightarrow> PostReceiveLine list" where
  "parse_lines newHash [] = []"
| "parse_lines newHash (line # ls) =
     (let parts = splitN 3 CHR '' '' line
      in if length parts \<noteq> 3 then parse_lines newHash ls
         else \<lparr>pl_OldSha = newHash (parts ! 0), pl_NewSha = newHash (parts ! 1), pl_Ref = parts ! 2\<rparr> # parse_lines newHash ls)"

definition ParsePostReceive :: "(string \<Rightarrow> Hash) \<Rightarrow> string \<Rightarrow> (string, PostReceiveLine list) result" where
  "ParsePostReceive newHash buf =
     (let (ls, err) = scanner_lines buf
      in if err then Inl ''bufio.Scanner: token too long'' else Inr (parse_lines newHash ls))"

text \<open>
  The hook program forwards \<^verbatim>\<open>ReadString('\n')\<close> of its input: everything up to the first line feed,
  or all of it if there is none.
\<close>

definition hook_payload :: "string \<Rightarrow> string" where
  "hook_payload stdin =
     (let l = takeWhile (\<lambda>c. c \<noteq> newline) stdin in if length l < length stdin then l @ [newline] else l)"

section \<open>Meta data of a ref update\<close>

record TreeEntry =
  te_Name :: string
  te_IsFile :: bool

record 'g GitOps =
  go_Open :: "string \<Rightarrow> string \<Rightarrow> (string, 'g) result"
  go_PlainOpen :: "string \<Rightarrow> (string, 'g) result"
  go_FindMainBranch :: "'g \<Rightarrow> (string, string) result"
  go_BranchNames :: "'g \<Rightarrow> string list"
  go_revList :: "'g \<Rightarrow> string list \<Rightarrow> (string, string) result"
  go_authorEmail :: "'g \<Rightarrow> Hash \<Rightarrow> (string, string) result"
  go_AnalyzeLanguages :: "'g \<Rightarrow> (string, (string \<times> int) list) result"
  go_FileTree :: "'g \<Rightarrow> string \<Rightarrow> (string, TreeEntry list) result"
  go_RawContent :: "'g \<Rightarrow> string \<Rightarrow> (string, string) result"

text \<open>The counters per address, in the order of their first commit.\<close>

type_synonym CommitCount = "(string \<times> int) list"

record RefUpdateMeta =
  rm_CommitCount :: CommitCount
  rm_IsDefaultRef :: bool
  rm_LangBreakdown :: "(string \<times> int) list"

definition revlist_args :: "'g GitOps \<Rightarrow> 'g \<Rightarrow> PostReceiveLine \<Rightarrow> string list" where
  "revlist_args G g line =
     ''--max-count=100'' #
     (if pl_OldSha line = zero_hash then
        [pl_NewSha line] @
        map (\<lambda>b. ''^'' @ b) (filter (\<lambda>b. \<not> contains (pl_Ref line) b) (go_BranchNames G g)) @
        [''--not'', ''^'' @ pl_Ref line]
      else [pl_OldSha line @ ''..'' @ pl_NewSha line])"

fun bump :: "CommitCount \<Rightarrow> string \<Rightarrow> CommitCount" where
  "bump [] email = [(email, 1)]"
| "bump ((e, n) # cs) email = (if e = email then (e, n + 1) # cs else (e, n) # bump cs email)"

definition count_commits :: "'g GitOps \<Rightarrow> (string \<Rightarrow> Hash) \<Rightarrow> 'g \<Rightarrow> string list \<Rightarrow> CommitCount" where
  "count_commits G newHash g items =
     foldl (\<lambda>cs item. case go_authorEmail G g (newHash item) of Inl _ \<Rightarrow> cs | Inr email \<Rightarrow> bump cs email) [] items"

definition newCommitCount :: "'g GitOps \<Rightarrow> (string \<Rightarrow> Hash) \<Rightarrow> 'g \<Rightarrow> PostReceiveLine \<Rightarrow> CommitCount \<times> string option" where
  "newCommitCount G newHash g line =
     (if pl_NewSha line = zero_hash then ([], None)
      else case go_revList G g (revlist_args G g line) of
             Inl e \<Rightarrow> ([], Some (''failed to run rev-list: '' @ e))
           | Inr output \<Rightarrow>
               let ls = splitOn newline (trimSpace output)
               in if ls = [[]] then ([], None) else (count_commits G newHash g ls, None))"

definition isDefaultBranch :: "'g GitOps \<Rightarrow> WorkflowEnv \<Rightarrow> 'g \<Rightarrow> PostReceiveLine \<Rightarrow> bool \<times> string option" where
  "isDefaultBranch G env g line =
     (case go_FindMainBranch G g of
        Inl e \<Rightarrow> (False, Some e)
      | Inr defaultBranch \<Rightarrow>
          if ref_is_branch env (pl_Ref line) then (defaultBranch = ref_short env (pl_Ref line), None) else (False, None))"

text \<open>The errors are joined to a value nobody keeps, so the meta data never come with an error.\<close>

definition RefUpdateMeta_of :: "'g GitOps \<Rightarrow> WorkflowEnv \<Rightarrow> (string \<Rightarrow> Hash) \<Rightarrow> 'g \<Rightarrow> PostReceiveLine \<Rightarrow> RefUpdateMeta" where
  "RefUpdateMeta_of G env newHash g line =
     \<lparr>rm_CommitCount = fst (newCommitCount G newHash g line), rm_IsDefaultRef = fst (isDefaultBranch G env g line),
      rm_LangBreakdown = (case go_AnalyzeLanguages G g of Inl _ \<Rightarrow> [] | Inr langs \<Rightarrow> langs)\<rparr>"

record GitRefUpdate =
  gu_OldSha :: string
  gu_NewSha :: string
  gu_Ref :: string
  gu_CommitterDid :: string
  gu_RepoDid :: string
  gu_RepoName :: string
  gu_Meta :: RefUpdateMeta

section \<open>The event log of a knot\<close>

definition InsertEvent :: "int \<Rightarrow> Event list \<times> Notifier \<Rightarrow> Event \<Rightarrow> Event list \<times> Notifier" where
  "InsertEvent now db event = (fst db @ [event\<lparr>ev_Created := now\<rparr>], NotifyAll (snd db))"

definition Knot_GetEvents :: "(Event list \<Rightarrow> Event list) \<Rightarrow> Event list \<Rightarrow> int \<Rightarrow> Event list" where
  "Knot_GetEvents order_by table cursor =
     take 100 (order_by (if cursor > 0 then filter (\<lambda>e. ev_Created e > cursor) table else table))"

definition streamOps :: "(Event list \<Rightarrow> Event list) \<Rightarrow> (Event \<Rightarrow> bool) \<Rightarrow> Event list \<Rightarrow> int \<Rightarrow> Event list \<times> int \<times> bool" where
  "streamOps order_by send table cursor = send_all send (Knot_GetEvents order_by table cursor) cursor"

section \<open>The handler\<close>

definition WorkflowDir :: string where "WorkflowDir = ''.tangled/workflows''"
definition GitRefUpdateNSID :: string where "GitRefUpdateNSID = ''sh.tangled.git.refUpdate''"

record 'g HookEnv =
  he_git :: "'g GitOps"
  he_wf :: WorkflowEnv
  he_newHash :: "string \<Rightarrow> Hash"
  he_join :: joiner
  he_resolve :: resolver
  he_ScanPath :: string
  he_Hostname :: string
  he_AppView :: string
  he_marshalUpdate :: "GitRefUpdate \<Rightarrow> (string, string) result"
  he_marshalPipeline :: "CompiledPipeline \<Rightarrow> (string, string) result"

record KnotLog =
  kl_events :: "Event list"
  kl_notifier :: Notifier
  kl_ticks :: nat

text \<open>\<open>clock\<close> gives the time and the fresh record key of the \<open>n\<close>-th insertion.\<close>

definition log_event :: "(nat \<Rightarrow> int \<times> string) \<Rightarrow> KnotLog \<Rightarrow> string \<Rightarrow> string \<Rightarrow> KnotLog" where
  "log_event clock k nsid json =
     (let (now, rkey) = clock (kl_ticks k);
          (es, n) = InsertEvent now (kl_events k, kl_notifier k) \<lparr>ev_Rkey = rkey, ev_Nsid = nsid, ev_Created = 0, ev_EventJson = json\<rparr>
      in \<lparr>kl_events = es, kl_notifier = n, kl_ticks = Suc (kl_ticks k)\<rparr>)"

definition checked_join :: "joiner \<Rightarrow> string \<Rightarrow> string \<Rightarrow> (string, string) result" where
  "checked_join join a b = (case join a b of (p, None) \<Rightarrow> Inr p | (_, Some e) \<Rightarrow> Inl e)"

definition repo_path :: "'g HookEnv \<Rightarrow> string \<Rightarrow> string \<Rightarrow> (string, string) result" where
  "repo_path E repoDid repoName =
     bind_result (checked_join (he_join E) repoDid repoName) (\<lambda>didSlashRepo. checked_join (he_join E) (he_ScanPath E) didSlashRepo)"

definition insertRefUpdate ::
  "'g HookEnv \<Rightarrow> (nat \<Rightarrow> int \<times> string) \<Rightarrow> string \<Rightarrow> string \<Rightarrow> string \<Rightarrow> PostReceiveLine \<Rightarrow> KnotLog \<Rightarrow> KnotLog" where
  "insertRefUpdate E clock gitUserDid repoDid repoName line k =
     (case repo_path E repoDid repoName of
        Inl _ \<Rightarrow> k
      | Inr repoPath \<Rightarrow>
          (case go_Open (he_git E) repoPath (pl_Ref line) of
             Inl _ \<Rightarrow> k
           | Inr gr \<Rightarrow>
               (case he_marshalUpdate E
                       \<lparr>gu_OldSha = pl_OldSha line, gu_NewSha = pl_NewSha line, gu_Ref = pl_Ref line,
                        gu_CommitterDid = gitUserDid, gu_RepoDid = repoDid, gu_RepoName = repoName,
                        gu_Meta = RefUpdateMeta_of (he_git E) (he_wf E) (he_newHash E) gr line\<rparr> of
                  Inl _ \<Rightarrow> k
                | Inr eventJson \<Rightarrow> log_event clock k GitRefUpdateNSID eventJson)))"

definition ZWS :: string where "ZWS = [CHR 0xE2, CHR 0x80, CHR 0x8B]"
definition tab :: string where "tab = [CHR 0x09]"

definition emitCompareLink :: "'g HookEnv \<Rightarrow> string \<Rightarrow> string \<Rightarrow> PostReceiveLine \<Rightarrow> string list" where
  "emitCompareLink E repoDid repoName line =
     (if pl_OldSha line \<noteq> zero_hash \<or> pl_NewSha line = pl_OldSha line then []
      else
        let user = (case he_resolve E repoDid of Inl _ \<Rightarrow> repoDid | Inr ident \<Rightarrow> id_Handle ident)
        in case bind_result (repo_path E repoDid repoName)
                  (\<lambda>p. bind_result (go_PlainOpen (he_git E) p) (go_FindMainBranch (he_git E))) of
             Inl _ \<Rightarrow> []
           | Inr defaultBranch \<Rightarrow>
               if pl_Ref line = ''refs/heads/'' @ defaultBranch \<or> ref_is_tag (he_wf E) (pl_Ref line) then []
               else [ZWS, ''Create a PR pointing to '' @ defaultBranch,
                     tab @ he_AppView E @ ''/'' @ user @ ''/'' @ repoName @ ''/compare/'' @ defaultBranch @ ''...'' @
                       trimPrefix (pl_Ref line) ''refs/heads/'', ZWS])"

definition collect_workflows :: "'g GitOps \<Rightarrow> 'g \<Rightarrow> TreeEntry list \<Rightarrow> RawWorkflow list" where
  "collect_workflows G gr entries =
     List.map_filter
       (\<lambda>e. if \<not> te_IsFile e then None
            else case go_RawContent G gr (path_Join WorkflowDir (te_Name e)) of
                   Inl _ \<Rightarrow> None
                 | Inr contents \<Rightarrow> Some \<lparr>rw_Name = te_Name e, rw_Contents = contents\<rparr>)
       entries"

definition compile_with :: "WorkflowEnv \<Rightarrow> TriggerMetadata \<Rightarrow> RawWorkflow list \<Rightarrow> CompiledPipeline \<times> Diagnostics" where
  "compile_with env trigger raw =
     (let (p, compiler) = Parse env \<lparr>cc_Trigger = trigger, cc_Diagnostics = \<lparr>dg_Errors = [], dg_Warnings = []\<rparr>\<rparr> raw;
          (cp, compiler') = Compile env compiler p
      in (cp, cc_Diagnostics compiler'))"

record PushOptions =
  po_skipCi :: bool
  po_verboseCi :: bool

definition trigger_of_push :: "'g HookEnv \<Rightarrow> string \<Rightarrow> string \<Rightarrow> PostReceiveLine \<Rightarrow> TriggerMetadata" where
  "trigger_of_push E repoDid repoName line =
     \<lparr>tm_Kind = TriggerKindPush, tm_Manual = None, tm_PullRequest = None,
      tm_Push = Some \<lparr>pt_NewSha = pl_NewSha line, pt_OldSha = pl_OldSha line, pt_Ref = pl_Ref line\<rparr>,
      tm_Repo = Some \<lparr>tr_DefaultBranch = [], tr_Did = repoDid, tr_Knot = he_Hostname E, tr_Repo = repoName\<rparr>\<rparr>"

definition ci_messages :: "PushOptions \<Rightarrow> Diagnostics \<Rightarrow> string list" where
  "ci_messages opts d =
     map Error_String (dg_Errors d) @
     (if po_verboseCi opts then
        (if Diagnostics_IsEmpty d then [''success: pipeline compiled with no diagnostics''] else []) @
        map Warning_String (dg_Warnings d)
      else [])"

text \<open>The messages for the client and the log afterwards.\<close>

definition triggerPipeline ::
  "'g HookEnv \<Rightarrow> (nat \<Rightarrow> int \<times> string) \<Rightarrow> string \<Rightarrow> string \<Rightarrow> PushOptions \<Rightarrow> PostReceiveLine \<Rightarrow> KnotLog \<Rightarrow> string list \<times> KnotLog" where
  "triggerPipeline E clock repoDid repoName opts line k =
     (if po_skipCi opts then ([], k)
      else case bind_result (repo_path E repoDid repoName)
                  (\<lambda>p. bind_result (go_Open (he_git E) p (pl_Ref line))
                    (\<lambda>gr. map_sum id (Pair gr) (go_FileTree (he_git E) gr WorkflowDir))) of
             Inl _ \<Rightarrow> ([], k)
           | Inr (gr, workflowDir) \<Rightarrow>
               let (cp, d) = compile_with (he_wf E) (trigger_of_push E repoDid repoName line)
                               (collect_workflows (he_git E) gr workflowDir)
               in case he_marshalPipeline E cp of
                    Inl _ \<Rightarrow> ([], k)
                  | Inr eventJson \<Rightarrow>
                      (ci_messages opts d, if cp_Workflows cp = [] then k else log_event clock k PipelineNSID eventJson))"

definition push_options :: "string list \<Rightarrow> PushOptions" where
  "push_options raw =
     \<lparr>po_skipCi = (''skip-ci'' \<in> set raw \<or> ''ci-skip'' \<in> set raw),
      po_verboseCi = (''verbose-ci'' \<in> set raw \<or> ''ci-verbose'' \<in> set raw)\<rparr>"

fun hook_lines ::
  "'g HookEnv \<Rightarrow> (nat \<Rightarrow> int \<times> string) \<Rightarrow> string \<Rightarrow> string \<Rightarrow> string \<Rightarrow> PushOptions \<Rightarrow> PostReceiveLine list \<Rightarrow> KnotLog \<Rightarrow>
   string list \<times> KnotLog" where
  "hook_lines E clock gitUserDid repoDid repoName opts [] k = ([], k)"
| "hook_lines E clock gitUserDid repoDid repoName opts (line # ls) k =
     (let k1 = insertRefUpdate E clock gitUserDid repoDid repoName line k;
          (msgs, k2) = triggerPipeline E clock repoDid repoName opts line k1;
          (rest, k3) = hook_lines E clock gitUserDid repoDid repoName opts ls k2
      in (emitCompareLink E repoDid repoName line @ msgs @ rest, k3))"

text \<open>
  The messages of the response; \<open>None\<close> if the handler returns before it writes one. A payload that cannot
  be parsed has no lines.
\<close>

definition PostReceiveHook ::
  "'g HookEnv \<Rightarrow> (nat \<Rightarrow> int \<times> string) \<Rightarrow> string \<Rightarrow> string \<Rightarrow> string list \<Rightarrow> string \<Rightarrow> KnotLog \<Rightarrow> string list option \<times> KnotLog" where
  "PostReceiveHook E clock gitAbsoluteDir gitUserDid pushOptionsRaw body k =
     (case filepath_Rel (he_ScanPath E) gitAbsoluteDir of
        None \<Rightarrow> (None, k)
      | Some gitRelativeDir \<Rightarrow>
          (case splitN 2 CHR ''/'' gitRelativeDir of
             [repoDid, repoName] \<Rightarrow>
               let ls = (case ParsePostReceive (he_newHash E) body of Inl _ \<Rightarrow> [] | Inr ls \<Rightarrow> ls);
                   (msgs, k') = hook_lines E clock gitUserDid repoDid repoName (push_options pushOptionsRaw) ls k
               in (Some msgs, k')
           | _ \<Rightarrow> (None, k)))"

section \<open>Payload and parser\<close>

definition print_line :: "string \<times> string \<times> string \<Rightarrow> string" where
  "print_line l = (case l of (old, new, ref) \<Rightarrow> old @ '' '' @ new @ '' '' @ ref)"

definition line_of :: "(string \<Rightarrow> Hash) \<Rightarrow> string \<times> string \<times> string \<Rightarrow> PostReceiveLine" where
  "line_of newHash l = (case l of (old, new, ref) \<Rightarrow> \<lparr>pl_OldSha = newHash old, pl_NewSha = newHash new, pl_Ref = ref\<rparr>)"

definition printable :: "string \<times> string \<times> string \<Rightarrow> bool" where
  "printable l \<longleftrightarrow>
     (case l of (old, new, ref) \<Rightarrow>
        CHR '' '' \<notin> set old \<and> CHR '' '' \<notin> set new \<and> newline \<notin> set (print_line l) \<and>
        length (print_line l) < max_line \<and> (ref = [] \<or> last ref \<noteq> CHR 0x0D))"

lemma splitN_print:
  assumes "printable (old, new, ref)"
  shows "splitN 3 CHR '' '' (print_line (old, new, ref)) = [old, new, ref]"
proof -
  have "dropWhile (\<lambda>x. x \<noteq> CHR '' '') (a @ CHR '' '' # b) = CHR '' '' # b"
    "takeWhile (\<lambda>x. x \<noteq> CHR '' '') (a @ CHR '' '' # b) = a" if "CHR '' '' \<notin> set a" for a b
    using that by (induction a) auto
  with assms show ?thesis by (simp add: printable_def print_line_def numeral_3_eq_3)
qed

lemma scan_from_print:
  assumes "list_all printable ls"
  shows "scan_from (map print_line ls @ [[]]) = (map print_line ls, False)"
  using assms
proof (induction ls)
  case Nil
  then show ?case by (simp add: max_line_def)
next
  case (Cons l ls)
  obtain old new ref where l: "l = (old, new, ref)" by (cases l)
  have "last (print_line l) \<noteq> CHR 0x0D"
    using Cons.prems by (auto simp: l printable_def print_line_def)
  then have "drop_cr (print_line l) = print_line l" by (simp add: drop_cr_def)
  moreover have "length (print_line l) < max_line" using Cons.prems by (simp add: l printable_def)
  ultimately show ?case using Cons by simp
qed

lemma splitOn_lines:
  assumes "\<forall>l \<in> set ls. newline \<notin> set l"
  shows "splitOn newline (concat (map (\<lambda>l. l @ [newline]) ls)) = ls @ [[]]"
  using assms by (induction ls) (auto simp: splitOn_append_sep)

lemma parse_lines_print:
  "list_all printable ls \<Longrightarrow> parse_lines newHash (map print_line ls) = map (line_of newHash) ls"
proof (induction ls)
  case (Cons l ls)
  then show ?case by (cases l) (simp add: splitN_print line_of_def)
qed simp

lemma ParsePostReceive_print:
  assumes "list_all printable ls"
  shows "ParsePostReceive newHash (concat (map (\<lambda>l. print_line l @ [newline]) ls)) = Inr (map (line_of newHash) ls)"
proof -
  have "\<forall>l \<in> set (map print_line ls). newline \<notin> set l"
    using assms by (auto simp: list_all_iff printable_def)
  from splitOn_lines [OF this] show ?thesis
    by (simp add: ParsePostReceive_def scanner_lines_def comp_def scan_from_print assms parse_lines_print)
qed

lemma hook_payload_first:
  "newline \<notin> set l \<Longrightarrow> hook_payload (l @ [newline] @ rest) = l @ [newline]"
  by (induction l) (auto simp: hook_payload_def Let_def)

text \<open>
  C30. The payload of a push: what Git prints, one line per updated ref, is parsed back to exactly these
  updates. The hook program, however, forwards only the first line, so of a push that updates several
  refs the knot hears of the first one only.
\<close>

theorem post_receive_roundtrip:
  assumes "list_all printable (l # ls)"
  shows "ParsePostReceive newHash (concat (map (\<lambda>l. print_line l @ [newline]) (l # ls))) = Inr (map (line_of newHash) (l # ls)) \<and>
    ParsePostReceive newHash (hook_payload (concat (map (\<lambda>l. print_line l @ [newline]) (l # ls)))) = Inr [line_of newHash l]"
proof
  show "ParsePostReceive newHash (concat (map (\<lambda>l. print_line l @ [newline]) (l # ls))) = Inr (map (line_of newHash) (l # ls))"
    using assms by (rule ParsePostReceive_print)
  have "newline \<notin> set (print_line l)" using assms by (auto simp: printable_def)
  then have "hook_payload (concat (map (\<lambda>l. print_line l @ [newline]) (l # ls))) = concat (map (\<lambda>l. print_line l @ [newline]) [l])"
    using hook_payload_first [of "print_line l"] by simp
  then show "ParsePostReceive newHash (hook_payload (concat (map (\<lambda>l. print_line l @ [newline]) (l # ls)))) = Inr [line_of newHash l]"
    using ParsePostReceive_print [of "[l]"] assms by simp
qed

theorem post_receive_roundtrip_witness:
  "ParsePostReceive id (hook_payload (concat (map (\<lambda>l. print_line l @ [newline])
     [(''0a'', ''1b'', ''refs/heads/main''), (''2c'', ''3d'', ''refs/heads/dev'')]))) =
   Inr [\<lparr>pl_OldSha = ''0a'', pl_NewSha = ''1b'', pl_Ref = ''refs/heads/main''\<rparr>]"
proof -
  have "list_all printable [(''0a'', ''1b'', ''refs/heads/main''), (''2c'', ''3d'', ''refs/heads/dev'')]"
    by (simp add: printable_def print_line_def max_line_def)
  from post_receive_roundtrip [OF this, of id] show ?thesis by (simp add: line_of_def)
qed

section \<open>The events of a push\<close>

text \<open>The events a line is due: a ref update and, behind it, a pipeline.\<close>

definition update_events :: "'g HookEnv \<Rightarrow> string \<Rightarrow> string \<Rightarrow> string \<Rightarrow> PostReceiveLine \<Rightarrow> string list" where
  "update_events E gitUserDid repoDid repoName line =
     (case bind_result (repo_path E repoDid repoName) (\<lambda>p. bind_result (go_Open (he_git E) p (pl_Ref line)) (\<lambda>gr.
        he_marshalUpdate E
          \<lparr>gu_OldSha = pl_OldSha line, gu_NewSha = pl_NewSha line, gu_Ref = pl_Ref line,
           gu_CommitterDid = gitUserDid, gu_RepoDid = repoDid, gu_RepoName = repoName,
           gu_Meta = RefUpdateMeta_of (he_git E) (he_wf E) (he_newHash E) gr line\<rparr>)) of
      Inl _ \<Rightarrow> [] | Inr json \<Rightarrow> [json])"

definition pipeline_events :: "'g HookEnv \<Rightarrow> string \<Rightarrow> string \<Rightarrow> PushOptions \<Rightarrow> PostReceiveLine \<Rightarrow> string list" where
  "pipeline_events E repoDid repoName opts line =
     (if po_skipCi opts then []
      else case bind_result (repo_path E repoDid repoName)
                  (\<lambda>p. bind_result (go_Open (he_git E) p (pl_Ref line))
                    (\<lambda>gr. map_sum id (collect_workflows (he_git E) gr) (go_FileTree (he_git E) gr WorkflowDir))) of
             Inl _ \<Rightarrow> []
           | Inr raw \<Rightarrow>
               let cp = fst (compile_with (he_wf E) (trigger_of_push E repoDid repoName line) raw)
               in case he_marshalPipeline E cp of
                    Inl _ \<Rightarrow> []
                  | Inr json \<Rightarrow> if cp_Workflows cp = [] then [] else [json])"

fun log_events :: "(nat \<Rightarrow> int \<times> string) \<Rightarrow> KnotLog \<Rightarrow> (string \<times> string) list \<Rightarrow> KnotLog" where
  "log_events clock k [] = k"
| "log_events clock k ((nsid, json) # es) = log_events clock (log_event clock k nsid json) es"

lemma log_events_append: "log_events clock k (xs @ ys) = log_events clock (log_events clock k xs) ys"
  by (induction xs arbitrary: k) auto

lemma insertRefUpdate_events:
  "insertRefUpdate E clock user did name line k =
     log_events clock k (map (Pair GitRefUpdateNSID) (update_events E user did name line))"
  by (auto simp: insertRefUpdate_def update_events_def bind_result_case split: sum.splits)

lemma triggerPipeline_events:
  "snd (triggerPipeline E clock did name opts line k) =
     log_events clock k (map (Pair PipelineNSID) (pipeline_events E did name opts line))"
proof (cases "po_skipCi opts")
  case False
  show ?thesis
  proof (cases "bind_result (repo_path E did name) (\<lambda>p. go_Open (he_git E) p (pl_Ref line))")
    case (Inl e)
    then show ?thesis
      by (auto simp: triggerPipeline_def pipeline_events_def bind_result_case split: sum.splits)
  next
    case (Inr gr)
    then obtain p where p: "repo_path E did name = Inr p" "go_Open (he_git E) p (pl_Ref line) = Inr gr"
      by (auto simp: bind_result_Inr_iff)
    then show ?thesis
      by (cases "go_FileTree (he_git E) gr WorkflowDir")
        (auto simp: triggerPipeline_def pipeline_events_def False Let_def case_prod_unfold split: sum.split)
  qed
qed (simp add: triggerPipeline_def pipeline_events_def)

lemma hook_lines_events:
  "snd (hook_lines E clock user did name opts ls k) =
     log_events clock k (concat (map (\<lambda>line. map (Pair GitRefUpdateNSID) (update_events E user did name line) @
       map (Pair PipelineNSID) (pipeline_events E did name opts line)) ls))"
proof (induction ls arbitrary: k)
  case (Cons line ls)
  show ?case
    by (simp add: Let_def case_prod_unfold Cons insertRefUpdate_events triggerPipeline_events log_events_append)
qed simp

lemma log_event_simps:
  "kl_ticks (log_event clock k nsid json) = Suc (kl_ticks k)"
  "kl_events (log_event clock k nsid json) = kl_events k @
     [\<lparr>ev_Rkey = snd (clock (kl_ticks k)), ev_Nsid = nsid, ev_Created = fst (clock (kl_ticks k)), ev_EventJson = json\<rparr>]"
  "kl_notifier (log_event clock k nsid json) = NotifyAll (kl_notifier k)"
  by (simp_all add: log_event_def InsertEvent_def case_prod_unfold Let_def)

lemma log_events_log:
  "\<exists>new. kl_events (log_events clock k es) = kl_events k @ new \<and>
     map (\<lambda>e. (ev_Nsid e, ev_EventJson e)) new = es \<and>
     map (\<lambda>e. (ev_Created e, ev_Rkey e)) new = map clock [kl_ticks k ..< kl_ticks k + length es]"
proof (induction es arbitrary: k)
  case (Cons x es)
  obtain nsid json where x: "x = (nsid, json)" by (cases x)
  from Cons [of "log_event clock k nsid json"] obtain new where
    new: "kl_events (log_events clock k (x # es)) = kl_events (log_event clock k nsid json) @ new"
      "map (\<lambda>e. (ev_Nsid e, ev_EventJson e)) new = es"
      "map (\<lambda>e. (ev_Created e, ev_Rkey e)) new = map clock [Suc (kl_ticks k) ..< Suc (kl_ticks k) + length es]"
    by (auto simp: x log_event_simps)
  moreover have "[kl_ticks k ..< kl_ticks k + length (x # es)] =
      kl_ticks k # [Suc (kl_ticks k) ..< Suc (kl_ticks k) + length es]"
    by (simp add: upt_rec)
  ultimately show ?case by (simp add: log_event_simps x)
qed simp

lemma NotifyAll_twice [simp]: "NotifyAll (NotifyAll n) = NotifyAll n"
  by (auto simp: NotifyAll_def split: option.splits)

lemma log_events_notifier:
  "kl_notifier (log_events clock k es) = (if es = [] then kl_notifier k else NotifyAll (kl_notifier k))"
  by (induction es arbitrary: k) (auto simp: log_event_simps)

text \<open>
  C29. A push appends to the event log of the knot, for every line of the payload in order, the ref update
  and behind it the compiled pipeline, each only where the repository, its workflows and the encoders
  give one; a pipeline without workflows and every pipeline of a push with \<open>skip-ci\<close> is left out. The
  events get the times and the record keys of the clock in order, nothing else is written, and
  the subscribers are woken exactly if something is.
\<close>

theorem PostReceiveHook_events:
  assumes "PostReceiveHook E clock dir user raw body k = (Some msgs, k')"
  shows "\<exists>repoDid repoName new. filepath_Rel (he_ScanPath E) dir = Some (repoDid @ ''/'' @ repoName) \<and>
    kl_events k' = kl_events k @ new \<and>
    map (\<lambda>e. (ev_Nsid e, ev_EventJson e)) new =
      concat (map (\<lambda>line. map (Pair GitRefUpdateNSID) (update_events E user repoDid repoName line) @
        map (Pair PipelineNSID) (pipeline_events E repoDid repoName (push_options raw) line))
        (case ParsePostReceive (he_newHash E) body of Inl _ \<Rightarrow> [] | Inr ls \<Rightarrow> ls)) \<and>
    map (\<lambda>e. (ev_Created e, ev_Rkey e)) new = map clock [kl_ticks k ..< kl_ticks k + length new] \<and>
    kl_notifier k' = (if new = [] then kl_notifier k else NotifyAll (kl_notifier k)) \<and>
    (''skip-ci'' \<in> set raw \<longrightarrow> PipelineNSID \<notin> ev_Nsid ` set new)"
proof -
  let ?ls = "case ParsePostReceive (he_newHash E) body of Inl _ \<Rightarrow> [] | Inr ls \<Rightarrow> ls"
  let ?due = "\<lambda>did name. concat (map (\<lambda>line. map (Pair GitRefUpdateNSID) (update_events E user did name line) @
        map (Pair PipelineNSID) (pipeline_events E did name (push_options raw) line)) ?ls)"
  from assms obtain rel did name where rel: "filepath_Rel (he_ScanPath E) dir = Some rel"
    and sp: "splitN 2 CHR ''/'' rel = [did, name]"
    and k': "k' = snd (hook_lines E clock user did name (push_options raw) ?ls k)"
    by (auto simp: PostReceiveHook_def Let_def split: option.splits list.splits prod.splits)
  have rel_eq: "rel = did @ ''/'' @ name"
    using sp takeWhile_dropWhile_id [of "\<lambda>x. x \<noteq> CHR ''/''" rel] dropWhile_eq_Cons_conv [of "\<lambda>x. x \<noteq> CHR ''/''" rel]
    by (auto simp: numeral_2_eq_2 split: list.splits)
  have k2: "k' = log_events clock k (?due did name)" by (simp add: k' hook_lines_events)
  obtain new where new: "kl_events k' = kl_events k @ new"
    "map (\<lambda>e. (ev_Nsid e, ev_EventJson e)) new = ?due did name"
    "map (\<lambda>e. (ev_Created e, ev_Rkey e)) new = map clock [kl_ticks k ..< kl_ticks k + length (?due did name)]"
    using log_events_log [of clock k "?due did name"] k2 by auto
  have len: "length (?due did name) = length new" using new(2) by (metis length_map)
  have "new = [] \<longleftrightarrow> ?due did name = []" unfolding length_0_conv [symmetric] len ..
  then have notified: "kl_notifier k' = (if new = [] then kl_notifier k else NotifyAll (kl_notifier k))"
    unfolding k2 log_events_notifier by (simp only:)
  have skip: "PipelineNSID \<notin> ev_Nsid ` set new" if "''skip-ci'' \<in> set raw"
  proof -
    have "pipeline_events E did name (push_options raw) line = []" for line
      using that by (simp add: pipeline_events_def push_options_def)
    moreover have "ev_Nsid ` set new = fst ` set (?due did name)"
      using arg_cong [OF new(2), of "\<lambda>xs. fst ` set xs"] by (simp add: image_image)
    ultimately show ?thesis by (auto simp: GitRefUpdateNSID_def PipelineNSID_def)
  qed
  show ?thesis
    by (intro exI [of _ did] exI [of _ name] exI [of _ new] conjI impI, unfold rel rel_eq)
      (fact refl new notified new(3) [unfolded len] skip)+
qed

definition sample_git :: "unit GitOps" where
  "sample_git = \<lparr>go_Open = (\<lambda>_ _. Inr ()), go_PlainOpen = (\<lambda>_. Inr ()), go_FindMainBranch = (\<lambda>_. Inr ''main''),
     go_BranchNames = (\<lambda>_. [''main'']), go_revList = (\<lambda>_ _. Inr ''c1''), go_authorEmail = (\<lambda>_ _. Inr ''a@b''),
     go_AnalyzeLanguages = (\<lambda>_. Inr []), go_FileTree = (\<lambda>_ _. Inl ''no such directory''), go_RawContent = (\<lambda>_ _. Inl ''no such file'')\<rparr>"

definition sample_hook_env :: "unit HookEnv" where
  "sample_hook_env = \<lparr>he_git = sample_git, he_wf = exact_env, he_newHash = id, he_join = plain_join, he_resolve = sample_resolver,
     he_ScanPath = ''/r'', he_Hostname = ''knot'', he_AppView = ''https://tangled.org'',
     he_marshalUpdate = (\<lambda>u. Inr (gu_Ref u)), he_marshalPipeline = (\<lambda>_. Inr ''{}'')\<rparr>"

theorem PostReceiveHook_events_witness:
  "\<exists>msgs k'. PostReceiveHook sample_hook_env (\<lambda>n. (int n + 1, ''k'')) ''/r/did:plc:a/x'' ''did:plc:a'' [''skip-ci'']
       ''0a 1b refs/heads/main'' \<lparr>kl_events = [], kl_notifier = Map.empty, kl_ticks = 0\<rparr> = (Some msgs, k') \<and>
     PipelineNSID \<notin> ev_Nsid ` set (kl_events k')"
proof -
  let ?run = "PostReceiveHook sample_hook_env (\<lambda>n. (int n + 1, ''k'')) ''/r/did:plc:a/x'' ''did:plc:a'' [''skip-ci'']
       ''0a 1b refs/heads/main'' \<lparr>kl_events = [], kl_notifier = Map.empty, kl_ticks = 0\<rparr>"
  have rel: "filepath_Rel (he_ScanPath sample_hook_env) ''/r/did:plc:a/x'' = Some ''did:plc:a/x''"
    by (simp add: sample_hook_env_def filepath_Rel_def path_elements_def hasPrefix_def)
  have "splitN 2 CHR ''/'' ''did:plc:a/x'' = [''did:plc:a'', ''x'']" by (simp add: numeral_2_eq_2)
  with rel obtain msgs k' where r: "?run = (Some msgs, k')"
    by (cases "hook_lines sample_hook_env (\<lambda>n. (int n + 1, ''k'')) ''did:plc:a'' ''did:plc:a'' ''x'' (push_options [''skip-ci''])
          (case ParsePostReceive (he_newHash sample_hook_env) ''0a 1b refs/heads/main'' of Inl _ \<Rightarrow> [] | Inr ls \<Rightarrow> ls)
          \<lparr>kl_events = [], kl_notifier = Map.empty, kl_ticks = 0\<rparr>")
      (simp add: PostReceiveHook_def)
  with PostReceiveHook_events [OF r] show ?thesis by auto
qed

end
