(* ===== verification/Knot_Ingest.thy ===== *)
theory Knot_Ingest
  imports Knot_Hooks
begin

text \<open>
  What a knot takes from the network: the filter and the cursor of the Jetstream client
  (\<^verbatim>\<open>jetstream/jetstream.go\<close>), the tables of known DIDs and public keys (\<^verbatim>\<open>knotserver/db\<close>), and the
  handlers of \<^verbatim>\<open>knotserver/ingester.go\<close>, which add keys, members and collaborators and compile the
  pipelines of pull requests.

  An SQL statement on these tables succeeds except where a constraint forbids it. Decoding of records,
  AT-URIs, identities, fetching records and keys and the file system are arguments. An error is the
  fixed part of its message; the handlers only log it. What a handler has written before an
  error stays written, as in the code.
\<close>

section \<open>The Jetstream client\<close>

record JetEvent =
  je_Did :: string
  je_TimeUS :: int
  je_Kind :: string
  je_Collection :: string
  je_Operation :: string
  je_RKey :: string
  je_Record :: string

definition EventKindCommit :: string where "EventKindCommit = ''commit''"

text \<open>The set of wanted DIDs.\<close>

definition Jetstream_AddDid :: "string set \<Rightarrow> string \<Rightarrow> string set" where
  "Jetstream_AddDid wanted did = (if did = [] then wanted else insert did wanted)"

definition Jetstream_RemoveDid :: "string set \<Rightarrow> string \<Rightarrow> string set" where
  "Jetstream_RemoveDid wanted did = (if did = [] then wanted else wanted - {did})"

definition withDidFilter :: "('st \<Rightarrow> string set) \<Rightarrow> (JetEvent \<Rightarrow> 'st \<Rightarrow> 'st) \<Rightarrow> JetEvent \<Rightarrow> 'st \<Rightarrow> 'st" where
  "withDidFilter wanted processFunc ev st =
     (if wanted st = {} \<or> je_Did ev \<in> wanted st then processFunc ev st else st)"

text \<open>
  The events of a stream, one after the other. Whatever invariant every event keeps holds after any
  stream; the servers that ingest events are instances.
\<close>

definition ingest_all :: "('st \<Rightarrow> string set) \<Rightarrow> (JetEvent \<Rightarrow> 'st \<Rightarrow> 'st) \<Rightarrow> JetEvent list \<Rightarrow> 'st \<Rightarrow> 'st" where
  "ingest_all wanted process evs st = foldl (\<lambda>st ev. withDidFilter wanted process ev st) st evs"

locale ingester =
  fixes wanted :: "'st \<Rightarrow> string set"
    and process :: "JetEvent \<Rightarrow> 'st \<Rightarrow> 'st"
    and ok :: "'st \<Rightarrow> bool"
  assumes process_ok: "ok st \<Longrightarrow> ok (process ev st)"
begin

lemma filtered_ok: "ok st \<Longrightarrow> ok (withDidFilter wanted process ev st)"
  by (simp add: withDidFilter_def process_ok)

lemma ingest_all_ok: "ok st \<Longrightarrow> ok (ingest_all wanted process evs st)"
  unfolding ingest_all_def by (induction evs arbitrary: st) (simp_all add: filtered_ok)

lemma ingest_all_foreign:
  assumes "wanted st \<noteq> {}" "\<forall>ev \<in> set evs. je_Did ev \<notin> wanted st"
  shows "ingest_all wanted process evs st = st"
  using assms unfolding ingest_all_def by (induction evs) (auto simp: withDidFilter_def)

end

text \<open>
  The cursor to start from and the cursor saved: the saved one, unless there is none or it is older
  than two days; then the current time, which is saved.
\<close>

definition getLastTimeUs :: "int \<Rightarrow> int option \<Rightarrow> int \<times> int option" where
  "getLastTimeUs now saved =
     (let (lastTimeUs, saved') = (case saved of None \<Rightarrow> (now, Some now) | Some t \<Rightarrow> (t, saved))
      in if now - lastTimeUs > 2 * 24 * 60 * 60 * 1000 * 1000 then (now, Some now) else (lastTimeUs, saved'))"

section \<open>Tables\<close>

definition AddDid :: "string list \<Rightarrow> string \<Rightarrow> string list" where
  "AddDid known did = (if did \<in> set known then known else known @ [did])"

record PublicKey =
  pk_Did :: string
  pk_Key :: string
  pk_CreatedAt :: string

text \<open>A key belongs to a known DID and is stored once; an empty time of creation becomes the current one.\<close>

definition AddPublicKey :: "string \<Rightarrow> string list \<Rightarrow> PublicKey list \<Rightarrow> PublicKey \<Rightarrow> PublicKey list option" where
  "AddPublicKey now known keys pk =
     (let pk' = (if pk_CreatedAt pk = [] then pk\<lparr>pk_CreatedAt := now\<rparr> else pk)
      in if \<exists>k \<in> set keys. pk_Did k = pk_Did pk \<and> pk_Key k = pk_Key pk then Some keys
         else if pk_Did pk \<notin> set known then None
         else Some (keys @ [pk']))"

definition RemoveDid :: "string list \<times> PublicKey list \<Rightarrow> string \<Rightarrow> string list \<times> PublicKey list" where
  "RemoveDid db did = (filter (\<lambda>d. d \<noteq> did) (fst db), filter (\<lambda>k. pk_Did k \<noteq> did) (snd db))"

section \<open>Records and state\<close>

record RepoRecord =
  rr_Name :: string
  rr_Knot :: string
  rr_Spindle :: "string option"

record KnotMember =
  km_Domain :: string
  km_Subject :: string

record RepoCollaborator =
  rc_Repo :: string
  rc_Subject :: string

record PullSourceRecord =
  ps_Branch :: string
  ps_Repo :: "string option"
  ps_Sha :: string

record PullTargetRecord =
  pt_Repo :: string
  pt_Branch :: string

record RepoPullRecord =
  rp_Source :: "PullSourceRecord option"
  rp_Target :: "PullTargetRecord option"

record 'g KnotEnv =
  ke_hook :: "'g HookEnv"
  ke_now :: string
  ke_PublicKey :: "string \<Rightarrow> (string, string \<times> string) result"
  ke_KnotMember :: "string \<Rightarrow> (string, KnotMember) result"
  ke_RepoPull :: "string \<Rightarrow> (string, RepoPullRecord) result"
  ke_Collaborator :: "string \<Rightarrow> (string, RepoCollaborator) result"
  ke_parseATURI :: "string \<Rightarrow> (string, string \<times> string) result"
  ke_getRepo :: "string \<Rightarrow> string \<Rightarrow> string \<Rightarrow> (string, RepoRecord) result"
  ke_fetchKeys :: "string \<Rightarrow> (string, nat \<times> string) result"
  ke_stat :: "string \<Rightarrow> bool option"

record 's KnotState =
  kn_enforcer :: 's
  kn_dids :: "string list"
  kn_keys :: "PublicKey list"
  kn_wanted :: "string set"
  kn_lastTime :: "int option"
  kn_log :: KnotLog

definition PublicKeyNSID :: string where "PublicKeyNSID = ''sh.tangled.publicKey''"
definition KnotMemberNSID :: string where "KnotMemberNSID = ''sh.tangled.knot.member''"
definition PullNSID :: string where "PullNSID = ''sh.tangled.repo.pull''"
definition RepoCollaboratorNSID :: string where "RepoCollaboratorNSID = ''sh.tangled.repo.collaborator''"

lemmas ingest_nsids = PublicKeyNSID_def KnotMemberNSID_def PullNSID_def RepoCollaboratorNSID_def

section \<open>Repositories on disk\<close>

text \<open>\<open>stat\<close> is \<^verbatim>\<open>os.Stat\<close>: \<open>None\<close> for an error, otherwise whether the path is a directory.\<close>

definition IsPijulRepo :: "(string \<Rightarrow> bool option) \<Rightarrow> string \<Rightarrow> bool" where
  "IsPijulRepo stat p = (case stat (path_Join p ''.pijul'') of None \<Rightarrow> False | Some d \<Rightarrow> d)"

definition IsGitRepo :: "(string \<Rightarrow> bool option) \<Rightarrow> string \<Rightarrow> bool" where
  "IsGitRepo stat p = (case stat (path_Join p ''.git'') of None \<Rightarrow> stat (path_Join p ''HEAD'') \<noteq> None | Some d \<Rightarrow> d)"

definition DetectVCS :: "(string \<Rightarrow> bool option) \<Rightarrow> string \<Rightarrow> (string, string) result" where
  "DetectVCS stat p =
     (if IsPijulRepo stat p then Inr ''pijul'' else if IsGitRepo stat p then Inr ''git''
      else Inl (''no VCS repository found at '' @ p))"

section \<open>Handlers\<close>

type_synonym 's handler = "'s KnotState \<Rightarrow> 's KnotState \<times> string option"

definition processPublicKey :: "'g KnotEnv \<Rightarrow> JetEvent \<Rightarrow> 's handler" where
  "processPublicKey E ev st =
     (case ke_PublicKey E (je_Record ev) of
        Inl e \<Rightarrow> (st, Some ''failed to unmarshal record'')
      | Inr (key, createdAt) \<Rightarrow>
          (case AddPublicKey (ke_now E) (kn_dids st) (kn_keys st) \<lparr>pk_Did = je_Did ev, pk_Key = key, pk_CreatedAt = createdAt\<rparr> of
             None \<Rightarrow> (st, Some ''failed to add public key'')
           | Some keys \<Rightarrow> (st\<lparr>kn_keys := keys\<rparr>, None)))"

fun add_keys :: "string \<Rightarrow> string \<Rightarrow> string list \<Rightarrow> 's handler" where
  "add_keys now did [] st = (st, None)"
| "add_keys now did (key # ks) st =
     (if key = [] then add_keys now did ks st
      else case AddPublicKey now (kn_dids st) (kn_keys st) \<lparr>pk_Did = did, pk_Key = key, pk_CreatedAt = []\<rparr> of
             None \<Rightarrow> (st, Some ''failed to add public key'')
           | Some keys \<Rightarrow> add_keys now did ks (st\<lparr>kn_keys := keys\<rparr>))"

definition fetchAndAddKeys :: "'g KnotEnv \<Rightarrow> string \<Rightarrow> 's handler" where
  "fetchAndAddKeys E did st =
     (case ke_fetchKeys E did of
        Inl e \<Rightarrow> (st, Some ''error getting keys'')
      | Inr (status, plaintext) \<Rightarrow>
          if status = 404 then (st, None) else add_keys (ke_now E) did (splitOn newline plaintext) st)"

definition processKnotMember :: "('s, 'e) Casbin \<Rightarrow> 'g KnotEnv \<Rightarrow> JetEvent \<Rightarrow> 's handler" where
  "processKnotMember C E ev st =
     (case ke_KnotMember E (je_Record ev) of
        Inl e \<Rightarrow> (st, Some ''failed to unmarshal record'')
      | Inr record \<Rightarrow>
          if km_Domain record \<noteq> he_Hostname (ke_hook E) then (st, Some ''domain mismatch'')
          else if \<not> allowed (Enforce C (kn_enforcer st) (je_Did ev) ThisServer ThisServer ''server:invite'') then
            (st, Some ''failed to enforce permissions'')
          else
            (case AddKnotMember C (kn_enforcer st) ThisServer (km_Subject record) of
               Inl e \<Rightarrow> (st, Some ''failed to add member'')
             | Inr s' \<Rightarrow>
                 fetchAndAddKeys E (km_Subject record)
                   (st\<lparr>kn_enforcer := s', kn_dids := AddDid (kn_dids st) (km_Subject record),
                       kn_wanted := Jetstream_AddDid (kn_wanted st) (km_Subject record)\<rparr>)))"

definition pull_trigger :: "string \<Rightarrow> RepoRecord \<Rightarrow> PullSourceRecord \<Rightarrow> PullTargetRecord \<Rightarrow> TriggerMetadata" where
  "pull_trigger did repo source target =
     \<lparr>tm_Kind = TriggerKindPullRequest, tm_Manual = None,
      tm_PullRequest = Some \<lparr>pr_Action = ''create'', pr_SourceBranch = ps_Branch source, pr_SourceSha = ps_Sha source,
        pr_TargetBranch = pt_Branch target\<rparr>,
      tm_Push = None,
      tm_Repo = Some \<lparr>tr_DefaultBranch = [], tr_Did = did, tr_Knot = rr_Knot repo, tr_Repo = rr_Name repo\<rparr>\<rparr>"

definition pull_pipeline :: "'g KnotEnv \<Rightarrow> Identity \<Rightarrow> RepoRecord \<Rightarrow> PullSourceRecord \<Rightarrow> PullTargetRecord \<Rightarrow> (string, CompiledPipeline) result" where
  "pull_pipeline E ident repo source target =
     (let H = ke_hook E; G = he_git H
      in bind_result (checked_join (he_join H) (id_DID ident) (rr_Name repo)) (\<lambda>didSlashRepo.
         bind_result (checked_join (he_join H) (he_ScanPath H) didSlashRepo) (\<lambda>repoPath.
         bind_result (go_Open G repoPath (ps_Sha source)) (\<lambda>gr.
         bind_result (go_FileTree G gr WorkflowDir) (\<lambda>workflowDir.
         Inr (fst (compile_with (he_wf H) (pull_trigger (id_DID ident) repo source target)
           (collect_workflows G gr workflowDir))))))))"

definition processPull :: "'g KnotEnv \<Rightarrow> (nat \<Rightarrow> int \<times> string) \<Rightarrow> JetEvent \<Rightarrow> 's handler" where
  "processPull E clock ev st =
     (case ke_RepoPull E (je_Record ev) of
        Inl e \<Rightarrow> (st, Some ''failed to unmarshal record'')
      | Inr record \<Rightarrow>
          (case (rp_Target record, rp_Source record) of
             (None, _) \<Rightarrow> (st, Some ''ignoring pull record: target repo is nil'')
           | (Some target, None) \<Rightarrow> (st, Some ''ignoring pull record: not a branch-based pull request'')
           | (Some target, Some source) \<Rightarrow>
               if ps_Repo source \<noteq> None then (st, Some ''ignoring pull record: fork based pull'')
               else
                 (case ke_parseATURI E (pt_Repo target) of
                    Inl e \<Rightarrow> (st, Some ''failed to parse ATURI'')
                  | Inr (authority, rkey) \<Rightarrow>
                      (case resolve_valid (he_resolve (ke_hook E)) authority of
                         None \<Rightarrow> (st, Some ''failed to resolve handle'')
                       | Some ident \<Rightarrow>
                           (case ke_getRepo E (id_PDS ident) authority rkey of
                              Inl e \<Rightarrow> (st, Some ''failed to resolver repo'')
                            | Inr repo \<Rightarrow>
                                if rr_Knot repo \<noteq> he_Hostname (ke_hook E) then (st, Some ''rejected pull record: not this knot'')
                                else
                                  (case pull_pipeline E ident repo source target of
                                     Inl e \<Rightarrow> (st, Some e)
                                   | Inr cp \<Rightarrow>
                                       (case he_marshalPipeline (ke_hook E) cp of
                                          Inl e \<Rightarrow> (st, Some ''failed to marshal pipeline event'')
                                        | Inr eventJson \<Rightarrow>
                                            if cp_Workflows cp = [] then (st, None)
                                            else (st\<lparr>kn_log := log_event clock (kn_log st) PipelineNSID eventJson\<rparr>, None))))))))"

text \<open>The subject and the repository of a collaborator record, or how the handler returns without them.\<close>

definition collaborator_target :: "'g KnotEnv \<Rightarrow> string \<Rightarrow> (string option, string \<times> string) result" where
  "collaborator_target E raw =
     (case ke_Collaborator E raw of
        Inl e \<Rightarrow> Inl (Some ''failed to unmarshal record'')
      | Inr record \<Rightarrow>
          (case ke_parseATURI E (rc_Repo record) of
             Inl e \<Rightarrow> Inl (Some e)
           | Inr (authority, rkey) \<Rightarrow>
               (case resolve_valid (he_resolve (ke_hook E)) (rc_Subject record) of
                  None \<Rightarrow> Inl (case he_resolve (ke_hook E) (rc_Subject record) of Inl e \<Rightarrow> Some e | Inr _ \<Rightarrow> None)
                | Some subjectId \<Rightarrow>
                    (case resolve_valid (he_resolve (ke_hook E)) authority of
                       None \<Rightarrow> Inl (Some ''failed to resolve handle'')
                     | Some owner \<Rightarrow>
                         (case ke_getRepo E (id_PDS owner) authority rkey of
                            Inl e \<Rightarrow> Inl (Some e)
                          | Inr repo \<Rightarrow> Inr (id_DID subjectId, fst (he_join (ke_hook E) (id_DID owner) (rr_Name repo))))))))"

definition grant_collaborator :: "('s, 'e) Casbin \<Rightarrow> 'g KnotEnv \<Rightarrow> string \<Rightarrow> string \<Rightarrow> 's handler" where
  "grant_collaborator C E subject didSlashRepo st =
     (let st1 = st\<lparr>kn_dids := AddDid (kn_dids st) subject, kn_wanted := Jetstream_AddDid (kn_wanted st) subject\<rparr>
      in case AddCollaborator C (kn_enforcer st) subject ThisServer didSlashRepo of
           Inl e \<Rightarrow> (st1, Some ''failed to add collaborator'')
         | Inr s1 \<Rightarrow>
             (case checked_join (he_join (ke_hook E)) (he_ScanPath (ke_hook E)) didSlashRepo of
                Inl e \<Rightarrow> (st1\<lparr>kn_enforcer := s1\<rparr>, Some e)
              | Inr repoPath \<Rightarrow>
                  if DetectVCS (ke_stat E) repoPath \<noteq> Inr ''pijul'' then fetchAndAddKeys E subject (st1\<lparr>kn_enforcer := s1\<rparr>)
                  else
                    (case AddPijulCollaboratorPermissions C s1 subject ThisServer didSlashRepo of
                       Inl e \<Rightarrow> (st1\<lparr>kn_enforcer := s1\<rparr>, Some ''failed to add pijul permissions'')
                     | Inr s2 \<Rightarrow> fetchAndAddKeys E subject (st1\<lparr>kn_enforcer := s2\<rparr>))))"

definition processCollaborator :: "('s, 'e) Casbin \<Rightarrow> 'g KnotEnv \<Rightarrow> JetEvent \<Rightarrow> 's handler" where
  "processCollaborator C E ev st =
     (case collaborator_target E (je_Record ev) of
        Inl err \<Rightarrow> (st, err)
      | Inr (subject, didSlashRepo) \<Rightarrow>
          if \<not> allowed (IsCollaboratorInviteAllowed C (kn_enforcer st) (je_Did ev) ThisServer didSlashRepo) then
            (st, Some ''insufficient permissions'')
          else grant_collaborator C E subject didSlashRepo st)"

definition processMessages ::
  "('s, 'e) Casbin \<Rightarrow> 'g KnotEnv \<Rightarrow> (nat \<Rightarrow> int \<times> string) \<Rightarrow> JetEvent \<Rightarrow> 's KnotState \<Rightarrow> 's KnotState" where
  "processMessages C E clock ev st =
     (if je_Kind ev \<noteq> EventKindCommit then st
      else
        let st' = fst (if je_Collection ev = PublicKeyNSID then processPublicKey E ev st
                       else if je_Collection ev = KnotMemberNSID then processKnotMember C E ev st
                       else if je_Collection ev = PullNSID then processPull E clock ev st
                       else if je_Collection ev = RepoCollaboratorNSID then processCollaborator C E ev st
                       else (st, None))
        in st'\<lparr>kn_lastTime := Some (je_TimeUS ev + 1)\<rparr>)"

section \<open>Which rights an event gives\<close>

text \<open>
  The grouping rules and the policies an event of an author may bring: membership from somebody who may
  invite to the server, the rights of a collaborator from somebody who may invite to the repository.
\<close>

definition member_grants :: "rule set \<Rightarrow> grouping set \<Rightarrow> string \<Rightarrow> grouping set" where
  "member_grants P G author =
     {(m, ''server:member'', ThisServer) | m. granted P G author ThisServer ThisServer ''server:invite''}"

definition collaborator_grants :: "rule set \<Rightarrow> grouping set \<Rightarrow> string \<Rightarrow> rule set" where
  "collaborator_grants P G author =
     {r. \<exists>c repo. granted P G author ThisServer repo ''repo:invite'' \<and>
        r \<in> set (collaboratorPolicies c ThisServer repo) \<union> set (pijulCollaboratorPolicies c ThisServer repo)}"

definition grants_only :: "('s \<Rightarrow> rule set) \<Rightarrow> ('s \<Rightarrow> grouping set) \<Rightarrow> string \<Rightarrow> 's \<Rightarrow> 's \<Rightarrow> bool" where
  "grants_only pol grp author s s' \<longleftrightarrow>
     pol s \<subseteq> pol s' \<and> grp s \<subseteq> grp s' \<and>
     pol s' - pol s \<subseteq> collaborator_grants (pol s) (grp s) author \<and>
     grp s' - grp s \<subseteq> member_grants (pol s) (grp s) author"

lemma grants_only_refl [simp]: "grants_only pol grp author s s"
  by (simp add: grants_only_def)

lemma add_keys_frame [simp]:
  "kn_enforcer (fst (add_keys now did ks st)) = kn_enforcer st"
  "kn_dids (fst (add_keys now did ks st)) = kn_dids st"
  "kn_wanted (fst (add_keys now did ks st)) = kn_wanted st"
  by (induction now did ks st rule: add_keys.induct) (auto split: option.splits)

lemma fetchAndAddKeys_frame [simp]:
  "kn_enforcer (fst (fetchAndAddKeys E did st)) = kn_enforcer st"
  "kn_dids (fst (fetchAndAddKeys E did st)) = kn_dids st"
  "kn_wanted (fst (fetchAndAddKeys E did st)) = kn_wanted st"
  by (auto simp: fetchAndAddKeys_def split: sum.splits)

lemma processPublicKey_frame [simp]:
  "kn_enforcer (fst (processPublicKey E ev st)) = kn_enforcer st"
  "kn_dids (fst (processPublicKey E ev st)) = kn_dids st"
  "kn_wanted (fst (processPublicKey E ev st)) = kn_wanted st"
  by (auto simp: processPublicKey_def split: sum.splits option.splits)

lemma processPull_frame [simp]:
  "kn_enforcer (fst (processPull E clock ev st)) = kn_enforcer st"
  "kn_dids (fst (processPull E clock ev st)) = kn_dids st"
  "kn_wanted (fst (processPull E clock ev st)) = kn_wanted st"
  "kn_keys (fst (processPull E clock ev st)) = kn_keys st"
  by (auto simp: processPull_def split: sum.splits option.splits)

lemma casbin_group:
  assumes "casbin_ok C pol grp" "AddKnotMember C s d m = Inr s'"
  shows "pol s' = pol s" "grp s' = insert (m, ''server:member'', d) (grp s)"
  using assms casbin_group_add [OF assms(1)] unfolding AddKnotMember_def addMember_def lift_def
  by (auto simp: map_sum_Inr_iff)

lemma processKnotMember_grants:
  assumes ok: "casbin_ok C pol grp"
  shows "grants_only pol grp (je_Did ev) (kn_enforcer st) (kn_enforcer (fst (processKnotMember C E ev st)))"
proof (cases "kn_enforcer (fst (processKnotMember C E ev st)) = kn_enforcer st")
  case False
  then obtain m s' where "granted (pol (kn_enforcer st)) (grp (kn_enforcer st)) (je_Did ev) ThisServer ThisServer ''server:invite''"
    "AddKnotMember C (kn_enforcer st) ThisServer m = Inr s'"
    "kn_enforcer (fst (processKnotMember C E ev st)) = s'"
    by (auto simp: processKnotMember_def allowed_iff casbin_enforce [OF ok] split: sum.splits if_splits)
  then show ?thesis
    using casbin_group [OF ok] by (auto simp: grants_only_def member_grants_def)
qed simp

lemma add_policies_bounds:
  assumes "casbin_ok C pol grp" "change_policies (AddPolicies C) s repo rs = Inr s'"
  shows "grp s' = grp s" "pol s \<subseteq> pol s'" "pol s' \<subseteq> pol s \<union> set rs"
  using add_policies [OF assms] by auto

lemma grant_collaborator_bounds:
  assumes ok: "casbin_ok C pol grp"
    and s'_def: "s' = kn_enforcer (fst (grant_collaborator C E c repo st))"
  shows "grp s' = grp (kn_enforcer st)" "pol (kn_enforcer st) \<subseteq> pol s'"
    "pol s' \<subseteq> pol (kn_enforcer st) \<union> set (collaboratorPolicies c ThisServer repo) \<union> set (pijulCollaboratorPolicies c ThisServer repo)"
proof -
  let ?s = "kn_enforcer st"
  have "grp s' = grp ?s \<and> pol ?s \<subseteq> pol s' \<and>
    pol s' \<subseteq> pol ?s \<union> set (collaboratorPolicies c ThisServer repo) \<union> set (pijulCollaboratorPolicies c ThisServer repo)"
  proof (cases "AddCollaborator C ?s c ThisServer repo")
    case (Inl e)
    then show ?thesis by (auto simp: s'_def grant_collaborator_def)
  next
    case (Inr s1)
    note b1 = add_policies_bounds [OF ok, of ?s repo "collaboratorPolicies c ThisServer repo" s1]
    have i1: "grp s1 = grp ?s" "pol ?s \<subseteq> pol s1" "pol s1 \<subseteq> pol ?s \<union> set (collaboratorPolicies c ThisServer repo)"
      using b1 Inr unfolding AddCollaborator_def by blast+
    show ?thesis
    proof (cases "s' = s1")
      case True
      with i1 show ?thesis by blast
    next
      case False
      then have "AddPijulCollaboratorPermissions C s1 c ThisServer repo = Inr s'"
        using Inr by (auto simp: s'_def grant_collaborator_def Let_def split: sum.splits if_splits)
      then have "grp s' = grp s1" "pol s1 \<subseteq> pol s'" "pol s' \<subseteq> pol s1 \<union> set (pijulCollaboratorPolicies c ThisServer repo)"
        using add_policies_bounds [OF ok, of s1 repo "pijulCollaboratorPolicies c ThisServer repo" s']
        unfolding AddPijulCollaboratorPermissions_def by blast+
      with i1 show ?thesis by blast
    qed
  qed
  then show "grp s' = grp ?s" "pol ?s \<subseteq> pol s'"
    "pol s' \<subseteq> pol ?s \<union> set (collaboratorPolicies c ThisServer repo) \<union> set (pijulCollaboratorPolicies c ThisServer repo)"
    by blast+
qed

lemma processCollaborator_grants:
  assumes ok: "casbin_ok C pol grp"
  shows "grants_only pol grp (je_Did ev) (kn_enforcer st) (kn_enforcer (fst (processCollaborator C E ev st)))"
proof (cases "collaborator_target E (je_Record ev)")
  case (Inl e)
  then show ?thesis by (simp add: processCollaborator_def)
next
  case (Inr t)
  obtain c repo where t: "t = (c, repo)" by (cases t)
  show ?thesis
  proof (cases "granted (pol (kn_enforcer st)) (grp (kn_enforcer st)) (je_Did ev) ThisServer repo ''repo:invite''")
    case False
    then show ?thesis
      by (simp add: processCollaborator_def Inr t allowed_iff IsCollaboratorInviteAllowed_def casbin_enforce [OF ok])
  next
    case True
    then have eq: "processCollaborator C E ev st = grant_collaborator C E c repo st"
      by (simp add: processCollaborator_def Inr t allowed_iff IsCollaboratorInviteAllowed_def casbin_enforce [OF ok])
    note b = grant_collaborator_bounds [OF ok refl, where E = E and c = c and repo = repo and st = st]
    have "set (collaboratorPolicies c ThisServer repo) \<union> set (pijulCollaboratorPolicies c ThisServer repo) \<subseteq>
        collaborator_grants (pol (kn_enforcer st)) (grp (kn_enforcer st)) (je_Did ev)"
      using True unfolding collaborator_grants_def by blast
    then show ?thesis
      unfolding grants_only_def eq b(1) using b(2,3) by blast
  qed
qed

lemma processMessages_grants:
  assumes "casbin_ok C pol grp"
  shows "grants_only pol grp (je_Did ev) (kn_enforcer st) (kn_enforcer (processMessages C E clock ev st))"
  using processKnotMember_grants [OF assms] processCollaborator_grants [OF assms]
  by (auto simp: processMessages_def Let_def)

section \<open>Reachable states\<close>

text \<open>The states a knot can reach from a state by events that pass the filter.\<close>

inductive knot_reaches :: "('s, 'e) Casbin \<Rightarrow> 'g KnotEnv \<Rightarrow> (nat \<Rightarrow> int \<times> string) \<Rightarrow> 's KnotState \<Rightarrow> 's KnotState \<Rightarrow> bool"
  for C E clock st where
  start: "knot_reaches C E clock st st"
| ingest: "knot_reaches C E clock st st1 \<Longrightarrow>
    knot_reaches C E clock st (withDidFilter kn_wanted (processMessages C E clock) ev st1)"

text \<open>
  The tables agree: a DID is known once, a key is stored once and belongs to a known DID, and every known
  DID passes the filter.
\<close>

definition knot_ok :: "'s KnotState \<Rightarrow> bool" where
  "knot_ok st \<longleftrightarrow>
     distinct (kn_dids st) \<and> distinct (map (\<lambda>k. (pk_Did k, pk_Key k)) (kn_keys st)) \<and>
     pk_Did ` set (kn_keys st) \<subseteq> set (kn_dids st) \<and> set (kn_dids st) - {[]} \<subseteq> kn_wanted st"

lemma knot_ok_AddPublicKey:
  assumes "knot_ok st" "AddPublicKey now (kn_dids st) (kn_keys st) pk = Some keys"
  shows "knot_ok (st\<lparr>kn_keys := keys\<rparr>)"
  using assms by (auto simp: knot_ok_def AddPublicKey_def Let_def split: if_splits) blast+

lemma knot_ok_AddDid:
  "knot_ok st \<Longrightarrow> knot_ok (st\<lparr>kn_dids := AddDid (kn_dids st) did, kn_wanted := Jetstream_AddDid (kn_wanted st) did\<rparr>)"
  by (auto simp: knot_ok_def AddDid_def Jetstream_AddDid_def)

lemma knot_ok_frame [simp]:
  "knot_ok (st\<lparr>kn_enforcer := s\<rparr>) = knot_ok st" "knot_ok (st\<lparr>kn_lastTime := t\<rparr>) = knot_ok st"
  "knot_ok (st\<lparr>kn_log := l\<rparr>) = knot_ok st"
  by (simp_all add: knot_ok_def)

lemma knot_ok_add_keys: "knot_ok st \<Longrightarrow> knot_ok (fst (add_keys now did ks st))"
  by (induction now did ks st rule: add_keys.induct) (auto intro: knot_ok_AddPublicKey split: option.splits)

lemma knot_ok_fetch: "knot_ok st \<Longrightarrow> knot_ok (fst (fetchAndAddKeys E did st))"
  by (auto simp: fetchAndAddKeys_def knot_ok_add_keys split: sum.splits)

lemma knot_ok_member: "knot_ok st \<Longrightarrow> knot_ok (fst (processKnotMember C E ev st))"
proof -
  assume ok: "knot_ok st"
  have "knot_ok (st\<lparr>kn_enforcer := s, kn_dids := AddDid (kn_dids st) m, kn_wanted := Jetstream_AddDid (kn_wanted st) m\<rparr>)" for s m
    using knot_ok_AddDid [OF ok, of m] by (simp add: knot_ok_def)
  with ok show ?thesis
    by (auto simp: processKnotMember_def knot_ok_fetch split: sum.splits)
qed

lemma knot_ok_collaborator: "knot_ok st \<Longrightarrow> knot_ok (fst (processCollaborator C E ev st))"
proof -
  assume ok: "knot_ok st"
  have "knot_ok (fst (grant_collaborator C E c repo st))" for c repo
    using knot_ok_AddDid [OF ok, of c]
    by (auto simp: grant_collaborator_def Let_def knot_ok_fetch split: sum.splits)
  with ok show ?thesis by (auto simp: processCollaborator_def split: sum.splits)
qed

lemma knot_ok_messages: "knot_ok st \<Longrightarrow> knot_ok (processMessages C E clock ev st)"
proof -
  assume ok: "knot_ok st"
  have "knot_ok (fst (processPublicKey E ev st))"
    using ok by (auto simp: processPublicKey_def intro: knot_ok_AddPublicKey split: sum.splits option.splits)
  moreover have "knot_ok (fst (processPull E clock ev st))"
    using ok by (simp add: knot_ok_def)
  ultimately show ?thesis
    using ok knot_ok_member [OF ok] knot_ok_collaborator [OF ok] by (auto simp: processMessages_def Let_def)
qed

interpretation knot: ingester kn_wanted "processMessages C E clock" knot_ok
  by unfold_locales (rule knot_ok_messages)


definition sample_knot_env :: "unit KnotEnv" where
  "sample_knot_env = \<lparr>ke_hook = sample_hook_env, ke_now = ''now'', ke_PublicKey = (\<lambda>_. Inl ''no''),
     ke_KnotMember = (\<lambda>r. Inr \<lparr>km_Domain = ''knot'', km_Subject = r\<rparr>), ke_RepoPull = (\<lambda>_. Inl ''no''),
     ke_Collaborator = (\<lambda>_. Inl ''no''), ke_parseATURI = (\<lambda>_. Inl ''no''), ke_getRepo = (\<lambda>_ _ _. Inl ''no''),
     ke_fetchKeys = (\<lambda>_. Inr (200, ''ssh-ed25519 k'')), ke_stat = (\<lambda>_. None)\<rparr>"

definition sample_knot :: "(rule list \<times> grouping list) KnotState" where
  "sample_knot = \<lparr>kn_enforcer = ([(''server:owner'', ''thisserver'', ''thisserver'', ''server:invite'')],
       [(''did:plc:a'', ''server:owner'', ''thisserver'')]),
     kn_dids = [''did:plc:a''], kn_keys = [], kn_wanted = {''did:plc:a''}, kn_lastTime = None,
     kn_log = \<lparr>kl_events = [], kl_notifier = Map.empty, kl_ticks = 0\<rparr>\<rparr>"

definition sample_invitation :: JetEvent where
  "sample_invitation = \<lparr>je_Did = ''did:plc:a'', je_TimeUS = 7, je_Kind = ''commit'', je_Collection = ''sh.tangled.knot.member'',
     je_Operation = ''create'', je_RKey = ''r'', je_Record = ''did:plc:b''\<rparr>"


end
