(* ===== verification/Spindle_Ingest.thy ===== *)
theory Spindle_Ingest
  imports Knot_Ingest
begin

text \<open>
  What a spindle takes from the network: \<^verbatim>\<open>spindle/ingester.go\<close> with the tables of \<^verbatim>\<open>spindle/db\<close>.
  Members are added and removed, the repositories that chose this spindle are watched and their
  collaborators entered into the access control. The conventions are those of the knot's ingester.
\<close>

section \<open>Tables\<close>

record SpindleMember =
  sm_Did :: string
  sm_Rkey :: string
  sm_Instance :: string
  sm_Subject :: string

text \<open>Unique are the owner of the record, the instance and the subject.\<close>

definition Db_AddSpindleMember :: "SpindleMember list \<Rightarrow> SpindleMember \<Rightarrow> SpindleMember list" where
  "Db_AddSpindleMember rows m =
     (if \<exists>r \<in> set rows. sm_Did r = sm_Did m \<and> sm_Instance r = sm_Instance m \<and> sm_Subject r = sm_Subject m
      then rows else rows @ [m])"

definition Db_RemoveSpindleMember :: "SpindleMember list \<Rightarrow> string \<Rightarrow> string \<Rightarrow> SpindleMember list" where
  "Db_RemoveSpindleMember rows did rkey = filter (\<lambda>r. \<not> (sm_Did r = did \<and> sm_Rkey r = rkey)) rows"

text \<open>One row of those the query selects, which is not ordered: \<open>pick\<close> chooses it.\<close>

definition GetSpindleMember ::
  "(SpindleMember list \<Rightarrow> SpindleMember) \<Rightarrow> SpindleMember list \<Rightarrow> string \<Rightarrow> string \<Rightarrow> SpindleMember option" where
  "GetSpindleMember pick rows did rkey =
     (let found = filter (\<lambda>r. sm_Did r = did \<and> sm_Rkey r = rkey) rows in if found = [] then None else Some (pick found))"

record SpindleRepo =
  sr_Knot :: string
  sr_Owner :: string
  sr_Name :: string

definition Db_AddRepo :: "SpindleRepo list \<Rightarrow> SpindleRepo \<Rightarrow> SpindleRepo list" where
  "Db_AddRepo rows repo =
     (if \<exists>r \<in> set rows. sr_Owner r = sr_Owner repo \<and> sr_Name r = sr_Name repo then rows else rows @ [repo])"

definition Knots :: "SpindleRepo list \<Rightarrow> string list" where
  "Knots rows = map sr_Knot rows"

section \<open>State\<close>

record 's SpindleState =
  sp_enforcer :: 's
  sp_members :: "SpindleMember list"
  sp_repos :: "SpindleRepo list"
  sp_dids :: "string list"
  sp_wanted :: "string set"
  sp_sources :: "string set"
  sp_lastTime :: "int option"

record SpindleEnv =
  se_Hostname :: string
  se_pick :: "SpindleMember list \<Rightarrow> SpindleMember"
  se_SpindleMember :: "string \<Rightarrow> (string, string \<times> string) result"
  se_Repo :: "string \<Rightarrow> (string, RepoRecord) result"
  se_Collaborator :: "string \<Rightarrow> (string, RepoCollaborator) result"
  se_resolve :: resolver
  se_join :: joiner
  se_parseATURI :: "string \<Rightarrow> (string, string \<times> string) result"
  se_getRepo :: "string \<Rightarrow> string \<Rightarrow> string \<Rightarrow> (string, RepoRecord) result"
  se_listCollaborators :: "string \<Rightarrow> string \<Rightarrow> (string, RepoCollaborator option list) result"

definition rbacDomain :: string where "rbacDomain = ''thisserver''"
definition SpindleMemberNSID :: string where "SpindleMemberNSID = ''sh.tangled.spindle.member''"
definition RepoNSID :: string where "RepoNSID = ''sh.tangled.repo''"

definition is_write :: "JetEvent \<Rightarrow> bool" where
  "is_write ev \<longleftrightarrow> je_Operation ev = ''create'' \<or> je_Operation ev = ''update''"

type_synonym 's spindle_handler = "'s SpindleState \<Rightarrow> 's SpindleState \<times> string option"

section \<open>Members\<close>

definition add_member :: "('s, 'e) Casbin \<Rightarrow> SpindleEnv \<Rightarrow> JetEvent \<Rightarrow> 's spindle_handler" where
  "add_member C E ev st =
     (case se_SpindleMember E (je_Record ev) of
        Inl e \<Rightarrow> (st, Some e)
      | Inr (recordInstance, subject) \<Rightarrow>
          if recordInstance \<noteq> se_Hostname E then (st, Some ''domain mismatch'')
          else if \<not> allowed (IsSpindleInviteAllowed C (sp_enforcer st) (je_Did ev) rbacDomain) then
            (st, Some ''failed to enforce permissions'')
          else
            let st1 = st\<lparr>sp_members := Db_AddSpindleMember (sp_members st)
                  \<lparr>sm_Did = je_Did ev, sm_Rkey = je_RKey ev, sm_Instance = recordInstance, sm_Subject = subject\<rparr>\<rparr>
            in case AddSpindleMember C (sp_enforcer st) rbacDomain subject of
                 Inl e \<Rightarrow> (st1, Some ''failed to add member'')
               | Inr s' \<Rightarrow>
                   (st1\<lparr>sp_enforcer := s', sp_dids := AddDid (sp_dids st) subject,
                        sp_wanted := Jetstream_AddDid (sp_wanted st) subject\<rparr>, None))"

definition remove_member :: "('s, 'e) Casbin \<Rightarrow> SpindleEnv \<Rightarrow> JetEvent \<Rightarrow> 's spindle_handler" where
  "remove_member C E ev st =
     (case GetSpindleMember (se_pick E) (sp_members st) (je_Did ev) (je_RKey ev) of
        None \<Rightarrow> (st, Some ''failed to find member'')
      | Some record \<Rightarrow>
          let st1 = st\<lparr>sp_members := Db_RemoveSpindleMember (sp_members st) (je_Did ev) (je_RKey ev)\<rparr>
          in case RemoveSpindleMember C (sp_enforcer st) rbacDomain (sm_Subject record) of
               Inl e \<Rightarrow> (st1, Some ''failed to add member'')
             | Inr s' \<Rightarrow>
                 (st1\<lparr>sp_enforcer := s', sp_dids := filter (\<lambda>d. d \<noteq> sm_Subject record) (sp_dids st),
                      sp_wanted := Jetstream_RemoveDid (sp_wanted st) (sm_Subject record)\<rparr>, None))"

definition ingestMember :: "('s, 'e) Casbin \<Rightarrow> SpindleEnv \<Rightarrow> JetEvent \<Rightarrow> 's spindle_handler" where
  "ingestMember C E ev st =
     (if is_write ev then add_member C E ev st
      else if je_Operation ev = ''delete'' then remove_member C E ev st
      else (st, None))"

section \<open>Repositories\<close>

text \<open>
  The collaborators of all the owner's records are added to the one repository. An error of the access
  control is logged and skipped, the joined error is not kept.
\<close>

fun add_collaborators :: "('s, 'e) Casbin \<Rightarrow> string \<Rightarrow> RepoCollaborator option list \<Rightarrow> 's \<Rightarrow> 's" where
  "add_collaborators C didSlashRepo [] s = s"
| "add_collaborators C didSlashRepo (None # rs) s = add_collaborators C didSlashRepo rs s"
| "add_collaborators C didSlashRepo (Some record # rs) s =
     add_collaborators C didSlashRepo rs
       (case AddCollaborator C s (rc_Subject record) ThisServer didSlashRepo of Inl e \<Rightarrow> s | Inr s' \<Rightarrow> s')"

definition fetchAndAddCollaborators :: "('s, 'e) Casbin \<Rightarrow> SpindleEnv \<Rightarrow> Identity \<Rightarrow> string \<Rightarrow> 's spindle_handler" where
  "fetchAndAddCollaborators C E owner didSlashRepo st =
     (case se_listCollaborators E (id_PDS owner) (id_DID owner) of
        Inl e \<Rightarrow> (st, Some e)
      | Inr records \<Rightarrow> (st\<lparr>sp_enforcer := add_collaborators C didSlashRepo records (sp_enforcer st)\<rparr>, None))"

definition ingestRepo :: "('s, 'e) Casbin \<Rightarrow> SpindleEnv \<Rightarrow> JetEvent \<Rightarrow> 's spindle_handler" where
  "ingestRepo C E ev st =
     (if \<not> is_write ev then (st, None)
      else case se_Repo E (je_Record ev) of
             Inl e \<Rightarrow> (st, Some e)
           | Inr record \<Rightarrow>
               if rr_Spindle record \<noteq> Some (se_Hostname E) then (st, None)
               else
                 let st1 = st\<lparr>sp_repos := Db_AddRepo (sp_repos st)
                       \<lparr>sr_Knot = rr_Knot record, sr_Owner = je_Did ev, sr_Name = rr_Name record\<rparr>\<rparr>
                 in (case checked_join (se_join E) (je_Did ev) (rr_Name record) of
                       Inl e \<Rightarrow> (st1, Some e)
                     | Inr didSlashRepo \<Rightarrow>
                         (case AddRepo C (sp_enforcer st) (je_Did ev) ThisServer didSlashRepo of
                            Inl e \<Rightarrow> (st1, Some ''failed to add repo'')
                          | Inr s1 \<Rightarrow>
                              let st2 = st1\<lparr>sp_enforcer := s1\<rparr>
                              in (case resolve_valid (se_resolve E) (je_Did ev) of
                                    None \<Rightarrow> (st2, case se_resolve E (je_Did ev) of Inl e \<Rightarrow> Some e | Inr _ \<Rightarrow> None)
                                  | Some owner \<Rightarrow>
                                      (case fetchAndAddCollaborators C E owner didSlashRepo st2 of
                                         (st3, Some e) \<Rightarrow> (st3, Some e)
                                       | (st3, None) \<Rightarrow> (st3\<lparr>sp_sources := insert (rr_Knot record) (sp_sources st3)\<rparr>, None))))))"

section \<open>Collaborators\<close>

text \<open>The repository's owner, the repository and the subject a record names.\<close>

definition spindle_target :: "SpindleEnv \<Rightarrow> string \<Rightarrow> (string option, string \<times> string \<times> string) result" where
  "spindle_target E raw =
     (case se_Collaborator E raw of
        Inl e \<Rightarrow> Inl (Some e)
      | Inr record \<Rightarrow>
          (case resolve_valid (se_resolve E) (rc_Subject record) of
             None \<Rightarrow> Inl (case se_resolve E (rc_Subject record) of Inl e \<Rightarrow> Some e | Inr _ \<Rightarrow> None)
           | Some subjectId \<Rightarrow>
               (case se_parseATURI E (rc_Repo record) of
                  Inl e \<Rightarrow> Inl None
                | Inr (authority, rkey) \<Rightarrow>
                    (case resolve_valid (se_resolve E) authority of
                       None \<Rightarrow> Inl (Some ''failed to resolve handle'')
                     | Some owner \<Rightarrow>
                         (case se_getRepo E (id_PDS owner) authority rkey of
                            Inl e \<Rightarrow> Inl (Some e)
                          | Inr repo \<Rightarrow> Inr (id_DID owner, fst (se_join E (id_DID owner) (rr_Name repo)), rc_Subject record))))))"

definition ingestCollaborator :: "('s, 'e) Casbin \<Rightarrow> SpindleEnv \<Rightarrow> JetEvent \<Rightarrow> 's spindle_handler" where
  "ingestCollaborator C E ev st =
     (if \<not> is_write ev then (st, None)
      else case spindle_target E (je_Record ev) of
             Inl err \<Rightarrow> (st, err)
           | Inr (ownerDid, didSlashRepo, subject) \<Rightarrow>
               if \<not> allowed (IsCollaboratorInviteAllowed C (sp_enforcer st) ownerDid ThisServer didSlashRepo) then
                 (st, Some ''insufficient permissions'')
               else case AddCollaborator C (sp_enforcer st) subject ThisServer didSlashRepo of
                      Inl e \<Rightarrow> (st, Some ''failed to add repo'')
                    | Inr s' \<Rightarrow> (st\<lparr>sp_enforcer := s'\<rparr>, None))"

definition ingest :: "('s, 'e) Casbin \<Rightarrow> SpindleEnv \<Rightarrow> JetEvent \<Rightarrow> 's SpindleState \<Rightarrow> 's SpindleState" where
  "ingest C E ev st =
     (let st' = (if je_Kind ev \<noteq> EventKindCommit then st
                 else fst (if je_Collection ev = SpindleMemberNSID then ingestMember C E ev st
                           else if je_Collection ev = RepoNSID then ingestRepo C E ev st
                           else if je_Collection ev = RepoCollaboratorNSID then ingestCollaborator C E ev st
                           else (st, None)))
      in st'\<lparr>sp_lastTime := Some (je_TimeUS ev + 1)\<rparr>)"

section \<open>The tables stay consistent\<close>

definition spindle_ok :: "'s SpindleState \<Rightarrow> bool" where
  "spindle_ok st \<longleftrightarrow>
     distinct (sp_dids st) \<and> set (sp_dids st) - {[]} \<subseteq> sp_wanted st \<and>
     distinct (map (\<lambda>r. (sr_Owner r, sr_Name r)) (sp_repos st)) \<and>
     distinct (map (\<lambda>m. (sm_Did m, sm_Instance m, sm_Subject m)) (sp_members st))"

lemma spindle_ok_enforcer [simp]: "spindle_ok (st\<lparr>sp_enforcer := s\<rparr>) = spindle_ok st"
  "spindle_ok (st\<lparr>sp_lastTime := t\<rparr>) = spindle_ok st" "spindle_ok (st\<lparr>sp_sources := u\<rparr>) = spindle_ok st"
  by (simp_all add: spindle_ok_def)

lemma spindle_ok_add_member: "spindle_ok st \<Longrightarrow> spindle_ok (fst (add_member C E ev st))"
proof -
  assume ok: "spindle_ok st"
  have "distinct (map (\<lambda>m. (sm_Did m, sm_Instance m, sm_Subject m)) (Db_AddSpindleMember (sp_members st) m))" for m
    using ok by (auto simp: spindle_ok_def Db_AddSpindleMember_def)
  with ok show ?thesis
    by (auto simp: add_member_def Let_def spindle_ok_def AddDid_def Jetstream_AddDid_def split: sum.splits)
qed

lemma spindle_ok_remove_member: "spindle_ok st \<Longrightarrow> spindle_ok (fst (remove_member C E ev st))"
  by (auto simp: remove_member_def Let_def spindle_ok_def Db_RemoveSpindleMember_def Jetstream_RemoveDid_def
      distinct_map_filter split: option.splits sum.splits)

lemma spindle_ok_repo: "spindle_ok st \<Longrightarrow> spindle_ok (fst (ingestRepo C E ev st))"
proof -
  assume ok: "spindle_ok st"
  have "spindle_ok (st\<lparr>sp_repos := Db_AddRepo (sp_repos st) r\<rparr>)" for r
    using ok by (auto simp: spindle_ok_def Db_AddRepo_def)
  with ok show ?thesis
    by (auto simp: ingestRepo_def fetchAndAddCollaborators_def Let_def split: option.splits sum.splits if_splits)
qed

lemma spindle_ok_collaborator: "spindle_ok st \<Longrightarrow> spindle_ok (fst (ingestCollaborator C E ev st))"
  by (auto simp: ingestCollaborator_def split: sum.splits)

lemma spindle_ok_ingest: "spindle_ok st \<Longrightarrow> spindle_ok (ingest C E ev st)"
  by (auto simp: ingest_def ingestMember_def Let_def spindle_ok_add_member spindle_ok_remove_member spindle_ok_repo
      spindle_ok_collaborator)

interpretation spindle: ingester sp_wanted "ingest C E" spindle_ok
  by unfold_locales (rule spindle_ok_ingest)


definition sample_spindle_env :: SpindleEnv where
  "sample_spindle_env = \<lparr>se_Hostname = ''spindle'', se_pick = hd, se_SpindleMember = (\<lambda>r. Inr (''spindle'', r)),
     se_Repo = (\<lambda>_. Inl ''no''), se_Collaborator = (\<lambda>r. Inr \<lparr>rc_Repo = ''at://did:plc:b/r'', rc_Subject = r\<rparr>),
     se_resolve = (\<lambda>d. Inr \<lparr>id_DID = d, id_Handle = d, id_InvalidHandle = False, id_PDS = ''pds''\<rparr>), se_join = plain_join,
     se_parseATURI = (\<lambda>_. Inr (''did:plc:b'', ''r'')),
     se_getRepo = (\<lambda>_ _ _. Inr \<lparr>rr_Name = ''x'', rr_Knot = ''knot'', rr_Spindle = None\<rparr>),
     se_listCollaborators = (\<lambda>_ _. Inr [])\<rparr>"

definition sample_spindle :: "(rule list \<times> grouping list) SpindleState" where
  "sample_spindle = \<lparr>sp_enforcer = ((''server:owner'', ''spindle:thisserver'', ''spindle:thisserver'', ''server:invite'') #
         repoPolicies ''did:plc:b'' ''thisserver'' ''did:plc:b/x'',
       [(''did:plc:o'', ''server:owner'', ''spindle:thisserver'')]),
     sp_members = [], sp_repos = [], sp_dids = [''did:plc:a''], sp_wanted = {''did:plc:a''}, sp_sources = {}, sp_lastTime = None\<rparr>"

definition spindle_event :: "string \<Rightarrow> string \<Rightarrow> string \<Rightarrow> string \<Rightarrow> JetEvent" where
  "spindle_event author collection operation raw =
     \<lparr>je_Did = author, je_TimeUS = 7, je_Kind = ''commit'', je_Collection = collection, je_Operation = operation,
      je_RKey = ''k'', je_Record = raw\<rparr>"


section \<open>Who can make collaborators\<close>

lemma granted_own: "(u, d, ob, act) \<in> P \<Longrightarrow> granted P G u d ob act"
  by (auto simp: granted_def)

text \<open>
  The spindle checks the right to invite of the owner of the repository, not of the author of the
  event: whoever passes the filter can publish a record that makes anybody, himself included, a
  collaborator of any repository on the spindle whose owner may invite, with the rights to push and to
  change the settings, and so to its secrets. The result does not depend on the author at all.
\<close>

theorem spindle_collaborator_by_anyone:
  assumes "casbin_ok C pol grp" "je_Kind ev = EventKindCommit" "je_Collection ev = RepoCollaboratorNSID" "is_write ev"
    and "spindle_target E (je_Record ev) = Inr (ownerDid, repo, subject)"
    and "IsCollaboratorInviteAllowed C (sp_enforcer st) ownerDid ThisServer repo = Inr True"
    and "AddCollaborator C (sp_enforcer st) subject ThisServer repo = Inr s'"
    and "set (collaboratorPolicies subject ThisServer repo) \<inter> pol (sp_enforcer st) = {}"
  shows "ingest C E ev st = ingest C E (ev\<lparr>je_Did := anybody\<rparr>) st \<and>
    IsSettingsAllowed C (sp_enforcer (ingest C E ev st)) subject ThisServer repo = Inr True \<and>
    IsPushAllowed C (sp_enforcer (ingest C E ev st)) subject ThisServer repo = Inr True"
proof -
  have c: "RepoCollaboratorNSID \<noteq> SpindleMemberNSID" "RepoCollaboratorNSID \<noteq> RepoNSID"
    by (simp_all add: RepoCollaboratorNSID_def SpindleMemberNSID_def RepoNSID_def)
  have w: "is_write (ev\<lparr>je_Did := anybody\<rparr>)" using assms(4) by (simp add: is_write_def)
  have e: "sp_enforcer (ingest C E ev st) = s'"
    using assms c by (simp add: ingest_def ingestCollaborator_def allowed_iff)
  have "pol s' = pol (sp_enforcer st) \<union> set (collaboratorPolicies subject ThisServer repo)"
    using add_policies [OF assms(1)] assms(7,8) unfolding AddCollaborator_def by auto
  then have "{(subject, ThisServer, repo, ''repo:settings''), (subject, ThisServer, repo, ''repo:push'')} \<subseteq> pol s'"
    by (auto simp: collaboratorPolicies_def)
  moreover have "ingest C E ev st = ingest C E (ev\<lparr>je_Did := anybody\<rparr>) st"
    using assms c w by (simp add: ingest_def ingestCollaborator_def)
  moreover have "granted (pol s') (grp s') subject ThisServer repo act" if "(subject, ThisServer, repo, act) \<in> pol s'" for act
    using that by (rule granted_own)
  ultimately show ?thesis
    unfolding e questions casbin_enforce [OF assms(1)] by simp
qed

theorem spindle_collaborator_by_anyone_witness:
  "IsSettingsAllowed list_casbin (sp_enforcer (ingest list_casbin sample_spindle_env
     (spindle_event ''did:plc:a'' ''sh.tangled.repo.collaborator'' ''create'' ''did:plc:a'') sample_spindle))
     ''did:plc:a'' ThisServer ''did:plc:b/x'' = Inr True"
proof -
  let ?ev = "spindle_event ''did:plc:a'' ''sh.tangled.repo.collaborator'' ''create'' ''did:plc:a''"
  have t: "spindle_target sample_spindle_env (je_Record ?ev) = Inr (''did:plc:b'', ''did:plc:b/x'', ''did:plc:a'')"
    by (simp add: spindle_target_def sample_spindle_env_def spindle_event_def resolve_valid_def plain_join_def)
  have "IsCollaboratorInviteAllowed list_casbin (sp_enforcer sample_spindle) ''did:plc:b'' ThisServer ''did:plc:b/x'' = Inr True"
    by (simp add: IsCollaboratorInviteAllowed_def casbin_enforce [OF list_casbin_ok] sample_spindle_def granted_own
        repoPolicies_def ThisServer_def)
  moreover have "\<exists>s'. AddCollaborator list_casbin (sp_enforcer sample_spindle) ''did:plc:a'' ThisServer ''did:plc:b/x'' = Inr s'"
    by (simp add: AddCollaborator_def change_policies_def checkRepoFormat_def hasPrefix_def lift_def list_casbin_def sample_spindle_def)
  moreover have "set (collaboratorPolicies ''did:plc:a'' ThisServer ''did:plc:b/x'') \<inter> set (fst (sp_enforcer sample_spindle)) = {}"
    by (simp add: collaboratorPolicies_def sample_spindle_def repoPolicies_def)
  moreover have "je_Kind ?ev = EventKindCommit" "je_Collection ?ev = RepoCollaboratorNSID" "is_write ?ev"
    by (simp_all add: spindle_event_def EventKindCommit_def RepoCollaboratorNSID_def is_write_def)
  ultimately show ?thesis
    using spindle_collaborator_by_anyone [OF list_casbin_ok _ _ _ t] by blast
qed

section \<open>Updated memberships\<close>

lemma relpow_subset:
  fixes R S :: "('a \<times> 'a) set"
  shows "R \<subseteq> S \<Longrightarrow> R ^^ n \<subseteq> S ^^ n"
  by (induction n) (simp_all add: relcomp_mono)

lemma link_mono: "G \<subseteq> H \<Longrightarrow> link G d u r \<Longrightarrow> link H d u r"
proof -
  assume "G \<subseteq> H" "link G d u r"
  moreover from this have "edges G d \<subseteq> edges H d" by (auto simp: edges_def)
  ultimately show ?thesis using relpow_subset [of "edges G d" "edges H d"] unfolding link_def by blast
qed

lemma granted_mono: "G \<subseteq> H \<Longrightarrow> granted P G u d ob act \<Longrightarrow> granted P H u d ob act"
  using link_mono unfolding granted_def by blast

definition member_role :: "string \<Rightarrow> grouping" where
  "member_role m = (m, ''server:member'', intoSpindle rbacDomain)"

lemma add_member_effect:
  assumes ok: "casbin_ok C pol grp" and "se_SpindleMember E (je_Record ev) = Inr (se_Hostname E, m)"
    and "granted (pol (sp_enforcer st)) (grp (sp_enforcer st)) (je_Did ev) (intoSpindle rbacDomain) (intoSpindle rbacDomain) ''server:invite''"
    and total: "\<forall>s u r d. \<exists>s'. AddGroupingPolicy C s u r d = Inr s'" and new: "\<forall>r \<in> set (sp_members st). sm_Did r = je_Did ev \<longrightarrow> sm_Subject r \<noteq> m"
  shows "pol (sp_enforcer (fst (add_member C E ev st))) = pol (sp_enforcer st)"
    and "grp (sp_enforcer (fst (add_member C E ev st))) = insert (member_role m) (grp (sp_enforcer st))"
    and "sp_members (fst (add_member C E ev st)) =
      sp_members st @ [\<lparr>sm_Did = je_Did ev, sm_Rkey = je_RKey ev, sm_Instance = se_Hostname E, sm_Subject = m\<rparr>]"
proof -
  obtain s' where s': "AddGroupingPolicy C (sp_enforcer st) m ''server:member'' (intoSpindle rbacDomain) = Inr s'"
    using total by blast
  have p: "pol s' = pol (sp_enforcer st)" "grp s' = insert (member_role m) (grp (sp_enforcer st))"
    using casbin_group_add [OF ok s'] unfolding member_role_def by simp_all
  have a: "AddSpindleMember C (sp_enforcer st) rbacDomain m = Inr s'"
    by (simp add: AddSpindleMember_def addMember_def lift_def s')
  have i: "IsSpindleInviteAllowed C (sp_enforcer st) (je_Did ev) rbacDomain = Inr True"
    using assms(3) by (simp add: IsSpindleInviteAllowed_def isInviteAllowed_def lift_def casbin_enforce [OF ok])
  have r: "Db_AddSpindleMember (sp_members st) \<lparr>sm_Did = je_Did ev, sm_Rkey = je_RKey ev, sm_Instance = se_Hostname E, sm_Subject = m\<rparr> =
      sp_members st @ [\<lparr>sm_Did = je_Did ev, sm_Rkey = je_RKey ev, sm_Instance = se_Hostname E, sm_Subject = m\<rparr>]"
    using new by (auto simp: Db_AddSpindleMember_def)
  show "pol (sp_enforcer (fst (add_member C E ev st))) = pol (sp_enforcer st)"
    "grp (sp_enforcer (fst (add_member C E ev st))) = insert (member_role m) (grp (sp_enforcer st))"
    "sp_members (fst (add_member C E ev st)) =
      sp_members st @ [\<lparr>sm_Did = je_Did ev, sm_Rkey = je_RKey ev, sm_Instance = se_Hostname E, sm_Subject = m\<rparr>]"
    by (simp_all add: add_member_def assms(2) i a p r allowed_iff)
qed

text \<open>
  Updating a membership record so that it names another member and then deleting it leaves one of the
  two a member for good: the table then has two rows for the record, the deletion looks one of them up
  and takes only that member's role away, and drops both rows.
\<close>

theorem updated_membership_survives_deletion:
  assumes "casbin_ok C pol grp" "\<forall>s u r d. \<exists>s'. AddGroupingPolicy C s u r d = Inr s'"
    and "\<forall>rows. rows \<noteq> [] \<longrightarrow> se_pick E rows \<in> set rows"
    and "granted (pol (sp_enforcer st)) (grp (sp_enforcer st)) did (intoSpindle rbacDomain) (intoSpindle rbacDomain) ''server:invite''"
    and "\<forall>r \<in> set (sp_members st). sm_Did r \<noteq> did" "a \<noteq> b"
    and "je_Did ev1 = did" "je_RKey ev1 = rkey" "se_SpindleMember E (je_Record ev1) = Inr (se_Hostname E, a)"
    and "je_Did ev2 = did" "je_RKey ev2 = rkey" "se_SpindleMember E (je_Record ev2) = Inr (se_Hostname E, b)"
    and "je_Did ev3 = did" "je_RKey ev3 = rkey"
    and "st3 = fst (remove_member C E ev3 (fst (add_member C E ev2 (fst (add_member C E ev1 st)))))"
  shows "(member_role a \<in> grp (sp_enforcer st3) \<or> member_role b \<in> grp (sp_enforcer st3)) \<and>
    (\<forall>r \<in> set (sp_members st3). sm_Did r \<noteq> did)"
proof -
  let ?st1 = "fst (add_member C E ev1 st)" let ?st2 = "fst (add_member C E ev2 ?st1)"
  let ?row = "\<lambda>m. \<lparr>sm_Did = did, sm_Rkey = rkey, sm_Instance = se_Hostname E, sm_Subject = m\<rparr>"
  note e1 = add_member_effect [OF assms(1) assms(9) _ assms(2), of st]
  have 1: "pol (sp_enforcer ?st1) = pol (sp_enforcer st)" "grp (sp_enforcer ?st1) = insert (member_role a) (grp (sp_enforcer st))"
    "sp_members ?st1 = sp_members st @ [?row a]"
    using e1 assms(4,5,7,8) by auto
  have "granted (pol (sp_enforcer ?st1)) (grp (sp_enforcer ?st1)) did (intoSpindle rbacDomain) (intoSpindle rbacDomain) ''server:invite''"
    unfolding 1(1,2) by (rule granted_mono [OF _ assms(4)]) blast
  then have 2: "grp (sp_enforcer ?st2) = insert (member_role b) (insert (member_role a) (grp (sp_enforcer st)))"
    "sp_members ?st2 = sp_members st @ [?row a, ?row b]"
    using add_member_effect [OF assms(1) assms(12) _ assms(2), of ?st1] 1 assms(5,6,10,11) by auto
  have "filter (\<lambda>r. sm_Did r = did \<and> sm_Rkey r = rkey) (sp_members st) = []" using assms(5) by (auto simp: filter_empty_conv)
  then have f: "filter (\<lambda>r. sm_Did r = did \<and> sm_Rkey r = rkey) (sp_members ?st2) = [?row a, ?row b]" by (simp add: 2)
  then obtain m where m: "GetSpindleMember (se_pick E) (sp_members ?st2) did rkey = Some (?row m)" "m = a \<or> m = b"
    using assms(3) [rule_format, of "[?row a, ?row b]"] unfolding GetSpindleMember_def Let_def f by auto
  have rows: "\<forall>r \<in> set (Db_RemoveSpindleMember (sp_members ?st2) did rkey). sm_Did r \<noteq> did"
    using assms(5) by (auto simp: Db_RemoveSpindleMember_def 2)
  have "sp_members st3 = Db_RemoveSpindleMember (sp_members ?st2) did rkey"
    unfolding assms(15) by (simp add: remove_member_def assms(13,14) m Let_def split: sum.split)
  moreover have "grp (sp_enforcer ?st2) - {member_role m} \<subseteq> grp (sp_enforcer st3)"
  proof (cases "RemoveGroupingPolicy C (sp_enforcer ?st2) m ''server:member'' (intoSpindle rbacDomain)")
    case (Inl e)
    then show ?thesis unfolding assms(15)
      by (auto simp: remove_member_def assms(13,14) m Let_def RemoveSpindleMember_def removeMember_def lift_def)
  next
    case (Inr s')
    then have "grp s' = grp (sp_enforcer ?st2) - {member_role m}"
      using casbin_group_remove [OF assms(1) Inr] unfolding member_role_def by simp
    with Inr show ?thesis unfolding assms(15)
      by (simp add: remove_member_def assms(13,14) m Let_def RemoveSpindleMember_def removeMember_def lift_def)
  qed
  ultimately show ?thesis using rows m(2) assms(6) unfolding 2 by (auto simp: member_role_def)
qed

theorem updated_membership_survives_deletion_witness:
  "\<exists>st3 :: (rule list \<times> grouping list) SpindleState.
     st3 = fst (remove_member list_casbin sample_spindle_env (spindle_event ''did:plc:o'' ''sh.tangled.spindle.member'' ''delete'' [])
       (fst (add_member list_casbin sample_spindle_env (spindle_event ''did:plc:o'' ''sh.tangled.spindle.member'' ''update'' ''did:plc:d'')
         (fst (add_member list_casbin sample_spindle_env (spindle_event ''did:plc:o'' ''sh.tangled.spindle.member'' ''create'' ''did:plc:c'')
           sample_spindle))))) \<and>
     (member_role ''did:plc:c'' \<in> set (snd (sp_enforcer st3)) \<or> member_role ''did:plc:d'' \<in> set (snd (sp_enforcer st3)))"
proof -
  have "intoSpindle rbacDomain = ''spindle:thisserver''"
    by (simp add: intoSpindle_def isSpindle_def spindlePrefix_def rbacDomain_def hasPrefix_def)
  then have "granted (set (fst (sp_enforcer sample_spindle))) (set (snd (sp_enforcer sample_spindle))) ''did:plc:o''
      (intoSpindle rbacDomain) (intoSpindle rbacDomain) ''server:invite''"
    by (auto simp: granted_def sample_spindle_def intro: link_step)
  moreover have "\<forall>s u r d. \<exists>s'. AddGroupingPolicy list_casbin s u r d = Inr s'"
    by (simp add: list_casbin_def case_prod_unfold)
  ultimately show ?thesis
    using updated_membership_survives_deletion [OF list_casbin_ok, where E = sample_spindle_env and st = sample_spindle and
        did = "''did:plc:o''" and rkey = "''k''" and a = "''did:plc:c''" and b = "''did:plc:d''" and
        ?ev1.0 = "spindle_event ''did:plc:o'' ''sh.tangled.spindle.member'' ''create'' ''did:plc:c''" and
        ?ev2.0 = "spindle_event ''did:plc:o'' ''sh.tangled.spindle.member'' ''update'' ''did:plc:d''" and
        ?ev3.0 = "spindle_event ''did:plc:o'' ''sh.tangled.spindle.member'' ''delete'' []", OF _ _ _ _ _ _ _ _ _ _ _ _ _ refl]
    by (simp add: sample_spindle_env_def spindle_event_def) (simp add: sample_spindle_def)
qed

end
