(* ===== verification/Event_Consumer.thy ===== *)
theory Event_Consumer
  imports Go_Prelude
begin

text \<open>
  The consumer of event streams of knots and spindles: \<^verbatim>\<open>eventconsumer/consumer.go\<close>, its sources and the
  three stores of its cursors (\<^verbatim>\<open>eventconsumer/cursor\<close>).

  Connections put the text messages they read into a bounded queue; workers take them out, decode
  them, move the cursor of the source to the current time and call the handler. The goroutines
  are steps of an inductive relation, so that every interleaving is a run. Dialling, retries and
  their delays are not modelled; the decoder of messages is an argument.
\<close>

section \<open>Cursor stores\<close>

locale cursor_store =
  fixes set_cursor :: "'s \<Rightarrow> string \<Rightarrow> int \<Rightarrow> 's"
    and get_cursor :: "'s \<Rightarrow> string \<Rightarrow> int"
    and ok :: "'s \<Rightarrow> bool"
  assumes set_ok: "ok s \<Longrightarrow> int64 c \<Longrightarrow> ok (set_cursor s k c)"
    and get_set: "ok s \<Longrightarrow> int64 c \<Longrightarrow> get_cursor (set_cursor s k c) k' = (if k' = k then c else get_cursor s k')"
begin

lemma get_all:
  assumes "ok s" "list_all (\<lambda>(k, c). int64 c) ops"
  shows "get_cursor (foldl (\<lambda>s (k, c). set_cursor s k c) s ops) k =
    (case map_of (rev ops) k of None \<Rightarrow> get_cursor s k | Some c \<Rightarrow> c)"
  using assms
  by (induction ops arbitrary: s) (auto simp: get_set set_ok map_add_def split: option.splits)

end

definition Memory_Set :: "(string \<rightharpoonup> int) \<Rightarrow> string \<Rightarrow> int \<Rightarrow> (string \<rightharpoonup> int)" where
  "Memory_Set m knot cursor = m(knot \<mapsto> cursor)"

definition Memory_Get :: "(string \<rightharpoonup> int) \<Rightarrow> string \<Rightarrow> int" where
  "Memory_Get m knot = (case m knot of None \<Rightarrow> 0 | Some val \<Rightarrow> val)"

text \<open>
  The table of SQLite has the knot as its key; the column of the cursor is text, so that the number is
  stored as its digits and read back as a number. A value that is no number scans with an error.
\<close>

type_synonym cursor_table = "(string \<times> string) list"

fun upsert :: "cursor_table \<Rightarrow> string \<Rightarrow> string \<Rightarrow> cursor_table" where
  "upsert [] knot c = [(knot, c)]"
| "upsert ((k, v) # rows) knot c = (if k = knot then (k, c) # rows else (k, v) # upsert rows knot c)"

definition Sqlite_Set :: "cursor_table \<Rightarrow> string \<Rightarrow> int \<Rightarrow> cursor_table" where
  "Sqlite_Set rows knot cursor = upsert rows knot (itoa cursor)"

definition Sqlite_Get :: "cursor_table \<Rightarrow> string \<Rightarrow> int" where
  "Sqlite_Get rows knot =
     (case map_of rows knot of
        None \<Rightarrow> 0
      | Some v \<Rightarrow> (case parseInt64 v of None \<Rightarrow> 0 | Some c \<Rightarrow> c))"

text \<open>\<open>rset\<close> and \<open>rget\<close> are the commands SET and GET of the Redis client.\<close>

definition cursorKey :: "string \<Rightarrow> string" where
  "cursorKey knot = ''cursor:'' @ knot"

definition Redis_Set :: "('r \<Rightarrow> string \<Rightarrow> string \<Rightarrow> 'r) \<Rightarrow> 'r \<Rightarrow> string \<Rightarrow> int \<Rightarrow> 'r" where
  "Redis_Set rset r knot cursor = rset r (cursorKey knot) (itoa cursor)"

definition Redis_Get :: "('r \<Rightarrow> string \<Rightarrow> string option) \<Rightarrow> 'r \<Rightarrow> string \<Rightarrow> int" where
  "Redis_Get rget r knot =
     (case rget r (cursorKey knot) of
        None \<Rightarrow> 0
      | Some val \<Rightarrow> (case parseInt64 val of None \<Rightarrow> 0 | Some c \<Rightarrow> c))"

definition redis_ok :: "('r \<Rightarrow> string \<Rightarrow> string \<Rightarrow> 'r) \<Rightarrow> ('r \<Rightarrow> string \<Rightarrow> string option) \<Rightarrow> bool" where
  "redis_ok rset rget \<longleftrightarrow> (\<forall>r k v k'. rget (rset r k v) k' = (if k' = k then Some v else rget r k'))"

lemma map_of_upsert: "map_of (upsert rows k v) = (map_of rows)(k \<mapsto> v)"
  by (induction rows k v rule: upsert.induct) auto

interpretation memory: cursor_store Memory_Set Memory_Get "\<lambda>_. True"
  by unfold_locales (auto simp: Memory_Set_def Memory_Get_def)

interpretation sqlite_cursors: cursor_store Sqlite_Set Sqlite_Get "\<lambda>_. True"
  by unfold_locales (auto simp: Sqlite_Set_def Sqlite_Get_def map_of_upsert parseInt64_itoa)

interpretation redis: cursor_store "Redis_Set rset" "Redis_Get rget" "\<lambda>_. redis_ok rset rget"
  by unfold_locales (auto simp: Redis_Set_def Redis_Get_def redis_ok_def cursorKey_def parseInt64_itoa)

text \<open>
  The three cursor stores are interchangeable: after any sequence of cursors set on empty stores they
  all return, for every source, the last cursor set for it, or zero if there is none.
\<close>

theorem cursor_stores_equivalent:
  assumes "list_all (\<lambda>(k, c). int64 c) ops" "redis_ok rset rget" "\<forall>k. rget r k = None"
  shows "Memory_Get (foldl (\<lambda>s (k, c). Memory_Set s k c) Map.empty ops) k = (case map_of (rev ops) k of None \<Rightarrow> 0 | Some c \<Rightarrow> c) \<and>
    Sqlite_Get (foldl (\<lambda>s (k, c). Sqlite_Set s k c) [] ops) k = (case map_of (rev ops) k of None \<Rightarrow> 0 | Some c \<Rightarrow> c) \<and>
    Redis_Get rget (foldl (\<lambda>s (k, c). Redis_Set rset s k c) r ops) k = (case map_of (rev ops) k of None \<Rightarrow> 0 | Some c \<Rightarrow> c)"
proof -
  have "Memory_Get Map.empty k = 0" "Sqlite_Get [] k = 0" "Redis_Get rget r k = 0"
    using assms(3) by (simp_all add: Memory_Get_def Sqlite_Get_def Redis_Get_def)
  then show ?thesis
    using memory.get_all [OF TrueI assms(1)] sqlite_cursors.get_all [OF TrueI assms(1)] redis.get_all [OF assms(2,1)]
    by (simp split: option.split)
qed

theorem cursor_stores_equivalent_witness:
  "Redis_Get (\<lambda>m k. m k) (foldl (\<lambda>s (k, c). Redis_Set (\<lambda>m k v. m(k \<mapsto> v)) s k c) Map.empty [(''a'', 5), (''b'', - 7), (''a'', 9)]) ''a'' = 9"
  using cursor_stores_equivalent [of "[(''a'', 5), (''b'', - 7), (''a'', 9)]" "\<lambda>m k v. m(k \<mapsto> v)" "\<lambda>m k. m k" Map.empty "''a''"]
  by (simp add: int64_def redis_ok_def)

section \<open>Sources and configuration\<close>

text \<open>The URL of a source, before it is parsed; a cursor of zero is left out.\<close>

definition Source_Url :: "string \<Rightarrow> int \<Rightarrow> bool \<Rightarrow> string" where
  "Source_Url host cursor dev =
     (if dev then ''ws'' else ''wss'') @ ''://'' @ host @ ''/events'' @
     (if cursor \<noteq> 0 then ''?cursor='' @ itoa cursor else [])"

record ConsumerConfig =
  cf_Sources :: "string set"
  cf_RetryInterval :: int
  cf_MaxRetryInterval :: int
  cf_ConnectionTimeout :: int
  cf_WorkerCount :: int
  cf_QueueSize :: int

definition second :: int where "second = 1000000000"

definition NewConsumer :: "ConsumerConfig \<Rightarrow> ConsumerConfig" where
  "NewConsumer cfg =
     cfg\<lparr>cf_RetryInterval := (if cf_RetryInterval cfg = 0 then 15 * 60 * second else cf_RetryInterval cfg),
         cf_ConnectionTimeout := (if cf_ConnectionTimeout cfg = 0 then 10 * second else cf_ConnectionTimeout cfg),
         cf_WorkerCount := (if cf_WorkerCount cfg \<le> 0 then 5 else cf_WorkerCount cfg),
         cf_MaxRetryInterval := (if cf_MaxRetryInterval cfg = 0 then 60 * 60 * second else cf_MaxRetryInterval cfg),
         cf_QueueSize := (if cf_QueueSize cfg = 0 then 100 else cf_QueueSize cfg)\<rparr>"

text \<open>Adding a source; the result says whether a connection is started for it.\<close>

definition AddSource :: "ConsumerConfig \<Rightarrow> string \<Rightarrow> ConsumerConfig \<times> bool" where
  "AddSource cfg s = (if s \<in> cf_Sources cfg then (cfg, False) else (cfg\<lparr>cf_Sources := insert s (cf_Sources cfg)\<rparr>, True))"

section \<open>Workers\<close>

record Message =
  mg_Rkey :: string
  mg_Nsid :: string
  mg_EventJson :: string

text \<open>
  The jobs in the queue are the key of their source and the raw message. \<open>cn_processed\<close> are the calls of
  the handler so far.
\<close>

record 'c ConsumerState =
  cn_workers :: nat
  cn_queue :: "(string \<times> string) list"
  cn_cursors :: 'c
  cn_processed :: "(string \<times> Message) list"

text \<open>A worker that cannot decode its job returns.\<close>

definition worker ::
  "(string \<Rightarrow> (string, Message) result) \<Rightarrow> ('c \<Rightarrow> string \<Rightarrow> int \<Rightarrow> 'c) \<Rightarrow> int \<Rightarrow> 'c ConsumerState \<Rightarrow> 'c ConsumerState option" where
  "worker decode set_cursor now st =
     (case cn_queue st of
        [] \<Rightarrow> None
      | (source, message) # q \<Rightarrow>
          Some (case decode message of
             Inl err \<Rightarrow> st\<lparr>cn_queue := q, cn_workers := cn_workers st - 1\<rparr>
           | Inr msg \<Rightarrow> st\<lparr>cn_queue := q, cn_cursors := set_cursor (cn_cursors st) source now,
                            cn_processed := cn_processed st @ [(source, msg)]\<rparr>))"

text \<open>A frame of a connection: binary frames are dropped, a text frame waits for room in the queue.\<close>

definition read_frame :: "nat \<Rightarrow> string \<Rightarrow> bool \<Rightarrow> string \<Rightarrow> 'c ConsumerState \<Rightarrow> 'c ConsumerState option" where
  "read_frame cap source is_text msg st =
     (if \<not> is_text then Some st
      else if length (cn_queue st) < cap then Some (st\<lparr>cn_queue := cn_queue st @ [(source, msg)]\<rparr>)
      else None)"

text \<open>The runs of a consumer from a state; the list are the jobs put into the queue on the way.\<close>

inductive consumer_run ::
  "(string \<Rightarrow> (string, Message) result) \<Rightarrow> ('c \<Rightarrow> string \<Rightarrow> int \<Rightarrow> 'c) \<Rightarrow> nat \<Rightarrow> 'c ConsumerState \<Rightarrow>
   (string \<times> string) list \<Rightarrow> 'c ConsumerState \<Rightarrow> bool"
  for decode set_cursor cap st0 where
  start: "consumer_run decode set_cursor cap st0 [] st0"
| frame: "consumer_run decode set_cursor cap st0 jobs st \<Longrightarrow> read_frame cap source is_text msg st = Some st' \<Longrightarrow>
    consumer_run decode set_cursor cap st0 (if is_text then jobs @ [(source, msg)] else jobs) st'"
| work: "consumer_run decode set_cursor cap st0 jobs st \<Longrightarrow> 0 < cn_workers st \<Longrightarrow>
    worker decode set_cursor now st = Some st' \<Longrightarrow> consumer_run decode set_cursor cap st0 jobs st'"

definition decoded :: "(string \<Rightarrow> (string, Message) result) \<Rightarrow> (string \<times> string) list \<Rightarrow> (string \<times> Message) list" where
  "decoded decode jobs =
     List.map_filter (\<lambda>(source, raw). case decode raw of Inl _ \<Rightarrow> None | Inr msg \<Rightarrow> Some (source, msg)) jobs"

definition malformed :: "(string \<Rightarrow> (string, Message) result) \<Rightarrow> (string \<times> string) list \<Rightarrow> nat" where
  "malformed decode jobs = length (filter (\<lambda>(source, raw). \<not> is_ok (decode raw)) jobs)"

lemma decoded_append [simp]: "decoded decode (xs @ ys) = decoded decode xs @ decoded decode ys"
  by (simp add: decoded_def List.map_filter_def)

lemma malformed_append [simp]: "malformed decode (xs @ ys) = malformed decode xs + malformed decode ys"
  by (simp add: malformed_def)



end
