(* ===== verification/AppView_Store.thy ===== *)
theory AppView_Store
  imports Validators Threads Spindle_Ingest
begin

text \<open>
  The tables of the appview that its ingester writes, as \<^verbatim>\<open>appview/db/db.go\<close> declares them after all
  migrations, with the functions of \<^verbatim>\<open>appview/db\<close> that write and read them. A table is the list of its
  rows in the order of insertion; its constraints are a relation that says which two rows clash.

  A statement succeeds except where a constraint of the table forbids it. Columns that only the database
  fills (the numbers of rows, times of insertion) are left out. A time is formatted as
  RFC 3339 and so kept to the second.
\<close>

section \<open>Tables in general\<close>

text \<open>\<^verbatim>\<open>insert or ignore\<close>, \<^verbatim>\<open>insert\<close>, \<^verbatim>\<open>insert ... on conflict do update\<close>, \<^verbatim>\<open>delete\<close> and \<^verbatim>\<open>update\<close>.\<close>

definition insert_ignore :: "('r \<Rightarrow> 'r \<Rightarrow> bool) \<Rightarrow> 'r list \<Rightarrow> 'r \<Rightarrow> 'r list" where
  "insert_ignore clash rows r = (if list_ex (clash r) rows then rows else rows @ [r])"

definition insert_row :: "('r \<Rightarrow> 'r \<Rightarrow> bool) \<Rightarrow> 'r list \<Rightarrow> 'r \<Rightarrow> 'r list option" where
  "insert_row clash rows r = (if list_ex (clash r) rows then None else Some (rows @ [r]))"

definition upsert_row ::
  "('r \<Rightarrow> 'r \<Rightarrow> bool) \<Rightarrow> ('r \<Rightarrow> 'r \<Rightarrow> bool) \<Rightarrow> ('r \<Rightarrow> 'r \<Rightarrow> 'r) \<Rightarrow> 'r list \<Rightarrow> 'r \<Rightarrow> 'r list option" where
  "upsert_row same clash merge rows r =
     (if list_ex (same r) rows then Some (map (\<lambda>x. if same r x then merge x r else x) rows)
      else insert_row clash rows r)"

definition delete_where :: "('r \<Rightarrow> bool) \<Rightarrow> 'r list \<Rightarrow> 'r list" where
  "delete_where P rows = filter (\<lambda>r. \<not> P r) rows"

definition update_where :: "('r \<Rightarrow> bool) \<Rightarrow> ('r \<Rightarrow> 'r) \<Rightarrow> 'r list \<Rightarrow> 'r list" where
  "update_where P f rows = map (\<lambda>r. if P r then f r else r) rows"

text \<open>No two rows clash, and the rows that somebody else than \<open>did\<close> owns.\<close>

definition unclashed :: "('r \<Rightarrow> 'r \<Rightarrow> bool) \<Rightarrow> 'r list \<Rightarrow> bool" where
  "unclashed clash rows \<longleftrightarrow> sorted_wrt (\<lambda>x y. \<not> clash x y) rows"

definition foreign :: "('r \<Rightarrow> string) \<Rightarrow> string \<Rightarrow> 'r list \<Rightarrow> 'r list" where
  "foreign owner did rows = filter (\<lambda>r. owner r \<noteq> did) rows"

lemma insert_ignore_cases: "insert_ignore clash rows r = rows \<or> insert_ignore clash rows r = rows @ [r]"
  by (simp add: insert_ignore_def)

lemma set_insert_ignore: "set (insert_ignore clash rows r) \<subseteq> insert r (set rows)"
  by (simp add: insert_ignore_def subset_insertI)

lemma set_insert_row: "insert_row clash rows r = Some rows' \<Longrightarrow> set rows' = insert r (set rows)"
  by (auto simp: insert_row_def split: if_splits)

lemma set_upsert_row:
  "upsert_row same clash merge rows r = Some rows' \<Longrightarrow> set rows' \<subseteq> insert r (set rows \<union> {merge x r | x. x \<in> set rows \<and> same r x})"
  by (auto simp: upsert_row_def dest: set_insert_row split: if_splits)

lemma set_delete_where [simp]: "set (delete_where P rows) = {r \<in> set rows. \<not> P r}"
  by (simp add: delete_where_def)

lemma set_update_where: "set (update_where P f rows) \<subseteq> set rows \<union> {f r | r. r \<in> set rows \<and> P r}"
  by (auto simp: update_where_def)

lemma foreign_insert_ignore [simp]: "owner r = did \<Longrightarrow> foreign owner did (insert_ignore clash rows r) = foreign owner did rows"
  by (simp add: foreign_def insert_ignore_def)

lemma foreign_insert_row: "insert_row clash rows r = Some rows' \<Longrightarrow> owner r = did \<Longrightarrow> foreign owner did rows' = foreign owner did rows"
  by (auto simp: foreign_def insert_row_def split: if_splits)

lemma foreign_update_where:
  "(\<And>r. P r \<Longrightarrow> owner r = did \<and> owner (f r) = did) \<Longrightarrow> foreign owner did (update_where P f rows) = foreign owner did rows"
  by (induction rows) (auto simp: foreign_def update_where_def)

lemma foreign_update_own [simp]:
  "(\<And>r. owner (f r) = owner r) \<Longrightarrow>
   foreign owner did (update_where (\<lambda>r. owner r = did \<and> Q r) f rows) = foreign owner did rows"
  by (rule foreign_update_where) auto

lemma foreign_delete_where: "(\<And>r. P r \<Longrightarrow> owner r = did) \<Longrightarrow> foreign owner did (delete_where P rows) = foreign owner did rows"
  by (induction rows) (auto simp: foreign_def delete_where_def)

lemma foreign_delete_own [simp]:
  "foreign owner did (delete_where (\<lambda>r. owner r = did \<and> Q r) rows) = foreign owner did rows"
  "foreign owner did (delete_where (\<lambda>r. Q r \<and> owner r = did) rows) = foreign owner did rows"
  "foreign owner did (delete_where (\<lambda>r. owner r = did) rows) = foreign owner did rows"
  by (rule foreign_delete_where; simp)+

lemma foreign_upsert_row:
  assumes "upsert_row same clash merge rows r = Some rows'" "owner r = did"
    and "\<And>x. same r x \<Longrightarrow> owner x = did \<and> owner (merge x r) = did"
  shows "foreign owner did rows' = foreign owner did rows"
proof (cases "list_ex (same r) rows")
  case True
  then have "rows' = update_where (same r) (\<lambda>x. merge x r) rows"
    using assms(1) by (simp add: upsert_row_def update_where_def)
  then show ?thesis using foreign_update_where [of "same r" owner did "\<lambda>x. merge x r"] assms(3) by simp
next
  case False
  then have "insert_row clash rows r = Some rows'"
    using assms(1) by (simp add: upsert_row_def)
  then show ?thesis using assms(2) by (rule foreign_insert_row)
qed

text \<open>What a table promises whose clashes depend on both rows alike: every statement keeps its constraints.\<close>

locale sql_table =
  fixes clash :: "'r \<Rightarrow> 'r \<Rightarrow> bool"
  assumes clash_sym: "clash x y \<Longrightarrow> clash y x"
begin

lemma empty_unclashed: "unclashed clash []"
  by (simp add: unclashed_def)

lemma append_unclashed: "unclashed clash rows \<Longrightarrow> \<not> list_ex (clash r) rows \<Longrightarrow> unclashed clash (rows @ [r])"
  using clash_sym by (auto simp: unclashed_def sorted_wrt_append list_ex_iff)

lemma insert_ignore_unclashed: "unclashed clash rows \<Longrightarrow> unclashed clash (insert_ignore clash rows r)"
  by (simp add: insert_ignore_def append_unclashed)

lemma insert_row_unclashed: "unclashed clash rows \<Longrightarrow> insert_row clash rows r = Some rows' \<Longrightarrow> unclashed clash rows'"
  by (auto simp: insert_row_def append_unclashed split: if_splits)

lemma delete_unclashed: "unclashed clash rows \<Longrightarrow> unclashed clash (delete_where P rows)"
  by (simp add: unclashed_def delete_where_def sorted_wrt_filter)

lemma map_unclashed:
  assumes "unclashed clash rows" "\<And>x y. clash (f x) (f y) \<Longrightarrow> clash x y"
  shows "unclashed clash (map f rows)"
  using assms by (auto simp: unclashed_def sorted_wrt_map elim!: sorted_wrt_mono_rel [rotated])

lemma update_unclashed:
  assumes "unclashed clash rows" "\<And>x y. clash (f x) y \<Longrightarrow> clash x y"
  shows "unclashed clash (update_where P f rows)"
  unfolding update_where_def
proof (rule map_unclashed [OF assms(1)])
  fix x y
  assume "clash (if P x then f x else x) (if P y then f y else y)"
  then show "clash x y" using assms(2) clash_sym by (metis (full_types))
qed

lemma upsert_unclashed:
  assumes "unclashed clash rows" "upsert_row same clash merge rows r = Some rows'"
    and "\<And>x y. clash (merge x r) y \<Longrightarrow> clash x y"
  shows "unclashed clash rows'"
proof (cases "list_ex (same r) rows")
  case True
  then have "rows' = update_where (same r) (\<lambda>x. merge x r) rows"
    using assms(2) by (simp add: upsert_row_def update_where_def)
  then show ?thesis using update_unclashed [OF assms(1), of "\<lambda>x. merge x r"] assms(3) by simp
next
  case False
  then show ?thesis using assms insert_row_unclashed by (auto simp: upsert_row_def)
qed

lemma unclashed_two: "unclashed clash rows \<Longrightarrow> x \<in> set rows \<Longrightarrow> y \<in> set rows \<Longrightarrow> clash x y \<Longrightarrow> x = y"
proof (induction rows)
  case (Cons r rows)
  then show ?case using clash_sym by (fastforce simp: unclashed_def)
qed simp

end

section \<open>Rows\<close>

definition to_second :: "Time \<Rightarrow> Time" where
  "to_second t = t - t mod 1000000000"

record FollowRow =
  fo_UserDid :: string
  fo_SubjectDid :: string
  fo_Rkey :: string

record StarRow =
  st_Did :: string
  st_SubjectAt :: string
  st_Rkey :: string

record KeyRow =
  ky_Did :: string
  ky_Name :: string
  ky_Key :: string
  ky_Rkey :: string

record ArtifactRow =
  ar_Did :: string
  ar_Rkey :: string
  ar_RepoAt :: string
  ar_Tag :: string
  ar_Created :: Time
  ar_BlobCid :: string
  ar_Name :: string
  ar_Size :: nat
  ar_MimeType :: string

record ProfileRow =
  pf_Did :: string
  pf_Avatar :: string
  pf_Description :: string
  pf_IncludeBluesky :: bool
  pf_Location :: string
  pf_Pronouns :: string

record StringRow =
  sg_Did :: string
  sg_Rkey :: string
  sg_Filename :: string
  sg_Description :: string
  sg_Contents :: string
  sg_Created :: Time
  sg_Edited :: "Time option"

record MemberRow =
  mr_Did :: string
  mr_Rkey :: string
  mr_Instance :: string
  mr_Subject :: string

record SpindleRow =
  sw_Owner :: string
  sw_Instance :: string
  sw_Verified :: "Time option"

record RegistrationRow =
  rg_Domain :: string
  rg_ByDid :: string
  rg_Registered :: "Time option"

record IssueRow =
  iw_Did :: string
  iw_Rkey :: string
  iw_RepoAt :: string
  iw_IssueId :: nat
  iw_Title :: string
  iw_Body :: string
  iw_Open :: bool
  iw_Edited :: "Time option"

record CommentRow =
  cw_Did :: string
  cw_Rkey :: string
  cw_IssueAt :: string
  cw_ReplyTo :: "string option"
  cw_Body :: string
  cw_Created :: Time
  cw_Edited :: "Time option"
  cw_Deleted :: "Time option"

record LabelDefRow =
  dr_Did :: string
  dr_Rkey :: string
  dr_Name :: string
  dr_ValueType :: string
  dr_ValueFormat :: string
  dr_ValueEnum :: string
  dr_Scope :: string
  dr_Color :: "string option"
  dr_Multiple :: bool
  dr_Created :: Time

record RepoRow =
  re_Did :: string
  re_Rkey :: string
  re_Name :: string
  re_Knot :: string
  re_Labels :: "string list"

definition at_uri :: "string \<Rightarrow> string \<Rightarrow> string \<Rightarrow> string" where
  "at_uri did nsid rkey = ''at://'' @ did @ ''/'' @ nsid @ ''/'' @ rkey"

definition RepoAt :: "RepoRow \<Rightarrow> string" where
  "RepoAt r = at_uri (re_Did r) RepoNSID (re_Rkey r)"

definition issue_at :: "IssueRow \<Rightarrow> string" where
  "issue_at i = at_uri (iw_Did i) RepoIssueNSID (iw_Rkey i)"

definition comment_at :: "CommentRow \<Rightarrow> string" where
  "comment_at c = at_uri (cw_Did c) RepoIssueCommentNSID (cw_Rkey c)"

definition labeldef_at :: "LabelDefRow \<Rightarrow> string" where
  "labeldef_at d = at_uri (dr_Did d) LabelDefinitionNSID (dr_Rkey d)"

section \<open>The tables\<close>

record SocialTables =
  so_Follows :: "FollowRow list"
  so_Stars :: "StarRow list"
  so_Keys :: "KeyRow list"
  so_Artifacts :: "ArtifactRow list"
  so_Profiles :: "ProfileRow list"
  so_Links :: "(string \<times> string) list"
  so_Stats :: "(string \<times> string) list"
  so_Pins :: "(string \<times> string) list"
  so_Strings :: "StringRow list"

record ServerTables =
  sv_Members :: "MemberRow list"
  sv_Spindles :: "SpindleRow list"
  sv_Registrations :: "RegistrationRow list"

record IssueTables =
  it_Issues :: "IssueRow list"
  it_Seqs :: "string \<rightharpoonup> nat"
  it_Comments :: "CommentRow list"
  it_Refs :: "(string \<times> string) list"

record LabelTables =
  lt_Defs :: "LabelDefRow list"
  lt_Ops :: "LabelOp list"

section \<open>Follows, stars, keys and artifacts\<close>

definition follow_clash :: "FollowRow \<Rightarrow> FollowRow \<Rightarrow> bool" where
  "follow_clash x y \<longleftrightarrow> fo_UserDid x = fo_UserDid y \<and> fo_SubjectDid x = fo_SubjectDid y"

text \<open>The check that nobody follows himself makes \<^verbatim>\<open>insert or ignore\<close> skip the row.\<close>

definition AddFollow :: "FollowRow list \<Rightarrow> FollowRow \<Rightarrow> FollowRow list" where
  "AddFollow rows f = (if fo_UserDid f = fo_SubjectDid f then rows else insert_ignore follow_clash rows f)"

definition DeleteFollowByRkey :: "FollowRow list \<Rightarrow> string \<Rightarrow> string \<Rightarrow> FollowRow list" where
  "DeleteFollowByRkey rows userDid rkey = delete_where (\<lambda>f. fo_UserDid f = userDid \<and> fo_Rkey f = rkey) rows"

definition star_clash :: "StarRow \<Rightarrow> StarRow \<Rightarrow> bool" where
  "star_clash x y \<longleftrightarrow> st_Did x = st_Did y \<and> (st_Rkey x = st_Rkey y \<or> st_SubjectAt x = st_SubjectAt y)"

definition AddStar :: "StarRow list \<Rightarrow> StarRow \<Rightarrow> StarRow list" where
  "AddStar rows s = insert_ignore star_clash rows s"

definition DeleteStarByRkey :: "StarRow list \<Rightarrow> string \<Rightarrow> string \<Rightarrow> StarRow list" where
  "DeleteStarByRkey rows did rkey = delete_where (\<lambda>s. st_Did s = did \<and> st_Rkey s = rkey) rows"

definition key_clash :: "KeyRow \<Rightarrow> KeyRow \<Rightarrow> bool" where
  "key_clash x y \<longleftrightarrow> ky_Did x = ky_Did y \<and> ky_Name x = ky_Name y \<and> ky_Key x = ky_Key y"

definition Db_AddPublicKey :: "KeyRow list \<Rightarrow> string \<Rightarrow> string \<Rightarrow> string \<Rightarrow> string \<Rightarrow> KeyRow list" where
  "Db_AddPublicKey rows did name key rkey =
     insert_ignore key_clash rows \<lparr>ky_Did = did, ky_Name = name, ky_Key = key, ky_Rkey = rkey\<rparr>"

definition DeletePublicKeyByRkey :: "KeyRow list \<Rightarrow> string \<Rightarrow> string \<Rightarrow> KeyRow list" where
  "DeletePublicKeyByRkey rows did rkey = delete_where (\<lambda>k. ky_Did k = did \<and> ky_Rkey k = rkey) rows"

definition artifact_clash :: "ArtifactRow \<Rightarrow> ArtifactRow \<Rightarrow> bool" where
  "artifact_clash x y \<longleftrightarrow>
     ar_Did x = ar_Did y \<and> ar_Rkey x = ar_Rkey y \<or>
     ar_RepoAt x = ar_RepoAt y \<and> ar_Tag x = ar_Tag y \<and> ar_Name x = ar_Name y"

text \<open>
  \<^verbatim>\<open>database/sql\<close> refuses an unsigned argument with the high bit set; the repository is a foreign key,
  which \<^verbatim>\<open>or ignore\<close> does not excuse.
\<close>

definition AddArtifact :: "RepoRow list \<Rightarrow> ArtifactRow list \<Rightarrow> ArtifactRow \<Rightarrow> ArtifactRow list option" where
  "AddArtifact repos rows a =
     (if ar_Size a \<ge> 2 ^ 63 then None
      else if list_ex (artifact_clash a) rows then Some rows
      else if ar_RepoAt a \<notin> set (map RepoAt repos) then None
      else Some (rows @ [a\<lparr>ar_Created := to_second (ar_Created a)\<rparr>]))"

definition DeleteArtifact :: "ArtifactRow list \<Rightarrow> string \<Rightarrow> string \<Rightarrow> ArtifactRow list" where
  "DeleteArtifact rows did rkey = delete_where (\<lambda>a. ar_Did a = did \<and> ar_Rkey a = rkey) rows"

definition GetRepoByAtUri :: "RepoRow list \<Rightarrow> string \<Rightarrow> RepoRow option" where
  "GetRepoByAtUri repos uri = find (\<lambda>r. RepoAt r = uri) repos"

section \<open>Strings\<close>

definition string_same :: "StringRow \<Rightarrow> StringRow \<Rightarrow> bool" where
  "string_same x y \<longleftrightarrow> sg_Did x = sg_Did y \<and> sg_Rkey x = sg_Rkey y"

definition string_update :: "Time \<Rightarrow> StringRow \<Rightarrow> StringRow \<Rightarrow> StringRow" where
  "string_update now x s =
     x\<lparr>sg_Filename := sg_Filename s, sg_Description := sg_Description s, sg_Contents := sg_Contents s,
       sg_Edited := (if sg_Contents x \<noteq> sg_Contents s \<or> sg_Filename x \<noteq> sg_Filename s \<or>
                        sg_Description x \<noteq> sg_Description s then Some (to_second now) else sg_Edited x)\<rparr>"

definition AddString :: "Time \<Rightarrow> StringRow list \<Rightarrow> StringRow \<Rightarrow> StringRow list option" where
  "AddString now rows s = upsert_row string_same string_same (string_update now) rows (s\<lparr>sg_Created := to_second (sg_Created s), sg_Edited := None\<rparr>)"

definition DeleteString :: "StringRow list \<Rightarrow> string \<Rightarrow> string \<Rightarrow> StringRow list" where
  "DeleteString rows did rkey = delete_where (\<lambda>s. sg_Did s = did \<and> sg_Rkey s = rkey) rows"

section \<open>Profiles\<close>

record Profile =
  pr_Row :: ProfileRow
  pr_Links :: "string list"
  pr_Stats :: "string list"
  pr_PinnedRepos :: "string list"

definition ParseVanityStatKind :: "string \<Rightarrow> string" where
  "ParseVanityStatKind s =
     (if s \<in> {''merged-pull-request-count'', ''closed-pull-request-count'', ''open-pull-request-count'',
         ''open-issue-count'', ''closed-issue-count'', ''repository-count'', ''star-count''} then s else [])"

definition IsLinksEmpty :: "Profile \<Rightarrow> bool" where "IsLinksEmpty p \<longleftrightarrow> list_all (\<lambda>l. l = []) (pr_Links p)"
definition IsStatsEmpty :: "Profile \<Rightarrow> bool" where "IsStatsEmpty p \<longleftrightarrow> list_all (\<lambda>l. l = []) (pr_Stats p)"
definition IsPinnedReposEmpty :: "Profile \<Rightarrow> bool" where
  "IsPinnedReposEmpty p \<longleftrightarrow> list_all (\<lambda>l. l = []) (pr_PinnedRepos p)"

text \<open>\<open>parse_url\<close> is \<^verbatim>\<open>url.Parse\<close>: scheme and host. A link without a scheme gets one.\<close>

fun validateLinks :: "(string \<Rightarrow> (string, string \<times> string) result) \<Rightarrow> string list \<Rightarrow> (string, string list) result" where
  "validateLinks parse_url [] = Inr []"
| "validateLinks parse_url (l # ls) =
     (let continue = (\<lambda>l'. map_sum id (Cons l') (validateLinks parse_url ls))
      in if l = [] then continue []
         else case parse_url l of
                Inl e \<Rightarrow> Inl ''Invalid URL''
              | Inr (scheme, host) \<Rightarrow>
                  if scheme = [] then continue ((if hasPrefix l ''//'' then ''https:'' else ''https://'') @ l)
                  else if scheme \<noteq> ''http'' \<and> scheme \<noteq> ''https'' then Inl ''Warning: URL has unusual scheme''
                  else if host = [] then Inl ''Warning: URL appears to be a relative path''
                  else continue l)"

definition CollaboratingIn :: "RepoRow list \<Rightarrow> (string \<times> string) list \<Rightarrow> string \<Rightarrow> RepoRow list" where
  "CollaboratingIn repos collabs did =
     (let repoAts = map snd (filter (\<lambda>c. fst c = did) collabs) in filter (\<lambda>r. RepoAt r \<in> set repoAts) repos)"

definition ValidateProfile ::
  "(string \<Rightarrow> (string, string \<times> string) result) \<Rightarrow> RepoRow list \<Rightarrow> (string \<times> string) list \<Rightarrow> Profile \<Rightarrow> (string, Profile) result" where
  "ValidateProfile parse_url repos collabs p =
     (if length (pf_Description (pr_Row p)) > 256 then Inl ''Entered bio is too long.''
      else if length (pf_Location (pr_Row p)) > 40 then Inl ''Entered location is too long.''
      else if length (pf_Pronouns (pr_Row p)) > 40 then Inl ''Entered pronouns are too long.''
      else case validateLinks parse_url (pr_Links p) of
             Inl e \<Rightarrow> Inl e
           | Inr links \<Rightarrow>
               let did = pf_Did (pr_Row p);
                   validRepos = map RepoAt (filter (\<lambda>r. re_Did r = did) repos) @ map RepoAt (CollaboratingIn repos collabs did)
               in if list_all (\<lambda>pin. pin = [] \<or> pin \<in> set validRepos) (pr_PinnedRepos p)
                  then Inr (p\<lparr>pr_Links := links\<rparr>) else Inl ''Invalid pinned repo'')"

text \<open>
  The profile is written in a transaction: the row of the profile is replaced, its links, statistics and
  pins are deleted and inserted anew. A pin must name a repository and may not occur twice.
\<close>

definition UpsertProfile :: "RepoRow list \<Rightarrow> Profile \<Rightarrow> SocialTables \<Rightarrow> SocialTables option" where
  "UpsertProfile repos p T =
     (let did = pf_Did (pr_Row p);
          entries = (\<lambda>xs. map (Pair did) (filter (\<lambda>x. x \<noteq> []) xs));
          pins = filter (\<lambda>x. x \<noteq> []) (pr_PinnedRepos p)
      in if \<not> distinct pins \<or> \<not> set pins \<subseteq> set (map RepoAt repos) then None
         else Some (T\<lparr>so_Profiles := delete_where (\<lambda>r. pf_Did r = did) (so_Profiles T) @ [pr_Row p],
                      so_Links := delete_where (\<lambda>l. fst l = did) (so_Links T) @ entries (pr_Links p),
                      so_Stats := delete_where (\<lambda>l. fst l = did) (so_Stats T) @ entries (pr_Stats p),
                      so_Pins := delete_where (\<lambda>l. fst l = did) (so_Pins T) @ entries (pr_PinnedRepos p)\<rparr>))"

section \<open>Spindles and knots\<close>

definition member_clash :: "MemberRow \<Rightarrow> MemberRow \<Rightarrow> bool" where
  "member_clash x y \<longleftrightarrow> mr_Did x = mr_Did y \<and> mr_Instance x = mr_Instance y \<and> mr_Subject x = mr_Subject y"

definition View_AddSpindleMember :: "MemberRow list \<Rightarrow> MemberRow \<Rightarrow> MemberRow list" where
  "View_AddSpindleMember rows m = insert_ignore member_clash rows m"

definition GetSpindleMembers :: "MemberRow list \<Rightarrow> string \<Rightarrow> string \<Rightarrow> MemberRow list" where
  "GetSpindleMembers rows did rkey = filter (\<lambda>m. mr_Did m = did \<and> mr_Rkey m = rkey) rows"

text \<open>The conditions of a deletion compare columns with values; a column the table does not have is an error.\<close>

definition member_columns :: "MemberRow \<Rightarrow> (string \<times> string) list" where
  "member_columns m =
     [(''did'', mr_Did m), (''rkey'', mr_Rkey m), (''instance'', mr_Instance m), (''subject'', mr_Subject m)]"

definition View_RemoveSpindleMember :: "MemberRow list \<Rightarrow> (string \<times> string) list \<Rightarrow> MemberRow list option" where
  "View_RemoveSpindleMember rows filters =
     (if set (map fst filters) \<subseteq> {''did'', ''rkey'', ''instance'', ''subject''}
      then Some (delete_where (\<lambda>m. set filters \<subseteq> set (member_columns m)) rows) else None)"

definition spindle_clash :: "SpindleRow \<Rightarrow> SpindleRow \<Rightarrow> bool" where
  "spindle_clash x y \<longleftrightarrow> sw_Owner x = sw_Owner y \<and> sw_Instance x = sw_Instance y"

definition Db_AddSpindle :: "SpindleRow list \<Rightarrow> string \<Rightarrow> string \<Rightarrow> SpindleRow list option" where
  "Db_AddSpindle rows owner inst = insert_row spindle_clash rows \<lparr>sw_Owner = owner, sw_Instance = inst, sw_Verified = None\<rparr>"

definition GetSpindles :: "SpindleRow list \<Rightarrow> string \<Rightarrow> string \<Rightarrow> SpindleRow list" where
  "GetSpindles rows owner inst = filter (\<lambda>s. sw_Owner s = owner \<and> sw_Instance s = inst) rows"

definition DeleteSpindle :: "SpindleRow list \<Rightarrow> string \<Rightarrow> string \<Rightarrow> SpindleRow list" where
  "DeleteSpindle rows owner inst = delete_where (\<lambda>s. sw_Owner s = owner \<and> sw_Instance s = inst) rows"

definition VerifySpindle :: "Time \<Rightarrow> SpindleRow list \<Rightarrow> string \<Rightarrow> string \<Rightarrow> SpindleRow list" where
  "VerifySpindle now rows owner inst =
     update_where (\<lambda>s. sw_Owner s = owner \<and> sw_Instance s = inst) (\<lambda>s. s\<lparr>sw_Verified := Some (to_second now)\<rparr>) rows"

definition registration_clash :: "RegistrationRow \<Rightarrow> RegistrationRow \<Rightarrow> bool" where
  "registration_clash x y \<longleftrightarrow> rg_Domain x = rg_Domain y \<and> rg_ByDid x = rg_ByDid y"

definition Db_AddKnot :: "RegistrationRow list \<Rightarrow> string \<Rightarrow> string \<Rightarrow> RegistrationRow list option" where
  "Db_AddKnot rows domain did =
     insert_row registration_clash rows \<lparr>rg_Domain = domain, rg_ByDid = did, rg_Registered = None\<rparr>"

definition GetRegistrations :: "RegistrationRow list \<Rightarrow> string \<Rightarrow> string \<Rightarrow> RegistrationRow list" where
  "GetRegistrations rows domain did = filter (\<lambda>r. rg_Domain r = domain \<and> rg_ByDid r = did) rows"

definition MarkRegistered :: "Time \<Rightarrow> RegistrationRow list \<Rightarrow> string \<Rightarrow> string \<Rightarrow> RegistrationRow list" where
  "MarkRegistered now rows did domain =
     update_where (\<lambda>r. rg_ByDid r = did \<and> rg_Domain r = domain) (\<lambda>r. r\<lparr>rg_Registered := Some (to_second now)\<rparr>) rows"

definition Db_DeleteKnot :: "RegistrationRow list \<Rightarrow> string \<Rightarrow> string \<Rightarrow> RegistrationRow list" where
  "Db_DeleteKnot rows did domain = delete_where (\<lambda>r. rg_ByDid r = did \<and> rg_Domain r = domain) rows"

section \<open>Issues and comments\<close>

text \<open>A reference occurs once per source; a list with a repetition fails as a whole.\<close>

definition deleteReferences :: "string \<Rightarrow> (string \<times> string) list \<Rightarrow> (string \<times> string) list" where
  "deleteReferences fromAt refs = delete_where (\<lambda>r. fst r = fromAt) refs"

definition putReferences :: "string \<Rightarrow> string list \<Rightarrow> (string \<times> string) list \<Rightarrow> (string \<times> string) list option" where
  "putReferences fromAt references refs =
     (if references = [] then Some (deleteReferences fromAt refs)
      else if \<not> distinct references then None
      else Some (deleteReferences fromAt refs @ map (Pair fromAt) references))"

text \<open>An issue of a repository that is gone is not returned.\<close>

definition GetIssues :: "RepoRow list \<Rightarrow> (IssueRow \<Rightarrow> bool) \<Rightarrow> IssueTables \<Rightarrow> IssueRow list" where
  "GetIssues repos P T = filter (\<lambda>i. P i \<and> iw_RepoAt i \<in> set (map RepoAt repos)) (it_Issues T)"

definition issue_clash :: "IssueRow \<Rightarrow> IssueRow \<Rightarrow> bool" where
  "issue_clash x y \<longleftrightarrow> issue_at x = issue_at y \<or> iw_Did x = iw_Did y \<and> iw_Rkey x = iw_Rkey y \<or>
     iw_RepoAt x = iw_RepoAt y \<and> iw_IssueId x = iw_IssueId y"

definition createNewIssue :: "RepoRow list \<Rightarrow> Issue \<Rightarrow> IssueTables \<Rightarrow> IssueTables option" where
  "createNewIssue repos i T =
     (case it_Seqs T (is_RepoAt i) of
        None \<Rightarrow> None
      | Some next \<Rightarrow>
          let row = \<lparr>iw_Did = is_Did i, iw_Rkey = is_Rkey i, iw_RepoAt = is_RepoAt i, iw_IssueId = next,
                     iw_Title = is_Title i, iw_Body = is_Body i, iw_Open = True, iw_Edited = None\<rparr>
          in if is_RepoAt i \<notin> set (map RepoAt repos) then None
             else case insert_row issue_clash (it_Issues T) row of
                    None \<Rightarrow> None
                  | Some rows \<Rightarrow>
                      map_option (\<lambda>refs. T\<lparr>it_Seqs := (it_Seqs T)(is_RepoAt i \<mapsto> next + 1), it_Issues := rows, it_Refs := refs\<rparr>)
                        (putReferences (Issue_AtUri i) (is_References i) (it_Refs T)))"

definition updateIssue :: "Time \<Rightarrow> Issue \<Rightarrow> IssueTables \<Rightarrow> IssueTables option" where
  "updateIssue now i T =
     map_option (\<lambda>refs. T\<lparr>it_Issues := update_where (\<lambda>r. iw_Did r = is_Did i \<and> iw_Rkey r = is_Rkey i)
                          (\<lambda>r. r\<lparr>iw_Title := is_Title i, iw_Body := is_Body i, iw_Edited := Some (to_second now)\<rparr>) (it_Issues T),
                        it_Refs := refs\<rparr>)
       (putReferences (Issue_AtUri i) (is_References i) (it_Refs T))"

definition PutIssue :: "Time \<Rightarrow> RepoRow list \<Rightarrow> Issue \<Rightarrow> IssueTables \<Rightarrow> IssueTables option" where
  "PutIssue now repos i T0 =
     (let T = (if it_Seqs T0 (is_RepoAt i) = None then T0\<lparr>it_Seqs := (it_Seqs T0)(is_RepoAt i \<mapsto> 1)\<rparr> else T0)
      in case GetIssues repos (\<lambda>r. iw_Did r = is_Did i \<and> iw_Rkey r = is_Rkey i) T of
           [] \<Rightarrow> createNewIssue repos i T
         | [existing] \<Rightarrow>
             if iw_Title existing = is_Title i \<and> iw_Body existing = is_Body i then Some T else updateIssue now i T
         | _ \<Rightarrow> None)"

definition DeleteIssues :: "string \<Rightarrow> string \<Rightarrow> IssueTables \<Rightarrow> IssueTables" where
  "DeleteIssues did rkey T =
     (let gone = (\<lambda>i. iw_Did i = did \<and> iw_Rkey i = rkey); uris = map issue_at (filter gone (it_Issues T))
      in T\<lparr>it_Issues := delete_where gone (it_Issues T),
           it_Comments := delete_where (\<lambda>c. cw_IssueAt c \<in> set uris) (it_Comments T),
           it_Refs := deleteReferences (at_uri did RepoIssueNSID rkey) (it_Refs T)\<rparr>)"

definition comment_same :: "CommentRow \<Rightarrow> CommentRow \<Rightarrow> bool" where
  "comment_same x y \<longleftrightarrow> cw_Did x = cw_Did y \<and> cw_Rkey x = cw_Rkey y"

definition comment_clash :: "CommentRow \<Rightarrow> CommentRow \<Rightarrow> bool" where
  "comment_clash x y \<longleftrightarrow> comment_same x y \<or> comment_at x = comment_at y"

text \<open>A comparison with a null \<^verbatim>\<open>reply_to\<close> is not true in SQL.\<close>

definition comment_update :: "Time \<Rightarrow> CommentRow \<Rightarrow> CommentRow \<Rightarrow> CommentRow" where
  "comment_update now x c =
     x\<lparr>cw_IssueAt := cw_IssueAt c, cw_Body := cw_Body c,
       cw_Edited := (if cw_IssueAt x \<noteq> cw_IssueAt c \<or> cw_Body x \<noteq> cw_Body c \<or>
                        cw_ReplyTo x \<noteq> None \<and> cw_ReplyTo c \<noteq> None \<and> cw_ReplyTo x \<noteq> cw_ReplyTo c
                     then Some (to_second now) else cw_Edited x)\<rparr>"

definition comment_row :: "IssueComment \<Rightarrow> CommentRow" where
  "comment_row c =
     \<lparr>cw_Did = ic_Did c, cw_Rkey = ic_Rkey c, cw_IssueAt = ic_IssueAt c, cw_ReplyTo = ic_ReplyTo c,
      cw_Body = ic_Body c, cw_Created = to_second (ic_Created c), cw_Edited = None, cw_Deleted = None\<rparr>"

definition AddIssueComment :: "Time \<Rightarrow> IssueComment \<Rightarrow> IssueTables \<Rightarrow> IssueTables option" where
  "AddIssueComment now c T =
     (if ic_IssueAt c \<notin> set (map issue_at (it_Issues T)) then None
      else case upsert_row comment_same comment_clash (comment_update now) (it_Comments T) (comment_row c) of
             None \<Rightarrow> None
           | Some rows \<Rightarrow>
               map_option (\<lambda>refs. T\<lparr>it_Comments := rows, it_Refs := refs\<rparr>)
                 (putReferences (IssueComment_AtUri c) (ic_References c) (it_Refs T)))"

text \<open>A deleted comment keeps its row, without its body.\<close>

definition DeleteIssueComments :: "Time \<Rightarrow> CommentRow list \<Rightarrow> string \<Rightarrow> string \<Rightarrow> CommentRow list" where
  "DeleteIssueComments now rows did rkey =
     update_where (\<lambda>c. cw_Did c = did \<and> cw_Rkey c = rkey) (\<lambda>c. c\<lparr>cw_Body := [], cw_Deleted := Some (to_second now)\<rparr>) rows"

text \<open>The comments at an address, by address: of rows that share it one remains.\<close>

definition comments_at :: "CommentRow list \<Rightarrow> string \<Rightarrow> CommentRow list" where
  "comments_at rows uri = (let found = filter (\<lambda>c. comment_at c = uri) rows in if found = [] then [] else [last found])"

section \<open>Labels\<close>

definition labeldef_same :: "LabelDefRow \<Rightarrow> LabelDefRow \<Rightarrow> bool" where
  "labeldef_same x y \<longleftrightarrow> dr_Did x = dr_Did y \<and> dr_Rkey x = dr_Rkey y"

definition labeldef_clash :: "LabelDefRow \<Rightarrow> LabelDefRow \<Rightarrow> bool" where
  "labeldef_clash x y \<longleftrightarrow> labeldef_same x y \<or> labeldef_at x = labeldef_at y"

definition labeldef_update :: "LabelDefRow \<Rightarrow> LabelDefRow \<Rightarrow> LabelDefRow" where
  "labeldef_update x d =
     x\<lparr>dr_Name := dr_Name d, dr_Scope := dr_Scope d, dr_Color := dr_Color d, dr_Multiple := dr_Multiple d\<rparr>"

definition labeldef_row :: "LabelDefinition \<Rightarrow> LabelDefRow" where
  "labeldef_row l =
     \<lparr>dr_Did = ld_Did l, dr_Rkey = ld_Rkey l, dr_Name = ld_Name l, dr_ValueType = vt_Type (ld_ValueType l),
      dr_ValueFormat = vt_Format (ld_ValueType l), dr_ValueEnum = joinWith '','' (vt_Enum (ld_ValueType l)),
      dr_Scope = joinWith '','' (case ld_Scope l of None \<Rightarrow> [] | Some scopes \<Rightarrow> scopes), dr_Color = ld_Color l,
      dr_Multiple = ld_Multiple l, dr_Created = to_second (ld_Created l)\<rparr>"

definition AddLabelDefinition :: "LabelDefRow list \<Rightarrow> LabelDefinition \<Rightarrow> LabelDefRow list option" where
  "AddLabelDefinition rows l =
     (if \<not> IsConcreteType (ld_ValueType l) then None
      else upsert_row labeldef_same labeldef_clash labeldef_update rows (labeldef_row l))"

text \<open>The definition goes with its operations.\<close>

definition DeleteLabelDefinition :: "LabelTables \<Rightarrow> string \<Rightarrow> string \<Rightarrow> LabelTables" where
  "DeleteLabelDefinition T did rkey =
     (let gone = (\<lambda>d. dr_Did d = did \<and> dr_Rkey d = rkey); uris = map labeldef_at (filter gone (lt_Defs T))
      in T\<lparr>lt_Defs := delete_where gone (lt_Defs T),
           lt_Ops := delete_where (\<lambda>op. lo_OperandKey op \<in> set uris) (lt_Ops T)\<rparr>)"

definition read_labeldef :: "LabelDefRow \<Rightarrow> LabelDefinition" where
  "read_labeldef r =
     \<lparr>ld_Id = 0, ld_Did = dr_Did r, ld_Rkey = dr_Rkey r, ld_Name = dr_Name r,
      ld_ValueType = \<lparr>vt_Type = dr_ValueType r, vt_Format = dr_ValueFormat r,
        vt_Enum = (if dr_ValueEnum r = [] then [] else splitOn CHR '','' (dr_ValueEnum r))\<rparr>,
      ld_Scope = Some (splitOn CHR '','' (dr_Scope r)), ld_Color = dr_Color r, ld_Multiple = dr_Multiple r,
      ld_Created = dr_Created r\<rparr>"

definition GetLabelDefinitions :: "(LabelDefRow \<Rightarrow> bool) \<Rightarrow> LabelDefRow list \<Rightarrow> LabelDefinition list" where
  "GetLabelDefinitions P rows = map read_labeldef (filter P rows)"

definition NewLabelApplicationCtx :: "(LabelDefRow \<Rightarrow> bool) \<Rightarrow> LabelDefRow list \<Rightarrow> (string \<rightharpoonup> LabelDefinition)" where
  "NewLabelApplicationCtx P rows =
     foldl (\<lambda>defs l. defs(LabelDefinition_AtUri l \<mapsto> l)) Map.empty (GetLabelDefinitions P rows)"

definition labelop_same :: "LabelOp \<Rightarrow> LabelOp \<Rightarrow> bool" where
  "labelop_same x y \<longleftrightarrow> lo_Did x = lo_Did y \<and> lo_Rkey x = lo_Rkey y \<and> lo_Subject x = lo_Subject y \<and>
     lo_OperandKey x = lo_OperandKey y \<and> lo_OperandValue x = lo_OperandValue y"

definition labelop_update :: "LabelOp \<Rightarrow> LabelOp \<Rightarrow> LabelOp" where
  "labelop_update x op =
     x\<lparr>lo_Operation := lo_Operation op, lo_OperandValue := lo_OperandValue op,
       lo_PerformedAt := lo_PerformedAt op, lo_IndexedAt := lo_IndexedAt op\<rparr>"

definition AddLabelOp :: "Time \<Rightarrow> LabelTables \<Rightarrow> LabelOp \<Rightarrow> LabelTables option" where
  "AddLabelOp now T op =
     (if lo_Operation op \<noteq> LabelOperationAdd \<and> lo_Operation op \<noteq> LabelOperationDel then None
      else if lo_OperandKey op \<notin> set (map labeldef_at (lt_Defs T)) then None
      else map_option (\<lambda>rows. T\<lparr>lt_Ops := rows\<rparr>)
        (upsert_row labelop_same labelop_same labelop_update (lt_Ops T) 
          (op\<lparr>lo_PerformedAt := to_second (lo_PerformedAt op), lo_IndexedAt := to_second now\<rparr>)))"

section \<open>The constraints are kept\<close>

interpretation follows: sql_table follow_clash by unfold_locales (auto simp: follow_clash_def)
interpretation stars: sql_table star_clash by unfold_locales (auto simp: star_clash_def)
interpretation keys: sql_table key_clash by unfold_locales (auto simp: key_clash_def)
interpretation artifacts: sql_table artifact_clash by unfold_locales (auto simp: artifact_clash_def)
interpretation strings: sql_table string_same by unfold_locales (auto simp: string_same_def)
interpretation members: sql_table member_clash by unfold_locales (auto simp: member_clash_def)
interpretation spindles: sql_table spindle_clash by unfold_locales (auto simp: spindle_clash_def)
interpretation registrations: sql_table registration_clash by unfold_locales (auto simp: registration_clash_def)
interpretation issues: sql_table issue_clash by unfold_locales (auto simp: issue_clash_def)
interpretation comments: sql_table comment_clash by unfold_locales (auto simp: comment_clash_def comment_same_def)
interpretation labeldefs: sql_table labeldef_clash by unfold_locales (auto simp: labeldef_clash_def labeldef_same_def)
interpretation labelops: sql_table labelop_same by unfold_locales (auto simp: labelop_same_def)

end
