(* ===== verification/AppView_Ingest.thy ===== *)
theory AppView_Ingest
  imports AppView_Store
begin

text \<open>
  What the appview takes from the network: \<^verbatim>\<open>appview/ingester.go\<close> with the verification of servers
  (\<^verbatim>\<open>appview/serververify/verify.go\<close>) and the records of \<^verbatim>\<open>appview/models\<close>.

  Decoding records, parsing AT-URIs, times and URLs, resolving identities, asking a server for its owner
  and the HTML sanitizer are arguments. An error is the fixed part of its message; it is only logged. A
  handler that panics ends the process: \<^verbatim>\<open>Ingest\<close> does not recover, but its deferred function still
  saves the cursor. The policy is kept in memory and saved only when the code says so (the appview does
  not turn on the automatic saving); saving and loading it succeed. A transaction that a handler forgets
  to end is as if rolled back: the lock it keeps is not modelled.
\<close>

section \<open>State\<close>

record 's AppState =
  av_Policy :: 's
  av_Saved :: 's
  av_Repos :: "RepoRow list"
  av_Collaborators :: "(string \<times> string) list"
  av_Social :: SocialTables
  av_Servers :: ServerTables
  av_Issues :: IssueTables
  av_Labels :: LabelTables
  av_LastTimeUs :: "int option"
  av_Crashed :: bool

datatype outcome = Returned "string option" | Panicked

record ArtifactRecord =
  xa_Artifact :: "(string \<times> int \<times> string) option"
  xa_CreatedAt :: string
  xa_Name :: string
  xa_Repo :: string
  xa_Tag :: string

record ProfileRecord =
  xp_Avatar :: "string option"
  xp_Bluesky :: bool
  xp_Description :: "string option"
  xp_Links :: "string list"
  xp_Location :: "string option"
  xp_PinnedRepositories :: "string list"
  xp_Pronouns :: "string option"
  xp_Stats :: "string list"

record StringRecord =
  xs_Contents :: string
  xs_CreatedAt :: string
  xs_Description :: string
  xs_Filename :: string

record AppEnv =
  ae_now :: Time
  ae_dev :: bool
  ae_Account :: "JetEvent \<Rightarrow> bool \<times> string option"
  ae_InvalidateIdent :: "JetEvent \<Rightarrow> string option"
  ae_Follow :: "string \<Rightarrow> (string, string) result"
  ae_Star :: "string \<Rightarrow> (string, string) result"
  ae_PublicKey :: "string \<Rightarrow> (string, string \<times> string) result"
  ae_Artifact :: "string \<Rightarrow> (string, ArtifactRecord) result"
  ae_Profile :: "string \<Rightarrow> (string, ProfileRecord) result"
  ae_SpindleMember :: "string \<Rightarrow> (string, string \<times> string) result"
  ae_Spindle :: "string \<Rightarrow> (string, unit) result"
  ae_KnotMember :: "string \<Rightarrow> (string, KnotMember) result"
  ae_Knot :: "string \<Rightarrow> (string, unit) result"
  ae_String :: "string \<Rightarrow> (string, StringRecord) result"
  ae_Issue :: "string \<Rightarrow> (string, IssueRecord) result"
  ae_Comment :: "string \<Rightarrow> (string, IssueCommentRecord) result"
  ae_LabelDefinition :: "string \<Rightarrow> (string, LabelDefinitionRecord) result"
  ae_LabelOp :: "string \<Rightarrow> (string, LabelOpRecord) result"
  ae_parseTime :: "string \<Rightarrow> string \<Rightarrow> Time option"
  ae_parseATURI :: "string \<Rightarrow> (string, unit) result"
  ae_collection :: "string \<Rightarrow> string"
  ae_parseNSID :: "string \<Rightarrow> (string, unit) result"
  ae_parseURL :: "string \<Rightarrow> (string, string \<times> string) result"
  ae_quote :: "string \<Rightarrow> string"
  ae_resolve :: resolver
  ae_join :: joiner
  ae_fetchOwner :: "string \<Rightarrow> string \<Rightarrow> (string, string) result"
  ae_sanitizeDefault :: "string \<Rightarrow> string"
  ae_sanitizeDescription :: "string \<Rightarrow> string"

definition RFC3339 :: string where "RFC3339 = ''2006-01-02T15:04:05Z07:00''"

definition app_validator :: "AppEnv \<Rightarrow> ValidatorEnv" where
  "app_validator E =
     \<lparr>parseATURI = ae_parseATURI E, resolveIdent = (\<lambda>s. map_sum id id_DID (ae_resolve E s)), quote_value = ae_quote E\<rparr>"

definition GraphFollowNSID :: string where "GraphFollowNSID = ''sh.tangled.graph.follow''"
definition FeedStarNSID :: string where "FeedStarNSID = ''sh.tangled.feed.star''"
definition RepoArtifactNSID :: string where "RepoArtifactNSID = ''sh.tangled.repo.artifact''"
definition ActorProfileNSID :: string where "ActorProfileNSID = ''sh.tangled.actor.profile''"
definition SpindleNSID :: string where "SpindleNSID = ''sh.tangled.spindle''"
definition KnotNSID :: string where "KnotNSID = ''sh.tangled.knot''"
definition StringNSID :: string where "StringNSID = ''sh.tangled.string''"
definition LabelOpNSID :: string where "LabelOpNSID = ''sh.tangled.label.op''"

lemmas app_nsids = GraphFollowNSID_def FeedStarNSID_def PublicKeyNSID_def RepoArtifactNSID_def ActorProfileNSID_def
  SpindleMemberNSID_def SpindleNSID_def KnotMemberNSID_def KnotNSID_def StringNSID_def RepoIssueNSID_def
  RepoIssueCommentNSID_def LabelDefinitionNSID_def LabelOpNSID_def

type_synonym 's app_handler = "'s AppState \<Rightarrow> 's AppState \<times> outcome"

definition is_delete :: "JetEvent \<Rightarrow> bool" where
  "is_delete ev \<longleftrightarrow> je_Operation ev = ''delete''"

abbreviation social :: "(SocialTables \<Rightarrow> SocialTables) \<Rightarrow> 's AppState \<Rightarrow> 's AppState" where
  "social f st \<equiv> st\<lparr>av_Social := f (av_Social st)\<rparr>"

abbreviation failed :: "string \<Rightarrow> outcome" where "failed e \<equiv> Returned (Some e)"
abbreviation succeeded :: outcome where "succeeded \<equiv> Returned None"

section \<open>Stars, follows and keys\<close>

definition ingestStar :: "AppEnv \<Rightarrow> JetEvent \<Rightarrow> 's app_handler" where
  "ingestStar E ev st =
     (if is_write ev then
        (case ae_Star E (je_Record ev) of
           Inl e \<Rightarrow> (st, failed e)
         | Inr subject \<Rightarrow>
             (case ae_parseATURI E subject of
                Inl e \<Rightarrow> (st, failed e)
              | Inr _ \<Rightarrow>
                  (social (\<lambda>T. T\<lparr>so_Stars := AddStar (so_Stars T)
                     \<lparr>st_Did = je_Did ev, st_SubjectAt = subject, st_Rkey = je_RKey ev\<rparr>\<rparr>) st, succeeded)))
      else if is_delete ev then
        (social (\<lambda>T. T\<lparr>so_Stars := DeleteStarByRkey (so_Stars T) (je_Did ev) (je_RKey ev)\<rparr>) st, succeeded)
      else (st, succeeded))"

definition ingestFollow :: "AppEnv \<Rightarrow> JetEvent \<Rightarrow> 's app_handler" where
  "ingestFollow E ev st =
     (if is_write ev then
        (case ae_Follow E (je_Record ev) of
           Inl e \<Rightarrow> (st, failed e)
         | Inr subject \<Rightarrow>
             (social (\<lambda>T. T\<lparr>so_Follows := AddFollow (so_Follows T)
                \<lparr>fo_UserDid = je_Did ev, fo_SubjectDid = subject, fo_Rkey = je_RKey ev\<rparr>\<rparr>) st, succeeded))
      else if is_delete ev then
        (social (\<lambda>T. T\<lparr>so_Follows := DeleteFollowByRkey (so_Follows T) (je_Did ev) (je_RKey ev)\<rparr>) st, succeeded)
      else (st, succeeded))"

definition ingestPublicKey :: "AppEnv \<Rightarrow> JetEvent \<Rightarrow> 's app_handler" where
  "ingestPublicKey E ev st =
     (if is_write ev then
        (case ae_PublicKey E (je_Record ev) of
           Inl e \<Rightarrow> (st, failed e)
         | Inr (name, key) \<Rightarrow>
             (social (\<lambda>T. T\<lparr>so_Keys := Db_AddPublicKey (so_Keys T) (je_Did ev) name key (je_RKey ev)\<rparr>) st, succeeded))
      else if is_delete ev then
        (social (\<lambda>T. T\<lparr>so_Keys := DeletePublicKeyByRkey (so_Keys T) (je_Did ev) (je_RKey ev)\<rparr>) st, succeeded)
      else (st, succeeded))"

section \<open>Artifacts\<close>

text \<open>
  A record without an artifact or with a tag of fewer than 20 bytes panics, once its author may push to the
  repository. An author who may not push gets no error. The error of the insertion is lost: the variable it is
  assigned to is shadowed.
\<close>

definition push_allowed :: "('s, string) Casbin \<Rightarrow> AppEnv \<Rightarrow> 's \<Rightarrow> string \<Rightarrow> RepoRow \<Rightarrow> (string, bool) result" where
  "push_allowed C E s did repo = Enforce C s did (re_Knot repo) (fst (ae_join E (re_Did repo) (re_Name repo))) ''repo:push''"

definition artifact_row :: "AppEnv \<Rightarrow> JetEvent \<Rightarrow> ArtifactRecord \<Rightarrow> string \<times> int \<times> string \<Rightarrow> ArtifactRow" where
  "artifact_row E ev record blob =
     \<lparr>ar_Did = je_Did ev, ar_Rkey = je_RKey ev, ar_RepoAt = xa_Repo record, ar_Tag = take 20 (xa_Tag record),
      ar_Created = (case ae_parseTime E RFC3339 (xa_CreatedAt record) of None \<Rightarrow> ae_now E | Some t \<Rightarrow> t),
      ar_BlobCid = fst blob, ar_Name = xa_Name record, ar_Size = nat (fst (snd blob) mod 2 ^ 64),
      ar_MimeType = snd (snd blob)\<rparr>"

definition ingestArtifact :: "('s, string) Casbin \<Rightarrow> AppEnv \<Rightarrow> JetEvent \<Rightarrow> 's app_handler" where
  "ingestArtifact C E ev st =
     (if is_write ev then
        (case ae_Artifact E (je_Record ev) of
           Inl e \<Rightarrow> (st, failed e)
         | Inr record \<Rightarrow>
             (case ae_parseATURI E (xa_Repo record) of
                Inl e \<Rightarrow> (st, failed e)
              | Inr _ \<Rightarrow>
                  (case GetRepoByAtUri (av_Repos st) (xa_Repo record) of
                     None \<Rightarrow> (st, failed ''sql: no rows in result set'')
                   | Some repo \<Rightarrow>
                       (case push_allowed C E (av_Policy st) (je_Did ev) repo of
                          Inl e \<Rightarrow> (st, failed e)
                        | Inr False \<Rightarrow> (st, succeeded)
                        | Inr True \<Rightarrow>
                            (case xa_Artifact record of
                               None \<Rightarrow> (st, Panicked)
                             | Some blob \<Rightarrow>
                                 if length (xa_Tag record) < 20 then (st, Panicked)
                                 else
                                   (case AddArtifact (av_Repos st) (so_Artifacts (av_Social st)) (artifact_row E ev record blob) of
                                      None \<Rightarrow> (st, succeeded)
                                    | Some rows \<Rightarrow> (social (\<lambda>T. T\<lparr>so_Artifacts := rows\<rparr>) st, succeeded)))))))
      else if is_delete ev then
        (social (\<lambda>T. T\<lparr>so_Artifacts := DeleteArtifact (so_Artifacts T) (je_Did ev) (je_RKey ev)\<rparr>) st, succeeded)
      else (st, succeeded))"

section \<open>Profiles\<close>

text \<open>Arrays of fixed length: what the record has beyond it is dropped.\<close>

definition fixed :: "nat \<Rightarrow> string list \<Rightarrow> string list" where
  "fixed n xs = take n (xs @ replicate n [])"

definition profile_from_record :: "string \<Rightarrow> ProfileRecord \<Rightarrow> Profile" where
  "profile_from_record did r =
     (let str = (\<lambda>x. case x of None \<Rightarrow> [] | Some s \<Rightarrow> s)
      in \<lparr>pr_Row = \<lparr>pf_Did = did, pf_Avatar = str (xp_Avatar r), pf_Description = str (xp_Description r),
            pf_IncludeBluesky = xp_Bluesky r, pf_Location = str (xp_Location r), pf_Pronouns = str (xp_Pronouns r)\<rparr>,
          pr_Links = fixed 5 (xp_Links r), pr_Stats = fixed 2 (map ParseVanityStatKind (xp_Stats r)),
          pr_PinnedRepos = fixed 6 (xp_PinnedRepositories r)\<rparr>)"

text \<open>Deleting a profile deletes an artifact of the same key, and the error of the update is lost again.\<close>

definition ingestProfile :: "AppEnv \<Rightarrow> JetEvent \<Rightarrow> 's app_handler" where
  "ingestProfile E ev st =
     (if je_RKey ev \<noteq> ''self'' then (st, failed ''ingestProfile only ingests `self` record'')
      else if is_write ev then
        (case ae_Profile E (je_Record ev) of
           Inl e \<Rightarrow> (st, failed e)
         | Inr record \<Rightarrow>
             (case ValidateProfile (ae_parseURL E) (av_Repos st) (av_Collaborators st) (profile_from_record (je_Did ev) record) of
                Inl e \<Rightarrow> (st, failed ''invalid profile record'')
              | Inr profile \<Rightarrow>
                  (case UpsertProfile (av_Repos st) profile (av_Social st) of
                     None \<Rightarrow> (st, succeeded)
                   | Some T \<Rightarrow> (social (\<lambda>_. T) st, succeeded))))
      else if is_delete ev then
        (social (\<lambda>T. T\<lparr>so_Artifacts := DeleteArtifact (so_Artifacts T) (je_Did ev) (je_RKey ev)\<rparr>) st, succeeded)
      else (st, succeeded))"

section \<open>Verified servers\<close>

text \<open>A server is verified when it names the expected owner itself.\<close>

definition RunVerification :: "AppEnv \<Rightarrow> string \<Rightarrow> string \<Rightarrow> string option" where
  "RunVerification E domain expectedOwner =
     (case ae_fetchOwner E (if ae_dev E then ''http'' else ''https'') domain of
        Inl e \<Rightarrow> Some e
      | Inr observedOwner \<Rightarrow> if observedOwner \<noteq> expectedOwner then Some ''owner mismatch'' else None)"

abbreviation servers :: "(ServerTables \<Rightarrow> ServerTables) \<Rightarrow> 's AppState \<Rightarrow> 's AppState" where
  "servers f st \<equiv> st\<lparr>av_Servers := f (av_Servers st)\<rparr>"

text \<open>\<open>SavePolicy\<close> followed by the deferred \<open>LoadPolicy\<close>, and \<open>LoadPolicy\<close> alone.\<close>

definition save_policy :: "'s \<Rightarrow> 's AppState \<Rightarrow> 's AppState" where
  "save_policy s st = st\<lparr>av_Policy := s, av_Saved := s\<rparr>"

definition load_policy :: "'s AppState \<Rightarrow> 's AppState" where
  "load_policy st = st\<lparr>av_Policy := av_Saved st\<rparr>"

definition MarkSpindleVerified :: "('s, string) Casbin \<Rightarrow> AppEnv \<Rightarrow> string \<Rightarrow> string \<Rightarrow> 's app_handler" where
  "MarkSpindleVerified C E inst owner st =
     (case AddSpindleOwner C (av_Policy st) inst owner of
        Inl e \<Rightarrow> (load_policy st, failed ''failed to update ACL'')
      | Inr s \<Rightarrow>
          (save_policy s (servers (\<lambda>T. T\<lparr>sv_Spindles := VerifySpindle (ae_now E) (sv_Spindles T) owner inst\<rparr>) st), succeeded))"

definition MarkKnotVerified :: "('s, string) Casbin \<Rightarrow> AppEnv \<Rightarrow> string \<Rightarrow> string \<Rightarrow> 's app_handler" where
  "MarkKnotVerified C E domain owner st =
     (case AddKnot C (av_Policy st) domain of
        Inl e \<Rightarrow> (load_policy st, failed ''failed to add knot to enforcer'')
      | Inr s1 \<Rightarrow>
          (case AddKnotOwner C s1 domain owner of
             Inl e \<Rightarrow> (load_policy st, failed ''failed to add knot owner to enforcer'')
           | Inr s2 \<Rightarrow>
               (save_policy s2 (servers (\<lambda>T. T\<lparr>sv_Registrations := MarkRegistered (ae_now E) (sv_Registrations T) owner domain\<rparr>) st),
                succeeded)))"

section \<open>Spindles\<close>

text \<open>A new member is entered into the table and the policy in memory; nothing saves the policy.\<close>

definition ingestSpindleMember :: "('s, string) Casbin \<Rightarrow> AppEnv \<Rightarrow> JetEvent \<Rightarrow> 's app_handler" where
  "ingestSpindleMember C E ev st =
     (if je_Operation ev = ''create'' then
        (case ae_SpindleMember E (je_Record ev) of
           Inl e \<Rightarrow> (st, failed e)
         | Inr (inst, subject) \<Rightarrow>
             if \<not> allowed (IsSpindleInviteAllowed C (av_Policy st) (je_Did ev) inst) then
               (st, failed ''failed to enforce permissions'')
             else
               (case ae_resolve E subject of
                  Inl e \<Rightarrow> (st, failed e)
                | Inr memberId \<Rightarrow>
                    if id_InvalidHandle memberId then (st, succeeded)
                    else
                      let st1 = servers (\<lambda>T. T\<lparr>sv_Members := View_AddSpindleMember (sv_Members T)
                            \<lparr>mr_Did = je_Did ev, mr_Rkey = je_RKey ev, mr_Instance = inst, mr_Subject = id_DID memberId\<rparr>\<rparr>) st
                      in (case AddSpindleMember C (av_Policy st) inst (id_DID memberId) of
                            Inl e \<Rightarrow> (st1, failed ''failed to update ACLs'')
                          | Inr s \<Rightarrow> (st1\<lparr>av_Policy := s\<rparr>, succeeded))))
      else if is_delete ev then
        (case GetSpindleMembers (sv_Members (av_Servers st)) (je_Did ev) (je_RKey ev) of
           [member] \<Rightarrow>
             (case View_RemoveSpindleMember (sv_Members (av_Servers st)) [(''did'', je_Did ev), (''rkey'', je_RKey ev)] of
                None \<Rightarrow> (st, failed ''failed to remove from db'')
              | Some rows \<Rightarrow>
                  (case RemoveSpindleMember C (av_Policy st) (mr_Instance member) (mr_Subject member) of
                     Inl e \<Rightarrow> (st, failed ''failed to update ACLs'')
                   | Inr s \<Rightarrow> (save_policy s (servers (\<lambda>T. T\<lparr>sv_Members := rows\<rparr>) st), succeeded)))
         | _ \<Rightarrow> (st, failed ''failed to get member''))
      else (st, succeeded))"

definition ingestSpindle :: "('s, string) Casbin \<Rightarrow> AppEnv \<Rightarrow> JetEvent \<Rightarrow> 's app_handler" where
  "ingestSpindle C E ev st =
     (let did = je_Did ev; inst = je_RKey ev; T = av_Servers st
      in if je_Operation ev = ''create'' then
           (case ae_Spindle E (je_Record ev) of
              Inl e \<Rightarrow> (st, failed e)
            | Inr _ \<Rightarrow>
                (case Db_AddSpindle (sv_Spindles T) did inst of
                   None \<Rightarrow> (st, failed ''UNIQUE constraint failed'')
                 | Some rows \<Rightarrow>
                     let st1 = servers (\<lambda>T. T\<lparr>sv_Spindles := rows\<rparr>) st
                     in case RunVerification E inst did of
                          Some e \<Rightarrow> (st1, failed e)
                        | None \<Rightarrow> MarkSpindleVerified C E inst did st1))
         else if is_delete ev then
           (case GetSpindles (sv_Spindles T) did inst of
              [spindle] \<Rightarrow>
                (case View_RemoveSpindleMember (sv_Members T) [(''owner'', did), (''instance'', inst)] of
                   None \<Rightarrow> (load_policy st, failed ''no such column: owner'')
                 | Some ms \<Rightarrow>
                     let st1 = servers (\<lambda>T. T\<lparr>sv_Members := ms, sv_Spindles := DeleteSpindle (sv_Spindles T) did inst\<rparr>) st
                     in if sw_Verified spindle = None then (save_policy (av_Policy st) st1, succeeded)
                        else (case RemoveSpindle C (av_Policy st) inst of
                                Inl e \<Rightarrow> (load_policy st, failed ''failed to remove spindle'')
                              | Inr s \<Rightarrow> (save_policy s st1, succeeded)))
            | _ \<Rightarrow> (st, failed ''failed to get spindles''))
         else (st, succeeded))"

section \<open>Knots\<close>

definition ingestKnotMember :: "('s, string) Casbin \<Rightarrow> AppEnv \<Rightarrow> JetEvent \<Rightarrow> 's app_handler" where
  "ingestKnotMember C E ev st =
     (if je_Operation ev = ''create'' then
        (case ae_KnotMember E (je_Record ev) of
           Inl e \<Rightarrow> (st, failed e)
         | Inr record \<Rightarrow>
             if \<not> allowed (IsKnotInviteAllowed C (av_Policy st) (je_Did ev) (km_Domain record)) then
               (st, failed ''failed to enforce permissions'')
             else
               (case ae_resolve E (km_Subject record) of
                  Inl e \<Rightarrow> (st, failed e)
                | Inr memberId \<Rightarrow>
                    if id_InvalidHandle memberId then (st, succeeded)
                    else (case AddKnotMember C (av_Policy st) (km_Domain record) (id_DID memberId) of
                            Inl e \<Rightarrow> (st, failed ''failed to update ACLs'')
                          | Inr s \<Rightarrow> (st\<lparr>av_Policy := s\<rparr>, succeeded))))
      else (st, succeeded))"

definition ingestKnot :: "('s, string) Casbin \<Rightarrow> AppEnv \<Rightarrow> JetEvent \<Rightarrow> 's app_handler" where
  "ingestKnot C E ev st =
     (let did = je_Did ev; domain = je_RKey ev; T = av_Servers st
      in if je_Operation ev = ''create'' then
           (case ae_Knot E (je_Record ev) of
              Inl e \<Rightarrow> (st, failed e)
            | Inr _ \<Rightarrow>
                (case Db_AddKnot (sv_Registrations T) domain did of
                   None \<Rightarrow> (st, failed ''UNIQUE constraint failed'')
                 | Some rows \<Rightarrow>
                     let st1 = servers (\<lambda>T. T\<lparr>sv_Registrations := rows\<rparr>) st
                     in case RunVerification E domain did of
                          Some e \<Rightarrow> (st1, failed e)
                        | None \<Rightarrow> MarkKnotVerified C E domain did st1))
         else if is_delete ev then
           (case GetRegistrations (sv_Registrations T) domain did of
              [registration] \<Rightarrow>
                let st1 = servers (\<lambda>T. T\<lparr>sv_Registrations := Db_DeleteKnot (sv_Registrations T) did domain\<rparr>) st
                in if rg_Registered registration = None then (save_policy (av_Policy st) st1, succeeded)
                   else (case RemoveKnot C (av_Policy st) domain of
                           Inl e \<Rightarrow> (load_policy st, failed ''failed to remove knot'')
                         | Inr s \<Rightarrow> (save_policy s st1, succeeded))
            | _ \<Rightarrow> (st, failed ''got incorret number of registrations''))
         else (st, succeeded))"

section \<open>Strings\<close>

text \<open>The time of creation is parsed with the layout and the value exchanged.\<close>

definition StringFromRecord :: "(string \<Rightarrow> string \<Rightarrow> Time option) \<Rightarrow> Time \<Rightarrow> string \<Rightarrow> string \<Rightarrow> StringRecord \<Rightarrow> StringRow" where
  "StringFromRecord parseTime now did rkey r =
     \<lparr>sg_Did = did, sg_Rkey = rkey, sg_Filename = xs_Filename r, sg_Description = xs_Description r,
      sg_Contents = xs_Contents r,
      sg_Created = (case parseTime (xs_CreatedAt r) RFC3339 of None \<Rightarrow> now | Some t \<Rightarrow> t), sg_Edited = None\<rparr>"

definition ingestString :: "AppEnv \<Rightarrow> JetEvent \<Rightarrow> 's app_handler" where
  "ingestString E ev st =
     (if is_write ev then
        (case ae_String E (je_Record ev) of
           Inl e \<Rightarrow> (st, failed e)
         | Inr record \<Rightarrow>
             let s = StringFromRecord (ae_parseTime E) (ae_now E) (je_Did ev) (je_RKey ev) record;
                 errs = ValidateString (sg_Filename s) (sg_Description s) (sg_Contents s)
             in if errs \<noteq> [] then (st, failed (joinWith [newline] errs))
                else (case AddString (ae_now E) (so_Strings (av_Social st)) s of
                        None \<Rightarrow> (st, failed ''failed to add string'')
                      | Some rows \<Rightarrow> (social (\<lambda>T. T\<lparr>so_Strings := rows\<rparr>) st, succeeded)))
      else if is_delete ev then
        (social (\<lambda>T. T\<lparr>so_Strings := DeleteString (so_Strings T) (je_Did ev) (je_RKey ev)\<rparr>) st, succeeded)
      else (st, succeeded))"

section \<open>Issues and comments\<close>

abbreviation issue_tables :: "(IssueTables \<Rightarrow> IssueTables) \<Rightarrow> 's AppState \<Rightarrow> 's AppState" where
  "issue_tables f st \<equiv> st\<lparr>av_Issues := f (av_Issues st)\<rparr>"

definition ingestIssue :: "AppEnv \<Rightarrow> JetEvent \<Rightarrow> 's app_handler" where
  "ingestIssue E ev st =
     (if is_write ev then
        (case ae_Issue E (je_Record ev) of
           Inl e \<Rightarrow> (st, failed e)
         | Inr record \<Rightarrow>
             let i = IssueFromRecord (ae_parseTime E RFC3339) (ae_now E) (je_Did ev) (je_RKey ev) record
             in (case ValidateIssue (ae_sanitizeDescription E) (ae_sanitizeDefault E) (is_Title i) (is_Body i) of
                   Some e \<Rightarrow> (st, failed (''failed to validate issue: '' @ e))
                 | None \<Rightarrow>
                     (case PutIssue (ae_now E) (av_Repos st) i (av_Issues st) of
                        None \<Rightarrow> (st, failed ''failed to create issue'')
                      | Some T \<Rightarrow> (issue_tables (\<lambda>_. T) st, succeeded))))
      else if is_delete ev then (issue_tables (DeleteIssues (je_Did ev) (je_RKey ev)) st, succeeded)
      else (st, succeeded))"

definition parent_comments :: "CommentRow list \<Rightarrow> string \<Rightarrow> (string, string option list) result" where
  "parent_comments rows uri = Inr (map cw_ReplyTo (comments_at rows uri))"

definition ingestIssueComment :: "AppEnv \<Rightarrow> JetEvent \<Rightarrow> 's app_handler" where
  "ingestIssueComment E ev st =
     (if is_write ev then
        (case ae_Comment E (je_Record ev) of
           Inl e \<Rightarrow> (st, failed ''invalid record'')
         | Inr record \<Rightarrow>
             (case IssueCommentFromRecord (ae_parseTime E RFC3339) (\<lambda>u. is_ok (ae_parseATURI E u)) (ae_now E)
                     (je_Did ev) (je_RKey ev) record of
                None \<Rightarrow> (st, failed ''failed to parse comment from record'')
              | Some c \<Rightarrow>
                  (case ValidateIssueComment (parent_comments (it_Comments (av_Issues st))) (ae_sanitizeDefault E) (ic_ReplyTo c) (ic_Body c) of
                     Some e \<Rightarrow> (st, failed (''failed to validate comment: '' @ e))
                   | None \<Rightarrow>
                       (case AddIssueComment (ae_now E) c (av_Issues st) of
                          None \<Rightarrow> (st, failed ''failed to create issue comment'')
                        | Some T \<Rightarrow> (issue_tables (\<lambda>_. T) st, succeeded)))))
      else if is_delete ev then
        (issue_tables (\<lambda>T. T\<lparr>it_Comments := DeleteIssueComments (ae_now E) (it_Comments T) (je_Did ev) (je_RKey ev)\<rparr>) st, succeeded)
      else (st, succeeded))"

section \<open>Labels\<close>

abbreviation labels :: "(LabelTables \<Rightarrow> LabelTables) \<Rightarrow> 's AppState \<Rightarrow> 's AppState" where
  "labels f st \<equiv> st\<lparr>av_Labels := f (av_Labels st)\<rparr>"

definition ingestLabelDefinition :: "AppEnv \<Rightarrow> JetEvent \<Rightarrow> 's app_handler" where
  "ingestLabelDefinition E ev st =
     (if is_write ev then
        (case ae_LabelDefinition E (je_Record ev) of
           Inl e \<Rightarrow> (st, failed ''invalid record'')
         | Inr record \<Rightarrow>
             (case ValidateLabelDefinition (ae_parseNSID E) (ae_quote E)
                     (LabelDefinitionFromRecord (ae_parseTime E RFC3339) (ae_now E) (je_Did ev) (je_RKey ev) record) of
                Inl e \<Rightarrow> (st, failed (''failed to validate labeldef: '' @ e))
              | Inr def \<Rightarrow>
                  (case AddLabelDefinition (lt_Defs (av_Labels st)) def of
                     None \<Rightarrow> (st, failed ''failed to create labeldef'')
                   | Some rows \<Rightarrow> (labels (\<lambda>T. T\<lparr>lt_Defs := rows\<rparr>) st, succeeded))))
      else if is_delete ev then (labels (\<lambda>T. DeleteLabelDefinition T (je_Did ev) (je_RKey ev)) st, succeeded)
      else (st, succeeded))"

text \<open>
  The repository of the subject and the operations of the record. Each operation is validated as a copy:
  what the validator changes in it is not what is stored.
\<close>

definition labelop_repo :: "AppEnv \<Rightarrow> 's AppState \<Rightarrow> string \<Rightarrow> RepoRow option" where
  "labelop_repo E st subject =
     (case GetIssues (av_Repos st) (\<lambda>i. issue_at i = subject) (av_Issues st) of
        [i] \<Rightarrow> GetRepoByAtUri (av_Repos st) (iw_RepoAt i)
      | _ \<Rightarrow> None)"

fun validate_labelops ::
  "('s, string) Casbin \<Rightarrow> AppEnv \<Rightarrow> 's \<Rightarrow> (string \<rightharpoonup> LabelDefinition) \<Rightarrow> RepoRow \<Rightarrow> LabelOp list \<Rightarrow> string option" where
  "validate_labelops C E s defs repo [] = None"
| "validate_labelops C E s defs repo (op # ops) =
     (case defs (lo_OperandKey op) of
        None \<Rightarrow> Some ''failed to find label def for key''
      | Some def \<Rightarrow>
          (case ValidateLabelOp (app_validator E) C s (Some def)
                  (Some \<lparr>lrp_Knot = re_Knot repo, lrp_DidSlashRepo = fst (ae_join E (re_Did repo) (re_Name repo))\<rparr>) (Some op) of
             Inl e \<Rightarrow> Some (''failed to validate labelop: '' @ e)
           | Inr _ \<Rightarrow> validate_labelops C E s defs repo ops))"

fun add_labelops :: "Time \<Rightarrow> LabelOp list \<Rightarrow> LabelTables \<Rightarrow> LabelTables option" where
  "add_labelops now [] T = Some T"
| "add_labelops now (op # ops) T =
     (case AddLabelOp now T op of None \<Rightarrow> None | Some T' \<Rightarrow> add_labelops now ops T')"

definition ingestLabelOp :: "('s, string) Casbin \<Rightarrow> AppEnv \<Rightarrow> JetEvent \<Rightarrow> 's app_handler" where
  "ingestLabelOp C E ev st =
     (if je_Operation ev = ''create'' then
        (case ae_LabelOp E (je_Record ev) of
           Inl e \<Rightarrow> (st, failed ''invalid record'')
         | Inr record \<Rightarrow>
             if ae_collection E (or_Subject record) \<noteq> RepoIssueNSID then (st, failed ''unsupport label subject'')
             else
               (case labelop_repo E st (or_Subject record) of
                  None \<Rightarrow> (st, failed ''failed to find subject'')
                | Some repo \<Rightarrow>
                    let defs = NewLabelApplicationCtx (\<lambda>d. labeldef_at d \<in> set (re_Labels repo)) (lt_Defs (av_Labels st));
                        ops = LabelOpsFromRecord (ae_parseTime E RFC3339) (ae_now E) (je_Did ev) (je_RKey ev) record
                    in (case validate_labelops C E (av_Policy st) defs repo ops of
                          Some e \<Rightarrow> (st, failed e)
                        | None \<Rightarrow>
                            (case add_labelops (ae_now E) ops (av_Labels st) of
                               None \<Rightarrow> (st, failed ''failed to add labelop'')
                             | Some T \<Rightarrow> (labels (\<lambda>_. T) st, succeeded)))))
      else (st, succeeded))"

section \<open>The ingester\<close>

definition ingest_commit :: "('s, string) Casbin \<Rightarrow> AppEnv \<Rightarrow> JetEvent \<Rightarrow> 's app_handler" where
  "ingest_commit C E ev st =
     (let nsid = je_Collection ev
      in if nsid = GraphFollowNSID then ingestFollow E ev st
         else if nsid = FeedStarNSID then ingestStar E ev st
         else if nsid = PublicKeyNSID then ingestPublicKey E ev st
         else if nsid = RepoArtifactNSID then ingestArtifact C E ev st
         else if nsid = ActorProfileNSID then ingestProfile E ev st
         else if nsid = SpindleMemberNSID then ingestSpindleMember C E ev st
         else if nsid = SpindleNSID then ingestSpindle C E ev st
         else if nsid = KnotMemberNSID then ingestKnotMember C E ev st
         else if nsid = KnotNSID then ingestKnot C E ev st
         else if nsid = StringNSID then ingestString E ev st
         else if nsid = RepoIssueNSID then ingestIssue E ev st
         else if nsid = RepoIssueCommentNSID then ingestIssueComment E ev st
         else if nsid = LabelDefinitionNSID then ingestLabelDefinition E ev st
         else if nsid = LabelOpNSID then ingestLabelOp C E ev st
         else (st, succeeded))"

text \<open>An account that is not active must have a status: the pointer is followed.\<close>

definition ingest_event :: "('s, string) Casbin \<Rightarrow> AppEnv \<Rightarrow> JetEvent \<Rightarrow> 's app_handler" where
  "ingest_event C E ev st =
     (if je_Kind ev = ''account'' then
        (case ae_Account E ev of
           (True, _) \<Rightarrow> (st, succeeded)
         | (False, None) \<Rightarrow> (st, Panicked)
         | (False, Some status) \<Rightarrow> (st, if status = ''deactivated'' then Returned (ae_InvalidateIdent E ev) else succeeded))
      else if je_Kind ev = ''identity'' then (st, Returned (ae_InvalidateIdent E ev))
      else if je_Kind ev = EventKindCommit then ingest_commit C E ev st
      else (st, succeeded))"

definition Ingest :: "('s, string) Casbin \<Rightarrow> AppEnv \<Rightarrow> JetEvent \<Rightarrow> 's AppState \<Rightarrow> 's AppState" where
  "Ingest C E ev st =
     (if av_Crashed st then st
      else case ingest_event C E ev st of
             (st', out) \<Rightarrow> st'\<lparr>av_LastTimeUs := Some (je_TimeUS ev + 1), av_Crashed := (out = Panicked)\<rparr>)"

text \<open>The collections the appview asks the stream for (\<^verbatim>\<open>appview/state/state.go\<close>).\<close>

definition wanted_collections :: "string list" where
  "wanted_collections =
     [GraphFollowNSID, FeedStarNSID, PublicKeyNSID, RepoArtifactNSID, ActorProfileNSID, SpindleMemberNSID,
      SpindleNSID, StringNSID, RepoIssueNSID, RepoIssueCommentNSID, LabelDefinitionNSID, LabelOpNSID]"

section \<open>A small environment\<close>

text \<open>Records that are their own contents, for the examples of the following theories.\<close>

definition sample_app_env :: AppEnv where
  "sample_app_env =
     \<lparr>ae_now = 5000000000, ae_dev = False, ae_Account = (\<lambda>_. (True, None)), ae_InvalidateIdent = (\<lambda>_. None),
      ae_Follow = Inr, ae_Star = Inr, ae_PublicKey = (\<lambda>r. Inr (''laptop'', r)), ae_Artifact = (\<lambda>_. Inl ''json''),
      ae_Profile = (\<lambda>_. Inl ''json''), ae_SpindleMember = (\<lambda>r. Inr (''ci.example'', r)), ae_Spindle = (\<lambda>_. Inr ()),
      ae_KnotMember = (\<lambda>r. Inr \<lparr>km_Domain = ''knot.example'', km_Subject = r\<rparr>), ae_Knot = (\<lambda>_. Inr ()),
      ae_String = (\<lambda>_. Inl ''json''),
      ae_Issue = (\<lambda>r. Inr \<lparr>ir_Body = Some ''body'', ir_CreatedAt = [], ir_Mentions = [], ir_References = [],
        ir_Repo = ''at://did:plc:ann/sh.tangled.repo/r1'', ir_Title = r\<rparr>),
      ae_Comment = (\<lambda>r. Inr \<lparr>icr_Body = ''text'', icr_CreatedAt = [], icr_Issue = ''at://did:plc:ann/sh.tangled.repo.issue/i1'',
        icr_Mentions = [], icr_References = [], icr_ReplyTo = (if r = [] then None else Some r)\<rparr>),
      ae_LabelDefinition = (\<lambda>_. Inl ''json''), ae_LabelOp = (\<lambda>_. Inl ''json''), ae_parseTime = (\<lambda>_ _. None),
      ae_parseATURI = (\<lambda>_. Inr ()), ae_collection = (\<lambda>_. RepoIssueNSID), ae_parseNSID = (\<lambda>_. Inr ()),
      ae_parseURL = (\<lambda>_. Inl ''url''), ae_quote = id,
      ae_resolve = (\<lambda>s. Inr \<lparr>id_DID = s, id_Handle = s, id_InvalidHandle = False, id_PDS = []\<rparr>),
      ae_join = (\<lambda>a b. (a @ ''/'' @ b, None)), ae_fetchOwner = (\<lambda>_ _. Inr ''did:plc:ann''),
      ae_sanitizeDefault = id, ae_sanitizeDescription = id\<rparr>"

definition sample_app :: "(rule list \<times> grouping list) AppState" where
  "sample_app =
     \<lparr>av_Policy = ([], []), av_Saved = ([], []),
      av_Repos = [\<lparr>re_Did = ''did:plc:ann'', re_Rkey = ''r1'', re_Name = ''app'', re_Knot = ''knot.example'', re_Labels = []\<rparr>],
      av_Collaborators = [],
      av_Social = \<lparr>so_Follows = [], so_Stars = [], so_Keys = [], so_Artifacts = [], so_Profiles = [], so_Links = [],
        so_Stats = [], so_Pins = [], so_Strings = []\<rparr>,
      av_Servers = \<lparr>sv_Members = [], sv_Spindles = [], sv_Registrations = []\<rparr>,
      av_Issues = \<lparr>it_Issues = [], it_Seqs = Map.empty, it_Comments = [], it_Refs = []\<rparr>,
      av_Labels = \<lparr>lt_Defs = [], lt_Ops = []\<rparr>, av_LastTimeUs = None, av_Crashed = False\<rparr>"

definition sample_event :: "string \<Rightarrow> string \<Rightarrow> string \<Rightarrow> string \<Rightarrow> string \<Rightarrow> JetEvent" where
  "sample_event did nsid operation rkey body =
     \<lparr>je_Did = did, je_TimeUS = 7, je_Kind = EventKindCommit, je_Collection = nsid, je_Operation = operation,
      je_RKey = rkey, je_Record = body\<rparr>"

end
