(* ===== verification/AppView_Rights.thy ===== *)
theory AppView_Rights
  imports AppView_Ingest
begin

text \<open>
  Which rights the events of the network bring to the appview: the policy of \<^verbatim>\<open>appview/ingester.go\<close>, kept
  in memory and saved now and then, and the ways the ingester stops. The policy engine is used with the
  laws of the theory on access control; removing a domain takes rules away and adds none.
\<close>

section \<open>Grants\<close>

definition casbin_deletes :: "('s, 'e) Casbin \<Rightarrow> ('s \<Rightarrow> rule set) \<Rightarrow> ('s \<Rightarrow> grouping set) \<Rightarrow> bool" where
  "casbin_deletes C pol grp \<longleftrightarrow> (\<forall>s d s'. DeleteDomains C s d = Inr s' \<longrightarrow> pol s' \<subseteq> pol s \<and> grp s' \<subseteq> grp s)"

text \<open>A server confirms its owner; a domain is a knot or a spindle.\<close>

definition confirms :: "AppEnv \<Rightarrow> string \<Rightarrow> string \<Rightarrow> bool" where
  "confirms E domain did \<longleftrightarrow> ae_fetchOwner E (if ae_dev E then ''http'' else ''https'') domain = Inr did"

definition confirms_domain :: "AppEnv \<Rightarrow> string \<Rightarrow> string \<Rightarrow> bool" where
  "confirms_domain E d did \<longleftrightarrow> confirms E d did \<or> (\<exists>inst. d = intoSpindle inst \<and> confirms E inst did)"

definition owner_grants :: "AppEnv \<Rightarrow> string \<Rightarrow> grouping set" where
  "owner_grants E author =
     {(author, ''server:owner'', d) | d. confirms_domain E d author} \<union>
     {(''server:owner'', ''server:member'', d) | d. confirms E d author}"

definition invite_grants :: "rule set \<Rightarrow> grouping set \<Rightarrow> string \<Rightarrow> grouping set" where
  "invite_grants P G author = {(m, ''server:member'', d) | m d. granted P G author d d ''server:invite''}"

definition knot_rules :: "AppEnv \<Rightarrow> string \<Rightarrow> rule set" where
  "knot_rules E author =
     {r. \<exists>k. confirms E k author \<and> r \<in> {(''server:owner'', k, k, ''server:invite''), (''server:member'', k, k, ''repo:create'')}}"

definition rights_bounded ::
  "('s \<Rightarrow> rule set) \<Rightarrow> ('s \<Rightarrow> grouping set) \<Rightarrow> AppEnv \<Rightarrow> string \<Rightarrow> 's AppState \<Rightarrow> 's \<Rightarrow> bool" where
  "rights_bounded pol grp E author st s \<longleftrightarrow>
     pol s \<subseteq> pol (av_Policy st) \<union> pol (av_Saved st) \<union> knot_rules E author \<and>
     grp s \<subseteq> grp (av_Policy st) \<union> grp (av_Saved st) \<union> owner_grants E author \<union>
       invite_grants (pol (av_Policy st)) (grp (av_Policy st)) author"

lemma rights_bounded_old [simp]: "rights_bounded pol grp E author st (av_Policy st)" "rights_bounded pol grp E author st (av_Saved st)"
  by (auto simp: rights_bounded_def)

definition event_rights ::
  "('s \<Rightarrow> rule set) \<Rightarrow> ('s \<Rightarrow> grouping set) \<Rightarrow> AppEnv \<Rightarrow> string \<Rightarrow> 's AppState \<Rightarrow> 's AppState \<Rightarrow> bool" where
  "event_rights pol grp E author st st' \<longleftrightarrow>
     rights_bounded pol grp E author st (av_Policy st') \<and> rights_bounded pol grp E author st (av_Saved st')"

lemma event_rights_simps [simp]:
  "event_rights pol grp E author st st"
  "av_Policy st1 = av_Policy st \<Longrightarrow> av_Saved st1 = av_Saved st \<Longrightarrow> event_rights pol grp E author st (load_policy st1)"
  "event_rights pol grp E author st (save_policy s st1) \<longleftrightarrow> rights_bounded pol grp E author st s"
  "event_rights pol grp E author st (st\<lparr>av_Social := T\<rparr>)" "event_rights pol grp E author st (st\<lparr>av_Servers := U\<rparr>)"
  "event_rights pol grp E author st (st\<lparr>av_Issues := V\<rparr>)" "event_rights pol grp E author st (st\<lparr>av_Labels := W\<rparr>)"
  by (simp_all add: event_rights_def load_policy_def save_policy_def)

section \<open>The engine\<close>

lemma RunVerification_None: "RunVerification E domain did = None \<longleftrightarrow> confirms E domain did"
  by (auto simp: RunVerification_def confirms_def Let_def split: sum.splits)

lemma group_steps:
  assumes "casbin_ok C pol grp"
  shows "AddSpindleOwner C s inst u = Inr s' \<Longrightarrow> pol s' = pol s \<and> grp s' = insert (u, ''server:owner'', intoSpindle inst) (grp s)"
    and "AddKnotOwner C s domain u = Inr s' \<Longrightarrow> pol s' = pol s \<and> grp s' = insert (u, ''server:owner'', domain) (grp s)"
    and "AddSpindleMember C s inst u = Inr s' \<Longrightarrow> pol s' = pol s \<and> grp s' = insert (u, ''server:member'', intoSpindle inst) (grp s)"
    and "AddKnotMember C s domain u = Inr s' \<Longrightarrow> pol s' = pol s \<and> grp s' = insert (u, ''server:member'', domain) (grp s)"
    and "RemoveSpindleMember C s inst u = Inr s' \<Longrightarrow> pol s' = pol s \<and> grp s' = grp s - {(u, ''server:member'', intoSpindle inst)}"
  using casbin_group_add [OF assms] casbin_group_remove [OF assms]
  unfolding AddSpindleOwner_def AddKnotOwner_def AddSpindleMember_def AddKnotMember_def RemoveSpindleMember_def
    addOwner_def addMember_def removeMember_def lift_def
  by (auto simp: map_sum_Inr_iff)

lemma AddKnot_step:
  assumes "casbin_ok C pol grp" "AddKnot C s k = Inr s'"
  shows "grp s' = insert (''server:owner'', ''server:member'', k) (grp s) \<and> 
    pol s' = (let rs = {(''server:owner'', k, k, ''server:invite''), (''server:member'', k, k, ''repo:create'')}
              in if rs \<inter> pol s = {} then pol s \<union> rs else pol s)"
proof -
  obtain s1 where "AddPolicies C s [(''server:owner'', k, k, ''server:invite''), (''server:member'', k, k, ''repo:create'')] = Inr s1"
    and "AddGroupingPolicy C s1 ''server:owner'' ''server:member'' k = Inr s'"
    using assms(2) unfolding AddKnot_def lift_def by (auto simp: map_sum_Inr_iff bind_result_Inr_iff)
  from casbin_add [OF assms(1) this(1)] casbin_group_add [OF assms(1) this(2)] show ?thesis by (simp add: Let_def)
qed

lemma Remove_steps:
  assumes "casbin_deletes C pol grp"
  shows "RemoveKnot C s k = Inr s' \<Longrightarrow> pol s' \<subseteq> pol s \<and> grp s' \<subseteq> grp s"
    and "RemoveSpindle C s inst = Inr s' \<Longrightarrow> pol s' \<subseteq> pol s \<and> grp s' \<subseteq> grp s"
  using assms unfolding casbin_deletes_def RemoveKnot_def RemoveSpindle_def lift_def by (auto simp: map_sum_Inr_iff)

lemma rights_bounded_mono:
  "pol s \<subseteq> pol (av_Policy st) \<Longrightarrow> grp s \<subseteq> grp (av_Policy st) \<Longrightarrow> rights_bounded pol grp E author st s"
  unfolding rights_bounded_def by blast

lemma rights_bounded_group:
  assumes "pol s = pol (av_Policy st)" "grp s = insert g (grp (av_Policy st))"
    and "g \<in> owner_grants E author \<union> invite_grants (pol (av_Policy st)) (grp (av_Policy st)) author"
  shows "rights_bounded pol grp E author st s"
  using assms(3) by (auto simp: rights_bounded_def assms(1,2))

section \<open>The handlers\<close>

lemma MarkSpindleVerified_rights:
  assumes "casbin_ok C pol grp" "confirms E inst did" "av_Policy st1 = av_Policy st" "av_Saved st1 = av_Saved st"
  shows "event_rights pol grp E did st (fst (MarkSpindleVerified C E inst did st1))"
proof (cases "AddSpindleOwner C (av_Policy st1) inst did")
  case (Inr s)
  have "rights_bounded pol grp E did st s"
    by (rule rights_bounded_group [of _ _ _ _ "(did, ''server:owner'', intoSpindle inst)"])
      (use group_steps(1) [OF assms(1) Inr] assms(2,3) in \<open>auto simp: owner_grants_def confirms_domain_def\<close>)
  with Inr show ?thesis by (simp add: MarkSpindleVerified_def)
qed (simp add: MarkSpindleVerified_def assms)

lemma MarkKnotVerified_rights:
  assumes "casbin_ok C pol grp" "confirms E k did" "av_Policy st1 = av_Policy st" "av_Saved st1 = av_Saved st"
  shows "event_rights pol grp E did st (fst (MarkKnotVerified C E k did st1))"
proof (cases "AddKnot C (av_Policy st1) k")
  case (Inr s1)
  then show ?thesis
  proof (cases "AddKnotOwner C s1 k did")
    fix s2
    assume s2: "AddKnotOwner C s1 k did = Inr s2"
    have "rights_bounded pol grp E did st s2"
      using AddKnot_step [OF assms(1) Inr] group_steps(2) [OF assms(1) s2] assms(2,3)
      by (auto simp: rights_bounded_def owner_grants_def confirms_domain_def knot_rules_def Let_def split: if_splits)
    with Inr s2 show ?thesis by (simp add: MarkKnotVerified_def)
  qed (simp add: MarkKnotVerified_def assms)
qed (simp add: MarkKnotVerified_def assms)

lemma allowed_invite:
  assumes "casbin_ok C pol grp"
  shows "allowed (IsSpindleInviteAllowed C s u inst) \<longleftrightarrow> granted (pol s) (grp s) u (intoSpindle inst) (intoSpindle inst) ''server:invite''"
    and "allowed (IsKnotInviteAllowed C s u k) \<longleftrightarrow> granted (pol s) (grp s) u k k ''server:invite''"
  by (simp_all add: IsSpindleInviteAllowed_def IsKnotInviteAllowed_def isInviteAllowed_def casbin_enforce [OF assms] lift_def allowed_def)

lemma ingestSpindleMember_rights:
  assumes "casbin_ok C pol grp"
  shows "event_rights pol grp E (je_Did ev) st (fst (ingestSpindleMember C E ev st))"
proof -
  have add: "event_rights pol grp E (je_Did ev) st (st\<lparr>av_Servers := U, av_Policy := s\<rparr>)"
    if "granted (pol (av_Policy st)) (grp (av_Policy st)) (je_Did ev) (intoSpindle inst) (intoSpindle inst) ''server:invite''"
      "AddSpindleMember C (av_Policy st) inst m = Inr s" for inst m s U
    using rights_bounded_group [of pol s st grp "(m, ''server:member'', intoSpindle inst)"] group_steps(3) [OF assms that(2)] that(1)
    by (auto simp: event_rights_def invite_grants_def)
  have del: "rights_bounded pol grp E (je_Did ev) st s" if "RemoveSpindleMember C (av_Policy st) inst m = Inr s" for inst m s
    using group_steps(5) [OF assms that] by (auto intro: rights_bounded_mono)
  show ?thesis
    by (auto simp: ingestSpindleMember_def Let_def allowed_invite [OF assms] del intro: add split: sum.split option.split list.split)
qed

lemma ingestSpindle_rights:
  assumes "casbin_ok C pol grp" "casbin_deletes C pol grp"
  shows "event_rights pol grp E (je_Did ev) st (fst (ingestSpindle C E ev st))"
proof -
  have "rights_bounded pol grp E (je_Did ev) st s" if "RemoveSpindle C (av_Policy st) d = Inr s" for d s
    using Remove_steps(2) [OF assms(2) that] by (auto intro: rights_bounded_mono)
  then show ?thesis
    by (auto simp: ingestSpindle_def Let_def RunVerification_None intro!: MarkSpindleVerified_rights [OF assms(1)]
        split: sum.split option.split list.split)
qed

lemma ingestKnotMember_rights:
  assumes "casbin_ok C pol grp"
  shows "event_rights pol grp E (je_Did ev) st (fst (ingestKnotMember C E ev st))"
proof -
  have add: "event_rights pol grp E (je_Did ev) st (st\<lparr>av_Policy := s\<rparr>)"
    if "granted (pol (av_Policy st)) (grp (av_Policy st)) (je_Did ev) k k ''server:invite''"
      "AddKnotMember C (av_Policy st) k m = Inr s" for k m s
    using rights_bounded_group [of pol s st grp "(m, ''server:member'', k)"] group_steps(4) [OF assms that(2)] that(1)
    by (auto simp: event_rights_def invite_grants_def)
  show ?thesis
    by (auto simp: ingestKnotMember_def allowed_invite [OF assms] intro: add split: sum.split)
qed

lemma ingestKnot_rights:
  assumes "casbin_ok C pol grp" "casbin_deletes C pol grp"
  shows "event_rights pol grp E (je_Did ev) st (fst (ingestKnot C E ev st))"
proof -
  have "rights_bounded pol grp E (je_Did ev) st s" if "RemoveKnot C (av_Policy st) d = Inr s" for d s
    using Remove_steps(1) [OF assms(2) that] by (auto intro: rights_bounded_mono)
  then show ?thesis
    by (auto simp: ingestKnot_def Let_def RunVerification_None intro!: MarkKnotVerified_rights [OF assms(1)]
        split: sum.split option.split list.split)
qed

lemma other_handlers_rights:
  "event_rights pol grp E did st (fst (ingestStar E ev st))" "event_rights pol grp E did st (fst (ingestFollow E ev st))"
  "event_rights pol grp E did st (fst (ingestPublicKey E ev st))" "event_rights pol grp E did st (fst (ingestArtifact C E ev st))"
  "event_rights pol grp E did st (fst (ingestProfile E ev st))" "event_rights pol grp E did st (fst (ingestString E ev st))"
  "event_rights pol grp E did st (fst (ingestIssue E ev st))" "event_rights pol grp E did st (fst (ingestIssueComment E ev st))"
  "event_rights pol grp E did st (fst (ingestLabelDefinition E ev st))" "event_rights pol grp E did st (fst (ingestLabelOp C E ev st))"
  by (simp_all add: ingestStar_def ingestFollow_def ingestPublicKey_def ingestArtifact_def ingestProfile_def ingestString_def
      ingestIssue_def ingestIssueComment_def ingestLabelDefinition_def ingestLabelOp_def Let_def split: sum.split option.split bool.split)

lemma ingest_event_rights:
  assumes "casbin_ok C pol grp" "casbin_deletes C pol grp"
  shows "event_rights pol grp E (je_Did ev) st (fst (ingest_event C E ev st))"
  by (simp add: ingest_event_def ingest_commit_def Let_def other_handlers_rights ingestSpindleMember_rights [OF assms(1)]
      ingestSpindle_rights [OF assms] ingestKnotMember_rights [OF assms(1)] ingestKnot_rights [OF assms]
      split: prod.split bool.split option.split)

section \<open>What rights an event may bring\<close>

text \<open>
  The policy of the appview after an event, the one in memory and the saved one, holds nothing but what
  the two held before and what the author of the event may give: membership of a server he may invite to,
  and, where a server confirms him as its owner, the ownership of that server with the two rules of a knot.
\<close>

theorem event_brings_only_own_rights:
  assumes "casbin_ok C pol grp" "casbin_deletes C pol grp"
  shows "event_rights pol grp E (je_Did ev) st (Ingest C E ev st)"
proof (cases "av_Crashed st")
  case False
  have "event_rights pol grp E did st (st'\<lparr>av_LastTimeUs := t, av_Crashed := c\<rparr>) = event_rights pol grp E did st st'" for did st' t c
    by (simp add: event_rights_def)
  with False ingest_event_rights [OF assms, of E ev st] show ?thesis by (cases "ingest_event C E ev st") (simp add: Ingest_def)
qed (simp add: Ingest_def)

lemma list_casbin_deletes: "casbin_deletes list_casbin (\<lambda>s. set (fst s)) (\<lambda>s. set (snd s))"
  by (auto simp: casbin_deletes_def list_casbin_def)

theorem event_brings_only_own_rights_witness:
  "let st = Ingest list_casbin sample_app_env (sample_event ''did:plc:ann'' KnotNSID ''create'' ''knot.example'' []) sample_app
   in event_rights (\<lambda>s. set (fst s)) (\<lambda>s. set (snd s)) sample_app_env ''did:plc:ann'' sample_app st \<and>
      (''did:plc:ann'', ''server:owner'', ''knot.example'') \<in> set (snd (av_Saved st))"
proof -
  let ?ev = "sample_event ''did:plc:ann'' KnotNSID ''create'' ''knot.example'' []"
  have "(''did:plc:ann'', ''server:owner'', ''knot.example'') \<in> set (snd (av_Saved (Ingest list_casbin sample_app_env ?ev sample_app)))"
    by (simp add: Ingest_def ingest_event_def ingest_commit_def sample_event_def app_nsids EventKindCommit_def ingestKnot_def sample_app_def
        sample_app_env_def Db_AddKnot_def insert_row_def RunVerification_def MarkKnotVerified_def AddKnot_def AddKnotOwner_def addOwner_def
        lift_def list_casbin_def save_policy_def Let_def)
  moreover have "je_Did ?ev = ''did:plc:ann''" by (simp add: sample_event_def)
  ultimately show ?thesis
    using event_brings_only_own_rights [OF list_casbin_ok list_casbin_deletes, of sample_app_env ?ev sample_app] by (simp add: Let_def)
qed

text \<open>Over a whole stream: the owners of servers and the rules.\<close>

definition stream_rights ::
  "('s \<Rightarrow> rule set) \<Rightarrow> ('s \<Rightarrow> grouping set) \<Rightarrow> AppEnv \<Rightarrow> 's AppState \<Rightarrow> 's AppState \<Rightarrow> bool" where
  "stream_rights pol grp E st0 st \<longleftrightarrow>
     (\<forall>s \<in> {av_Policy st, av_Saved st}.
        pol s \<subseteq> pol (av_Policy st0) \<union> pol (av_Saved st0) \<union> (\<Union>u. knot_rules E u) \<and>
        (\<forall>u d. (u, ''server:owner'', d) \<in> grp s \<longrightarrow>
           (u, ''server:owner'', d) \<in> grp (av_Policy st0) \<union> grp (av_Saved st0) \<or> confirms_domain E d u))"

lemma stream_rights_refl: "stream_rights pol grp E st st"
  by (auto simp: stream_rights_def)

lemma rights_bounded_stream:
  assumes "rights_bounded pol grp E author st s" "stream_rights pol grp E st0 st"
  shows "pol s \<subseteq> pol (av_Policy st0) \<union> pol (av_Saved st0) \<union> (\<Union>u. knot_rules E u)"
    and "(u, ''server:owner'', d) \<in> grp s \<Longrightarrow>
      (u, ''server:owner'', d) \<in> grp (av_Policy st0) \<union> grp (av_Saved st0) \<or> confirms_domain E d u"
proof -
  let ?P = "pol (av_Policy st0) \<union> pol (av_Saved st0) \<union> (\<Union>u. knot_rules E u)"
  have "pol (av_Policy st) \<subseteq> ?P" "pol (av_Saved st) \<subseteq> ?P" using assms(2) by (simp_all add: stream_rights_def)
  moreover have "knot_rules E author \<subseteq> ?P" by (rule le_supI2) (rule UN_upper, simp)
  moreover have "pol s \<subseteq> pol (av_Policy st) \<union> pol (av_Saved st) \<union> knot_rules E author"
    using assms(1) by (simp add: rights_bounded_def)
  ultimately show "pol s \<subseteq> ?P" by (meson Un_least subset_trans)
next
  assume "(u, ''server:owner'', d) \<in> grp s"
  with assms(1) consider "(u, ''server:owner'', d) \<in> grp (av_Policy st)" | "(u, ''server:owner'', d) \<in> grp (av_Saved st)"
    | "(u, ''server:owner'', d) \<in> owner_grants E author"
    | "(u, ''server:owner'', d) \<in> invite_grants (pol (av_Policy st)) (grp (av_Policy st)) author"
    unfolding rights_bounded_def by blast
  then show "(u, ''server:owner'', d) \<in> grp (av_Policy st0) \<union> grp (av_Saved st0) \<or> confirms_domain E d u"
    by cases (use assms(2) in \<open>auto simp: stream_rights_def owner_grants_def invite_grants_def\<close>)
qed

lemma stream_rights_step:
  assumes "casbin_ok C pol grp" "casbin_deletes C pol grp" "stream_rights pol grp E st0 st"
  shows "stream_rights pol grp E st0 (Ingest C E ev st)"
proof (cases "av_Crashed st")
  case False
  let ?st = "fst (ingest_event C E ev st)"
  have "rights_bounded pol grp E (je_Did ev) st (av_Policy ?st)" "rights_bounded pol grp E (je_Did ev) st (av_Saved ?st)"
    using ingest_event_rights [OF assms(1,2), of E ev st] by (simp_all add: event_rights_def)
  note b = this [THEN rights_bounded_stream(1), OF assms(3)] this [THEN rights_bounded_stream(2), OF assms(3)]
  have "stream_rights pol grp E st0 ?st"
    unfolding stream_rights_def using b by (simp only: ball_simps(5) ball_simps(7) simp_thms) blast
  with False show ?thesis by (cases "ingest_event C E ev st") (simp add: Ingest_def stream_rights_def)
qed (simp add: Ingest_def assms)

interpretation rights: ingester "\<lambda>_. {}" "Ingest C E"
  "\<lambda>st. casbin_ok C pol grp \<longrightarrow> casbin_deletes C pol grp \<longrightarrow> stream_rights pol grp E st0 st" for C E pol grp st0
  by unfold_locales (auto intro: stream_rights_step)



section \<open>What a confirmed owner may do\<close>

lemma granted_direct: "(p, d, ob, act) \<in> P \<Longrightarrow> link G d u p \<Longrightarrow> granted P G u d ob act"
  by (auto simp: granted_def)

lemma knot_owner_invites:
  assumes "casbin_ok C pol grp" and k: "MarkKnotVerified C E k u st = (st1, succeeded)"
    and rule: "(''server:member'', k, k, ''repo:create'') \<notin> pol (av_Policy st) \<or> (''server:owner'', k, k, ''server:invite'') \<in> pol (av_Policy st)"
  shows "IsKnotInviteAllowed C (av_Policy st1) u k = Inr True"
proof -
  from k obtain s1 s2 where s1: "AddKnot C (av_Policy st) k = Inr s1" and s2: "AddKnotOwner C s1 k u = Inr s2" and st1: "av_Policy st1 = s2"
    by (auto simp: MarkKnotVerified_def save_policy_def split: sum.splits)
  have "(''server:owner'', k, k, ''server:invite'') \<in> pol s2"
    using AddKnot_step [OF assms(1) s1] group_steps(2) [OF assms(1) s2] rule by (auto simp: Let_def split: if_splits)
  moreover have "link (grp s2) k u ''server:owner''" using group_steps(2) [OF assms(1) s2] by (auto intro: link_step)
  ultimately have "granted (pol s2) (grp s2) u k k ''server:invite''" by (rule granted_direct)
  then show ?thesis
    by (simp add: IsKnotInviteAllowed_def isInviteAllowed_def lift_def casbin_enforce [OF assms(1)] st1)
qed

lemma spindle_owner_invites:
  assumes "casbin_ok C pol grp" and k: "MarkSpindleVerified C E inst u st = (st2, succeeded)"
    and rule: "\<forall>p. (p, intoSpindle inst, intoSpindle inst, ''server:invite'') \<notin> pol (av_Policy st)"
  shows "(u, ''server:owner'', intoSpindle inst) \<in> grp (av_Policy st2) \<and> IsSpindleInviteAllowed C (av_Policy st2) v inst = Inr False"
proof -
  from k obtain s where s: "AddSpindleOwner C (av_Policy st) inst u = Inr s" and st2: "av_Policy st2 = s"
    by (auto simp: MarkSpindleVerified_def save_policy_def split: sum.splits)
  note g = group_steps(1) [OF assms(1) s]
  then have "\<not> granted (pol s) (grp s) v (intoSpindle inst) (intoSpindle inst) ''server:invite''"
    using rule by (auto simp: granted_def)
  with g show ?thesis
    by (simp add: IsSpindleInviteAllowed_def isInviteAllowed_def lift_def casbin_enforce [OF assms(1)] st2)
qed

text \<open>
  The owner a knot confirms may invite members. The owner a spindle confirms is entered as its owner,
  but the rule that lets owners invite is not: unless the spindle was also announced through the web
  interface, nobody may invite to it.
\<close>

theorem confirmed_owner_invites:
  assumes "casbin_ok C pol grp"
  shows "(MarkKnotVerified C E k u st = (st', succeeded) \<and>
      ((''server:member'', k, k, ''repo:create'') \<notin> pol (av_Policy st) \<or> (''server:owner'', k, k, ''server:invite'') \<in> pol (av_Policy st)) \<longrightarrow>
      IsKnotInviteAllowed C (av_Policy st') u k = Inr True) \<and>
    (MarkSpindleVerified C E inst u st = (st'', succeeded) \<and>
      (\<forall>p. (p, intoSpindle inst, intoSpindle inst, ''server:invite'') \<notin> pol (av_Policy st)) \<longrightarrow>
      (u, ''server:owner'', intoSpindle inst) \<in> grp (av_Policy st'') \<and> IsSpindleInviteAllowed C (av_Policy st'') v inst = Inr False)"
  using knot_owner_invites [OF assms] spindle_owner_invites [OF assms] by metis

theorem confirmed_owner_invites_witness:
  "\<exists>(st1 :: (rule list \<times> grouping list) AppState) (st2 :: (rule list \<times> grouping list) AppState).
     IsKnotInviteAllowed list_casbin (av_Policy st1) ''did:plc:ann'' ''knot.example'' = Inr True \<and>
     (''did:plc:ann'', ''server:owner'', ''spindle:ci.example'') \<in> set (snd (av_Policy st2)) \<and>
     IsSpindleInviteAllowed list_casbin (av_Policy st2) ''did:plc:ann'' ''ci.example'' = Inr False"
proof -
  obtain st1 where st1: "MarkKnotVerified list_casbin sample_app_env ''knot.example'' ''did:plc:ann'' sample_app = (st1, succeeded)"
    by (simp add: MarkKnotVerified_def AddKnot_def AddKnotOwner_def addOwner_def lift_def list_casbin_def sample_app_def)
  obtain st2 where st2: "MarkSpindleVerified list_casbin sample_app_env ''ci.example'' ''did:plc:ann'' sample_app = (st2, succeeded)"
    by (simp add: MarkSpindleVerified_def AddSpindleOwner_def addOwner_def lift_def list_casbin_def sample_app_def)
  have "(''did:plc:ann'', ''server:owner'', intoSpindle ''ci.example'') \<in> set (snd (av_Policy st2)) \<and>
      IsSpindleInviteAllowed list_casbin (av_Policy st2) ''did:plc:ann'' ''ci.example'' = Inr False"
    using confirmed_owner_invites [OF list_casbin_ok, where st = sample_app and st'' = st2 and E = sample_app_env and inst = "''ci.example''" and u = "''did:plc:ann''" and v = "''did:plc:ann''"]
      st2 by (simp add: sample_app_def)
  moreover have "IsKnotInviteAllowed list_casbin (av_Policy st1) ''did:plc:ann'' ''knot.example'' = Inr True"
    using confirmed_owner_invites [OF list_casbin_ok, where st = sample_app and st' = st1 and E = sample_app_env and k = "''knot.example''" and u = "''did:plc:ann''"]
      st1 by (simp add: sample_app_def)
  moreover have "intoSpindle ''ci.example'' = ''spindle:ci.example''" by code_simp
  ultimately have "IsKnotInviteAllowed list_casbin (av_Policy st1) ''did:plc:ann'' ''knot.example'' = Inr True \<and>
      (''did:plc:ann'', ''server:owner'', ''spindle:ci.example'') \<in> set (snd (av_Policy st2)) \<and>
      IsSpindleInviteAllowed list_casbin (av_Policy st2) ''did:plc:ann'' ''ci.example'' = Inr False"
    by simp
  then show ?thesis by blast
qed

section \<open>Deleting a spindle\<close>

text \<open>
  The record of a registered spindle cannot be deleted: the handler selects the members of the spindle by
  a column their table does not have. What the event does is to bring back the saved policy, so that
  memberships entered since it was saved are forgotten, though their rows stay.
\<close>

theorem spindle_deletion_only_forgets:
  assumes "\<not> av_Crashed st" "je_Kind ev = EventKindCommit" "je_Collection ev = SpindleNSID" "is_delete ev"
    and "GetSpindles (sv_Spindles (av_Servers st)) (je_Did ev) (je_RKey ev) = [spindle]"
  shows "Ingest C E ev st = st\<lparr>av_Policy := av_Saved st, av_LastTimeUs := Some (je_TimeUS ev + 1)\<rparr>"
proof -
  have ops: "je_Operation ev \<noteq> ''create''" using assms(4) by (simp add: is_delete_def)
  have "ingest_event C E ev st = ingestSpindle C E ev st"
    unfolding ingest_event_def ingest_commit_def Let_def using assms(2,3) by (simp add: app_nsids EventKindCommit_def)
  also have "\<dots> = (load_policy st, failed ''no such column: owner'')"
    using assms(4,5) ops by (simp add: ingestSpindle_def Let_def View_RemoveSpindleMember_def)
  finally show ?thesis using assms(1) by (simp add: Ingest_def load_policy_def)
qed

definition spindle_app :: "(rule list \<times> grouping list) AppState" where
  "spindle_app = sample_app
     \<lparr>av_Policy := ([(''server:owner'', ''spindle:ci.example'', ''spindle:ci.example'', ''server:invite'')],
        [(''did:plc:ann'', ''server:owner'', ''spindle:ci.example''), (''did:plc:bob'', ''server:member'', ''spindle:ci.example'')]),
      av_Saved := ([(''server:owner'', ''spindle:ci.example'', ''spindle:ci.example'', ''server:invite'')],
        [(''did:plc:ann'', ''server:owner'', ''spindle:ci.example'')]),
      av_Servers := \<lparr>sv_Members = [\<lparr>mr_Did = ''did:plc:ann'', mr_Rkey = ''m'', mr_Instance = ''ci.example'', mr_Subject = ''did:plc:bob''\<rparr>],
        sv_Spindles = [\<lparr>sw_Owner = ''did:plc:ann'', sw_Instance = ''ci.example'', sw_Verified = Some 0\<rparr>], sv_Registrations = []\<rparr>\<rparr>"

theorem spindle_deletion_only_forgets_witness:
  "let st = Ingest list_casbin sample_app_env (sample_event ''did:plc:ann'' SpindleNSID ''delete'' ''ci.example'' []) spindle_app
   in av_Servers st = av_Servers spindle_app \<and> sv_Spindles (av_Servers st) \<noteq> [] \<and>
      (''did:plc:bob'', ''server:member'', ''spindle:ci.example'') \<in> set (snd (av_Policy spindle_app)) - set (snd (av_Policy st))"
proof -
  let ?ev = "sample_event ''did:plc:ann'' SpindleNSID ''delete'' ''ci.example'' []"
  have "Ingest list_casbin sample_app_env ?ev spindle_app =
      spindle_app\<lparr>av_Policy := av_Saved spindle_app, av_LastTimeUs := Some (je_TimeUS ?ev + 1)\<rparr>"
    by (rule spindle_deletion_only_forgets [where spindle = "\<lparr>sw_Owner = ''did:plc:ann'', sw_Instance = ''ci.example'', sw_Verified = Some 0\<rparr>"])
      (simp_all add: spindle_app_def sample_app_def sample_event_def is_delete_def GetSpindles_def)
  then show ?thesis by (simp add: Let_def) (simp add: spindle_app_def sample_app_def)
qed

section \<open>How the ingester stops\<close>

definition bad_artifact :: "('s, string) Casbin \<Rightarrow> AppEnv \<Rightarrow> JetEvent \<Rightarrow> 's AppState \<Rightarrow> bool" where
  "bad_artifact C E ev st \<longleftrightarrow>
     is_write ev \<and> (\<exists>r repo. ae_Artifact E (je_Record ev) = Inr r \<and> ae_parseATURI E (xa_Repo r) = Inr () \<and>
       GetRepoByAtUri (av_Repos st) (xa_Repo r) = Some repo \<and> push_allowed C E (av_Policy st) (je_Did ev) repo = Inr True \<and>
       (xa_Artifact r = None \<or> length (xa_Tag r) < 20))"

lemma ingestArtifact_panics: "snd (ingestArtifact C E ev st) = Panicked \<longleftrightarrow> bad_artifact C E ev st"
  by (auto simp: ingestArtifact_def bad_artifact_def split: sum.split option.split bool.split)

lemma Mark_never_panics: "snd (MarkSpindleVerified C E inst did st) \<noteq> Panicked" "snd (MarkKnotVerified C E k did st) \<noteq> Panicked"
  by (simp_all add: MarkSpindleVerified_def MarkKnotVerified_def split: sum.split)

lemma ingestStar_no_panic: "snd (ingestStar E ev st) \<noteq> Panicked"
  by (auto simp: ingestStar_def Let_def split: sum.split option.split list.split)

lemma ingestFollow_no_panic: "snd (ingestFollow E ev st) \<noteq> Panicked"
  by (auto simp: ingestFollow_def Let_def split: sum.split option.split list.split)

lemma ingestPublicKey_no_panic: "snd (ingestPublicKey E ev st) \<noteq> Panicked"
  by (auto simp: ingestPublicKey_def Let_def split: sum.split option.split list.split)

lemma ingestProfile_no_panic: "snd (ingestProfile E ev st) \<noteq> Panicked"
  by (auto simp: ingestProfile_def Let_def split: sum.split option.split list.split)

lemma ingestString_no_panic: "snd (ingestString E ev st) \<noteq> Panicked"
  by (auto simp: ingestString_def Let_def split: sum.split option.split list.split)

lemma ingestIssue_no_panic: "snd (ingestIssue E ev st) \<noteq> Panicked"
  by (auto simp: ingestIssue_def Let_def split: sum.split option.split list.split)

lemma ingestIssueComment_no_panic: "snd (ingestIssueComment E ev st) \<noteq> Panicked"
  by (auto simp: ingestIssueComment_def Let_def split: sum.split option.split list.split)

lemma ingestLabelDefinition_no_panic: "snd (ingestLabelDefinition E ev st) \<noteq> Panicked"
  by (auto simp: ingestLabelDefinition_def Let_def split: sum.split option.split list.split)

lemma ingestLabelOp_no_panic: "snd (ingestLabelOp C E ev st) \<noteq> Panicked"
  by (auto simp: ingestLabelOp_def Let_def split: sum.split option.split list.split)

lemma ingestSpindleMember_no_panic: "snd (ingestSpindleMember C E ev st) \<noteq> Panicked"
  by (auto simp: ingestSpindleMember_def Let_def split: sum.split option.split list.split)

lemma ingestSpindle_no_panic: "snd (ingestSpindle C E ev st) \<noteq> Panicked"
  by (auto simp: ingestSpindle_def Let_def Mark_never_panics split: sum.split option.split list.split)

lemma ingestKnotMember_no_panic: "snd (ingestKnotMember C E ev st) \<noteq> Panicked"
  by (auto simp: ingestKnotMember_def Let_def split: sum.split option.split list.split)

lemma ingestKnot_no_panic: "snd (ingestKnot C E ev st) \<noteq> Panicked"
  by (auto simp: ingestKnot_def Let_def Mark_never_panics split: sum.split option.split list.split)

lemmas others_never_panic = ingestStar_no_panic ingestFollow_no_panic ingestPublicKey_no_panic ingestProfile_no_panic ingestString_no_panic ingestIssue_no_panic ingestIssueComment_no_panic
  ingestLabelDefinition_no_panic ingestLabelOp_no_panic ingestSpindleMember_no_panic ingestSpindle_no_panic ingestKnotMember_no_panic ingestKnot_no_panic

lemma ingest_commit_panics: "snd (ingest_commit C E ev st) = Panicked \<longleftrightarrow> je_Collection ev = RepoArtifactNSID \<and> bad_artifact C E ev st"
proof (cases "je_Collection ev = RepoArtifactNSID")
  case True
  then have "ingest_commit C E ev st = ingestArtifact C E ev st" by (simp add: ingest_commit_def app_nsids)
  with True show ?thesis by (simp add: ingestArtifact_panics)
next
  case False
  then show ?thesis unfolding ingest_commit_def Let_def by (simp only: if_False others_never_panic snd_conv split: if_split) simp
qed

text \<open>
  C33. An event ends the process exactly if it reports an account that is not active without a status, or
  brings an artifact from somebody who may push to its repository and the record lacks the artifact or has a
  tag of fewer than 20 bytes. In either case, as always, the cursor moves past the event, so that it is not
  delivered again.
\<close>

theorem Ingest_crashes_iff:
  assumes "\<not> av_Crashed st"
  shows "av_LastTimeUs (Ingest C E ev st) = Some (je_TimeUS ev + 1) \<and>
    (av_Crashed (Ingest C E ev st) \<longleftrightarrow>
       je_Kind ev = ''account'' \<and> ae_Account E ev = (False, None) \<or>
       je_Kind ev = EventKindCommit \<and> je_Collection ev = RepoArtifactNSID \<and> bad_artifact C E ev st)"
proof -
  have "snd (ingest_event C E ev st) = Panicked \<longleftrightarrow>
       je_Kind ev = ''account'' \<and> ae_Account E ev = (False, None) \<or>
       je_Kind ev = EventKindCommit \<and> je_Collection ev = RepoArtifactNSID \<and> bad_artifact C E ev st"
    by (simp add: ingest_event_def ingest_commit_panics EventKindCommit_def split: prod.split bool.split option.split)
  with assms show ?thesis by (cases "ingest_event C E ev st") (simp add: Ingest_def)
qed

theorem Ingest_crashes_iff_witness:
  "av_Crashed (Ingest list_casbin (sample_app_env\<lparr>ae_Account := \<lambda>_. (False, None)\<rparr>)
     ((sample_event [] [] [] [] [])\<lparr>je_Kind := ''account''\<rparr>) sample_app)"
  using Ingest_crashes_iff [of sample_app list_casbin "sample_app_env\<lparr>ae_Account := \<lambda>_. (False, None)\<rparr>"
      "(sample_event [] [] [] [] [])\<lparr>je_Kind := ''account''\<rparr>"]
  by (simp add: sample_app_def)

section \<open>What the appview subscribes to\<close>

text \<open>Knots and their members are not among the collections the appview asks for: it never hears of them.\<close>

lemma other_handlers_servers:
  "av_Servers (fst (ingestStar E ev st)) = av_Servers st"
  "av_Servers (fst (ingestFollow E ev st)) = av_Servers st"
  "av_Servers (fst (ingestPublicKey E ev st)) = av_Servers st"
  "av_Servers (fst (ingestArtifact C E ev st)) = av_Servers st"
  "av_Servers (fst (ingestProfile E ev st)) = av_Servers st"
  "av_Servers (fst (ingestString E ev st)) = av_Servers st"
  "av_Servers (fst (ingestIssue E ev st)) = av_Servers st"
  "av_Servers (fst (ingestIssueComment E ev st)) = av_Servers st"
  "av_Servers (fst (ingestLabelDefinition E ev st)) = av_Servers st"
  "av_Servers (fst (ingestLabelOp C E ev st)) = av_Servers st"
  by (simp_all add: ingestStar_def ingestFollow_def ingestPublicKey_def ingestArtifact_def ingestProfile_def ingestString_def
      ingestIssue_def ingestIssueComment_def ingestLabelDefinition_def ingestLabelOp_def Let_def split: sum.split option.split bool.split)

lemma ingestSpindle_registrations:
  "sv_Registrations (av_Servers (fst (ingestSpindle C E ev st))) = sv_Registrations (av_Servers st)"
  by (auto simp: ingestSpindle_def Let_def MarkSpindleVerified_def load_policy_def save_policy_def View_RemoveSpindleMember_def
      split: sum.split option.split list.split)

lemma ingestSpindleMember_registrations:
  "sv_Registrations (av_Servers (fst (ingestSpindleMember C E ev st))) = sv_Registrations (av_Servers st)"
  by (auto simp: ingestSpindleMember_def Let_def save_policy_def split: sum.split option.split list.split)

lemma knots_are_not_ingested:
  assumes "je_Collection ev \<in> set wanted_collections"
  shows "sv_Registrations (av_Servers (Ingest C E ev st)) = sv_Registrations (av_Servers st)"
proof -
  have "je_Collection ev \<noteq> KnotNSID" "je_Collection ev \<noteq> KnotMemberNSID" using assms by (auto simp: wanted_collections_def app_nsids)
  then have "sv_Registrations (av_Servers (fst (ingest_commit C E ev st))) = sv_Registrations (av_Servers st)"
    by (simp add: ingest_commit_def Let_def other_handlers_servers ingestSpindle_registrations ingestSpindleMember_registrations)
  then have "sv_Registrations (av_Servers (fst (ingest_event C E ev st))) = sv_Registrations (av_Servers st)"
    by (simp add: ingest_event_def split: prod.split bool.split option.split)
  then show ?thesis by (cases "ingest_event C E ev st") (simp add: Ingest_def)
qed

end
