(* ===== verification/AppView_Tables.thy ===== *)
theory AppView_Tables
  imports AppView_Ingest
begin

text \<open>
  What the ingester of the appview keeps true of its tables: an event changes rows of its author only, and
  the constraints of the tables and the checks of the validators hold after any stream of events.
\<close>

section \<open>Whose rows an event changes\<close>

definition social_owned :: "string \<Rightarrow> SocialTables \<Rightarrow> SocialTables \<Rightarrow> bool" where
  "social_owned did T T' \<longleftrightarrow>
     foreign fo_UserDid did (so_Follows T') = foreign fo_UserDid did (so_Follows T) \<and>
     foreign st_Did did (so_Stars T') = foreign st_Did did (so_Stars T) \<and>
     foreign ky_Did did (so_Keys T') = foreign ky_Did did (so_Keys T) \<and>
     foreign ar_Did did (so_Artifacts T') = foreign ar_Did did (so_Artifacts T) \<and>
     foreign pf_Did did (so_Profiles T') = foreign pf_Did did (so_Profiles T) \<and>
     foreign fst did (so_Links T') = foreign fst did (so_Links T) \<and>
     foreign fst did (so_Stats T') = foreign fst did (so_Stats T) \<and>
     foreign fst did (so_Pins T') = foreign fst did (so_Pins T) \<and>
     foreign sg_Did did (so_Strings T') = foreign sg_Did did (so_Strings T)"

definition servers_owned :: "string \<Rightarrow> ServerTables \<Rightarrow> ServerTables \<Rightarrow> bool" where
  "servers_owned did T T' \<longleftrightarrow>
     foreign mr_Did did (sv_Members T') = foreign mr_Did did (sv_Members T) \<and>
     foreign sw_Owner did (sv_Spindles T') = foreign sw_Owner did (sv_Spindles T) \<and>
     foreign rg_ByDid did (sv_Registrations T') = foreign rg_ByDid did (sv_Registrations T)"

text \<open>Comments of others go with the issue of the author they belong to; references are owned by their source.\<close>

definition ref_owner :: "string \<Rightarrow> string \<times> string \<Rightarrow> bool" where
  "ref_owner did r \<longleftrightarrow> hasPrefix (fst r) (''at://'' @ did @ ''/'')"

definition issues_owned :: "string \<Rightarrow> IssueTables \<Rightarrow> IssueTables \<Rightarrow> bool" where
  "issues_owned did T T' \<longleftrightarrow>
     foreign iw_Did did (it_Issues T') = foreign iw_Did did (it_Issues T) \<and>
     filter (\<lambda>r. \<not> ref_owner did r) (it_Refs T') = filter (\<lambda>r. \<not> ref_owner did r) (it_Refs T) \<and>
     (\<exists>gone. set gone \<subseteq> {i \<in> set (it_Issues T). iw_Did i = did} \<and>
        foreign cw_Did did (it_Comments T') =
          filter (\<lambda>c. cw_IssueAt c \<notin> issue_at ` set gone) (foreign cw_Did did (it_Comments T)))"

text \<open>Operations of others go with the label definition of the author they apply.\<close>

definition labels_owned :: "string \<Rightarrow> LabelTables \<Rightarrow> LabelTables \<Rightarrow> bool" where
  "labels_owned did T T' \<longleftrightarrow>
     foreign dr_Did did (lt_Defs T') = foreign dr_Did did (lt_Defs T) \<and>
     (\<exists>gone. set gone \<subseteq> {d \<in> set (lt_Defs T). dr_Did d = did} \<and>
        foreign lo_Did did (lt_Ops T') =
          filter (\<lambda>op. lo_OperandKey op \<notin> labeldef_at ` set gone) (foreign lo_Did did (lt_Ops T)))"

definition own_rows_only :: "string \<Rightarrow> 's AppState \<Rightarrow> 's AppState \<Rightarrow> bool" where
  "own_rows_only did st st' \<longleftrightarrow>
     social_owned did (av_Social st) (av_Social st') \<and> servers_owned did (av_Servers st) (av_Servers st') \<and>
     issues_owned did (av_Issues st) (av_Issues st') \<and> labels_owned did (av_Labels st) (av_Labels st') \<and>
     av_Repos st' = av_Repos st \<and> av_Collaborators st' = av_Collaborators st"

lemma social_owned_refl [simp]: "social_owned did T T"
  by (simp add: social_owned_def)

lemma servers_owned_refl [simp]: "servers_owned did T T"
  by (simp add: servers_owned_def)

lemma issues_owned_refl [simp]: "issues_owned did T T"
  unfolding issues_owned_def by (auto intro: exI [of _ "[]"])

lemma labels_owned_refl [simp]: "labels_owned did T T"
  unfolding labels_owned_def by (auto intro: exI [of _ "[]"])

lemma own_rows_only_refl [simp]: "own_rows_only did st st"
  by (simp add: own_rows_only_def)

lemma own_rows_only_simps:
  "own_rows_only did st (st\<lparr>av_Social := T\<rparr>) \<longleftrightarrow> social_owned did (av_Social st) T"
  "own_rows_only did st (st\<lparr>av_Servers := U\<rparr>) \<longleftrightarrow> servers_owned did (av_Servers st) U"
  "own_rows_only did st (st\<lparr>av_Issues := V\<rparr>) \<longleftrightarrow> issues_owned did (av_Issues st) V"
  "own_rows_only did st (st\<lparr>av_Labels := W\<rparr>) \<longleftrightarrow> labels_owned did (av_Labels st) W"
  "own_rows_only did st (st'\<lparr>av_Policy := s\<rparr>) \<longleftrightarrow> own_rows_only did st st'"
  "own_rows_only did st (load_policy st') \<longleftrightarrow> own_rows_only did st st'"
  "own_rows_only did st (save_policy s st') \<longleftrightarrow> own_rows_only did st st'"
  by (simp_all add: own_rows_only_def load_policy_def save_policy_def)

lemma ingestStar_own: "own_rows_only (je_Did ev) st (fst (ingestStar E ev st))"
  by (simp add: ingestStar_def own_rows_only_simps social_owned_def AddStar_def DeleteStarByRkey_def split: sum.split)

lemma ingestFollow_own: "own_rows_only (je_Did ev) st (fst (ingestFollow E ev st))"
  by (simp add: ingestFollow_def own_rows_only_simps social_owned_def AddFollow_def DeleteFollowByRkey_def split: sum.split)

lemma ingestPublicKey_own: "own_rows_only (je_Did ev) st (fst (ingestPublicKey E ev st))"
  by (simp add: ingestPublicKey_def own_rows_only_simps social_owned_def Db_AddPublicKey_def DeletePublicKeyByRkey_def split: sum.split)

lemma AddArtifact_foreign: "AddArtifact repos rows a = Some rows' \<Longrightarrow> foreign ar_Did (ar_Did a) rows' = foreign ar_Did (ar_Did a) rows"
  by (auto simp: AddArtifact_def foreign_def split: if_splits)

lemma ingestArtifact_own: "own_rows_only (je_Did ev) st (fst (ingestArtifact C E ev st))"
proof -
  have "AddArtifact repos rows (artifact_row E ev r blob) = Some rows' \<Longrightarrow>
      foreign ar_Did (je_Did ev) rows' = foreign ar_Did (je_Did ev) rows" for repos rows r blob rows'
    using AddArtifact_foreign [of repos rows "artifact_row E ev r blob" rows'] by (simp add: artifact_row_def)
  then show ?thesis
    by (simp add: ingestArtifact_def own_rows_only_simps social_owned_def DeleteArtifact_def
        split: sum.split option.split bool.split)
qed

lemma foreign_own_rows: "foreign fst did (delete_where (\<lambda>l. fst l = did) rows @ map (Pair did) xs) = foreign fst did rows"
  by (induction rows) (auto simp: foreign_def delete_where_def)

lemma UpsertProfile_foreign:
  assumes "UpsertProfile repos p T = Some T'"
  shows "social_owned (pf_Did (pr_Row p)) T T'"
proof -
  have "foreign pf_Did (pf_Did (pr_Row p)) (delete_where (\<lambda>r. pf_Did r = pf_Did (pr_Row p)) rows @ [pr_Row p]) =
      foreign pf_Did (pf_Did (pr_Row p)) rows" for rows
    by (induction rows) (auto simp: foreign_def delete_where_def)
  then show ?thesis
    using assms by (auto simp: UpsertProfile_def Let_def social_owned_def foreign_own_rows split: if_splits)
qed

lemma ValidateProfile_did: "ValidateProfile u repos collabs p = Inr p' \<Longrightarrow> pr_Row p' = pr_Row p"
  by (auto simp: ValidateProfile_def Let_def split: if_splits sum.splits)

lemma ingestProfile_own: "own_rows_only (je_Did ev) st (fst (ingestProfile E ev st))"
proof -
  have "ValidateProfile u repos collabs (profile_from_record (je_Did ev) r) = Inr p \<Longrightarrow>
      UpsertProfile repos p T = Some T' \<Longrightarrow> social_owned (je_Did ev) T T'" for u repos collabs r p T T'
    using UpsertProfile_foreign [of repos p T T'] ValidateProfile_did [of u repos collabs "profile_from_record (je_Did ev) r" p]
    by (simp add: profile_from_record_def Let_def)
  then show ?thesis
    by (auto simp: ingestProfile_def own_rows_only_simps DeleteArtifact_def
        social_owned_def [of _ T "T\<lparr>so_Artifacts := a\<rparr>" for T a] split: sum.split option.split)
qed

lemma AddString_foreign: "AddString now rows s = Some rows' \<Longrightarrow> foreign sg_Did (sg_Did s) rows' = foreign sg_Did (sg_Did s) rows"
  unfolding AddString_def by (erule foreign_upsert_row) (auto simp: string_same_def string_update_def)

lemma ingestString_own: "own_rows_only (je_Did ev) st (fst (ingestString E ev st))"
proof -
  have "AddString now rows (StringFromRecord p t (je_Did ev) k r) = Some rows' \<Longrightarrow>
      foreign sg_Did (je_Did ev) rows' = foreign sg_Did (je_Did ev) rows" for now rows p t k r rows'
    using AddString_foreign [of now rows "StringFromRecord p t (je_Did ev) k r" rows'] by (simp add: StringFromRecord_def)
  then show ?thesis
    by (simp add: ingestString_def own_rows_only_simps social_owned_def DeleteString_def Let_def
        split: sum.split option.split)
qed

lemma verified_foreign [simp]:
  "foreign sw_Owner did (VerifySpindle now rows did inst) = foreign sw_Owner did rows"
  "foreign rg_ByDid did (MarkRegistered now regs did domain) = foreign rg_ByDid did regs"
  unfolding VerifySpindle_def MarkRegistered_def by (rule foreign_update_where; simp)+

lemma MarkSpindleVerified_own:
  "own_rows_only did st (fst (MarkSpindleVerified C E inst did st')) = own_rows_only did st st'"
  "own_rows_only did st (fst (MarkKnotVerified C E inst did st')) = own_rows_only did st st'"
  by (simp_all add: MarkSpindleVerified_def MarkKnotVerified_def own_rows_only_def servers_owned_def
      save_policy_def load_policy_def split: sum.split)

lemma servers_owned_members:
  "foreign mr_Did did ms = foreign mr_Did did (sv_Members T) \<Longrightarrow> servers_owned did T (T\<lparr>sv_Members := ms\<rparr>)"
  by (simp add: servers_owned_def)

lemma View_RemoveSpindleMember_foreign:
  assumes "View_RemoveSpindleMember rows [(''did'', did), c] = Some rows'"
  shows "foreign mr_Did did rows' = foreign mr_Did did rows"
proof -
  have "set [(''did'', did), c] \<subseteq> set (member_columns m) \<Longrightarrow> mr_Did m = did" for m
    by (auto simp: member_columns_def)
  then show ?thesis
    using assms foreign_delete_where [of "\<lambda>m. set [(''did'', did), c] \<subseteq> set (member_columns m)" mr_Did did rows]
    by (auto simp: View_RemoveSpindleMember_def split: if_splits)
qed

lemma View_AddSpindleMember_foreign: "mr_Did m = did \<Longrightarrow> foreign mr_Did did (View_AddSpindleMember rows m) = foreign mr_Did did rows"
  by (simp add: View_AddSpindleMember_def)

lemma ingestSpindleMember_own: "own_rows_only (je_Did ev) st (fst (ingestSpindleMember C E ev st))"
  by (auto simp: ingestSpindleMember_def own_rows_only_simps Let_def servers_owned_members View_AddSpindleMember_foreign
      dest!: View_RemoveSpindleMember_foreign split: sum.split option.split list.split)

text \<open>The column \<open>owner\<close> does not exist: a spindle that is registered is never deleted.\<close>

lemma owner_column [simp]: "View_RemoveSpindleMember rows [(''owner'', did), c] = None"
  by (simp add: View_RemoveSpindleMember_def)

lemma Db_AddSpindle_foreign: "Db_AddSpindle rows did inst = Some rows' \<Longrightarrow> foreign sw_Owner did rows' = foreign sw_Owner did rows"
  unfolding Db_AddSpindle_def by (erule foreign_insert_row) simp

lemma Db_AddKnot_foreign: "Db_AddKnot rows d did = Some rows' \<Longrightarrow> foreign rg_ByDid did rows' = foreign rg_ByDid did rows"
  unfolding Db_AddKnot_def by (erule foreign_insert_row) simp

lemma ingestSpindle_own: "own_rows_only (je_Did ev) st (fst (ingestSpindle C E ev st))"
  by (auto simp: ingestSpindle_def own_rows_only_simps MarkSpindleVerified_own Let_def servers_owned_def
      dest!: Db_AddSpindle_foreign split: sum.split option.split list.split)

lemma ingestKnotMember_own: "own_rows_only (je_Did ev) st (fst (ingestKnotMember C E ev st))"
  by (simp add: ingestKnotMember_def own_rows_only_simps split: sum.split)

lemma ingestKnot_own: "own_rows_only (je_Did ev) st (fst (ingestKnot C E ev st))"
  by (auto simp: ingestKnot_def own_rows_only_simps MarkSpindleVerified_own Let_def servers_owned_def Db_DeleteKnot_def
      dest!: Db_AddKnot_foreign split: sum.split option.split list.split)

lemma ref_owner_at_uri [simp]: "ref_owner did (at_uri did nsid rkey, to_at)"
  by (simp add: ref_owner_def at_uri_def hasPrefix_def)

lemma issue_uris: "Issue_AtUri i = at_uri (is_Did i) RepoIssueNSID (is_Rkey i)"
  "IssueComment_AtUri c = at_uri (ic_Did c) RepoIssueCommentNSID (ic_Rkey c)"
  by (simp_all add: Issue_AtUri_def IssueComment_AtUri_def at_uri_def)

lemma deleteReferences_foreign:
  "filter (\<lambda>r. \<not> ref_owner did r) (deleteReferences (at_uri did nsid rkey) refs) = filter (\<lambda>r. \<not> ref_owner did r) refs"
  by (induction refs) (auto simp: deleteReferences_def delete_where_def)

lemma putReferences_foreign:
  "putReferences (at_uri did nsid rkey) us refs = Some refs' \<Longrightarrow>
   filter (\<lambda>r. \<not> ref_owner did r) refs' = filter (\<lambda>r. \<not> ref_owner did r) refs"
  by (auto simp: putReferences_def deleteReferences_foreign filter_empty_conv split: if_splits)

lemma issues_owned_frame:
  assumes "foreign iw_Did did (it_Issues T') = foreign iw_Did did (it_Issues T)"
    and "filter (\<lambda>r. \<not> ref_owner did r) (it_Refs T') = filter (\<lambda>r. \<not> ref_owner did r) (it_Refs T)"
    and "foreign cw_Did did (it_Comments T') = foreign cw_Did did (it_Comments T)"
  shows "issues_owned did T T'"
  unfolding issues_owned_def using assms by (auto intro: exI [of _ "[]"])

lemma createNewIssue_Some:
  assumes "createNewIssue repos i T = Some T'"
  obtains n row rows refs where "it_Seqs T (is_RepoAt i) = Some n"
    and "row = \<lparr>iw_Did = is_Did i, iw_Rkey = is_Rkey i, iw_RepoAt = is_RepoAt i, iw_IssueId = n,
                iw_Title = is_Title i, iw_Body = is_Body i, iw_Open = True, iw_Edited = None\<rparr>"
    and "is_RepoAt i \<in> set (map RepoAt repos)" and "insert_row issue_clash (it_Issues T) row = Some rows"
    and "putReferences (Issue_AtUri i) (is_References i) (it_Refs T) = Some refs"
    and "T' = T\<lparr>it_Seqs := (it_Seqs T)(is_RepoAt i \<mapsto> n + 1), it_Issues := rows, it_Refs := refs\<rparr>"
  using assms unfolding createNewIssue_def Let_def
  by (fastforce split: option.splits if_splits simp del: set_map)

lemma createNewIssue_own:
  assumes "createNewIssue repos i T = Some T'"
  shows "issues_owned (is_Did i) T T'"
proof -
  obtain n row rows refs where row: "row = \<lparr>iw_Did = is_Did i, iw_Rkey = is_Rkey i, iw_RepoAt = is_RepoAt i, iw_IssueId = n,
      iw_Title = is_Title i, iw_Body = is_Body i, iw_Open = True, iw_Edited = None\<rparr>"
    and ins: "insert_row issue_clash (it_Issues T) row = Some rows"
    and put: "putReferences (Issue_AtUri i) (is_References i) (it_Refs T) = Some refs"
    and T': "T' = T\<lparr>it_Seqs := (it_Seqs T)(is_RepoAt i \<mapsto> n + 1), it_Issues := rows, it_Refs := refs\<rparr>"
    using assms by (rule createNewIssue_Some)
  have "foreign iw_Did (is_Did i) rows = foreign iw_Did (is_Did i) (it_Issues T)"
    using ins by (rule foreign_insert_row) (simp add: row)
  then show ?thesis using put by (intro issues_owned_frame) (simp_all add: T' issue_uris putReferences_foreign)
qed

lemma updateIssue_own: "updateIssue now i T = Some T' \<Longrightarrow> issues_owned (is_Did i) T T'"
  by (rule issues_owned_frame)
    (auto simp: updateIssue_def issue_uris dest: putReferences_foreign)

lemma issues_owned_seqs: "issues_owned did (T\<lparr>it_Seqs := q\<rparr>) T' \<longleftrightarrow> issues_owned did T T'"
  by (simp add: issues_owned_def)

lemma PutIssue_own:
  assumes "PutIssue now repos i T = Some T'"
  shows "issues_owned (is_Did i) T T'"
proof -
  define T1 where "T1 = (if it_Seqs T (is_RepoAt i) = None then T\<lparr>it_Seqs := (it_Seqs T)(is_RepoAt i \<mapsto> 1)\<rparr> else T)"
  have "issues_owned (is_Did i) T1 T'"
    using assms createNewIssue_own [of repos i T1 T'] updateIssue_own [of now i T1 T']
    unfolding PutIssue_def Let_def T1_def [symmetric] by (auto split: list.splits if_splits)
  then show ?thesis by (simp add: T1_def issues_owned_seqs split: if_splits)
qed

lemma ingestIssue_own: "own_rows_only (je_Did ev) st (fst (ingestIssue E ev st))"
proof -
  have put: "PutIssue now repos (IssueFromRecord p t (je_Did ev) k r) T = Some T' \<Longrightarrow> issues_owned (je_Did ev) T T'"
    for now repos p t k r T T'
    using PutIssue_own [of now repos "IssueFromRecord p t (je_Did ev) k r" T T'] by (simp add: IssueFromRecord_def)
  have del: "issues_owned did T (DeleteIssues did rkey T)" for did rkey T
  proof -
    let ?gone = "filter (\<lambda>i. iw_Did i = did \<and> iw_Rkey i = rkey) (it_Issues T)"
    have "foreign cw_Did did (delete_where (\<lambda>c. cw_IssueAt c \<in> set (map issue_at ?gone)) cs) =
        filter (\<lambda>c. cw_IssueAt c \<notin> issue_at ` set ?gone) (foreign cw_Did did cs)" for cs
      by (simp add: foreign_def delete_where_def) (rule filter_cong; auto)
    then show ?thesis
      unfolding issues_owned_def DeleteIssues_def Let_def by (auto simp: deleteReferences_foreign intro!: exI [of _ ?gone])
  qed
  show ?thesis
    by (auto simp: ingestIssue_def own_rows_only_simps Let_def del intro: put split: sum.split option.split)
qed

lemma AddIssueComment_own: "AddIssueComment now c T = Some T' \<Longrightarrow> issues_owned (ic_Did c) T T'"
proof (rule issues_owned_frame)
  assume a: "AddIssueComment now c T = Some T'"
  then obtain rows refs where up: "upsert_row comment_same comment_clash (comment_update now) (it_Comments T) (comment_row c) = Some rows"
    and put: "putReferences (IssueComment_AtUri c) (ic_References c) (it_Refs T) = Some refs"
    and T': "T' = T\<lparr>it_Comments := rows, it_Refs := refs\<rparr>"
    by (auto simp: AddIssueComment_def split: if_splits option.splits)
  show "foreign iw_Did (ic_Did c) (it_Issues T') = foreign iw_Did (ic_Did c) (it_Issues T)" by (simp add: T')
  show "filter (\<lambda>r. \<not> ref_owner (ic_Did c) r) (it_Refs T') = filter (\<lambda>r. \<not> ref_owner (ic_Did c) r) (it_Refs T)"
    using put by (simp add: T' issue_uris putReferences_foreign)
  show "foreign cw_Did (ic_Did c) (it_Comments T') = foreign cw_Did (ic_Did c) (it_Comments T)"
    unfolding T' using foreign_upsert_row [OF up, of cw_Did "ic_Did c"] by (simp add: comment_row_def comment_same_def comment_update_def)
qed

lemma ingestIssueComment_own: "own_rows_only (je_Did ev) st (fst (ingestIssueComment E ev st))"
proof -
  have "IssueCommentFromRecord p v t (je_Did ev) k r = Some c \<Longrightarrow> AddIssueComment now c T = Some T' \<Longrightarrow>
      issues_owned (je_Did ev) T T'" for p v t k r c now T T'
    using AddIssueComment_own [of now c T T'] by (auto simp: IssueCommentFromRecord_def split: if_splits)
  moreover have "issues_owned did T (T\<lparr>it_Comments := DeleteIssueComments now (it_Comments T) did k\<rparr>)" for did T now k
    by (rule issues_owned_frame) (simp_all add: DeleteIssueComments_def)
  ultimately show ?thesis
    by (auto simp: ingestIssueComment_def own_rows_only_simps split: sum.split option.split)
qed

lemma labels_owned_frame:
  assumes "foreign dr_Did did (lt_Defs T') = foreign dr_Did did (lt_Defs T)"
    and "foreign lo_Did did (lt_Ops T') = foreign lo_Did did (lt_Ops T)"
  shows "labels_owned did T T'"
  unfolding labels_owned_def using assms by (auto intro: exI [of _ "[]"])

lemma AddLabelDefinition_foreign:
  assumes "AddLabelDefinition rows l = Some rows'"
  shows "foreign dr_Did (ld_Did l) rows' = foreign dr_Did (ld_Did l) rows"
proof -
  have "upsert_row labeldef_same labeldef_clash labeldef_update rows (labeldef_row l) = Some rows'"
    using assms by (simp add: AddLabelDefinition_def split: if_splits)
  then show ?thesis
    by (rule foreign_upsert_row) (simp_all add: labeldef_row_def labeldef_same_def labeldef_update_def)
qed

lemma ValidateLabelDefinition_color:
  assumes "ValidateLabelDefinition n q l = Inr l'"
  shows "\<exists>c. validate_color (ld_Color l) = Inr c \<and> l' = l\<lparr>ld_Color := c\<rparr>"
  using assms ValidateLabelDefinition_shape [OF ValidateLabelDefinition_Inr [OF assms]] by (auto simp: map_sum_Inr_iff)

lemma ingestLabelDefinition_own: "own_rows_only (je_Did ev) st (fst (ingestLabelDefinition E ev st))"
proof -
  have add: "ValidateLabelDefinition n q (LabelDefinitionFromRecord p t (je_Did ev) k r) = Inr l \<Longrightarrow>
      AddLabelDefinition rows l = Some rows' \<Longrightarrow> foreign dr_Did (je_Did ev) rows' = foreign dr_Did (je_Did ev) rows"
    for n q p t k r l rows rows'
  proof -
    assume v: "ValidateLabelDefinition n q (LabelDefinitionFromRecord p t (je_Did ev) k r) = Inr l" and a: "AddLabelDefinition rows l = Some rows'"
    have "ld_Did l = je_Did ev"
      using ValidateLabelDefinition_color [OF v] by (auto simp: LabelDefinitionFromRecord_def)
    with AddLabelDefinition_foreign [OF a] show ?thesis by simp
  qed
  have del: "labels_owned did T (DeleteLabelDefinition T did rkey)" for did rkey T
  proof -
    let ?gone = "filter (\<lambda>d. dr_Did d = did \<and> dr_Rkey d = rkey) (lt_Defs T)"
    have "foreign lo_Did did (delete_where (\<lambda>op. lo_OperandKey op \<in> set (map labeldef_at ?gone)) ops) =
        filter (\<lambda>op. lo_OperandKey op \<notin> labeldef_at ` set ?gone) (foreign lo_Did did ops)" for ops
      by (simp add: foreign_def delete_where_def) (rule filter_cong; auto)
    then show ?thesis
      unfolding labels_owned_def DeleteLabelDefinition_def Let_def by (auto intro!: exI [of _ ?gone])
  qed
  show ?thesis
    by (auto simp: ingestLabelDefinition_def own_rows_only_simps del intro!: labels_owned_frame intro: add split: sum.split option.split)
qed

lemma AddLabelOp_own:
  assumes "AddLabelOp now T op = Some T'"
  shows "lt_Defs T' = lt_Defs T \<and> foreign lo_Did (lo_Did op) (lt_Ops T') = foreign lo_Did (lo_Did op) (lt_Ops T)"
proof -
  from assms obtain rows where T': "T' = T\<lparr>lt_Ops := rows\<rparr>" and up: "upsert_row labelop_same labelop_same labelop_update (lt_Ops T)
      (op\<lparr>lo_PerformedAt := to_second (lo_PerformedAt op), lo_IndexedAt := to_second now\<rparr>) = Some rows"
    by (auto simp: AddLabelOp_def split: if_splits)
  from up have "foreign lo_Did (lo_Did op) rows = foreign lo_Did (lo_Did op) (lt_Ops T)"
    by (rule foreign_upsert_row) (simp_all add: labelop_same_def labelop_update_def)
  then show ?thesis by (simp add: T')
qed

lemma add_labelops_own:
  "add_labelops now ops T = Some T' \<Longrightarrow> \<forall>op \<in> set ops. lo_Did op = did \<Longrightarrow>
   lt_Defs T' = lt_Defs T \<and> foreign lo_Did did (lt_Ops T') = foreign lo_Did did (lt_Ops T)"
proof (induction ops arbitrary: T)
  case (Cons op ops)
  then obtain T1 where T1: "AddLabelOp now T op = Some T1" "add_labelops now ops T1 = Some T'" by (auto split: option.splits)
  have "lo_Did op = did" using Cons.prems(2) by simp
  then show ?case using Cons.IH [OF T1(2)] Cons.prems(2) AddLabelOp_own [OF T1(1)] by simp
qed simp

lemma LabelOpsFromRecord_did: "op \<in> set (LabelOpsFromRecord p t did rkey r) \<Longrightarrow> lo_Did op = did"
  by (auto simp: LabelOpsFromRecord_def Let_def mkOp_def)

lemma ingestLabelOp_own: "own_rows_only (je_Did ev) st (fst (ingestLabelOp C E ev st))"
proof -
  have "add_labelops now (LabelOpsFromRecord p t (je_Did ev) k r) T = Some T' \<Longrightarrow> labels_owned (je_Did ev) T T'" for now p t k r T T'
    using add_labelops_own [of now "LabelOpsFromRecord p t (je_Did ev) k r" T T' "je_Did ev"] LabelOpsFromRecord_did
    by (auto intro!: labels_owned_frame)
  then show ?thesis
    by (auto simp: ingestLabelOp_def own_rows_only_simps Let_def split: sum.split option.split)
qed

lemmas handlers_own = ingestStar_own ingestFollow_own ingestPublicKey_own ingestArtifact_own ingestProfile_own
  ingestSpindleMember_own ingestSpindle_own ingestKnotMember_own ingestKnot_own ingestString_own ingestIssue_own
  ingestIssueComment_own ingestLabelDefinition_own ingestLabelOp_own

lemma ingest_event_own: "own_rows_only (je_Did ev) st (fst (ingest_event C E ev st))"
  by (simp add: ingest_event_def ingest_commit_def Let_def handlers_own split: prod.split bool.split option.split)


section \<open>The tables are well-formed\<close>

definition follows_ok :: "FollowRow list \<Rightarrow> bool" where
  "follows_ok rows \<longleftrightarrow> unclashed follow_clash rows \<and> (\<forall>f \<in> set rows. fo_UserDid f \<noteq> fo_SubjectDid f)"

definition artifacts_ok :: "RepoRow list \<Rightarrow> ArtifactRow list \<Rightarrow> bool" where
  "artifacts_ok repos rows \<longleftrightarrow> unclashed artifact_clash rows \<and>
     (\<forall>a \<in> set rows. ar_RepoAt a \<in> set (map RepoAt repos) \<and> length (ar_Tag a) = 20 \<and> ar_Size a < 2 ^ 63)"

definition profile_rows_ok :: "ProfileRow list \<Rightarrow> bool" where
  "profile_rows_ok rows \<longleftrightarrow> distinct (map pf_Did rows) \<and>
     (\<forall>p \<in> set rows. length (pf_Description p) \<le> 256 \<and> length (pf_Location p) \<le> 40 \<and> length (pf_Pronouns p) \<le> 40)"

text \<open>The entries of a profile: for a stored profile, not empty, and at most \<open>n\<close> of them.\<close>

definition entries_ok :: "nat \<Rightarrow> ProfileRow list \<Rightarrow> (string \<times> string) list \<Rightarrow> bool" where
  "entries_ok n profiles es \<longleftrightarrow> (\<forall>e \<in> set es. fst e \<in> set (map pf_Did profiles) \<and> snd e \<noteq> []) \<and>
     (\<forall>did. length (filter (\<lambda>e. fst e = did) es) \<le> n)"

definition pins_ok :: "RepoRow list \<Rightarrow> (string \<times> string) list \<Rightarrow> bool" where
  "pins_ok repos pins \<longleftrightarrow> distinct pins \<and> (\<forall>e \<in> set pins. snd e \<in> set (map RepoAt repos))"

definition strings_ok :: "StringRow list \<Rightarrow> bool" where
  "strings_ok rows \<longleftrightarrow> unclashed string_same rows \<and>
     (\<forall>s \<in> set rows. RuneCountInString (sg_Filename s) \<le> 140 \<and> RuneCountInString (sg_Description s) \<le> 280 \<and> sg_Contents s \<noteq> [])"

definition social_ok :: "RepoRow list \<Rightarrow> SocialTables \<Rightarrow> bool" where
  "social_ok repos T \<longleftrightarrow>
     follows_ok (so_Follows T) \<and> unclashed star_clash (so_Stars T) \<and> unclashed key_clash (so_Keys T) \<and>
     artifacts_ok repos (so_Artifacts T) \<and> profile_rows_ok (so_Profiles T) \<and>
     entries_ok 5 (so_Profiles T) (so_Links T) \<and> entries_ok 2 (so_Profiles T) (so_Stats T) \<and>
     entries_ok 6 (so_Profiles T) (so_Pins T) \<and> pins_ok repos (so_Pins T) \<and> strings_ok (so_Strings T)"

definition servers_ok :: "ServerTables \<Rightarrow> bool" where
  "servers_ok T \<longleftrightarrow> unclashed member_clash (sv_Members T) \<and> unclashed spindle_clash (sv_Spindles T) \<and>
     unclashed registration_clash (sv_Registrations T)"

definition issue_rows_ok :: "RepoRow list \<Rightarrow> (string \<rightharpoonup> nat) \<Rightarrow> IssueRow list \<Rightarrow> bool" where
  "issue_rows_ok repos seqs rows \<longleftrightarrow> unclashed issue_clash rows \<and>
     (\<forall>i \<in> set rows. iw_RepoAt i \<in> set (map RepoAt repos) \<and> iw_Title i \<noteq> [] \<and> iw_Body i \<noteq> [] \<and>
        (\<exists>n. seqs (iw_RepoAt i) = Some n \<and> iw_IssueId i < n))"

definition comments_ok :: "IssueRow list \<Rightarrow> CommentRow list \<Rightarrow> bool" where
  "comments_ok issues rows \<longleftrightarrow> unclashed comment_clash rows \<and> (\<forall>c \<in> set rows. cw_IssueAt c \<in> set (map issue_at issues))"

definition issues_ok :: "RepoRow list \<Rightarrow> IssueTables \<Rightarrow> bool" where
  "issues_ok repos T \<longleftrightarrow> issue_rows_ok repos (it_Seqs T) (it_Issues T) \<and> comments_ok (it_Issues T) (it_Comments T) \<and>
     distinct (it_Refs T)"

definition labels_ok :: "LabelTables \<Rightarrow> bool" where
  "labels_ok T \<longleftrightarrow> unclashed labeldef_clash (lt_Defs T) \<and>
     (\<forall>d \<in> set (lt_Defs T). labelNameRegex (dr_Name d) \<and> length (dr_Name d) \<le> 40) \<and>
     unclashed labelop_same (lt_Ops T) \<and> (\<forall>op \<in> set (lt_Ops T). lo_OperandKey op \<in> set (map labeldef_at (lt_Defs T)))"

definition tables_ok :: "'s AppState \<Rightarrow> bool" where
  "tables_ok st \<longleftrightarrow> social_ok (av_Repos st) (av_Social st) \<and> servers_ok (av_Servers st) \<and>
     issues_ok (av_Repos st) (av_Issues st) \<and> labels_ok (av_Labels st)"

lemma tables_ok_simps:
  "tables_ok st \<Longrightarrow> tables_ok (st\<lparr>av_Social := T\<rparr>) \<longleftrightarrow> social_ok (av_Repos st) T"
  "tables_ok st \<Longrightarrow> tables_ok (st\<lparr>av_Servers := U\<rparr>) \<longleftrightarrow> servers_ok U"
  "tables_ok st \<Longrightarrow> tables_ok (st\<lparr>av_Issues := V\<rparr>) \<longleftrightarrow> issues_ok (av_Repos st) V"
  "tables_ok st \<Longrightarrow> tables_ok (st\<lparr>av_Labels := W\<rparr>) \<longleftrightarrow> labels_ok W"
  "tables_ok (st'\<lparr>av_Policy := s\<rparr>) \<longleftrightarrow> tables_ok st'"
  "tables_ok (load_policy st') \<longleftrightarrow> tables_ok st'"
  "tables_ok (save_policy s st') \<longleftrightarrow> tables_ok st'"
  by (simp_all add: tables_ok_def load_policy_def save_policy_def)

lemma tables_okD:
  assumes "tables_ok st"
  shows "social_ok (av_Repos st) (av_Social st)" "servers_ok (av_Servers st)"
    "issues_ok (av_Repos st) (av_Issues st)" "labels_ok (av_Labels st)"
  using assms by (simp_all add: tables_ok_def)

subsection \<open>Follows, stars, keys, artifacts and strings\<close>

lemma follows_ok_Add: "follows_ok rows \<Longrightarrow> follows_ok (AddFollow rows f)"
  using set_insert_ignore [of follow_clash rows f]
  by (auto simp: follows_ok_def AddFollow_def follows.insert_ignore_unclashed)

lemma follows_ok_Delete: "follows_ok rows \<Longrightarrow> follows_ok (DeleteFollowByRkey rows u k)"
  by (simp add: follows_ok_def DeleteFollowByRkey_def follows.delete_unclashed)

lemma ingestFollow_ok: "tables_ok st \<Longrightarrow> tables_ok (fst (ingestFollow E ev st))"
  by (frule tables_okD(1))
    (simp add: ingestFollow_def tables_ok_simps social_ok_def follows_ok_Add follows_ok_Delete split: sum.split)

lemma ingestStar_ok: "tables_ok st \<Longrightarrow> tables_ok (fst (ingestStar E ev st))"
  by (frule tables_okD(1))
    (simp add: ingestStar_def tables_ok_simps social_ok_def AddStar_def DeleteStarByRkey_def
      stars.insert_ignore_unclashed stars.delete_unclashed split: sum.split)

lemma ingestPublicKey_ok: "tables_ok st \<Longrightarrow> tables_ok (fst (ingestPublicKey E ev st))"
  by (frule tables_okD(1))
    (simp add: ingestPublicKey_def tables_ok_simps social_ok_def Db_AddPublicKey_def DeletePublicKeyByRkey_def
      keys.insert_ignore_unclashed keys.delete_unclashed split: sum.split)

lemma artifact_clash_created [simp]: "artifact_clash (a\<lparr>ar_Created := t\<rparr>) x = artifact_clash a x"
  by (simp add: artifact_clash_def)

lemma artifacts_ok_Add:
  assumes "artifacts_ok repos rows" "AddArtifact repos rows a = Some rows'" "length (ar_Tag a) = 20"
  shows "artifacts_ok repos rows'"
proof -
  have "rows' = rows \<or> (\<not> list_ex (artifact_clash a) rows \<and> ar_RepoAt a \<in> set (map RepoAt repos) \<and> ar_Size a < 2 ^ 63 \<and>
      rows' = rows @ [a\<lparr>ar_Created := to_second (ar_Created a)\<rparr>])"
    using assms(2) by (auto simp: AddArtifact_def not_le split: if_splits)
  then show ?thesis
    using assms(1,3) artifacts.append_unclashed [of rows "a\<lparr>ar_Created := to_second (ar_Created a)\<rparr>"]
    by (auto simp: artifacts_ok_def list_ex_iff)
qed

lemma artifacts_ok_Delete: "artifacts_ok repos rows \<Longrightarrow> artifacts_ok repos (DeleteArtifact rows u k)"
  by (simp add: artifacts_ok_def DeleteArtifact_def artifacts.delete_unclashed)

lemma social_ok_artifacts: "social_ok repos T \<Longrightarrow> social_ok repos (T\<lparr>so_Artifacts := rows\<rparr>) \<longleftrightarrow> artifacts_ok repos rows"
  "social_ok repos T \<Longrightarrow> artifacts_ok repos (so_Artifacts T)"
  by (auto simp: social_ok_def)

lemma ingestArtifact_ok: "tables_ok st \<Longrightarrow> tables_ok (fst (ingestArtifact C E ev st))"
proof -
  assume ok: "tables_ok st"
  note a = social_ok_artifacts [OF tables_okD(1) [OF ok]]
  have "\<not> length (xa_Tag r) < 20 \<Longrightarrow> AddArtifact (av_Repos st) (so_Artifacts (av_Social st)) (artifact_row E ev r blob) = Some rows \<Longrightarrow>
      artifacts_ok (av_Repos st) rows" for r blob rows
    using artifacts_ok_Add [OF a(2)] by (simp add: artifact_row_def)
  then show ?thesis
    by (simp add: ingestArtifact_def tables_ok_simps ok a artifacts_ok_Delete ok split: sum.split option.split bool.split)
qed

lemma strings_ok_Add:
  assumes "strings_ok rows" "AddString now rows s = Some rows'"
    and "ValidateString (sg_Filename s) (sg_Description s) (sg_Contents s) = []"
  shows "strings_ok rows'"
proof -
  let ?s = "s\<lparr>sg_Created := to_second (sg_Created s), sg_Edited := None\<rparr>"
  have up: "upsert_row string_same string_same (string_update now) rows ?s = Some rows'"
    using assms(2) by (simp add: AddString_def)
  have "unclashed string_same rows'"
    by (rule strings.upsert_unclashed [OF _ up]) (use assms(1) in \<open>auto simp: strings_ok_def string_same_def string_update_def\<close>)
  moreover have "RuneCountInString (sg_Filename x) \<le> 140 \<and> RuneCountInString (sg_Description x) \<le> 280 \<and> sg_Contents x \<noteq> []"
    if "x \<in> set rows'" for x
  proof -
    have v: "RuneCountInString (sg_Filename s) \<le> 140 \<and> RuneCountInString (sg_Description s) \<le> 280 \<and> sg_Contents s \<noteq> []"
      using assms(3) by (auto simp: ValidateString_def not_less split: if_splits)
    from set_upsert_row [OF up] that consider "x = ?s" | "x \<in> set rows" | y where "x = string_update now y ?s" by blast
    then show ?thesis using v assms(1) by cases (simp_all add: strings_ok_def string_update_def)
  qed
  ultimately show ?thesis by (simp add: strings_ok_def)
qed

lemma strings_ok_Delete: "strings_ok rows \<Longrightarrow> strings_ok (DeleteString rows u k)"
  by (simp add: strings_ok_def DeleteString_def strings.delete_unclashed)

lemma ingestString_ok: "tables_ok st \<Longrightarrow> tables_ok (fst (ingestString E ev st))"
proof -
  assume ok: "tables_ok st"
  have s: "social_ok (av_Repos st) (av_Social st\<lparr>so_Strings := rows\<rparr>) \<longleftrightarrow> strings_ok rows" "strings_ok (so_Strings (av_Social st))" for rows
    using tables_okD(1) [OF ok] by (auto simp: social_ok_def)
  show ?thesis
    by (auto simp: ingestString_def tables_ok_simps ok s ok Let_def intro: strings_ok_Add [OF s(2)] strings_ok_Delete [OF s(2)]
        split: sum.split option.split)
qed

subsection \<open>Profiles\<close>

lemma validateLinks_length: "validateLinks u ls = Inr ls' \<Longrightarrow> length ls' = length ls"
  by (induction ls arbitrary: ls') (auto simp: Let_def map_sum_Inr_iff split: if_splits sum.splits prod.splits)

lemma ValidateProfile_ok:
  assumes "ValidateProfile u repos collabs p = Inr p'"
  shows "length (pf_Description (pr_Row p')) \<le> 256 \<and> length (pf_Location (pr_Row p')) \<le> 40 \<and>
    length (pf_Pronouns (pr_Row p')) \<le> 40 \<and> length (pr_Links p') = length (pr_Links p) \<and>
    pr_Stats p' = pr_Stats p \<and> pr_PinnedRepos p' = pr_PinnedRepos p"
  using assms by (auto simp: ValidateProfile_def Let_def not_less dest: validateLinks_length split: if_splits sum.splits)

lemma entries_ok_upsert:
  assumes "entries_ok n profiles es" "length xs \<le> n" "pf_Did row = did"
  shows "entries_ok n (delete_where (\<lambda>r. pf_Did r = did) profiles @ [row])
    (delete_where (\<lambda>e. fst e = did) es @ map (Pair did) (filter (\<lambda>x. x \<noteq> []) xs))"
proof -
  have "length (filter (\<lambda>e. fst e = d) (delete_where (\<lambda>e. fst e = did) es @ map (Pair did) (filter (\<lambda>x. x \<noteq> []) xs))) \<le> n" for d
  proof (cases "d = did")
    case True
    have "length (filter (\<lambda>x. x \<noteq> []) xs) \<le> n" by (rule order_trans [OF length_filter_le assms(2)])
    with True show ?thesis by (auto simp: delete_where_def filter_map comp_def)
  next
    case False
    then have "filter (\<lambda>e. fst e = d) (delete_where (\<lambda>e. fst e = did) es @ map (Pair did) (filter (\<lambda>x. x \<noteq> []) xs)) =
        filter (\<lambda>e. fst e = d) es"
      by (auto simp: delete_where_def filter_map comp_def intro: filter_cong)
    then show ?thesis using assms(1) by (simp add: entries_ok_def)
  qed
  moreover have "\<forall>e \<in> set (delete_where (\<lambda>e. fst e = did) es @ map (Pair did) (filter (\<lambda>x. x \<noteq> []) xs)).
      fst e \<in> set (map pf_Did (delete_where (\<lambda>r. pf_Did r = did) profiles @ [row])) \<and> snd e \<noteq> []"
    using assms(1,3) unfolding entries_ok_def by auto
  ultimately show ?thesis unfolding entries_ok_def by blast
qed

lemma profile_rows_ok_upsert:
  assumes "profile_rows_ok rows" "length (pf_Description row) \<le> 256" "length (pf_Location row) \<le> 40" "length (pf_Pronouns row) \<le> 40"
  shows "profile_rows_ok (delete_where (\<lambda>r. pf_Did r = pf_Did row) rows @ [row])"
proof -
  have "distinct (map pf_Did (delete_where (\<lambda>r. pf_Did r = pf_Did row) rows))"
    using assms(1) by (simp add: profile_rows_ok_def delete_where_def distinct_map_filter)
  then show ?thesis using assms by (auto simp: profile_rows_ok_def)
qed

lemma pins_ok_upsert:
  assumes "pins_ok repos pins" "distinct us" "set us \<subseteq> set (map RepoAt repos)"
  shows "pins_ok repos (delete_where (\<lambda>e. fst e = did) pins @ map (Pair did) us)"
  using assms by (auto simp: pins_ok_def delete_where_def distinct_map inj_on_def)

lemma UpsertProfile_ok:
  assumes "social_ok repos T" "UpsertProfile repos p T = Some T'"
    and "length (pf_Description (pr_Row p)) \<le> 256" "length (pf_Location (pr_Row p)) \<le> 40" "length (pf_Pronouns (pr_Row p)) \<le> 40"
    and "length (pr_Links p) \<le> 5" "length (pr_Stats p) \<le> 2" "length (pr_PinnedRepos p) \<le> 6"
  shows "social_ok repos T'"
proof -
  let ?pins = "filter (\<lambda>x. x \<noteq> []) (pr_PinnedRepos p)"
  have p: "distinct ?pins" "set ?pins \<subseteq> set (map RepoAt repos)"
    using assms(2) unfolding UpsertProfile_def Let_def by (simp_all split: if_splits)
  note T' = assms(2) [unfolded UpsertProfile_def Let_def, simplified p, simplified]
  from assms(1) have ok: "profile_rows_ok (so_Profiles T)" "entries_ok 5 (so_Profiles T) (so_Links T)"
    "entries_ok 2 (so_Profiles T) (so_Stats T)" "entries_ok 6 (so_Profiles T) (so_Pins T)" "pins_ok repos (so_Pins T)"
    by (simp_all add: social_ok_def)
  show ?thesis
    using T' p assms(1) profile_rows_ok_upsert [OF ok(1) assms(3,4,5)] entries_ok_upsert [OF ok(2) assms(6) refl]
      entries_ok_upsert [OF ok(3) assms(7) refl] entries_ok_upsert [OF ok(4) assms(8) refl]
      pins_ok_upsert [OF ok(5) p, of "pf_Did (pr_Row p)"]
    by (auto simp: social_ok_def split: if_splits)
qed

lemma ingestProfile_ok: "tables_ok st \<Longrightarrow> tables_ok (fst (ingestProfile E ev st))"
proof -
  assume ok: "tables_ok st"
  note a = social_ok_artifacts [OF tables_okD(1) [OF ok]]
  have "ValidateProfile u (av_Repos st) collabs (profile_from_record did r) = Inr p \<Longrightarrow>
      UpsertProfile (av_Repos st) p (av_Social st) = Some T \<Longrightarrow> social_ok (av_Repos st) T" for u collabs did r p T
    using UpsertProfile_ok [OF tables_okD(1) [OF ok], of p T] ValidateProfile_ok [of u "av_Repos st" collabs "profile_from_record did r" p]
    by (simp add: profile_from_record_def Let_def fixed_def)
  then show ?thesis
    by (auto simp: ingestProfile_def tables_ok_simps ok a artifacts_ok_Delete split: sum.split option.split)
qed

subsection \<open>Servers\<close>

lemma servers_ok_Mark:
  assumes "servers_ok T"
  shows "servers_ok (T\<lparr>sv_Spindles := VerifySpindle now (sv_Spindles T) did inst\<rparr>)"
    and "servers_ok (T\<lparr>sv_Registrations := MarkRegistered now (sv_Registrations T) did domain\<rparr>)"
proof -
  have "unclashed spindle_clash (VerifySpindle now (sv_Spindles T) did inst)"
    unfolding VerifySpindle_def
    by (rule spindles.update_unclashed) (use assms in \<open>auto simp: servers_ok_def spindle_clash_def\<close>)
  moreover have "unclashed registration_clash (MarkRegistered now (sv_Registrations T) did domain)"
    unfolding MarkRegistered_def
    by (rule registrations.update_unclashed) (use assms in \<open>auto simp: servers_ok_def registration_clash_def\<close>)
  ultimately show "servers_ok (T\<lparr>sv_Spindles := VerifySpindle now (sv_Spindles T) did inst\<rparr>)"
    "servers_ok (T\<lparr>sv_Registrations := MarkRegistered now (sv_Registrations T) did domain\<rparr>)"
    using assms by (simp_all add: servers_ok_def)
qed

lemma tables_ok_servers: "tables_ok st \<Longrightarrow> servers_ok U \<Longrightarrow> tables_ok (st\<lparr>av_Servers := U\<rparr>)"
  by (simp add: tables_ok_simps)

lemma MarkVerified_ok: "tables_ok st \<Longrightarrow> tables_ok (fst (MarkSpindleVerified C E inst did st))"
  "tables_ok st \<Longrightarrow> tables_ok (fst (MarkKnotVerified C E domain did st))"
  by (simp_all add: MarkSpindleVerified_def MarkKnotVerified_def tables_ok_simps tables_ok_servers servers_ok_Mark tables_okD(2)
      split: sum.split)

lemma servers_ok_upd:
  assumes "servers_ok T"
  shows "servers_ok (T\<lparr>sv_Members := View_AddSpindleMember (sv_Members T) m\<rparr>)"
    and "View_RemoveSpindleMember (sv_Members T) fs = Some ms \<Longrightarrow> servers_ok (T\<lparr>sv_Members := ms\<rparr>)"
    and "Db_AddSpindle (sv_Spindles T) did inst = Some ss \<Longrightarrow> servers_ok (T\<lparr>sv_Spindles := ss\<rparr>)"
    and "Db_AddKnot (sv_Registrations T) domain did = Some rs \<Longrightarrow> servers_ok (T\<lparr>sv_Registrations := rs\<rparr>)"
    and "servers_ok (T\<lparr>sv_Registrations := Db_DeleteKnot (sv_Registrations T) did domain\<rparr>)"
  using assms
  by (auto simp: servers_ok_def View_AddSpindleMember_def members.insert_ignore_unclashed View_RemoveSpindleMember_def
      members.delete_unclashed Db_AddSpindle_def Db_AddKnot_def Db_DeleteKnot_def registrations.delete_unclashed
      intro: spindles.insert_row_unclashed registrations.insert_row_unclashed split: if_splits)

lemma ingestServers_ok:
  assumes "tables_ok st"
  shows "tables_ok (fst (ingestSpindleMember C E ev st))" "tables_ok (fst (ingestSpindle C E ev st))"
    "tables_ok (fst (ingestKnotMember C E ev st))" "tables_ok (fst (ingestKnot C E ev st))"
  using assms tables_okD(2) [OF assms]
  by (auto simp: ingestSpindleMember_def ingestSpindle_def ingestKnotMember_def ingestKnot_def Let_def tables_ok_simps
      intro!: MarkVerified_ok tables_ok_servers intro: servers_ok_upd split: sum.split option.split list.split)

subsection \<open>Issues and comments\<close>

lemma putReferences_distinct:
  assumes "putReferences fromAt us refs = Some refs'" "distinct refs"
  shows "distinct refs'"
  using assms by (auto simp: putReferences_def deleteReferences_def delete_where_def distinct_map inj_on_def split: if_splits)

lemma issue_rows_ok_mono:
  assumes "issue_rows_ok repos q rows" "\<And>at n. q at = Some n \<Longrightarrow> \<exists>n'. q' at = Some n' \<and> n \<le> n'"
  shows "issue_rows_ok repos q' rows"
proof -
  have "\<exists>n'. q' at = Some n' \<and> k < n'" if "q at = Some n" "k < n" for at n k
    using assms(2) [OF that(1)] that(2) by (auto intro: less_le_trans)
  with assms(1) show ?thesis unfolding issue_rows_ok_def by blast
qed

lemma comments_ok_map: "comments_ok issues rows \<Longrightarrow> map issue_at issues' = map issue_at issues \<Longrightarrow> comments_ok issues' rows"
  unfolding comments_ok_def by presburger

lemma createNewIssue_ok:
  assumes "issues_ok repos T" "createNewIssue repos i T = Some T'" "is_Title i \<noteq> []" "is_Body i \<noteq> []"
  shows "issues_ok repos T'"
proof -
  obtain n row rows refs where q: "it_Seqs T (is_RepoAt i) = Some n"
    and row: "row = \<lparr>iw_Did = is_Did i, iw_Rkey = is_Rkey i, iw_RepoAt = is_RepoAt i, iw_IssueId = n,
      iw_Title = is_Title i, iw_Body = is_Body i, iw_Open = True, iw_Edited = None\<rparr>"
    and repo: "is_RepoAt i \<in> set (map RepoAt repos)"
    and ins: "insert_row issue_clash (it_Issues T) row = Some rows"
    and put: "putReferences (Issue_AtUri i) (is_References i) (it_Refs T) = Some refs"
    and T': "T' = T\<lparr>it_Seqs := (it_Seqs T)(is_RepoAt i \<mapsto> n + 1), it_Issues := rows, it_Refs := refs\<rparr>"
    using assms(2) by (rule createNewIssue_Some)
  have set: "set rows = insert row (set (it_Issues T))" using ins by (rule set_insert_row)
  have "issue_rows_ok repos ((it_Seqs T)(is_RepoAt i \<mapsto> n + 1)) (it_Issues T)"
    by (rule issue_rows_ok_mono [of repos "it_Seqs T"]) (use assms(1) q in \<open>auto simp: issues_ok_def\<close>)
  moreover have "unclashed issue_clash rows"
    by (rule issues.insert_row_unclashed [OF _ ins]) (use assms(1) in \<open>simp add: issues_ok_def issue_rows_ok_def\<close>)
  ultimately have "issue_rows_ok repos ((it_Seqs T)(is_RepoAt i \<mapsto> n + 1)) rows"
    using repo assms(3,4) by (simp add: issue_rows_ok_def set row)
  moreover have "comments_ok rows (it_Comments T)" using assms(1) by (simp add: issues_ok_def comments_ok_def set)
  moreover have "distinct refs" using putReferences_distinct [OF put] assms(1) by (simp add: issues_ok_def)
  ultimately show ?thesis by (simp add: issues_ok_def T')
qed

lemma updateIssue_ok:
  assumes "issues_ok repos T" "updateIssue now i T = Some T'" "is_Title i \<noteq> []" "is_Body i \<noteq> []"
  shows "issues_ok repos T'"
proof -
  let ?f = "\<lambda>r. r\<lparr>iw_Title := is_Title i, iw_Body := is_Body i, iw_Edited := Some (to_second now)\<rparr>"
  let ?rows = "update_where (\<lambda>r. iw_Did r = is_Did i \<and> iw_Rkey r = is_Rkey i) ?f (it_Issues T)"
  obtain refs where put: "putReferences (Issue_AtUri i) (is_References i) (it_Refs T) = Some refs"
    and T': "T' = T\<lparr>it_Issues := ?rows, it_Refs := refs\<rparr>"
    using assms(2) by (auto simp: updateIssue_def)
  have "unclashed issue_clash ?rows"
    by (rule issues.update_unclashed) (use assms(1) in \<open>auto simp: issues_ok_def issue_rows_ok_def issue_clash_def issue_at_def\<close>)
  then have "issue_rows_ok repos (it_Seqs T) ?rows"
    using assms set_update_where [of "\<lambda>r. iw_Did r = is_Did i \<and> iw_Rkey r = is_Rkey i" ?f "it_Issues T"]
    unfolding issues_ok_def issue_rows_ok_def by fastforce
  moreover have "map issue_at ?rows = map issue_at (it_Issues T)" by (auto simp: update_where_def issue_at_def)
  then have "comments_ok ?rows (it_Comments T)" using assms(1) comments_ok_map unfolding issues_ok_def by blast
  moreover have "distinct refs" using putReferences_distinct [OF put] assms(1) by (simp add: issues_ok_def)
  ultimately show ?thesis by (simp add: issues_ok_def T')
qed

lemma PutIssue_ok:
  assumes "issues_ok repos T" "PutIssue now repos i T = Some T'" "is_Title i \<noteq> []" "is_Body i \<noteq> []"
  shows "issues_ok repos T'"
proof -
  define T1 where "T1 = (if it_Seqs T (is_RepoAt i) = None then T\<lparr>it_Seqs := (it_Seqs T)(is_RepoAt i \<mapsto> 1)\<rparr> else T)"
  have "issue_rows_ok repos (it_Seqs T1) (it_Issues T)"
    by (rule issue_rows_ok_mono [of repos "it_Seqs T"]) (use assms(1) in \<open>auto simp: issues_ok_def T1_def\<close>)
  moreover have "it_Issues T1 = it_Issues T" "it_Comments T1 = it_Comments T" "it_Refs T1 = it_Refs T"
    by (simp_all add: T1_def)
  ultimately have ok: "issues_ok repos T1" using assms(1) by (simp add: issues_ok_def)
  have "createNewIssue repos i T1 = Some T' \<or> updateIssue now i T1 = Some T' \<or> T' = T1"
    using assms(2) unfolding PutIssue_def Let_def T1_def [symmetric] by (auto split: list.splits if_splits)
  then show ?thesis using createNewIssue_ok [OF ok _ assms(3,4)] updateIssue_ok [OF ok _ assms(3,4)] ok by blast
qed

lemma DeleteIssues_ok:
  assumes "issues_ok repos T"
  shows "issues_ok repos (DeleteIssues did rkey T)"
proof -
  let ?gone = "\<lambda>i. iw_Did i = did \<and> iw_Rkey i = rkey"
  have "issue_rows_ok repos (it_Seqs T) (delete_where ?gone (it_Issues T))"
    using assms by (simp add: issues_ok_def issue_rows_ok_def issues.delete_unclashed)
  moreover have "comments_ok (delete_where ?gone (it_Issues T))
      (delete_where (\<lambda>c. cw_IssueAt c \<in> set (map issue_at (filter ?gone (it_Issues T)))) (it_Comments T))"
    using assms by (auto simp: issues_ok_def comments_ok_def comments.delete_unclashed)
  moreover have "distinct (deleteReferences u (it_Refs T))" for u
    using assms by (simp add: issues_ok_def deleteReferences_def delete_where_def)
  ultimately show ?thesis by (simp add: issues_ok_def DeleteIssues_def Let_def)
qed

lemma ValidateIssue_None: "ValidateIssue sd sf title body = None \<Longrightarrow> title \<noteq> [] \<and> body \<noteq> []"
  by (auto simp: ValidateIssue_def split: if_splits)

lemma ingestIssue_ok: "tables_ok st \<Longrightarrow> tables_ok (fst (ingestIssue E ev st))"
  using PutIssue_ok [OF tables_okD(3)]
  by (auto simp: ingestIssue_def Let_def tables_ok_simps DeleteIssues_ok tables_okD(3) dest!: ValidateIssue_None split: sum.split option.split)

lemma AddIssueComment_ok:
  assumes "issues_ok repos T" "AddIssueComment now c T = Some T'"
  shows "issues_ok repos T'"
proof -
  obtain rows refs where at: "ic_IssueAt c \<in> set (map issue_at (it_Issues T))"
    and up: "upsert_row comment_same comment_clash (comment_update now) (it_Comments T) (comment_row c) = Some rows"
    and put: "putReferences (IssueComment_AtUri c) (ic_References c) (it_Refs T) = Some refs"
    and T': "T' = T\<lparr>it_Comments := rows, it_Refs := refs\<rparr>"
    using assms(2) by (auto simp: AddIssueComment_def split: if_splits option.splits)
  have "unclashed comment_clash rows"
    by (rule comments.upsert_unclashed [OF _ up])
      (use assms(1) in \<open>auto simp: issues_ok_def comments_ok_def comment_clash_def comment_same_def comment_at_def comment_update_def\<close>)
  moreover have "cw_IssueAt x \<in> set (map issue_at (it_Issues T))" if "x \<in> set rows" for x
  proof -
    from set_upsert_row [OF up] that
    consider "x = comment_row c" | "x \<in> set (it_Comments T)" | y where "x = comment_update now y (comment_row c)" by blast
    then show ?thesis
      using at assms(1) by cases (simp_all add: issues_ok_def comments_ok_def comment_row_def comment_update_def)
  qed
  ultimately have "comments_ok (it_Issues T) rows" by (simp add: comments_ok_def)
  moreover have "distinct refs" using putReferences_distinct [OF put] assms(1) by (simp add: issues_ok_def)
  ultimately show ?thesis using assms(1) by (simp add: issues_ok_def T')
qed

lemma DeleteIssueComments_ok:
  assumes "issues_ok repos T"
  shows "issues_ok repos (T\<lparr>it_Comments := DeleteIssueComments now (it_Comments T) did k\<rparr>)"
proof -
  have "unclashed comment_clash (DeleteIssueComments now (it_Comments T) did k)"
    unfolding DeleteIssueComments_def
    by (rule comments.update_unclashed)
      (use assms in \<open>auto simp: issues_ok_def comments_ok_def comment_clash_def comment_same_def comment_at_def\<close>)
  moreover have "\<exists>c' \<in> set (it_Comments T). cw_IssueAt c = cw_IssueAt c'"
    if "c \<in> set (DeleteIssueComments now (it_Comments T) did k)" for c
    using that by (auto simp: DeleteIssueComments_def update_where_def)
  ultimately have "comments_ok (it_Issues T) (DeleteIssueComments now (it_Comments T) did k)"
    using assms unfolding issues_ok_def comments_ok_def by metis
  then show ?thesis using assms by (simp add: issues_ok_def)
qed

lemma ingestIssueComment_ok: "tables_ok st \<Longrightarrow> tables_ok (fst (ingestIssueComment E ev st))"
  using AddIssueComment_ok [OF tables_okD(3)]
  by (auto simp: ingestIssueComment_def tables_ok_simps DeleteIssueComments_ok tables_okD(3) split: sum.split option.split)

subsection \<open>Labels\<close>

lemma AddLabelDefinition_ok:
  assumes "labels_ok T" "AddLabelDefinition (lt_Defs T) l = Some rows" "labelNameRegex (ld_Name l)" "length (ld_Name l) \<le> 40"
  shows "labels_ok (T\<lparr>lt_Defs := rows\<rparr>)"
proof -
  have up: "upsert_row labeldef_same labeldef_clash labeldef_update (lt_Defs T) (labeldef_row l) = Some rows"
    using assms(2) by (simp add: AddLabelDefinition_def split: if_splits)
  have "unclashed labeldef_clash rows"
    by (rule labeldefs.upsert_unclashed [OF _ up])
      (use assms(1) in \<open>auto simp: labels_ok_def labeldef_clash_def labeldef_same_def labeldef_at_def labeldef_update_def\<close>)
  moreover have "labelNameRegex (dr_Name d) \<and> length (dr_Name d) \<le> 40" if "d \<in> set rows" for d
  proof -
    from set_upsert_row [OF up] that
    consider "d = labeldef_row l" | "d \<in> set (lt_Defs T)" | y where "d = labeldef_update y (labeldef_row l)" by blast
    then show ?thesis
      using assms(1,3,4) by cases (simp_all add: labels_ok_def labeldef_row_def labeldef_update_def)
  qed
  moreover have "set (map labeldef_at (lt_Defs T)) \<subseteq> set (map labeldef_at rows)"
  proof (cases "list_ex (labeldef_same (labeldef_row l)) (lt_Defs T)")
    case True
    then have "rows = map (\<lambda>x. if labeldef_same (labeldef_row l) x then labeldef_update x (labeldef_row l) else x) (lt_Defs T)"
      using up by (simp add: upsert_row_def)
    then have "map labeldef_at rows = map labeldef_at (lt_Defs T)" by (simp add: labeldef_at_def labeldef_update_def)
    then show ?thesis by simp
  next
    case False
    then have "insert_row labeldef_clash (lt_Defs T) (labeldef_row l) = Some rows" using up by (simp add: upsert_row_def)
    from set_insert_row [OF this] show ?thesis by auto
  qed
  ultimately show ?thesis using assms(1) unfolding labels_ok_def by auto
qed

lemma DeleteLabelDefinition_ok:
  assumes "labels_ok T"
  shows "labels_ok (DeleteLabelDefinition T did k)"
proof -
  have key: "u \<in> labeldef_at ` {d \<in> set (lt_Defs T). dr_Did d = did \<longrightarrow> dr_Rkey d \<noteq> k}"
    if "u \<in> labeldef_at ` set (lt_Defs T)" "u \<notin> labeldef_at ` {d \<in> set (lt_Defs T). dr_Did d = did \<and> dr_Rkey d = k}" for u
    using that by blast
  show ?thesis
    using assms
    by (simp add: labels_ok_def DeleteLabelDefinition_def Let_def labeldefs.delete_unclashed labelops.delete_unclashed)
      (blast intro: key)
qed

lemma ValidateLabelDefinition_name:
  assumes "ValidateLabelDefinition n q l = Inr l'"
  shows "labelNameRegex (ld_Name l') \<and> length (ld_Name l') \<le> 40"
proof -
  obtain c where "l' = l\<lparr>ld_Color := c\<rparr>" using ValidateLabelDefinition_color [OF assms] by blast
  then show ?thesis using ValidateLabelDefinition_Inr [OF assms] by (simp add: shape_ok_def)
qed

lemma ingestLabelDefinition_ok: "tables_ok st \<Longrightarrow> tables_ok (fst (ingestLabelDefinition E ev st))"
  using AddLabelDefinition_ok [OF tables_okD(4)]
  by (auto simp: ingestLabelDefinition_def tables_ok_simps DeleteLabelDefinition_ok tables_okD(4)
      dest: ValidateLabelDefinition_name split: sum.split option.split)

lemma AddLabelOp_ok:
  assumes "labels_ok T" "AddLabelOp now T op = Some T'"
  shows "labels_ok T'"
proof -
  let ?op = "op\<lparr>lo_PerformedAt := to_second (lo_PerformedAt op), lo_IndexedAt := to_second now\<rparr>"
  obtain rows where k: "lo_OperandKey op \<in> set (map labeldef_at (lt_Defs T))" and T': "T' = T\<lparr>lt_Ops := rows\<rparr>"
    and up: "upsert_row labelop_same labelop_same labelop_update (lt_Ops T) ?op = Some rows"
    using assms(2) by (auto simp: AddLabelOp_def split: if_splits)
  have "unclashed labelop_same rows"
  proof (cases "list_ex (labelop_same ?op) (lt_Ops T)")
    case True
    have "rows = update_where (labelop_same ?op) (\<lambda>x. labelop_update x ?op) (lt_Ops T)"
      using True up by (simp add: upsert_row_def update_where_def)
    moreover have "(if labelop_same ?op x then labelop_update x ?op else x) =
        (if labelop_same ?op x then x\<lparr>lo_Operation := lo_Operation op, lo_PerformedAt := lo_PerformedAt ?op, lo_IndexedAt := lo_IndexedAt ?op\<rparr> else x)" for x
      by (simp add: labelop_same_def labelop_update_def)
    ultimately have "rows = update_where (labelop_same ?op)
        (\<lambda>x. x\<lparr>lo_Operation := lo_Operation op, lo_PerformedAt := lo_PerformedAt ?op, lo_IndexedAt := lo_IndexedAt ?op\<rparr>) (lt_Ops T)"
      by (simp only: update_where_def)
    then show ?thesis
      using labelops.update_unclashed [of "lt_Ops T" "\<lambda>x. x\<lparr>lo_Operation := lo_Operation op, lo_PerformedAt := lo_PerformedAt ?op, lo_IndexedAt := lo_IndexedAt ?op\<rparr>"] assms(1)
      by (simp add: labels_ok_def labelop_same_def)
  next
    case False
    then show ?thesis using up assms(1) labelops.insert_row_unclashed by (auto simp: upsert_row_def labels_ok_def)
  qed
  moreover have "lo_OperandKey x \<in> set (map labeldef_at (lt_Defs T))" if "x \<in> set rows" for x
  proof -
    from set_upsert_row [OF up] that
    consider "x = ?op" | "x \<in> set (lt_Ops T)" | y where "x = labelop_update y ?op" "labelop_same ?op y" by blast
    then show ?thesis
      using k assms(1) by cases (simp_all add: labels_ok_def labelop_same_def labelop_update_def)
  qed
  ultimately show ?thesis using assms(1) by (simp add: labels_ok_def T')
qed

lemma add_labelops_ok: "labels_ok T \<Longrightarrow> add_labelops now ops T = Some T' \<Longrightarrow> labels_ok T'"
  by (induction ops arbitrary: T) (auto dest: AddLabelOp_ok split: option.splits)

lemma ingestLabelOp_ok: "tables_ok st \<Longrightarrow> tables_ok (fst (ingestLabelOp C E ev st))"
  using add_labelops_ok [OF tables_okD(4)]
  by (auto simp: ingestLabelOp_def Let_def tables_ok_simps split: sum.split option.split)

subsection \<open>Every event\<close>

lemmas handlers_ok = ingestStar_ok ingestFollow_ok ingestPublicKey_ok ingestArtifact_ok ingestProfile_ok ingestServers_ok
  ingestString_ok ingestIssue_ok ingestIssueComment_ok ingestLabelDefinition_ok ingestLabelOp_ok

lemma ingest_event_ok: "tables_ok st \<Longrightarrow> tables_ok (fst (ingest_event C E ev st))"
  by (simp add: ingest_event_def ingest_commit_def Let_def handlers_ok split: prod.split bool.split option.split)

lemma Ingest_ok:
  assumes "tables_ok st"
  shows "tables_ok (Ingest C E ev st)"
  using ingest_event_ok [OF assms, of C E ev] assms
  by (cases "ingest_event C E ev st") (simp add: Ingest_def tables_ok_def)

text \<open>The appview filters no DIDs.\<close>

interpretation firehose: ingester "\<lambda>_. {}" "Ingest C E" tables_ok for C E
  by unfold_locales (rule Ingest_ok)


definition closed_casbin :: "(rule list \<times> grouping list, string) Casbin" where
  "closed_casbin =
     \<lparr>AddPolicies = (\<lambda>_ _. Inl ''closed''), RemovePolicies = (\<lambda>_ _. Inl ''closed''), AddGroupingPolicy = (\<lambda>_ _ _ _. Inl ''closed''),
      RemoveGroupingPolicy = (\<lambda>_ _ _ _. Inl ''closed''), DeleteDomains = (\<lambda>_ _. Inl ''closed''),
      Casbin_GetDomainsForUser = (\<lambda>_ _. Inl ''closed''), GetImplicitUsersForRole = (\<lambda>_ _ _. Inl ''closed''),
      GetImplicitRolesForUser = (\<lambda>_ _ _. Inl ''closed''), GetImplicitUsersForResourceByDomain = (\<lambda>_ _ _. Inl ''closed''),
      GetPermissionsForUserInDomain = (\<lambda>_ _ _. []), Enforce = (\<lambda>_ _ _ _ _. Inr False)\<rparr>"


end
