(* ===== verification/AppView_Records.thy ===== *)
theory AppView_Records
  imports AppView_Tables
begin

text \<open>
  What becomes of the records the ingester of the appview stores: which label definitions come back from
  their rows as they were, who may label an issue, and how deep the replies to a comment are.
\<close>

section \<open>Label definitions\<close>

lemma split_join_iff:
  "(if joinWith [CHR '',''] ts = [] then [] else splitOn CHR '','' (joinWith [CHR '',''] ts)) = ts \<longleftrightarrow>
   (\<forall>t \<in> set ts. CHR '','' \<notin> set t) \<and> ts \<noteq> [[]]"
proof (cases "\<forall>t \<in> set ts. CHR '','' \<notin> set t")
  case True
  have "splitOn CHR '','' (joinWith [CHR '',''] ts) = ts" if "ts \<noteq> []" by (rule splitOn_join [OF that True])
  moreover have "joinWith [CHR '',''] ts = [] \<longleftrightarrow> ts = [] \<or> ts = [[]]"
    by (cases ts; cases "tl ts") (simp_all add: joinWith_Cons)
  ultimately show ?thesis using True by (cases "ts = []"; cases "ts = [[]]") simp_all
next
  case False
  then obtain t where t: "t \<in> set ts" "CHR '','' \<in> set t" by blast
  have "splitOn CHR '','' (joinWith [CHR '',''] ts) \<noteq> ts"
  proof
    assume "splitOn CHR '','' (joinWith [CHR '',''] ts) = ts"
    with t(1) have "t \<in> set (splitOn CHR '','' (joinWith [CHR '',''] ts))" by simp
    from splitOn_no_sep [OF this] t(2) show False by simp
  qed
  moreover have "ts \<noteq> []" using t(1) by auto
  ultimately show ?thesis using False by simp
qed

lemma scope_split:
  assumes "set ss \<subseteq> set validScopes"
  shows "splitOn CHR '','' (joinWith [CHR '',''] ss) = ss \<longleftrightarrow> ss \<noteq> []"
proof (cases "ss = []")
  case False
  have "\<forall>s \<in> set validScopes. CHR '','' \<notin> set s" by (simp add: validScopes_def)
  with assms have "\<forall>s \<in> set ss. CHR '','' \<notin> set s" by blast
  with False show ?thesis using splitOn_join by simp
qed simp

text \<open>
  A label definition that the validator accepts comes back from its row unchanged, but for its number and
  the fraction of a second, exactly if its scope is not empty, no value of its enumeration has a comma
  and the enumeration is not the single empty value.
\<close>

theorem label_definition_roundtrip:
  assumes "ValidateLabelDefinition parseNSID quote l0 = Inr l"
  shows "read_labeldef (labeldef_row l) = l\<lparr>ld_Id := 0, ld_Created := to_second (ld_Created l)\<rparr> \<longleftrightarrow>
    ld_Scope l \<noteq> Some [] \<and> (\<forall>v \<in> set (vt_Enum (ld_ValueType l)). CHR '','' \<notin> set v) \<and> vt_Enum (ld_ValueType l) \<noteq> [[]]"
proof -
  obtain c where l: "l = l0\<lparr>ld_Color := c\<rparr>" using ValidateLabelDefinition_color [OF assms] by blast
  obtain scopes where sc: "ld_Scope l = Some scopes" "set scopes \<subseteq> set validScopes"
    using ValidateLabelDefinition_Inr [OF assms] validate_scopes_subset by (auto simp: shape_ok_def l)
  have "read_labeldef (labeldef_row l) = l\<lparr>ld_Id := 0, ld_Created := to_second (ld_Created l)\<rparr> \<longleftrightarrow>
      (if joinWith [CHR '',''] (vt_Enum (ld_ValueType l)) = [] then [] else splitOn CHR '','' (joinWith [CHR '',''] (vt_Enum (ld_ValueType l)))) =
        vt_Enum (ld_ValueType l) \<and> splitOn CHR '','' (joinWith [CHR '',''] scopes) = scopes"
    unfolding read_labeldef_def labeldef_row_def sc(1) option.case
    by (cases l; cases "ld_ValueType l") (use sc(1) in auto)
  then show ?thesis unfolding split_join_iff scope_split [OF sc(2)] sc(1) by auto
qed

definition enum_label :: "string list \<Rightarrow> LabelDefinition" where
  "enum_label vs = (sample_def False)\<lparr>ld_Id := 0, ld_ValueType := \<lparr>vt_Type = ''string'', vt_Format = ''any'', vt_Enum = vs\<rparr>,
     ld_Scope := Some [RepoIssueNSID], ld_Color := None, ld_Created := 0\<rparr>"

theorem label_definition_roundtrip_witness:
  "ld_ValueType (read_labeldef (labeldef_row (enum_label [''low'', ''high'']))) = ld_ValueType (enum_label [''low'', ''high'']) \<and>
   read_labeldef (labeldef_row (enum_label [''now, please''])) \<noteq> enum_label [''now, please'']"
proof -
  have ok: "ValidateLabelDefinition (\<lambda>_. Inr ()) id (enum_label vs) = Inr (enum_label vs)" if "vs = [''low'', ''high''] \<or> vs = [''now, please'']" for vs
    using that by (elim disjE) (simp_all only:, code_simp+)
  have "read_labeldef (labeldef_row (enum_label [''low'', ''high''])) = enum_label [''low'', ''high'']"
    using label_definition_roundtrip [OF ok [of "[''low'', ''high'']"]] by (simp add: enum_label_def sample_def_def to_second_def)
  moreover have "read_labeldef (labeldef_row (enum_label [''now, please''])) \<noteq> enum_label [''now, please'']"
    using label_definition_roundtrip [OF ok [of "[''now, please'']"]] by (simp add: enum_label_def sample_def_def to_second_def)
  ultimately show ?thesis by simp
qed

text \<open>An update keeps the value type: a marker label that becomes a text label of many values is stored as a
  marker label of many values, which the validator does not accept.\<close>

lemma label_update_keeps_value_type:
  "AddLabelDefinition [labeldef_row (enum_label [])\<lparr>dr_ValueType := ''null''\<rparr>] (enum_label []\<lparr>ld_Multiple := True\<rparr>) =
   Some [labeldef_row (enum_label [])\<lparr>dr_ValueType := ''null'', dr_Multiple := True\<rparr>]"
  by code_simp

section \<open>Who may label an issue\<close>

lemma validate_labelops_sound:
  assumes "validate_labelops C E s defs repo ops = None" "op \<in> set ops"
  shows "push_allowed C E s (lo_Did op) repo = Inr True \<and> defs (lo_OperandKey op) \<noteq> None"
  using assms
proof (induction ops)
  case (Cons o' ops)
  then obtain def res where def: "defs (lo_OperandKey o') = Some def"
    and res: "ValidateLabelOp (app_validator E) C s (Some def)
        (Some \<lparr>lrp_Knot = re_Knot repo, lrp_DidSlashRepo = fst (ae_join E (re_Did repo) (re_Name repo))\<rparr>) (Some o') = Inr res"
    and rest: "validate_labelops C E s defs repo ops = None"
    by (auto split: option.splits sum.splits)
  have "push_allowed C E s (lo_Did o') repo = Inr True"
    using res by (auto simp: ValidateLabelOp_def push_allowed_def IsPushAllowed_def split: sum.splits bool.splits)
  with Cons.IH [OF rest] Cons.prems(2) def show ?case by auto
qed simp

lemma NewLabelApplicationCtx_dom: "NewLabelApplicationCtx P rows k \<noteq> None \<Longrightarrow> \<exists>d \<in> set rows. P d \<and> labeldef_at d = k"
proof -
  have "foldl (\<lambda>defs l. defs(LabelDefinition_AtUri l \<mapsto> l)) m ls k \<noteq> None \<Longrightarrow> m k \<noteq> None \<or> (\<exists>l \<in> set ls. LabelDefinition_AtUri l = k)"
    for m and ls :: "LabelDefinition list"
    by (induction ls arbitrary: m) (fastforce split: if_splits)+
  moreover have "LabelDefinition_AtUri (read_labeldef d) = labeldef_at d" for d
    by (simp add: LabelDefinition_AtUri_def read_labeldef_def labeldef_at_def at_uri_def)
  ultimately show "NewLabelApplicationCtx P rows k \<noteq> None \<Longrightarrow> \<exists>d \<in> set rows. P d \<and> labeldef_at d = k"
    unfolding NewLabelApplicationCtx_def GetLabelDefinitions_def by fastforce
qed

lemma labelop_repo_Some:
  assumes "labelop_repo E st subject = Some repo"
  shows "\<exists>i \<in> set (it_Issues (av_Issues st)). issue_at i = subject \<and> RepoAt repo = iw_RepoAt i \<and> repo \<in> set (av_Repos st)"
proof -
  from assms obtain i where i: "GetIssues (av_Repos st) (\<lambda>i. issue_at i = subject) (av_Issues st) = [i]"
    and r: "find (\<lambda>r. RepoAt r = iw_RepoAt i) (av_Repos st) = Some repo"
    by (auto simp: labelop_repo_def GetRepoByAtUri_def split: list.splits)
  from i have "i \<in> set (GetIssues (av_Repos st) (\<lambda>i. issue_at i = subject) (av_Issues st))" by simp
  with r show ?thesis by (auto simp: GetIssues_def find_Some_iff)
qed

lemma add_labelops_rows:
  "add_labelops now ops T = Some T' \<Longrightarrow> op \<in> set (lt_Ops T') - set (lt_Ops T) \<Longrightarrow>
   \<exists>o' \<in> set ops. labelop_same o' op"
proof (induction ops arbitrary: T)
  case (Cons o' ops)
  then obtain T1 where T1: "AddLabelOp now T o' = Some T1" "add_labelops now ops T1 = Some T'" by (auto split: option.splits)
  show ?case
  proof (cases "op \<in> set (lt_Ops T1)")
    case True
    let ?o = "o'\<lparr>lo_PerformedAt := to_second (lo_PerformedAt o'), lo_IndexedAt := to_second now\<rparr>"
    obtain rows where up: "upsert_row labelop_same labelop_same labelop_update (lt_Ops T) ?o = Some rows" and "lt_Ops T1 = rows"
      using T1(1) by (auto simp: AddLabelOp_def split: if_splits)
    with True Cons.prems(2) set_upsert_row [OF up] consider "op = ?o" | y where "op = labelop_update y ?o" "labelop_same ?o y" by blast
    then have "labelop_same o' op" by cases (auto simp: labelop_same_def labelop_update_def)
    then show ?thesis by simp
  next
    case False
    with Cons.IH [OF T1(2)] Cons.prems(2) show ?thesis by auto
  qed
qed simp

definition may_label :: "('s, string) Casbin \<Rightarrow> AppEnv \<Rightarrow> 's AppState \<Rightarrow> LabelOp \<Rightarrow> bool" where
  "may_label C E st op \<longleftrightarrow>
     (\<exists>i \<in> set (it_Issues (av_Issues st)). \<exists>repo \<in> set (av_Repos st). issue_at i = lo_Subject op \<and> RepoAt repo = iw_RepoAt i \<and>
        push_allowed C E (av_Policy st) (lo_Did op) repo = Inr True \<and> lo_OperandKey op \<in> set (re_Labels repo) \<and>
        lo_OperandKey op \<in> labeldef_at ` set (lt_Defs (av_Labels st)))"

lemma ingestLabelOp_rows:
  assumes "op \<in> set (lt_Ops (av_Labels (fst (ingestLabelOp C E ev st)))) - set (lt_Ops (av_Labels st))"
  shows "lo_Did op = je_Did ev \<and> may_label C E st op"
proof -
  from assms have changed: "av_Labels (fst (ingestLabelOp C E ev st)) \<noteq> av_Labels st" by auto
  then obtain r repo T where repo: "labelop_repo E st (or_Subject r) = Some repo"
    and v: "validate_labelops C E (av_Policy st) (NewLabelApplicationCtx (\<lambda>d. labeldef_at d \<in> set (re_Labels repo)) (lt_Defs (av_Labels st))) repo
        (LabelOpsFromRecord (ae_parseTime E RFC3339) (ae_now E) (je_Did ev) (je_RKey ev) r) = None"
    and add: "add_labelops (ae_now E) (LabelOpsFromRecord (ae_parseTime E RFC3339) (ae_now E) (je_Did ev) (je_RKey ev) r) (av_Labels st) = Some T"
    and T: "av_Labels (fst (ingestLabelOp C E ev st)) = T"
    unfolding ingestLabelOp_def Let_def by (auto split: if_splits sum.splits option.splits)
  obtain o' where o': "o' \<in> set (LabelOpsFromRecord (ae_parseTime E RFC3339) (ae_now E) (je_Did ev) (je_RKey ev) r)" and same: "labelop_same o' op"
    using add_labelops_rows [OF add] assms unfolding T by blast
  have subj: "lo_Subject o' = or_Subject r" using o' by (auto simp: LabelOpsFromRecord_def Let_def mkOp_def)
  note d = LabelOpsFromRecord_did [OF o'] and vs = validate_labelops_sound [OF v o']
  obtain i where i: "i \<in> set (it_Issues (av_Issues st))" "issue_at i = or_Subject r" "RepoAt repo = iw_RepoAt i" "repo \<in> set (av_Repos st)"
    using labelop_repo_Some [OF repo] by blast
  obtain def where "def \<in> set (lt_Defs (av_Labels st))" "labeldef_at def \<in> set (re_Labels repo)" "labeldef_at def = lo_OperandKey o'"
    using NewLabelApplicationCtx_dom [OF conjunct2 [OF vs]] by blast
  then have key: "lo_OperandKey op \<in> set (re_Labels repo)" "lo_OperandKey op \<in> labeldef_at ` set (lt_Defs (av_Labels st))"
    using same by (auto simp: labelop_same_def intro: rev_image_eqI)
  have "lo_Did op = je_Did ev" "lo_Subject op = or_Subject r" "push_allowed C E (av_Policy st) (lo_Did op) repo = Inr True"
    using same subj d vs by (auto simp: labelop_same_def)
  with i key show ?thesis unfolding may_label_def by metis
qed

lemma other_handlers_ops:
  "av_Labels (fst (ingestStar E ev st)) = av_Labels st" "av_Labels (fst (ingestFollow E ev st)) = av_Labels st"
  "av_Labels (fst (ingestPublicKey E ev st)) = av_Labels st" "av_Labels (fst (ingestArtifact C E ev st)) = av_Labels st"
  "av_Labels (fst (ingestProfile E ev st)) = av_Labels st" "av_Labels (fst (ingestString E ev st)) = av_Labels st"
  "av_Labels (fst (ingestIssue E ev st)) = av_Labels st" "av_Labels (fst (ingestIssueComment E ev st)) = av_Labels st"
  "av_Labels (fst (ingestKnotMember C E ev st)) = av_Labels st"
  by (simp_all add: ingestStar_def ingestFollow_def ingestPublicKey_def ingestArtifact_def ingestProfile_def ingestString_def
      ingestIssue_def ingestIssueComment_def ingestKnotMember_def Let_def split: sum.split option.split bool.split)

lemma server_handlers_ops:
  "av_Labels (fst (ingestSpindleMember C E ev st)) = av_Labels st" "av_Labels (fst (ingestSpindle C E ev st)) = av_Labels st"
  "av_Labels (fst (ingestKnot C E ev st)) = av_Labels st"
  by (auto simp: ingestSpindleMember_def ingestSpindle_def ingestKnot_def MarkSpindleVerified_def MarkKnotVerified_def Let_def
      load_policy_def save_policy_def split: sum.split option.split list.split)

lemma ingestLabelDefinition_ops: "set (lt_Ops (av_Labels (fst (ingestLabelDefinition E ev st)))) \<subseteq> set (lt_Ops (av_Labels st))"
  by (auto simp: ingestLabelDefinition_def DeleteLabelDefinition_def Let_def split: sum.split option.split)

text \<open>
  A label operation enters the table only from somebody who may push to the repository of the issue it is
  about, under his own name, and only for a label that exists and that the repository subscribes to.
\<close>

theorem label_ops_need_push:
  assumes "op \<in> set (lt_Ops (av_Labels (Ingest C E ev st)))" "op \<notin> set (lt_Ops (av_Labels st))"
  shows "lo_Did op = je_Did ev \<and> may_label C E st op"
proof -
  have new: "op \<in> set (lt_Ops (av_Labels (fst (ingest_event C E ev st)))) - set (lt_Ops (av_Labels st))"
    using assms by (cases "ingest_event C E ev st") (auto simp: Ingest_def split: if_splits)
  have "av_Labels (fst (ingest_event C E ev st)) = av_Labels st \<or>
      ingest_event C E ev st = ingestLabelDefinition E ev st \<or> ingest_event C E ev st = ingestLabelOp C E ev st"
    by (simp add: ingest_event_def ingest_commit_def Let_def other_handlers_ops server_handlers_ops split: prod.split bool.split option.split)
  then have "ingest_event C E ev st = ingestLabelOp C E ev st"
    using new ingestLabelDefinition_ops [of E ev st] by auto
  then show ?thesis using new ingestLabelOp_rows [of op C E ev st] by simp
qed

definition label_app :: "(rule list \<times> grouping list) AppState" where
  "label_app = sample_app
     \<lparr>av_Repos := [\<lparr>re_Did = ''did:plc:ann'', re_Rkey = ''r1'', re_Name = ''app'', re_Knot = ''knot.example'',
        re_Labels = [''at://did:plc:a/sh.tangled.label.definition/r'']\<rparr>],
      av_Labels := \<lparr>lt_Defs = [labeldef_row (enum_label [''low'', ''high''])], lt_Ops = []\<rparr>\<rparr>"

definition label_env :: AppEnv where
  "label_env = sample_app_env\<lparr>ae_LabelOp := (\<lambda>r. Inr \<lparr>or_Add = [Some \<lparr>od_Key = ''at://did:plc:a/sh.tangled.label.definition/r'', od_Value = r\<rparr>],
     or_Delete = [], or_PerformedAt = [], or_Subject = ''at://did:plc:ann/sh.tangled.repo.issue/i1''\<rparr>)\<rparr>"

definition open_casbin :: "(rule list \<times> grouping list, string) Casbin" where
  "open_casbin = closed_casbin\<lparr>Enforce := \<lambda>_ _ _ _ _. Inr True\<rparr>"

theorem label_ops_need_push_witness:
  "let st = Ingest open_casbin label_env (sample_event ''did:plc:ann'' RepoIssueNSID ''create'' ''i1'' ''title'') label_app;
       st' = Ingest open_casbin label_env (sample_event ''did:plc:ann'' LabelOpNSID ''create'' ''op'' ''high'') st
   in \<exists>op \<in> set (lt_Ops (av_Labels st')). lo_OperandValue op = ''high'' \<and> lo_Did op = ''did:plc:ann'' \<and> may_label open_casbin label_env st op"
proof -
  let ?st = "Ingest open_casbin label_env (sample_event ''did:plc:ann'' RepoIssueNSID ''create'' ''i1'' ''title'') label_app"
  let ?ev = "sample_event ''did:plc:ann'' LabelOpNSID ''create'' ''op'' ''high''"
  have old: "lt_Ops (av_Labels ?st) = []" by code_simp
  have "map lo_OperandValue (lt_Ops (av_Labels (Ingest open_casbin label_env ?ev ?st))) = [''high'']" by code_simp
  then obtain op where op: "op \<in> set (lt_Ops (av_Labels (Ingest open_casbin label_env ?ev ?st)))" "lo_OperandValue op = ''high''"
    by (cases "lt_Ops (av_Labels (Ingest open_casbin label_env ?ev ?st))") auto
  have "op \<notin> set (lt_Ops (av_Labels ?st))" by (simp add: old)
  from label_ops_need_push [OF op(1) this] op have "lo_OperandValue op = ''high'' \<and> lo_Did op = ''did:plc:ann'' \<and> may_label open_casbin label_env ?st op"
    by (simp add: sample_event_def)
  with op(1) show ?thesis unfolding Let_def by blast
qed

section \<open>How deep replies are\<close>

text \<open>Every reply answers a stored comment that is not itself a reply.\<close>

definition threads_ok :: "CommentRow list \<Rightarrow> bool" where
  "threads_ok rows \<longleftrightarrow>
     (\<forall>c \<in> set rows. \<forall>p. cw_ReplyTo c = Some p \<longrightarrow> (\<exists>q \<in> set rows. comment_at q = p \<and> cw_ReplyTo q = None))"

lemma threads_ok_map:
  assumes "threads_ok rows" "\<And>c. comment_at (f c) = comment_at c \<and> cw_ReplyTo (f c) = cw_ReplyTo c"
  shows "threads_ok (map f rows)"
  using assms unfolding threads_ok_def by (simp add: image_iff)

lemma threads_ok_snoc:
  assumes "threads_ok rows" "\<forall>p. cw_ReplyTo c = Some p \<longrightarrow> (\<exists>q \<in> set rows. comment_at q = p \<and> cw_ReplyTo q = None)"
  shows "threads_ok (rows @ [c])"
  using assms unfolding threads_ok_def by auto

lemma ValidateIssueComment_parent:
  assumes "ValidateIssueComment (parent_comments rows) sd (Some p) body = None"
  shows "\<exists>q \<in> set rows. comment_at q = p \<and> cw_ReplyTo q = None"
proof -
  let ?found = "filter (\<lambda>c. comment_at c = p) rows"
  have "?found \<noteq> [] \<and> cw_ReplyTo (last ?found) = None"
    using assms by (auto simp: ValidateIssueComment_def parent_comments_def comments_at_def Let_def split: if_splits)
  moreover from this have "last ?found \<in> set ?found" by (intro last_in_set) simp
  ultimately show ?thesis by auto
qed

lemma AddIssueComment_threads:
  assumes "threads_ok (it_Comments T)" "AddIssueComment now c T = Some T'"
    and "\<forall>p. ic_ReplyTo c = Some p \<longrightarrow> (\<exists>q \<in> set (it_Comments T). comment_at q = p \<and> cw_ReplyTo q = None)"
  shows "threads_ok (it_Comments T')"
proof -
  obtain rows where up: "upsert_row comment_same comment_clash (comment_update now) (it_Comments T) (comment_row c) = Some rows"
    and T': "it_Comments T' = rows"
    using assms(2) by (auto simp: AddIssueComment_def split: if_splits option.splits)
  show ?thesis
  proof (cases "list_ex (comment_same (comment_row c)) (it_Comments T)")
    case True
    then have "rows = map (\<lambda>x. if comment_same (comment_row c) x then comment_update now x (comment_row c) else x) (it_Comments T)"
      using up by (simp add: upsert_row_def)
    then show ?thesis unfolding T' by (simp only:) (rule threads_ok_map [OF assms(1)], simp add: comment_at_def comment_update_def)
  next
    case False
    then have "rows = it_Comments T @ [comment_row c]"
      using up by (simp add: upsert_row_def insert_row_def split: if_splits)
    then show ?thesis unfolding T' using threads_ok_snoc [OF assms(1)] assms(3) by (simp add: comment_row_def)
  qed
qed

lemma DeleteIssueComments_threads: "threads_ok rows \<Longrightarrow> threads_ok (DeleteIssueComments now rows did k)"
  unfolding DeleteIssueComments_def update_where_def by (rule threads_ok_map) (simp_all add: comment_at_def)

lemma PutIssue_comments: "PutIssue now repos i T = Some T' \<Longrightarrow> it_Comments T' = it_Comments T"
  by (auto simp: PutIssue_def createNewIssue_def updateIssue_def Let_def split: list.splits if_splits option.splits)

lemma ingestIssue_threads:
  assumes "threads_ok (it_Comments (av_Issues st))" "\<not> is_delete ev"
  shows "threads_ok (it_Comments (av_Issues (fst (ingestIssue E ev st))))"
  using assms by (auto simp: ingestIssue_def Let_def PutIssue_comments split: sum.split option.split)

lemma ingestIssueComment_threads:
  assumes "threads_ok (it_Comments (av_Issues st))"
  shows "threads_ok (it_Comments (av_Issues (fst (ingestIssueComment E ev st))))"
proof -
  have "threads_ok (it_Comments T')"
    if "ValidateIssueComment (parent_comments (it_Comments (av_Issues st))) sd (ic_ReplyTo c) body = None" "AddIssueComment now c (av_Issues st) = Some T'"
    for sd c body now T'
    using AddIssueComment_threads [OF assms that(2)] ValidateIssueComment_parent that(1) by (cases "ic_ReplyTo c") auto
  then show ?thesis
    by (auto simp: ingestIssueComment_def DeleteIssueComments_threads assms split: sum.split option.split)
qed

lemma other_handlers_issues:
  "av_Issues (fst (ingestStar E ev st)) = av_Issues st" "av_Issues (fst (ingestFollow E ev st)) = av_Issues st"
  "av_Issues (fst (ingestPublicKey E ev st)) = av_Issues st" "av_Issues (fst (ingestArtifact C E ev st)) = av_Issues st"
  "av_Issues (fst (ingestProfile E ev st)) = av_Issues st" "av_Issues (fst (ingestString E ev st)) = av_Issues st"
  "av_Issues (fst (ingestLabelDefinition E ev st)) = av_Issues st" "av_Issues (fst (ingestLabelOp C E ev st)) = av_Issues st"
  "av_Issues (fst (ingestKnotMember C E ev st)) = av_Issues st"
  by (simp_all add: ingestStar_def ingestFollow_def ingestPublicKey_def ingestArtifact_def ingestProfile_def ingestString_def
      ingestLabelDefinition_def ingestLabelOp_def ingestKnotMember_def Let_def split: sum.split option.split bool.split)

lemma server_handlers_issues:
  "av_Issues (fst (ingestSpindleMember C E ev st)) = av_Issues st" "av_Issues (fst (ingestSpindle C E ev st)) = av_Issues st"
  "av_Issues (fst (ingestKnot C E ev st)) = av_Issues st"
  by (auto simp: ingestSpindleMember_def ingestSpindle_def ingestKnot_def MarkSpindleVerified_def MarkKnotVerified_def Let_def
      load_policy_def save_policy_def split: sum.split option.split list.split)

definition deletes_issue :: "JetEvent \<Rightarrow> bool" where
  "deletes_issue ev \<longleftrightarrow> je_Collection ev = RepoIssueNSID \<and> is_delete ev"

lemma Ingest_threads:
  assumes "threads_ok (it_Comments (av_Issues st))" "\<not> deletes_issue ev"
  shows "threads_ok (it_Comments (av_Issues (Ingest C E ev st)))"
proof -
  have "threads_ok (it_Comments (av_Issues (fst (ingest_event C E ev st))))"
    using assms by (simp add: ingest_event_def ingest_commit_def Let_def other_handlers_issues server_handlers_issues
        ingestIssue_threads ingestIssueComment_threads deletes_issue_def split: prod.split bool.split option.split)
  then show ?thesis using assms(1) by (cases "ingest_event C E ev st") (simp add: Ingest_def)
qed

text \<open>
  As long as no issue is deleted, every stored reply answers a stored comment that is not itself a reply:
  discussions stay two levels deep, whatever comments are created, updated, moved to other issues or deleted.
\<close>

theorem replies_are_one_level:
  assumes "threads_ok (it_Comments (av_Issues st))" "list_all (\<lambda>ev. \<not> deletes_issue ev) evs"
  shows "threads_ok (it_Comments (av_Issues (ingest_all (\<lambda>_. {}) (Ingest C E) evs st)))"
  using assms unfolding ingest_all_def
  by (induction evs arbitrary: st) (simp_all add: withDidFilter_def Ingest_threads)

theorem replies_are_one_level_witness:
  "let st = ingest_all (\<lambda>_. {}) (Ingest closed_casbin sample_app_env)
      [sample_event ''did:plc:ann'' RepoIssueNSID ''create'' ''i1'' ''title'',
       sample_event ''did:plc:bob'' RepoIssueCommentNSID ''create'' ''c1'' [],
       sample_event ''did:plc:ann'' RepoIssueCommentNSID ''create'' ''c2'' ''at://did:plc:bob/sh.tangled.repo.issue.comment/c1'',
       sample_event ''did:plc:bob'' RepoIssueCommentNSID ''create'' ''c3'' ''at://did:plc:ann/sh.tangled.repo.issue.comment/c2'']
      sample_app
   in threads_ok (it_Comments (av_Issues st)) \<and> map cw_Rkey (it_Comments (av_Issues st)) = [''c1'', ''c2'']"
proof -
  let ?evs = "[sample_event ''did:plc:ann'' RepoIssueNSID ''create'' ''i1'' ''title'',
       sample_event ''did:plc:bob'' RepoIssueCommentNSID ''create'' ''c1'' [],
       sample_event ''did:plc:ann'' RepoIssueCommentNSID ''create'' ''c2'' ''at://did:plc:bob/sh.tangled.repo.issue.comment/c1'',
       sample_event ''did:plc:bob'' RepoIssueCommentNSID ''create'' ''c3'' ''at://did:plc:ann/sh.tangled.repo.issue.comment/c2'']"
  have "threads_ok (it_Comments (av_Issues (ingest_all (\<lambda>_. {}) (Ingest closed_casbin sample_app_env) ?evs sample_app)))"
    by (rule replies_are_one_level) (simp_all add: sample_app_def threads_ok_def sample_event_def deletes_issue_def is_delete_def)
  moreover have "map cw_Rkey (it_Comments (av_Issues (ingest_all (\<lambda>_. {}) (Ingest closed_casbin sample_app_env) ?evs sample_app))) = [''c1'', ''c2'']"
    by code_simp
  ultimately show ?thesis by (simp add: Let_def)
qed

text \<open>
  The parent of a reply may belong to another issue, and it goes with its issue. Written again as a reply
  itself, it makes the discussion three levels deep.
\<close>

definition deep_env :: AppEnv where
  "deep_env = sample_app_env\<lparr>ae_Comment := (\<lambda>r. Inr \<lparr>icr_Body = ''text'', icr_CreatedAt = [],
     icr_Issue = (if r = ''first'' then ''at://did:plc:ann/sh.tangled.repo.issue/i1'' else ''at://did:plc:ann/sh.tangled.repo.issue/i2''),
     icr_Mentions = [], icr_References = [],
     icr_ReplyTo = (if r = ''reply'' then Some ''at://did:plc:bob/sh.tangled.repo.issue.comment/p''
       else if r = ''again'' then Some ''at://did:plc:ann/sh.tangled.repo.issue.comment/q'' else None)\<rparr>)\<rparr>"

lemma deleting_an_issue_deepens_replies:
  "map (\<lambda>c. (comment_at c, cw_ReplyTo c)) (it_Comments (av_Issues (ingest_all (\<lambda>_. {}) (Ingest closed_casbin deep_env)
     [sample_event ''did:plc:ann'' RepoIssueNSID ''create'' ''i1'' ''one'',
      sample_event ''did:plc:ann'' RepoIssueNSID ''create'' ''i2'' ''two'',
      sample_event ''did:plc:bob'' RepoIssueCommentNSID ''create'' ''p'' ''first'',
      sample_event ''did:plc:ann'' RepoIssueCommentNSID ''create'' ''c'' ''reply'',
      sample_event ''did:plc:ann'' RepoIssueCommentNSID ''create'' ''q'' ''top'',
      sample_event ''did:plc:ann'' RepoIssueNSID ''delete'' ''i1'' [],
      sample_event ''did:plc:bob'' RepoIssueCommentNSID ''create'' ''p'' ''again''] sample_app))) =
   [(''at://did:plc:ann/sh.tangled.repo.issue.comment/c'', Some ''at://did:plc:bob/sh.tangled.repo.issue.comment/p''),
    (''at://did:plc:ann/sh.tangled.repo.issue.comment/q'', None),
    (''at://did:plc:bob/sh.tangled.repo.issue.comment/p'', Some ''at://did:plc:ann/sh.tangled.repo.issue.comment/q'')]"
  by code_simp

end
