(* ===== verification/Knot_Host.thy ===== *)
theory Knot_Host
  imports Go_Prelude "HOL-Library.State_Monad" "HOL-Library.Word"
begin

text \<open>
  What the packages \<^verbatim>\<open>knotserver/git\<close>, \<^verbatim>\<open>knotserver/pijul\<close> and \<^verbatim>\<open>knotserver/xrpc\<close> use of the machine they
  run on: the file system, the programs \<^verbatim>\<open>git\<close> and \<^verbatim>\<open>pijul\<close>, and the libraries go-git and securejoin.

  None of these is part of the repository. An operation of the code is a state monad over the list of
  the calls made so far that may change the world, oldest first; the argument \<open>H\<close>, a record of type
  \<open>Host\<close>, answers a call from that list and the call itself. Every deterministic world has this form, and
  nothing is assumed about the answers, so what is proved of the calls an operation makes holds
  whatever the world does. Calls that only read are answered and not listed.
\<close>

named_theorems performs_intros

section \<open>Errors\<close>

text \<open>
  Go's errors: a text, one of the package variables that callers compare with, an error of a merge, or
  one of these wrapped with \<^verbatim>\<open>%w\<close> behind or before a text.
\<close>

datatype sentinel = ErrBinaryFile | ErrNoPijulRepo | ErrChannelNotFound | ErrPathNotFound
  | ErrRepositoryAlreadyExists | NoErrAlreadyUpToDate | ErrExist

fun sentinel_text :: "sentinel \<Rightarrow> string" where
  "sentinel_text ErrBinaryFile = ''binary file''"
| "sentinel_text ErrNoPijulRepo = ''not a pijul repository''"
| "sentinel_text ErrChannelNotFound = ''channel not found''"
| "sentinel_text ErrPathNotFound = ''path not found''"
| "sentinel_text ErrRepositoryAlreadyExists = ''repository already exists''"
| "sentinel_text NoErrAlreadyUpToDate = ''already up-to-date''"
| "sentinel_text ErrExist = ''file already exists''"

record ConflictInfo =
  ci_Filename :: string
  ci_Reason :: string

datatype GoError =
    Text string
  | Sentinel sentinel
  | Wrap_after string GoError
  | Wrap_before GoError string
  | ErrMerge (em_Message: string) (em_Conflicts: "ConflictInfo list") (em_HasConflict: bool)
      (em_OtherError: "GoError option")

text \<open>The method \<^verbatim>\<open>Error\<close>.\<close>

fun Error :: "GoError \<Rightarrow> string" where
  "Error (Text t) = t"
| "Error (Sentinel s) = sentinel_text s"
| "Error (Wrap_after t e) = t @ Error e"
| "Error (Wrap_before e t) = Error e @ t"
| "Error (ErrMerge message conflicts hasConflict otherError) =
     (if hasConflict then
        ''merge failed due to conflicts: '' @ message @ '' ('' @ itoa (int (length conflicts)) @ '' conflicts)''
      else (case otherError of
              Some e \<Rightarrow> ''merge failed: '' @ message @ '': '' @ Error e
            | None \<Rightarrow> ''merge failed: '' @ message))"

text \<open>\<^verbatim>\<open>errors.Is\<close> for a package variable and \<^verbatim>\<open>errors.As\<close> for the error of a merge.\<close>

fun errors_Is :: "GoError \<Rightarrow> sentinel \<Rightarrow> bool" where
  "errors_Is (Sentinel s) t \<longleftrightarrow> s = t"
| "errors_Is (Wrap_after _ e) t \<longleftrightarrow> errors_Is e t"
| "errors_Is (Wrap_before e _) t \<longleftrightarrow> errors_Is e t"
| "errors_Is _ t \<longleftrightarrow> False"

fun as_ErrMerge :: "GoError \<Rightarrow> GoError option" where
  "as_ErrMerge (Wrap_after _ e) = as_ErrMerge e"
| "as_ErrMerge (Wrap_before e _) = as_ErrMerge e"
| "as_ErrMerge (ErrMerge m c h oe) = Some (ErrMerge m c h oe)"
| "as_ErrMerge _ = None"

section \<open>Calls that change the world\<close>

text \<open>The methods of go-git's repository, storer and package that the code calls.\<close>

datatype GitCall =
    PlainClone (gc_URL: string) (gc_Branch: string)
  | PlainInit
  | CreateBranch string
  | SetSymbolicReference string string
  | SetHashReference string string
  | RemoveReference string
  | Fetch (fc_RefSpec: string) (fc_Remote: string)
  | SetEncodedObject (se_Commit: string) (se_ChangeId: string)

datatype HostCall =
    Exec (ef_Program: string) (ef_Args: "string list") (ef_Dir: string)
  | MkdirAll string
  | CreateTemp (ct_Name: string)
  | WriteFile (wf_Name: string) (wf_Data: string)
  | CloseFile string
  | MkdirTemp (mt_Name: string)
  | RemoveFile string
  | RemoveAll string
  | GoGit (gg_Path: string) (gg_Call: GitCall)
  | CacheSet string "GoError option"

text \<open>The result of running a program: its standard output and standard error, the error and the standard
  error when it exits with a failure, or the error of starting it.\<close>

datatype Ran = Exited_ok string string | Exited_with (rn_Error: string) (rn_Stderr: string) | Not_started string

text \<open>\<^verbatim>\<open>os.Stat\<close> and its kin: an error is either that the path does not exist or another one.\<close>

datatype stat_error = Not_exist string | Stat_failed string

fun stat_text :: "stat_error \<Rightarrow> string" where
  "stat_text (Not_exist t) = t"
| "stat_text (Stat_failed t) = t"

definition os_IsNotExist :: "stat_error \<Rightarrow> bool" where
  "os_IsNotExist e = (case e of Not_exist _ \<Rightarrow> True | Stat_failed _ \<Rightarrow> False)"

record FileInfo =
  fi_Mode :: "32 word"
  fi_Size :: int

text \<open>\<^verbatim>\<open>fs.FileMode\<close>: bit 31 marks a directory, bit 27 a symbolic link, the low nine bits are permissions.\<close>

definition Mode_IsDir :: "32 word \<Rightarrow> bool" where
  "Mode_IsDir mode = bit mode 31"

record Commit =
  co_Hash :: string
  co_Author :: "string \<times> string"
  co_Committer :: "string \<times> string"
  co_Message :: string
  co_When :: Time

record Host =
  ho_exec :: "HostCall list \<Rightarrow> HostCall \<Rightarrow> Ran"
  ho_do :: "HostCall list \<Rightarrow> HostCall \<Rightarrow> GoError option"
  ho_temp :: "HostCall list \<Rightarrow> string \<Rightarrow> (string, string) result"
  ho_stat :: "HostCall list \<Rightarrow> string \<Rightarrow> (stat_error, FileInfo) result"
  ho_readDir :: "HostCall list \<Rightarrow> string \<Rightarrow> (stat_error, (string \<times> FileInfo option) list) result"
  ho_readFile :: "HostCall list \<Rightarrow> string \<Rightarrow> (stat_error, string) result"
  ho_secureJoin :: "HostCall list \<Rightarrow> string \<Rightarrow> string \<Rightarrow> (string, string) result"
  ho_gitOpen :: "HostCall list \<Rightarrow> string \<Rightarrow> GoError option"
  ho_head :: "HostCall list \<Rightarrow> string \<Rightarrow> (GoError, string \<times> string) result"
  ho_resolveRevision :: "HostCall list \<Rightarrow> string \<Rightarrow> string \<Rightarrow> (GoError, string) result"
  ho_commitObject :: "HostCall list \<Rightarrow> string \<Rightarrow> string \<Rightarrow> (GoError, Commit) result"
  ho_isAncestor :: "HostCall list \<Rightarrow> string \<Rightarrow> string \<Rightarrow> string \<Rightarrow> (GoError, bool) result"
  ho_encode :: "HostCall list \<Rightarrow> string \<Rightarrow> string \<Rightarrow> string \<Rightarrow> (GoError, string) result"
  ho_cache :: "HostCall list \<Rightarrow> string \<Rightarrow> GoError option option"

section \<open>Operations\<close>

type_synonym 'a prog = "(HostCall list, 'a) state"

definition look :: "(HostCall list \<Rightarrow> 'a) \<Rightarrow> 'a prog" where
  "look answer = State (\<lambda>calls. (answer calls, calls))"

definition call :: "HostCall \<Rightarrow> (HostCall list \<Rightarrow> HostCall \<Rightarrow> 'a) \<Rightarrow> 'a prog" where
  "call c answer = State (\<lambda>calls. (answer calls c, calls @ [c]))"

text \<open>
  \<^verbatim>\<open>x, err := m; if err != nil { return fail(err) }; rest(x)\<close>, and the same for an operation that returns
  an error only.
\<close>

definition attempt :: "('s, ('e, 'a) result) state \<Rightarrow> ('e \<Rightarrow> ('s, 'b) state) \<Rightarrow> ('a \<Rightarrow> ('s, 'b) state) \<Rightarrow> ('s, 'b) state" where
  "attempt m fail rest = do { r \<leftarrow> m; case r of Inl e \<Rightarrow> fail e | Inr x \<Rightarrow> rest x }"

definition unless_error :: "('s, 'e option) state \<Rightarrow> ('e \<Rightarrow> ('s, 'b) state) \<Rightarrow> ('s, 'b) state \<Rightarrow> ('s, 'b) state" where
  "unless_error m fail rest = do { r \<leftarrow> m; case r of Some e \<Rightarrow> fail e | None \<Rightarrow> rest }"

abbreviation ret :: "'a \<Rightarrow> ('s, 'a) state" where "ret \<equiv> State_Monad.return"

lemma run_look [simp]: "run_state (look answer) calls = (answer calls, calls)"
  by (simp add: look_def)

lemma run_call [simp]: "run_state (call c answer) calls = (answer calls c, calls @ [c])"
  by (simp add: call_def)

lemma run_attempt:
  "run_state (attempt m fail rest) s =
     (case run_state m s of (r, s') \<Rightarrow> (case r of Inl e \<Rightarrow> run_state (fail e) s' | Inr x \<Rightarrow> run_state (rest x) s'))"
  by (simp add: attempt_def split: prod.split sum.split)

lemma run_unless_error:
  "run_state (unless_error m fail rest) s =
     (case run_state m s of (r, s') \<Rightarrow> (case r of Some e \<Rightarrow> run_state (fail e) s' | None \<Rightarrow> run_state rest s'))"
  by (simp add: unless_error_def split: prod.split option.split)

definition exec_Command :: "Host \<Rightarrow> string \<Rightarrow> string list \<Rightarrow> string \<Rightarrow> Ran prog" where
  "exec_Command H program args dir = call (Exec program args dir) (ho_exec H)"

text \<open>\<^verbatim>\<open>os.CreateTemp\<close> and \<^verbatim>\<open>os.MkdirTemp\<close>: the name is chosen by the system.\<close>

definition make_temp :: "Host \<Rightarrow> string \<Rightarrow> (string \<Rightarrow> HostCall) \<Rightarrow> (string, string) result prog" where
  "make_temp H pattern made = do {
     r \<leftarrow> look (\<lambda>calls. ho_temp H calls pattern);
     case r of
       Inl err \<Rightarrow> ret (Inl err)
     | Inr name \<Rightarrow> do { _ \<leftarrow> call (made name) (\<lambda>_ _. ()); ret (Inr name) }
   }"

definition os_do :: "Host \<Rightarrow> HostCall \<Rightarrow> GoError option prog" where
  "os_do H c = call c (ho_do H)"

section \<open>The calls an operation makes\<close>

text \<open>
  \<open>performs m Q\<close>: whatever the world answers, \<open>m\<close> keeps the list of calls, and its result and the calls it
  adds satisfy \<open>Q\<close>. The rules compute the condition backwards through the combinators, like weakest
  preconditions; the answer to a call is arbitrary.
\<close>

definition performs :: "'a prog \<Rightarrow> ('a \<Rightarrow> HostCall list \<Rightarrow> bool) \<Rightarrow> bool" where
  "performs m Q \<longleftrightarrow> (\<forall>calls. \<exists>new. snd (run_state m calls) = calls @ new \<and> Q (fst (run_state m calls)) new)"

lemma runsD: "performs m Q \<Longrightarrow> \<exists>new. snd (run_state m calls) = calls @ new \<and> Q (fst (run_state m calls)) new"
  by (simp add: performs_def)

lemma performs_new: "performs m Q \<Longrightarrow> run_state m calls = (r, calls @ new) \<Longrightarrow> Q r new"
  by (drule runsD [of _ _ calls]) simp

lemma performs_mono: "performs m Q \<Longrightarrow> (\<And>r new. Q r new \<Longrightarrow> R r new) \<Longrightarrow> performs m R"
  unfolding performs_def by meson

lemma performs_conj: "performs m Q \<Longrightarrow> performs m R \<Longrightarrow> performs m (\<lambda>r new. Q r new \<and> R r new)"
  unfolding performs_def by (metis same_append_eq)

lemma performs_ret [performs_intros]: "Q x [] \<Longrightarrow> performs (ret x) Q"
  by (simp add: performs_def)

lemma performs_look [performs_intros]: "(\<And>x. Q x []) \<Longrightarrow> performs (look answer) Q"
  by (simp add: performs_def)

lemma performs_call [performs_intros]: "(\<And>x. Q x [c]) \<Longrightarrow> performs (call c answer) Q"
  by (simp add: performs_def)

lemma performs_bind [performs_intros]:
  assumes "performs m (\<lambda>x new. performs (f x) (\<lambda>y new'. Q y (new @ new')))"
  shows "performs (State_Monad.bind m f) Q"
  unfolding performs_def
proof
  fix calls
  obtain x mid where m: "run_state m calls = (x, mid)" by fastforce
  from runsD [OF assms, of calls] obtain new where new: "mid = calls @ new"
    "performs (f x) (\<lambda>y new'. Q y (new @ new'))" by (auto simp: m)
  from runsD [OF new(2), of mid] obtain new' where "snd (run_state (f x) mid) = mid @ new'"
    "Q (fst (run_state (f x) mid)) (new @ new')" by auto
  then show "\<exists>new. snd (run_state (State_Monad.bind m f) calls) = calls @ new \<and>
      Q (fst (run_state (State_Monad.bind m f) calls)) new"
    by (simp add: m new)
qed

lemma performs_attempt [performs_intros]:
  assumes "performs m (\<lambda>r new. case r of Inl e \<Rightarrow> performs (fail e) (\<lambda>y new'. Q y (new @ new'))
                               | Inr x \<Rightarrow> performs (rest x) (\<lambda>y new'. Q y (new @ new')))"
  shows "performs (attempt m fail rest) Q"
  unfolding attempt_def by (rule performs_bind, rule performs_mono [OF assms]) (auto split: sum.splits)

lemma performs_unless_error [performs_intros]:
  assumes "performs m (\<lambda>r new. case r of Some e \<Rightarrow> performs (fail e) (\<lambda>y new'. Q y (new @ new'))
                               | None \<Rightarrow> performs rest (\<lambda>y new'. Q y (new @ new')))"
  shows "performs (unless_error m fail rest) Q"
  unfolding unless_error_def by (rule performs_bind, rule performs_mono [OF assms]) (auto split: option.splits)

lemma performs_if [performs_intros]: "(b \<Longrightarrow> performs m Q) \<Longrightarrow> (\<not> b \<Longrightarrow> performs m' Q) \<Longrightarrow> performs (if b then m else m') Q"
  by simp

lemma performs_option [performs_intros]:
  "(v = None \<Longrightarrow> performs m Q) \<Longrightarrow> (\<And>x. v = Some x \<Longrightarrow> performs (f x) Q) \<Longrightarrow>
     performs (case v of None \<Rightarrow> m | Some x \<Rightarrow> f x) Q"
  by (cases v) simp_all

lemma performs_sum [performs_intros]:
  "(\<And>e. v = Inl e \<Longrightarrow> performs (f e) Q) \<Longrightarrow> (\<And>x. v = Inr x \<Longrightarrow> performs (g x) Q) \<Longrightarrow>
     performs (case v of Inl e \<Rightarrow> f e | Inr x \<Rightarrow> g x) Q"
  by (cases v) simp_all

lemma performs_prod [performs_intros]: "(\<And>a b. v = (a, b) \<Longrightarrow> performs (f a b) Q) \<Longrightarrow> performs (case v of (a, b) \<Rightarrow> f a b) Q"
  by (cases v) simp

lemma sum_condition [performs_intros]:
  "(\<And>e. v = Inl e \<Longrightarrow> P e) \<Longrightarrow> (\<And>x. v = Inr x \<Longrightarrow> R x) \<Longrightarrow> (case v of Inl e \<Rightarrow> P e | Inr x \<Rightarrow> R x)"
  by (cases v) simp_all

lemma option_condition [performs_intros]:
  "(v = None \<Longrightarrow> P) \<Longrightarrow> (\<And>x. v = Some x \<Longrightarrow> R x) \<Longrightarrow> (case v of None \<Rightarrow> P | Some x \<Rightarrow> R x)"
  by (cases v) simp_all

lemma performs_exec [performs_intros]: "(\<And>x. Q x [Exec program args dir]) \<Longrightarrow> performs (exec_Command H program args dir) Q"
  by (simp add: exec_Command_def performs_call)

lemma performs_os_do [performs_intros]: "(\<And>x. Q x [c]) \<Longrightarrow> performs (os_do H c) Q"
  by (simp add: os_do_def performs_call)

lemma performs_make_temp [performs_intros]:
  "(\<And>e. Q (Inl e) []) \<Longrightarrow> (\<And>name. Q (Inr name) [made name]) \<Longrightarrow> performs (make_temp H pattern made) Q"
  unfolding make_temp_def by (intro performs_intros) auto

text \<open>An operation that makes no calls.\<close>

definition reads_only :: "'a prog \<Rightarrow> bool" where
  "reads_only m \<longleftrightarrow> (\<forall>calls. snd (run_state m calls) = calls)"

end
