(* ===== verification/Go_Text.thy ===== *)
theory Go_Text
  imports Go_Prelude
begin

text \<open>
  Printing and reading back lines of text: when \<^verbatim>\<open>strings.TrimSpace\<close> leaves a string alone, and what
  \<^verbatim>\<open>bufio.Scanner\<close> finds in a text made of lines.
\<close>

section \<open>White space\<close>

definition trimmed :: "string \<Rightarrow> bool" where
  "trimmed s \<longleftrightarrow> trimSpace s = s"

definition starts_any :: "string list \<Rightarrow> string \<Rightarrow> bool" where
  "starts_any ws s \<longleftrightarrow> (\<exists>w \<in> set ws. w \<noteq> [] \<and> hasPrefix s w)"

lemma strip_any_id: "\<not> starts_any ws s \<Longrightarrow> strip_any ws s = s"
proof -
  assume "\<not> starts_any ws s"
  then have "find (\<lambda>w. w \<noteq> [] \<and> hasPrefix s w) ws = None" by (auto simp: starts_any_def find_None_iff)
  then show ?thesis by (simp add: strip_any.simps [of ws s])
qed

lemma strip_any_not_starts: "\<not> starts_any ws (strip_any ws s)"
  using strip_any_done by (auto simp: starts_any_def)

lemma strip_any_length: "length (strip_any ws s) \<le> length s"
  using strip_any_suffix [of s ws] by (metis le_add2 length_append)

lemma strip_any_same_length: "length (strip_any ws s) = length s \<Longrightarrow> strip_any ws s = s"
  using strip_any_suffix [of s ws] by (metis append_self_conv2 length_append add_eq_self_zero add.commute length_0_conv)

lemma trimmed_iff:
  "trimmed s \<longleftrightarrow> \<not> starts_any space_runes s \<and> \<not> starts_any (map rev space_runes) (rev s)"
proof
  assume t: "trimmed s"
  have "length s \<le> length (strip_any space_runes s)"
    using t strip_any_length [of "map rev space_runes" "rev (strip_any space_runes s)"]
    by (simp add: trimmed_def trimSpace_def) (metis length_rev)
  then have a: "strip_any space_runes s = s"
    using strip_any_length [of space_runes s] by (intro strip_any_same_length) simp
  with t have "strip_any (map rev space_runes) (rev s) = rev s"
    by (simp add: trimmed_def trimSpace_def) (metis rev_rev_ident)
  with a show "\<not> starts_any space_runes s \<and> \<not> starts_any (map rev space_runes) (rev s)"
    by (metis strip_any_not_starts)
qed (simp add: trimmed_def trimSpace_def strip_any_id)

lemma trimSpace_Nil [simp]: "trimSpace [] = []"
  using trimSpace_infix [of "[]"] by simp

lemma trimmed_Nil [simp]: "trimmed []"
  by (simp add: trimmed_def)

lemma trimmed_trimSpace [simp]: "trimmed s \<Longrightarrow> trimSpace s = s"
  by (simp add: trimmed_def)

lemma trimmed_ends:
  assumes "s \<noteq> []" "\<forall>w \<in> set space_runes. hd s \<notin> set w \<and> last s \<notin> set w"
  shows "trimmed s"
proof -
  have "\<not> starts_any space_runes s"
  proof
    assume "starts_any space_runes s"
    then obtain w t where w: "w \<in> set space_runes" "w \<noteq> []" "s = w @ t"
      by (auto simp: starts_any_def hasPrefix_iff)
    then have "hd s \<in> set w" by simp
    with assms(2) w(1) show False by blast
  qed
  moreover have "\<not> starts_any (map rev space_runes) (rev s)"
  proof
    assume "starts_any (map rev space_runes) (rev s)"
    then obtain w t where w: "w \<in> set space_runes" "w \<noteq> []" "rev s = rev w @ t"
      by (auto simp: starts_any_def hasPrefix_iff)
    then have "s = rev t @ w" by (metis rev_append rev_rev_ident)
    with w(2) have "last s \<in> set w" by simp
    with assms(2) w(1) show False by blast
  qed
  ultimately show ?thesis by (simp add: trimmed_iff)
qed

text \<open>A text that starts and ends with printable characters is trimmed whatever lies between.\<close>

lemma plain_not_space:
  assumes "CHR ''!'' \<le> c" "c \<le> CHR ''~''"
  shows "\<forall>w \<in> set space_runes. c \<notin> set w"
  using assms by (auto simp: space_runes_def less_eq_char_def)

definition spaces :: "char set" where
  "spaces = {CHR 0x09, CHR 0x0A, CHR 0x0B, CHR 0x0C, CHR 0x0D, CHR 0x20}"

lemma space_runes_single: "c \<in> spaces \<Longrightarrow> w \<in> set space_runes \<Longrightarrow> c \<in> set w \<Longrightarrow> w = [c]"
proof -
  have "list_all (\<lambda>w. list_all (\<lambda>c. c \<in> spaces \<longrightarrow> w = [c]) w) space_runes" by code_simp
  then show "c \<in> spaces \<Longrightarrow> w \<in> set space_runes \<Longrightarrow> c \<in> set w \<Longrightarrow> w = [c]" by (auto simp: list_all_iff)
qed

lemma space_in_runes: "c \<in> spaces \<Longrightarrow> [c] \<in> set space_runes"
  by (auto simp: spaces_def space_runes_def)

lemma strip_any_space:
  assumes "c \<in> spaces" "\<And>w. w \<in> set ws \<Longrightarrow> c \<in> set w \<Longrightarrow> w = [c]" "[c] \<in> set ws"
  shows "strip_any ws (c # s) = strip_any ws s"
proof -
  let ?P = "\<lambda>w. w \<noteq> [] \<and> hasPrefix (c # s) w"
  have "?P [c]" by (simp add: hasPrefix_def)
  with assms(3) obtain w where f: "find ?P ws = Some w" by (cases "find ?P ws") (auto simp: find_None_iff)
  then have w: "w \<noteq> []" "hasPrefix (c # s) w" "w \<in> set ws" by (auto simp: find_Some_iff)
  then have "c \<in> set w" by (cases w) (auto simp: hasPrefix_iff)
  with w(3) assms(2) have "w = [c]" by blast
  with f show ?thesis by (simp add: strip_any.simps [of _ "c # s"])
qed

lemma single_back: "c \<in> spaces \<Longrightarrow> w \<in> set (map rev space_runes) \<Longrightarrow> c \<in> set w \<Longrightarrow> w = [c]"
  using space_runes_single by fastforce

lemma strip_any_front: "set ws \<subseteq> spaces \<Longrightarrow> strip_any space_runes (ws @ s) = strip_any space_runes s"
proof (induction ws)
  case (Cons c ws)
  then have c: "c \<in> spaces" by simp
  show ?case using Cons strip_any_space [OF c space_runes_single [OF c] space_in_runes [OF c]] by simp
qed simp

lemma strip_any_back: "set ws \<subseteq> spaces \<Longrightarrow> strip_any (map rev space_runes) (ws @ s) = strip_any (map rev space_runes) s"
proof (induction ws)
  case (Cons c ws)
  then have c: "c \<in> spaces" by simp
  have "[c] \<in> set (map rev space_runes)" using space_in_runes [OF c] by force
  with single_back [OF c] have "strip_any (map rev space_runes) (c # ws @ s) = strip_any (map rev space_runes) (ws @ s)"
    by (intro strip_any_space [OF c]) blast+
  with Cons show ?case by simp
qed simp

text \<open>Behind a trimmed text and a space, no space rune starts or ends inside the text.\<close>

lemma starts_any_space:
  assumes "\<not> starts_any ws s" "s \<noteq> []" "\<And>w. w \<in> set ws \<Longrightarrow> c \<in> set w \<Longrightarrow> w = [c]"
  shows "\<not> starts_any ws (s @ c # t)"
proof
  assume "starts_any ws (s @ c # t)"
  then obtain w u where w: "w \<in> set ws" "w \<noteq> []" "s @ c # t = w @ u"
    by (auto simp: starts_any_def hasPrefix_iff)
  show False
  proof (cases "length w \<le> length s")
    case True
    have "take (length w) (s @ c # t) = w" by (simp only: w(3)) simp
    with True have "s = w @ drop (length w) s" by (metis append_take_drop_id diff_is_0_eq' take0 take_append append_Nil2)
    then obtain v where "s = w @ v" by blast
    then show False using assms(1) w by (auto simp: starts_any_def)
  next
    case False
    have "take (length s) (w @ u) = s" by (simp only: w(3) [symmetric]) simp
    with False have s: "w = s @ drop (length s) w" by (metis append_take_drop_id diff_is_0_eq' nat_le_linear take0 take_append append_Nil2)
    with w(3) have "c # t = drop (length s) w @ u" by (metis append.assoc same_append_eq)
    moreover have "drop (length s) w \<noteq> []" using False by simp
    ultimately have "drop (length s) w = c # tl (drop (length s) w)" by (cases "drop (length s) w") auto
    then obtain v where "drop (length s) w = c # v" by blast
    with s have v: "w = s @ c # v" by simp
    then have "w = [c]" using assms(3) w(1) by auto
    with v assms(2) show False by (cases s) auto
  qed
qed

lemma starts_front: "trimmed s \<Longrightarrow> s \<noteq> [] \<Longrightarrow> c \<in> spaces \<Longrightarrow> \<not> starts_any space_runes (s @ c # t)"
  by (rule starts_any_space) (auto simp: trimmed_iff dest: space_runes_single)

lemma starts_back: "trimmed s \<Longrightarrow> s \<noteq> [] \<Longrightarrow> c \<in> spaces \<Longrightarrow> \<not> starts_any (map rev space_runes) (rev (t @ c # s))"
  using starts_any_space [of "map rev space_runes" "rev s" c "rev t"] single_back by (simp add: trimmed_iff)

lemma trimmed_trimPrefix:
  assumes "trimmed s"
  shows "trimPrefix s ''  '' = s"
proof (rule trimPrefix_id)
  have "''  '' = '' '' @ '' ''" "'' '' \<in> set space_runes" by (simp_all add: space_runes_def)
  with assms show "\<not> hasPrefix s ''  ''"
    by (auto simp: trimmed_iff starts_any_def hasPrefix_iff)
qed

lemma trimSpace_start: "trimmed s \<Longrightarrow> set ws \<subseteq> spaces \<Longrightarrow> trimSpace (ws @ s) = s"
  by (simp add: trimSpace_def strip_any_front trimmed_iff strip_any_id)

lemma trimSpace_end:
  assumes "trimmed s" "set ws \<subseteq> spaces"
  shows "trimSpace (s @ ws) = s"
proof (cases "s = [] \<or> ws = []")
  case True
  with assms show ?thesis using trimSpace_start [of "[]" ws] by auto
next
  case False
  then have "\<not> starts_any space_runes (s @ ws)"
    using assms starts_front [of s "hd ws" "tl ws"] by (cases ws) auto
  then show ?thesis
    using assms strip_any_back [of "rev ws" "rev s"] by (simp add: trimSpace_def strip_any_id trimmed_iff)
qed

section \<open>Lines\<close>

definition plain_line :: "string \<Rightarrow> bool" where
  "plain_line l \<longleftrightarrow> newline \<notin> set l \<and> length l < max_line \<and> (l \<noteq> [] \<longrightarrow> last l \<noteq> CHR 0x0D)"

definition print_lines :: "string list \<Rightarrow> string" where
  "print_lines ls = concat (map (\<lambda>l. l @ [newline]) ls)"

lemma scan_plain: "list_all plain_line ls \<Longrightarrow> scan_from (ls @ [[]]) = (ls, False)"
  by (induction ls) (auto simp: max_line_def plain_line_def drop_cr_def)

lemma splitOn_print_lines: "list_all plain_line ls \<Longrightarrow> splitOn newline (print_lines ls) = ls @ [[]]"
  by (induction ls) (auto simp: print_lines_def plain_line_def splitOn_append_sep)

lemma scanner_print_lines: "list_all plain_line ls \<Longrightarrow> scanner_lines (print_lines ls) = (ls, False)"
  by (simp add: scanner_lines_def splitOn_print_lines scan_plain)

lemma print_lines_append: "print_lines (xs @ ys) = print_lines xs @ print_lines ys"
  by (simp add: print_lines_def)

section \<open>Directories\<close>

text \<open>\<^verbatim>\<open>filepath.Dir\<close>: what precedes the last slash, cleaned.\<close>

definition path_Dir :: "string \<Rightarrow> string" where
  "path_Dir p = path_Clean (rev (dropWhile (\<lambda>c. c \<noteq> CHR ''/'') (rev p)))"

text \<open>\<^verbatim>\<open>filepath.Base\<close>: the last element, without trailing slashes.\<close>

definition path_Base :: "string \<Rightarrow> string" where
  "path_Base p =
     (if p = [] then ''.''
      else
        let stripped = rev (dropWhile (\<lambda>c. c = CHR ''/'') (rev p))
        in if stripped = [] then ''/'' else rev (takeWhile (\<lambda>c. c \<noteq> CHR ''/'') (rev stripped)))"

section \<open>Lower case\<close>

text \<open>
  \<^verbatim>\<open>strings.ToLower\<close> on the ASCII letters and on the two other letters whose lower case is one (the
  dotted capital I and the Kelvin sign, here by their encodings); other letters are left alone. The
  callers look for ASCII words only, and no other letter becomes part of one.
\<close>

definition lower_char :: "char \<Rightarrow> char" where
  "lower_char c = (if CHR ''A'' \<le> c \<and> c \<le> CHR ''Z'' then char_of (of_char c + 32 :: nat) else c)"

function toLower :: "string \<Rightarrow> string" where
  "toLower s =
     (if s = [] then []
      else if hasPrefix s [CHR 0xC4, CHR 0xB0] then CHR ''i'' # toLower (drop 2 s)
      else if hasPrefix s [CHR 0xE2, CHR 0x84, CHR 0xAA] then CHR ''k'' # toLower (drop 3 s)
      else lower_char (hd s) # toLower (tl s))"
  by pat_completeness auto
termination
  by (relation "measure length") auto

declare toLower.simps [simp del]

end
