(* ===== verification/Git_Repo.thy ===== *)
theory Git_Repo
  imports Knot_Host Go_Text Patch_Combine
begin

text \<open>
  A git repository of a knot: the package \<^verbatim>\<open>knotserver/git\<close> as far as requests change repositories
  through it (opening, creating, forking, references, the merge of a patch) and the reading of logs and
  branches. The program \<^verbatim>\<open>git\<close> and go-git answer through \<open>Host\<close>; hashes are their hexadecimal texts.
\<close>

section \<open>Opening, reading, references (git.go, cmd.go, diff.go, branch.go)\<close>

record GitRepo =
  gr_path :: string
  gr_h :: string

definition ZeroHash :: string where
  "ZeroHash = replicate 40 CHR ''0''"

definition runGitCmd :: "Host \<Rightarrow> GitRepo \<Rightarrow> string \<Rightarrow> string list \<Rightarrow> (GoError, string) result prog" where
  "runGitCmd H g command extraArgs = do {
     r \<leftarrow> exec_Command H ''git'' (command # extraArgs) (gr_path g);
     ret (case r of
            Exited_ok out _ \<Rightarrow> Inr out
          | Exited_with err stderr \<Rightarrow> Inl (Wrap_before (Text err) ('', stderr: '' @ stderr))
          | Not_started err \<Rightarrow> Inl (Text err))
   }"

definition revList :: "Host \<Rightarrow> GitRepo \<Rightarrow> string list \<Rightarrow> (GoError, string) result prog" where
  "revList H g extraArgs = runGitCmd H g ''rev-list'' extraArgs"

definition forEachRef :: "Host \<Rightarrow> GitRepo \<Rightarrow> string list \<Rightarrow> (GoError, string) result prog" where
  "forEachRef H g extraArgs = runGitCmd H g ''for-each-ref'' extraArgs"

definition revParse :: "Host \<Rightarrow> GitRepo \<Rightarrow> string list \<Rightarrow> (GoError, string) result prog" where
  "revParse H g extraArgs = runGitCmd H g ''rev-parse'' extraArgs"

definition Git_PlainOpen :: "Host \<Rightarrow> string \<Rightarrow> (GoError, GitRepo) result prog" where
  "Git_PlainOpen H path = do {
     r \<leftarrow> look (\<lambda>calls. ho_gitOpen H calls path);
     ret (case r of
            Some err \<Rightarrow> Inl (Wrap_after (''opening '' @ path @ '': '') err)
          | None \<Rightarrow> Inr \<lparr>gr_path = path, gr_h = ZeroHash\<rparr>)
   }"

definition Git_Open :: "Host \<Rightarrow> string \<Rightarrow> string \<Rightarrow> (GoError, GitRepo) result prog" where
  "Git_Open H path ref =
     unless_error (look (\<lambda>calls. ho_gitOpen H calls path))
       (\<lambda>err. ret (Inl (Wrap_after (''opening '' @ path @ '': '') err)))
       (if ref = [] then
          attempt (look (\<lambda>calls. ho_head H calls path))
            (\<lambda>err. ret (Inl (Wrap_after (''getting head of '' @ path @ '': '') err)))
            (\<lambda>(name, hash). ret (Inr \<lparr>gr_path = path, gr_h = hash\<rparr>))
        else
          attempt (look (\<lambda>calls. ho_resolveRevision H calls path ref))
            (\<lambda>err. ret (Inl (Wrap_after (''resolving rev '' @ ref @ '' for '' @ path @ '': '') err)))
            (\<lambda>hash. ret (Inr \<lparr>gr_path = path, gr_h = hash\<rparr>)))"

definition ResolveRevision :: "Host \<Rightarrow> GitRepo \<Rightarrow> string \<Rightarrow> (GoError, Commit) result prog" where
  "ResolveRevision H g revStr =
     attempt (look (\<lambda>calls. ho_resolveRevision H calls (gr_path g) revStr))
       (\<lambda>err. ret (Inl (Wrap_after (''resolving revision '' @ revStr @ '': '') err)))
       (\<lambda>rev. attempt (look (\<lambda>calls. ho_commitObject H calls (gr_path g) rev))
          (\<lambda>err. ret (Inl (Wrap_after (''getting commit for '' @ revStr @ '': '') err)))
          (\<lambda>commit. ret (Inr commit)))"

text \<open>\<^verbatim>\<open>Commits\<close>: the lines that name no commit are skipped.\<close>

fun commit_objects :: "Host \<Rightarrow> GitRepo \<Rightarrow> string list \<Rightarrow> Commit list prog" where
  "commit_objects H g [] = ret []"
| "commit_objects H g (item # items) = do {
     r \<leftarrow> look (\<lambda>calls. ho_commitObject H calls (gr_path g) item);
     cs \<leftarrow> commit_objects H g items;
     ret (case r of Inl _ \<Rightarrow> cs | Inr obj \<Rightarrow> obj # cs)
   }"

definition Commits :: "Host \<Rightarrow> GitRepo \<Rightarrow> int \<Rightarrow> int \<Rightarrow> (GoError, Commit list) result prog" where
  "Commits H g offset limit =
     attempt (revList H g [gr_h g, ''--skip='' @ itoa offset, ''--max-count='' @ itoa limit])
       (\<lambda>err. ret (Inl (Wrap_after ''commits from ref: '' err)))
       (\<lambda>output.
          let lines = splitOn newline (trimSpace output)
          in if length lines = 1 \<and> lines ! 0 = [] then ret (Inr [])
             else do { cs \<leftarrow> commit_objects H g lines; ret (Inr cs) })"

definition atoi_error :: "string \<Rightarrow> GoError" where
  "atoi_error s = Text (''strconv.Atoi: parsing '' @ s)"

definition TotalCommits :: "Host \<Rightarrow> GitRepo \<Rightarrow> (GoError, int) result prog" where
  "TotalCommits H g =
     attempt (revList H g [gr_h g, ''--count''])
       (\<lambda>err. ret (Inl (Wrap_after ''failed to run rev-list: '' err)))
       (\<lambda>output. ret (case parseInt64 (trimSpace output) of
          None \<Rightarrow> Inl (atoi_error (trimSpace output)) | Some n \<Rightarrow> Inr n))"

definition branch_ref :: "string \<Rightarrow> string" where
  "branch_ref name = ''refs/heads/'' @ name"

definition SetDefaultBranch :: "Host \<Rightarrow> GitRepo \<Rightarrow> string \<Rightarrow> GoError option prog" where
  "SetDefaultBranch H g branch = os_do H (GoGit (gr_path g) (SetSymbolicReference ''HEAD'' (branch_ref branch)))"

definition FindMainBranch :: "Host \<Rightarrow> GitRepo \<Rightarrow> (GoError, string) result prog" where
  "FindMainBranch H g =
     attempt (revParse H g [''--abbrev-ref'', ''HEAD''])
       (\<lambda>err. ret (Inl (Wrap_after ''failed to find main branch: '' err)))
       (\<lambda>output. ret (Inr (trimSpace output)))"

definition Git_DeleteBranch :: "Host \<Rightarrow> GitRepo \<Rightarrow> string \<Rightarrow> GoError option prog" where
  "Git_DeleteBranch H g branch = os_do H (GoGit (gr_path g) (RemoveReference (branch_ref branch)))"

section \<open>Listing branches (branch.go)\<close>

record Branch =
  br_Name :: string
  br_Hash :: string
  br_IsDefault :: bool
  br_Author :: "string \<times> string \<times> Time"
  br_Committer :: "string \<times> string \<times> Time"
  br_TreeHash :: string
  br_ParentHash :: string
  br_Message :: string

definition fieldSeparator :: char where "fieldSeparator = CHR 0x1F"
definition recordSeparator :: char where "recordSeparator = CHR 0x1E"

definition branch_fields :: "string list" where
  "branch_fields =
     [''refname:short'', ''objectname'', ''authorname'', ''authoremail'', ''authordate:unix'',
      ''committername'', ''committeremail'', ''committerdate:unix'', ''tree'', ''parent'', ''contents'']"

definition branch_format :: string where
  "branch_format =
     ''--format='' @ joinWith [fieldSeparator] (map (\<lambda>f. ''%('' @ f @ '')'') branch_fields) @ [recordSeparator]"

definition trimSuffix :: "string \<Rightarrow> string \<Rightarrow> string" where
  "trimSuffix s suf = (if hasSuffix s suf then take (length s - length suf) s else s)"

definition plain_email :: "string \<Rightarrow> string" where
  "plain_email s = trimSuffix (trimPrefix s ''<'') ''>''"

definition unix_time :: "string \<Rightarrow> Time" where
  "unix_time s = (case parseInt64 s of Some n \<Rightarrow> n * 1000000000 | None \<Rightarrow> zero_time)"

text \<open>
  One record; \<open>None\<close> is the run-time error of an index out of range, for a record of six to ten fields,
  and \<open>Some []\<close> a record that is skipped. \<open>newHash\<close> is \<^verbatim>\<open>plumbing.NewHash(s).String()\<close>.
\<close>

definition parse_branch :: "(string \<Rightarrow> string) \<Rightarrow> string \<Rightarrow> string \<Rightarrow> Branch list option" where
  "parse_branch newHash defaultBranch line =
     (let parts = splitN (length branch_fields) fieldSeparator (trimSpace line)
      in if length parts < 6 then Some []
         else if length parts < 11 then None
         else Some [\<lparr>br_Name = parts ! 0, br_Hash = newHash (parts ! 1), br_IsDefault = (parts ! 0 = defaultBranch),
                     br_Author = (parts ! 2, plain_email (parts ! 3), unix_time (parts ! 4)),
                     br_Committer = (parts ! 5, plain_email (parts ! 6), unix_time (parts ! 7)),
                     br_TreeHash = newHash (parts ! 8), br_ParentHash = newHash (parts ! 9),
                     br_Message = parts ! 10\<rparr>])"

fun parse_branches :: "(string \<Rightarrow> string) \<Rightarrow> string \<Rightarrow> string list \<Rightarrow> Branch list option" where
  "parse_branches newHash defaultBranch [] = Some []"
| "parse_branches newHash defaultBranch (line # ls) =
     (case parse_branch newHash defaultBranch line of
        None \<Rightarrow> None
      | Some b \<Rightarrow> map_option ((@) b) (parse_branches newHash defaultBranch ls))"

definition branch_page :: "int \<Rightarrow> int \<Rightarrow> 'a list \<Rightarrow> 'a list" where
  "branch_page limit offset records =
     (let endIdx = (if limit > 0 then min (offset + limit) (int (length records)) else int (length records))
      in take (nat (endIdx - offset)) (drop (nat offset) records))"

text \<open>\<^verbatim>\<open>Branches\<close> with an offset that is not negative, as its callers pass it; the inner option is \<open>None\<close>
  when the conversion of a record fails at run time.\<close>

definition Branches ::
  "Host \<Rightarrow> (string \<Rightarrow> string) \<Rightarrow> GitRepo \<Rightarrow> int \<Rightarrow> int \<Rightarrow> (GoError, Branch list option) result prog" where
  "Branches H newHash g limit offset =
     attempt (forEachRef H g ([branch_format, ''--sort=-creatordate''] @
         (if limit > 0 then [''--count='' @ itoa (offset + limit)] else []) @ [''refs/heads'']))
       (\<lambda>err. ret (Inl (Wrap_after ''failed to get branches: '' err)))
       (\<lambda>output.
          let records = splitOn recordSeparator (trimSpace output)
          in if length records = 1 \<and> records ! 0 = [] then ret (Inr (Some []))
             else if offset \<ge> int (length records) then ret (Inr (Some []))
             else do {
               d \<leftarrow> FindMainBranch H g;
               let defaultBranch = (case d of Inl _ \<Rightarrow> [] | Inr b \<Rightarrow> b);
               ret (Inr (map_option rev (parse_branches newHash defaultBranch (branch_page limit offset records))))
             })"

section \<open>Creating and forking (repo.go, fork.go)\<close>

text \<open>An error of the first call counts only when it says that the directory exists.\<close>

definition init_repository :: "Host \<Rightarrow> string \<Rightarrow> string \<Rightarrow> GoError option prog" where
  "init_repository H path defaultBranch =
     unless_error (os_do H (GoGit path PlainInit)) (\<lambda>err. ret (Some err))
    (unless_error (os_do H (GoGit path (CreateBranch defaultBranch)))
       (\<lambda>err. ret (Some (Wrap_after ''creating branch: '' err)))
    (unless_error (os_do H (GoGit path (SetSymbolicReference ''HEAD'' (branch_ref defaultBranch))))
       (\<lambda>err. ret (Some (Wrap_after ''creating symbolic reference: '' err)))
    (ret None)))"

definition Git_InitBare :: "Host \<Rightarrow> string \<Rightarrow> string \<Rightarrow> GoError option prog" where
  "Git_InitBare H path defaultBranch = do {
     e \<leftarrow> os_do H (MkdirAll (path_Dir path));
     case e of
       Some err \<Rightarrow>
         if errors_Is err ErrExist then ret (Some (Wrap_after ''error creating user directory: '' err))
         else init_repository H path defaultBranch
     | None \<Rightarrow> init_repository H path defaultBranch
   }"

text \<open>\<^verbatim>\<open>net/url\<close>: the argument \<open>parse_url\<close> gives a URL with its host, its path and its text.\<close>

record Url =
  url_Host :: string
  url_Path :: string
  url_String :: string

text \<open>The parts of the configuration of a knot that are read here; \<open>file_url\<close> is the text of the URL with
  scheme \<^verbatim>\<open>file\<close> and the given path.\<close>

record KnotConfig =
  kc_Hostname :: string
  kc_Owner :: string
  kc_ScanPath :: string
  kc_MainBranch :: string
  kc_UserName :: string
  kc_UserEmail :: string
  kc_InternalListenAddr :: string

definition optimizeClone :: "Host \<Rightarrow> (string \<Rightarrow> string) \<Rightarrow> KnotConfig \<Rightarrow> Url \<Rightarrow> string option prog" where
  "optimizeClone H file_url cfg u =
     (if url_Host u \<noteq> kc_Hostname cfg then ret None
      else
        let local = path_Join (kc_ScanPath cfg) (url_Path u)
        in attempt (Git_PlainOpen H local) (\<lambda>_. ret None) (\<lambda>_. ret (Some (file_url local))))"

definition run_error :: "Ran \<Rightarrow> GoError option" where
  "run_error r = (case r of Exited_ok _ _ \<Rightarrow> None | Exited_with err _ \<Rightarrow> Some (Text err) | Not_started err \<Rightarrow> Some (Text err))"

definition cmd_Run :: "Host \<Rightarrow> string list \<Rightarrow> GoError option prog" where
  "cmd_Run H args = do { r \<leftarrow> exec_Command H ''git'' args []; ret (run_error r) }"

definition Git_Fork ::
  "Host \<Rightarrow> (string \<Rightarrow> (GoError, Url) result) \<Rightarrow> (string \<Rightarrow> string) \<Rightarrow> KnotConfig \<Rightarrow> string \<Rightarrow> string \<Rightarrow> GoError option prog" where
  "Git_Fork H parse_url file_url cfg repoPath source =
     (case parse_url source of
        Inl err \<Rightarrow> ret (Some (Wrap_after ''failed to parse source URL: '' err))
      | Inr u \<Rightarrow> do {
          opt \<leftarrow> optimizeClone H file_url cfg u;
          let target = (case opt of Some t \<Rightarrow> t | None \<Rightarrow> url_String u);
          unless_error (cmd_Run H [''clone'', ''--bare'', target, repoPath])
            (\<lambda>err. ret (Some (Wrap_after ''failed to bare clone repository: '' err)))
         (unless_error (cmd_Run H [''-C'', repoPath, ''config'', ''receive.hideRefs'', ''refs/hidden''])
            (\<lambda>err. ret (Some (Wrap_after ''failed to configure hidden refs: '' err)))
         (ret None))
        })"

definition git_Fetch :: "Host \<Rightarrow> GitRepo \<Rightarrow> string \<Rightarrow> string \<Rightarrow> (GoError \<Rightarrow> GoError) \<Rightarrow> GoError option prog" where
  "git_Fetch H g refSpec remote wrap =
     unless_error (os_do H (GoGit (gr_path g) (Fetch refSpec remote)))
       (\<lambda>err. ret (if err = Sentinel NoErrAlreadyUpToDate then None else Some (wrap err)))
       (ret None)"

definition Sync :: "Host \<Rightarrow> GitRepo \<Rightarrow> GoError option prog" where
  "Sync H g =
     (let branch = gr_h g
      in git_Fetch H g (''+'' @ branch @ '':'' @ branch) []
           (Wrap_after (''failed to fetch origin branch: '' @ branch @ '': '')))"

definition TrackHiddenRemoteRef :: "Host \<Rightarrow> GitRepo \<Rightarrow> string \<Rightarrow> string \<Rightarrow> GoError option prog" where
  "TrackHiddenRemoteRef H g forkRef remoteRef =
     git_Fetch H g (''+refs/heads/'' @ remoteRef @ '':refs/hidden/'' @ forkRef @ ''/'' @ remoteRef) ''origin''
       (Wrap_after (''failed to fetch hidden remote: '' @ forkRef @ '': ''))"

section \<open>Merging a patch (merge.go)\<close>

record MergeOptions =
  mo_CommitMessage :: string
  mo_CommitBody :: string
  mo_AuthorName :: string
  mo_AuthorEmail :: string
  mo_CommitterName :: string
  mo_CommitterEmail :: string
  mo_FormatPatch :: bool

text \<open>
  The expression \<^verbatim>\<open>^error: (.*):(\d+): (.*)$\<close> on a line without line breaks. The first group is greedy, so
  the last colon that is followed by a number, a colon and a blank ends it.
\<close>

definition number_then_blank :: "string \<Rightarrow> string option" where
  "number_then_blank s =
     (let ds = takeWhile is_digit s; rest = dropWhile is_digit s
      in if ds \<noteq> [] \<and> hasPrefix rest '': '' then Some (drop 2 rest) else None)"

fun last_match :: "string \<Rightarrow> (string \<times> string) option" where
  "last_match [] = None"
| "last_match (c # s) =
     (case last_match s of
        Some (a, b) \<Rightarrow> Some (c # a, b)
      | None \<Rightarrow> if c = CHR '':'' then map_option (Pair []) (number_then_blank s) else None)"

definition error_match :: "string \<Rightarrow> (string \<times> string) option" where
  "error_match line = (if hasPrefix line ''error: '' then last_match (drop 7 line) else None)"

text \<open>One line of the loop, from and to the variables \<^verbatim>\<open>currentFile\<close> and \<^verbatim>\<open>conflicts\<close>.\<close>

definition apply_error_line :: "string \<Rightarrow> string \<times> ConflictInfo list \<Rightarrow> string \<times> ConflictInfo list" where
  "apply_error_line raw st =
     (let line = trimSpace raw; (currentFile, conflicts) = st;
          add = (\<lambda>f reason. conflicts @ [\<lparr>ci_Filename = f, ci_Reason = reason\<rparr>])
      in if hasPrefix line ''error: patch failed:'' then
           let parts = splitN 3 CHR '':'' line
           in (if length parts \<ge> 3 then trimSpace (parts ! 2) else currentFile, conflicts)
         else (case error_match line of
             Some (f, reason) \<Rightarrow>
               let currentFile = (if currentFile = [] then f else currentFile) in (currentFile, add currentFile reason)
           | None \<Rightarrow>
               if contains line ''already exists in working directory'' then (currentFile, add currentFile ''file already exists'')
               else if contains line ''does not exist in working tree'' then (currentFile, add currentFile ''file does not exist'')
               else if contains line ''patch does not apply'' then (currentFile, add currentFile ''patch does not apply'')
               else (currentFile, conflicts)))"

definition parseGitApplyErrors :: "string \<Rightarrow> ConflictInfo list" where
  "parseGitApplyErrors errorOutput = snd (fold apply_error_line (splitOn newline errorOutput) ([], []))"

definition createTemp :: "Host \<Rightarrow> string \<Rightarrow> (GoError, string) result prog" where
  "createTemp H data =
     attempt (make_temp H ''git-patch-*.patch'' CreateTemp)
       (\<lambda>err. ret (Inl (Wrap_after ''failed to create temporary patch file: '' (Text err))))
       (\<lambda>name.
          unless_error (os_do H (WriteFile name data))
            (\<lambda>err. do { _ \<leftarrow> os_do H (CloseFile name); _ \<leftarrow> os_do H (RemoveFile name);
                       ret (Inl (Wrap_after ''failed to write patch data to temporary file: '' err)) })
         (unless_error (os_do H (CloseFile name))
            (\<lambda>err. do { _ \<leftarrow> os_do H (RemoveFile name);
                       ret (Inl (Wrap_after ''failed to close temporary patch file: '' err)) })
         (ret (Inr name))))"

definition cloneTemp :: "Host \<Rightarrow> GitRepo \<Rightarrow> string \<Rightarrow> (GoError, string) result prog" where
  "cloneTemp H g targetBranch =
     attempt (make_temp H ''git-clone-'' MkdirTemp)
       (\<lambda>err. ret (Inl (Wrap_after ''failed to create temporary directory: '' (Text err))))
       (\<lambda>tmpDir.
          unless_error (os_do H (GoGit tmpDir (PlainClone (''file://'' @ gr_path g) (branch_ref targetBranch))))
            (\<lambda>err. do { _ \<leftarrow> os_do H (RemoveAll tmpDir);
                       ret (Inl (Wrap_after ''failed to clone repository: '' err)) })
            (ret (Inr tmpDir)))"

definition stderr_of :: "Ran \<Rightarrow> string" where
  "stderr_of r = (case r of Exited_ok _ stderr \<Rightarrow> stderr | Exited_with _ stderr \<Rightarrow> stderr | Not_started _ \<Rightarrow> [])"

text \<open>The error of a failed \<^verbatim>\<open>git am\<close> or \<^verbatim>\<open>git commit\<close>, with the conflicts read from what has been written
  to the buffer of standard error: \<^verbatim>\<open>git apply\<close> and \<^verbatim>\<open>git commit\<close> share one.\<close>

definition not_clean :: "string \<Rightarrow> Ran \<Rightarrow> GoError" where
  "not_clean stderr r =
     (let conflicts = parseGitApplyErrors stderr
      in ErrMerge ''patch cannot be applied cleanly'' conflicts (length conflicts > 0) (run_error r))"

definition setChangeId :: "Host \<Rightarrow> string \<Rightarrow> string \<Rightarrow> string \<Rightarrow> (GoError, string) result prog" where
  "setChangeId H path hash changeId =
     attempt (look (\<lambda>calls. ho_commitObject H calls path hash))
       (\<lambda>err. ret (Inl (Wrap_after (''failed to get commit object for hash '' @ hash @ '': '') err)))
    (\<lambda>obj. attempt (look (\<lambda>calls. ho_encode H calls path hash changeId))
       (\<lambda>err. ret (Inl (Wrap_after ''failed to create new object: '' err)))
    (\<lambda>newHash. unless_error (os_do H (GoGit path (SetEncodedObject hash changeId)))
       (\<lambda>err. ret (Inl (Wrap_after ''failed to store new object: '' err)))
    (attempt (look (\<lambda>calls. ho_head H calls path))
       (\<lambda>err. ret (Inl (Wrap_after ''failed to fetch HEAD: '' err)))
    (\<lambda>(name, _).
       if hasPrefix name ''refs/heads/'' then
         unless_error (os_do H (GoGit path (SetHashReference name newHash)))
           (\<lambda>err. ret (Inl (Wrap_after ''failed to update HEAD: '' err))) (ret (Inr newHash))
       else ret (Inr newHash)))))"

definition applySingleMailbox :: "Host \<Rightarrow> string \<Rightarrow> FormatPatch \<Rightarrow> (GoError, string) result prog" where
  "applySingleMailbox H path singlePatch =
     attempt (createTemp H (fp_Raw singlePatch))
       (\<lambda>err. ret (Inl (Wrap_after ''failed to create temporary patch file for singluar mailbox patch: '' err)))
    (\<lambda>tmpPatch. attempt (look (\<lambda>calls. ho_head H calls path)) (\<lambda>err. ret (Inl err))
    (\<lambda>_. do {
       r \<leftarrow> exec_Command H ''git'' [''-C'', path, ''am'', tmpPatch] [];
       if run_error r \<noteq> None then ret (Inl (not_clean (stderr_of r) r))
       else
         attempt (Git_PlainOpen H path) (\<lambda>err. ret (Inl (Wrap_after ''failed to refresh repository state: '' err)))
        (\<lambda>_. attempt (look (\<lambda>calls. ho_head H calls path)) (\<lambda>err. ret (Inl err))
        (\<lambda>(_, hash). case ChangeId singlePatch of
             None \<Rightarrow> ret (Inr hash)
           | Some changeId \<Rightarrow> setChangeId H path hash changeId))
     }))"

fun apply_each :: "Host \<Rightarrow> string \<Rightarrow> FormatPatch list \<Rightarrow> GoError option prog" where
  "apply_each H path [] = ret None"
| "apply_each H path (p # ps) =
     attempt (applySingleMailbox H path p) (\<lambda>err. ret (Some err)) (\<lambda>_. apply_each H path ps)"

definition patch_error_text :: "string patch_error \<Rightarrow> string" where
  "patch_error_text e =
     (case e of
        Parse_failed t \<Rightarrow> ''failed to parse patch: '' @ t
      | Header_failed t \<Rightarrow> ''failed to parse patch header: '' @ t
      | _ \<Rightarrow> [])"

definition applyMailbox :: "Host \<Rightarrow> string PatchEnv \<Rightarrow> string \<Rightarrow> string \<Rightarrow> GoError option prog" where
  "applyMailbox H env path patchData =
     (case ExtractPatches env patchData of
        Inl e \<Rightarrow> ret (Some (Wrap_after ''failed to extract patches: '' (Text (patch_error_text e))))
      | Inr fps \<Rightarrow> apply_each H path fps)"

definition commit_args :: "string \<Rightarrow> MergeOptions \<Rightarrow> string list" where
  "commit_args path opts =
     [''-C'', path, ''commit''] @
     (if mo_AuthorName opts \<noteq> [] \<and> mo_AuthorEmail opts \<noteq> []
      then [''--author'', mo_AuthorName opts @ '' <'' @ mo_AuthorEmail opts @ ''>''] else []) @
     [''-m'', mo_CommitMessage opts] @
     (if mo_CommitBody opts \<noteq> [] then [''-m'', mo_CommitBody opts] else [])"

definition applyPatch :: "Host \<Rightarrow> string PatchEnv \<Rightarrow> string \<Rightarrow> string \<Rightarrow> string \<Rightarrow> MergeOptions \<Rightarrow> GoError option prog" where
  "applyPatch H env path patchData patchFile opts = do {
     _ \<leftarrow> cmd_Run H [''-C'', path, ''config'', ''user.name'', mo_CommitterName opts];
     _ \<leftarrow> cmd_Run H [''-C'', path, ''config'', ''user.email'', mo_CommitterEmail opts];
     _ \<leftarrow> cmd_Run H [''-C'', path, ''config'', ''advice.mergeConflict'', ''false''];
     _ \<leftarrow> cmd_Run H [''-C'', path, ''config'', ''advice.amWorkDir'', ''false''];
     if mo_FormatPatch opts then applyMailbox H env path patchData
     else do {
       r \<leftarrow> exec_Command H ''git'' [''-C'', path, ''apply'', patchFile] [];
       if run_error r \<noteq> None then ret (Some (Text (''patch application failed: '' @ stderr_of r)))
       else
         unless_error (cmd_Run H [''-C'', path, ''add'', ''.''])
           (\<lambda>err. ret (Some (Wrap_after ''failed to stage changes: '' err)))
         (do {
            c \<leftarrow> exec_Command H ''git'' (commit_args path opts) [];
            ret (if run_error c \<noteq> None then Some (not_clean (stderr_of r @ stderr_of c) c) else None)
          })
     }
   }"

text \<open>
  The cache of merge checks. \<open>sha256\<close> gives the hexadecimal digest. \<^verbatim>\<open>fmt.Append\<close> prints the separator, a
  byte, as a number: the colon is the text 58.
\<close>

definition cacheKey :: "(string \<Rightarrow> string) \<Rightarrow> GitRepo \<Rightarrow> string \<Rightarrow> string \<Rightarrow> string" where
  "cacheKey sha256 g patch targetBranch =
     (let sep = ''58'' in sha256 (gr_path g @ sep @ gr_h g @ sep @ patch @ sep @ targetBranch))"

definition failed_merge :: "GoError \<Rightarrow> GoError" where
  "failed_merge err = ErrMerge (Error err) [] False (Some err)"

definition discard :: "Host \<Rightarrow> HostCall \<Rightarrow> 'a prog \<Rightarrow> 'a prog" where
  "discard H c m = do { r \<leftarrow> m; _ \<leftarrow> os_do H c; ret r }"

definition MergeCheckWithOptions ::
  "Host \<Rightarrow> string PatchEnv \<Rightarrow> (string \<Rightarrow> string) \<Rightarrow> GitRepo \<Rightarrow> string \<Rightarrow> string \<Rightarrow> MergeOptions \<Rightarrow> GoError option prog" where
  "MergeCheckWithOptions H env sha256 g patchData targetBranch mo =
     (let key = cacheKey sha256 g patchData targetBranch
      in do {
        hit \<leftarrow> look (\<lambda>calls. ho_cache H calls key);
        case hit of
          Some val \<Rightarrow> ret val
        | None \<Rightarrow>
            attempt (createTemp H patchData) (\<lambda>err. ret (Some (failed_merge err)))
           (\<lambda>patchFile. discard H (RemoveFile patchFile)
           (attempt (cloneTemp H g targetBranch) (\<lambda>err. ret (Some (failed_merge err)))
           (\<lambda>tmpDir. discard H (RemoveAll tmpDir)
           (attempt (Git_PlainOpen H tmpDir) (\<lambda>err. ret (Some err))
           (\<lambda>_. do {
              r \<leftarrow> applyPatch H env tmpDir patchData patchFile mo;
              _ \<leftarrow> os_do H (CacheSet key r);
              ret r
            })))))
      })"

definition MergeWithOptions ::
  "Host \<Rightarrow> string PatchEnv \<Rightarrow> GitRepo \<Rightarrow> string \<Rightarrow> string \<Rightarrow> MergeOptions \<Rightarrow> GoError option prog" where
  "MergeWithOptions H env g patchData targetBranch opts =
     attempt (createTemp H patchData) (\<lambda>err. ret (Some (failed_merge err)))
    (\<lambda>patchFile. discard H (RemoveFile patchFile)
    (attempt (cloneTemp H g targetBranch) (\<lambda>err. ret (Some (failed_merge err)))
    (\<lambda>tmpDir. discard H (RemoveAll tmpDir)
    (attempt (Git_PlainOpen H tmpDir) (\<lambda>err. ret (Some err))
    (\<lambda>_. unless_error (applyPatch H env tmpDir patchData patchFile opts) (\<lambda>err. ret (Some err))
    (unless_error (cmd_Run H [''-C'', tmpDir, ''push''])
       (\<lambda>err. ret (Some (ErrMerge ''failed to push changes to bare repository'' [] False (Some err))))
       (ret None)))))))"

end
