(* ===== verification/Pijul_Text.thy ===== *)
theory Pijul_Text
  imports Knot_Host Go_Text
begin

text \<open>
  What the knot reads in the output of \<^verbatim>\<open>pijul\<close>: \<^verbatim>\<open>knotserver/pijul/change.go\<close> (the log and a single
  change) and \<^verbatim>\<open>knotserver/pijul/channel.go\<close> (the list of channels). The parsers are pure; \<open>parseTime\<close> is
  \<^verbatim>\<open>time.Parse\<close>, from a layout and a text. The lemmas print the documented formats and read them back.
\<close>

section \<open>Changes\<close>

record Author =
  au_Name :: string
  au_Email :: string

record Change =
  cg_Hash :: string
  cg_Authors :: "Author list"
  cg_Message :: string
  cg_Timestamp :: Time
  cg_Dependencies :: "string list"

definition parseAuthor :: "string \<Rightarrow> Author" where
  "parseAuthor s0 =
     (let s = trimSpace s0
      in case (indexOf s ''<'', indexOf s ''>'') of
           (Some start, Some end) \<Rightarrow>
             if end > start then
               \<lparr>au_Name = trimSpace (take start s),
                au_Email = trimSpace (take (end - (start + 1)) (drop (start + 1) s))\<rparr>
             else \<lparr>au_Name = s, au_Email = []\<rparr>
         | _ \<Rightarrow> \<lparr>au_Name = s, au_Email = []\<rparr>)"

type_synonym time_parser = "string \<Rightarrow> string \<Rightarrow> Time option"

definition timestamp_formats :: "string list" where
  "timestamp_formats =
     [''2006-01-02 15:04:05 -0700'', ''2006-01-02 15:04:05'', ''2006-01-02T15:04:05Z07:00'',
      ''2006-01-02T15:04:05.999999999Z07:00'']"

fun first_time :: "time_parser \<Rightarrow> string \<Rightarrow> string list \<Rightarrow> Time option" where
  "first_time parseTime s [] = None"
| "first_time parseTime s (format # formats) =
     (case parseTime format s of Some t \<Rightarrow> Some t | None \<Rightarrow> first_time parseTime s formats)"

definition parseTimestamp :: "time_parser \<Rightarrow> string \<Rightarrow> Time option" where
  "parseTimestamp parseTime s = first_time parseTime (trimSpace s) timestamp_formats"

text \<open>
  The local variables of \<^verbatim>\<open>parseLogOutput\<close>. \<open>finished\<close> is the assignment of the message that precedes both
  appends of the current change.
\<close>

record LogState =
  ls_changes :: "Change list"
  ls_current :: "Change option"
  ls_messageLines :: "string list"
  ls_inMessage :: bool

definition finished :: "LogState \<Rightarrow> Change list" where
  "finished st =
     (case ls_current st of
        None \<Rightarrow> ls_changes st
      | Some c \<Rightarrow> ls_changes st @ [c\<lparr>cg_Message := trimSpace (joinWith [newline] (ls_messageLines st))\<rparr>])"

definition log_line :: "time_parser \<Rightarrow> string \<Rightarrow> LogState \<Rightarrow> LogState" where
  "log_line parseTime line st =
     (if hasPrefix line ''Hash: '' \<or> hasPrefix line ''Change '' then
        let hashLine = (if hasPrefix line ''Change '' then ''Hash: '' @ trimPrefix line ''Change '' else line)
        in \<lparr>ls_changes = finished st,
            ls_current = Some \<lparr>cg_Hash = trimPrefix hashLine ''Hash: '', cg_Authors = [], cg_Message = [],
                               cg_Timestamp = zero_time, cg_Dependencies = []\<rparr>,
            ls_messageLines = [], ls_inMessage = False\<rparr>
      else
     (case ls_current st of
        None \<Rightarrow> st
      | Some c \<Rightarrow>
          if hasPrefix line ''Author: '' then
            st\<lparr>ls_current := Some (c\<lparr>cg_Authors := cg_Authors c @ [parseAuthor (trimPrefix line ''Author: '')]\<rparr>)\<rparr>
          else if hasPrefix line ''Date: '' then
            (case parseTimestamp parseTime (trimPrefix line ''Date: '') of
               Some t \<Rightarrow> st\<lparr>ls_current := Some (c\<lparr>cg_Timestamp := t\<rparr>)\<rparr>
             | None \<Rightarrow> st)
          else if line = [] \<and> \<not> ls_inMessage st then st\<lparr>ls_inMessage := True\<rparr>
          else if ls_inMessage st then
            st\<lparr>ls_messageLines := ls_messageLines st @ [trimPrefix line ''    '']\<rparr>
          else st))"

text \<open>An output with a line that is too long for the scanner is an error; what was read before it is
  returned next to the error, and no caller looks at it.\<close>

definition ErrTooLong :: GoError where
  "ErrTooLong = Text ''bufio.Scanner: token too long''"

definition parseLogOutput :: "time_parser \<Rightarrow> string \<Rightarrow> (GoError, Change list) result" where
  "parseLogOutput parseTime output =
     (let (lines, tooLong) = scanner_lines output;
          st = fold (log_line parseTime) lines
                 \<lparr>ls_changes = [], ls_current = None, ls_messageLines = [], ls_inMessage = False\<rparr>
      in if tooLong then Inl ErrTooLong else Inr (finished st))"

record ShowState =
  sh_change :: Change
  sh_messageLines :: "string list"
  sh_inMessage :: bool
  sh_inDeps :: bool

definition change_line :: "string \<Rightarrow> ShowState \<Rightarrow> ShowState" where
  "change_line line st =
     (if hasPrefix line ''# Authors'' then st\<lparr>sh_inDeps := False\<rparr>
      else if hasPrefix line ''# Dependencies'' then st\<lparr>sh_inDeps := True\<rparr>
      else if hasPrefix line ''# Message'' then st\<lparr>sh_inDeps := False, sh_inMessage := True\<rparr>
      else if hasPrefix line ''# '' then st\<lparr>sh_inDeps := False, sh_inMessage := False\<rparr>
      else if sh_inDeps st \<and> trimSpace line \<noteq> [] then
        st\<lparr>sh_change := (sh_change st)\<lparr>cg_Dependencies := cg_Dependencies (sh_change st) @ [trimSpace line]\<rparr>\<rparr>
      else if sh_inMessage st then st\<lparr>sh_messageLines := sh_messageLines st @ [line]\<rparr>
      else if contains line ''<'' \<and> contains line ''>'' then
        st\<lparr>sh_change := (sh_change st)\<lparr>cg_Authors := cg_Authors (sh_change st) @ [parseAuthor line]\<rparr>\<rparr>
      else st)"

definition parseChangeOutput :: "string \<Rightarrow> string \<Rightarrow> (GoError, Change) result" where
  "parseChangeOutput hash output =
     (let (lines, tooLong) = scanner_lines output;
          st = fold change_line lines
                 \<lparr>sh_change = \<lparr>cg_Hash = hash, cg_Authors = [], cg_Message = [], cg_Timestamp = zero_time,
                               cg_Dependencies = []\<rparr>,
                  sh_messageLines = [], sh_inMessage = False, sh_inDeps = False\<rparr>
      in if tooLong then Inl ErrTooLong
         else Inr ((sh_change st)\<lparr>cg_Message := trimSpace (joinWith [newline] (sh_messageLines st))\<rparr>))"

section \<open>Channels\<close>

record Channel =
  cn_Name :: string
  cn_IsCurrent :: bool

definition channel_line :: "string \<Rightarrow> Channel list" where
  "channel_line line =
     (if trimSpace line = [] then []
      else
        let name0 = trimSpace (trimPrefix line ''* '');
            name = trimSpace (trimPrefix name0 ''  '')
        in if name \<noteq> [] then [\<lparr>cn_Name = name, cn_IsCurrent = hasPrefix line ''* ''\<rparr>] else [])"

definition parseChannelOutput :: "string \<Rightarrow> (GoError, Channel list) result" where
  "parseChannelOutput output =
     (let (lines, tooLong) = scanner_lines output
      in if tooLong then Inl ErrTooLong else Inr (concat (map channel_line lines)))"

section \<open>Reading a printed log\<close>

text \<open>
  The documented formats, printed. A printed log ends every change with a blank line; the message is
  indented, so a line of it is never taken for a heading whatever it says.
\<close>

definition print_author :: "Author \<Rightarrow> string" where
  "print_author a = (if au_Email a = [] then au_Name a else au_Name a @ '' <'' @ au_Email a @ ''>'')"

definition change_lines :: "(Time \<Rightarrow> string) \<Rightarrow> Change \<Rightarrow> string list" where
  "change_lines formatTime c =
     (''Hash: '' @ cg_Hash c) # map (\<lambda>a. ''Author: '' @ print_author a) (cg_Authors c) @
     [''Date: '' @ formatTime (cg_Timestamp c), []] @
     map (\<lambda>l. ''    '' @ l) (splitOn newline (cg_Message c)) @ [[]]"

definition print_log :: "(Time \<Rightarrow> string) \<Rightarrow> Change list \<Rightarrow> string" where
  "print_log formatTime cs = print_lines (concat (map (change_lines formatTime) cs))"

definition author_ok :: "Author \<Rightarrow> bool" where
  "author_ok a \<longleftrightarrow> trimmed (au_Name a) \<and> trimmed (au_Email a) \<and> au_Name a \<noteq> [] \<and>
     set (au_Name a @ au_Email a) \<inter> {CHR ''<'', CHR ''>''} = {}"

definition change_ok :: "time_parser \<Rightarrow> (Time \<Rightarrow> string) \<Rightarrow> Change \<Rightarrow> bool" where
  "change_ok parseTime formatTime c \<longleftrightarrow>
     list_all plain_line (change_lines formatTime c) \<and> list_all author_ok (cg_Authors c) \<and>
     parseTimestamp parseTime (formatTime (cg_Timestamp c)) = Some (cg_Timestamp c) \<and>
     trimmed (cg_Message c) \<and> cg_Dependencies c = []"

lemma indexOf_single: "c \<notin> set a \<Longrightarrow> indexOf (a @ c # b) [c] = Some (length a)"
  by (induction a) (auto simp: hasPrefix_def)

lemma indexOf_absent: "c \<notin> set a \<Longrightarrow> indexOf a [c] = None"
  by (induction a) (auto simp: hasPrefix_def)

lemma trimmed_bracketed:
  assumes "trimmed n" "n \<noteq> []"
  shows "trimmed (n @ '' <'' @ e @ ''>'')"
proof -
  have "\<not> starts_any space_runes (n @ '' <'' @ e @ ''>'')"
    using starts_front [OF assms, of "CHR '' ''" "''<'' @ e @ ''>''"] by (simp add: spaces_def)
  moreover have "\<not> starts_any (map rev space_runes) (rev (n @ '' <'' @ e @ ''>''))"
    by (auto simp: starts_any_def hasPrefix_def space_runes_def)
  ultimately show ?thesis by (simp add: trimmed_iff)
qed

lemma parseAuthor_print:
  assumes "author_ok a"
  shows "parseAuthor (print_author a) = a"
proof (cases "au_Email a = []")
  case True
  with assms show ?thesis
    by (cases a) (simp add: parseAuthor_def print_author_def author_ok_def indexOf_absent)
next
  case False
  let ?n = "au_Name a" and ?e = "au_Email a"
  from assms have t: "trimmed (?n @ '' <'' @ ?e @ ''>'')" using trimmed_bracketed [of ?n ?e] by (simp add: author_ok_def)
  have "indexOf ((?n @ '' '') @ CHR ''<'' # ?e @ ''>'') ''<'' = Some (length (?n @ '' ''))"
    by (rule indexOf_single) (use assms in \<open>auto simp: author_ok_def\<close>)
  moreover have "indexOf ((?n @ '' <'' @ ?e) @ CHR ''>'' # []) ''>'' = Some (length (?n @ '' <'' @ ?e))"
    by (rule indexOf_single) (use assms in \<open>auto simp: author_ok_def\<close>)
  moreover have "trimSpace (?n @ '' '') = ?n"
    by (rule trimSpace_end) (use assms in \<open>auto simp: author_ok_def spaces_def\<close>)
  moreover have "trimmed ?e" using assms by (simp add: author_ok_def)
  ultimately show ?thesis using False t by (cases a) (simp add: parseAuthor_def print_author_def)
qed

lemma log_authors:
  assumes "list_all author_ok as" "ls_current st = Some c"
  shows "fold (log_line parseTime) (map (\<lambda>a. ''Author: '' @ print_author a) as) st =
    st\<lparr>ls_current := Some (c\<lparr>cg_Authors := cg_Authors c @ as\<rparr>)\<rparr>"
  using assms
proof (induction as arbitrary: st c)
  case (Cons a as)
  have "log_line parseTime (''Author: '' @ print_author a) st = st\<lparr>ls_current := Some (c\<lparr>cg_Authors := cg_Authors c @ [a]\<rparr>)\<rparr>"
    using Cons.prems trimPrefix_append [of "''Author: ''" "print_author a"]
    by (simp add: log_line_def hasPrefix_def parseAuthor_print)
  with Cons.IH [where st = "log_line parseTime (''Author: '' @ print_author a) st"] Cons.prems show ?case by simp
qed simp

lemma log_message:
  assumes "ls_current st = Some c" "ls_inMessage st"
  shows "fold (log_line parseTime) (map (\<lambda>l. ''    '' @ l) ls @ [[]]) st = st\<lparr>ls_messageLines := ls_messageLines st @ ls @ [[]]\<rparr>"
  using assms
proof (induction ls arbitrary: st)
  case (Cons l ls)
  have "log_line parseTime (''    '' @ l) st = st\<lparr>ls_messageLines := ls_messageLines st @ [l]\<rparr>"
    using Cons.prems trimPrefix_append [of "''    ''" l] by (simp add: log_line_def hasPrefix_def)
  with Cons show ?case by simp
qed (simp add: log_line_def hasPrefix_def trimPrefix_def)

lemma joinWith_end: "ls \<noteq> [] \<Longrightarrow> joinWith [newline] (ls @ [[]]) = joinWith [newline] ls @ [newline]"
  by (induction "[newline]" ls rule: joinWith.induct) auto

lemma log_change:
  assumes "change_ok parseTime formatTime c"
  shows "finished (fold (log_line parseTime) (change_lines formatTime c) st) = finished st @ [c]"
proof -
  let ?c = "\<lparr>cg_Hash = cg_Hash c, cg_Authors = [], cg_Message = [], cg_Timestamp = zero_time, cg_Dependencies = []\<rparr>"
  let ?new = "\<lparr>ls_changes = finished st, ls_current = Some ?c, ls_messageLines = [], ls_inMessage = False\<rparr>"
  have head: "log_line parseTime (''Hash: '' @ cg_Hash c) st = ?new"
    using trimPrefix_append [of "''Hash: ''" "cg_Hash c"] by (simp add: log_line_def hasPrefix_def)
  let ?mid = "?new\<lparr>ls_current := Some (?c\<lparr>cg_Authors := cg_Authors c\<rparr>)\<rparr>"
  have date: "log_line parseTime (''Date: '' @ formatTime (cg_Timestamp c)) ?mid =
      ?mid\<lparr>ls_current := Some (?c\<lparr>cg_Authors := cg_Authors c, cg_Timestamp := cg_Timestamp c\<rparr>)\<rparr>"
    using assms trimPrefix_append [of "''Date: ''" "formatTime (cg_Timestamp c)"]
    by (simp add: log_line_def hasPrefix_def change_ok_def)
  have "joinWith [newline] (splitOn newline (cg_Message c) @ [[]]) = cg_Message c @ [newline]"
    by (simp add: joinWith_end join_splitOn)
  moreover have "trimSpace (cg_Message c @ [newline]) = cg_Message c"
    by (rule trimSpace_end) (use assms in \<open>auto simp: change_ok_def spaces_def\<close>)
  ultimately have m: "trimSpace (joinWith [newline] (splitOn newline (cg_Message c) @ [[]])) = cg_Message c" by simp
  let ?dated = "?mid\<lparr>ls_current := Some (?c\<lparr>cg_Authors := cg_Authors c, cg_Timestamp := cg_Timestamp c\<rparr>)\<rparr>"
  have authors: "fold (log_line parseTime) (map (\<lambda>a. ''Author: '' @ print_author a) (cg_Authors c)) ?new = ?mid"
    by (subst log_authors [where c = ?c]) (use assms in \<open>simp_all add: change_ok_def\<close>)
  have blank: "log_line parseTime [] ?dated = ?dated\<lparr>ls_inMessage := True\<rparr>"
    by (simp add: log_line_def hasPrefix_def)
  have message: "fold (log_line parseTime) (map (\<lambda>l. ''    '' @ l) (splitOn newline (cg_Message c)) @ [[]])
      (?dated\<lparr>ls_inMessage := True\<rparr>) =
    ?dated\<lparr>ls_inMessage := True, ls_messageLines := splitOn newline (cg_Message c) @ [[]]\<rparr>"
    by (subst log_message) simp_all
  have "fold (log_line parseTime) (change_lines formatTime c) st =
      ?dated\<lparr>ls_inMessage := True, ls_messageLines := splitOn newline (cg_Message c) @ [[]]\<rparr>"
    unfolding change_lines_def fold.simps comp_apply fold_append head authors date blank id_apply
    by (rule message [unfolded fold_append fold.simps comp_apply id_apply])
  then show ?thesis
    using assms m by (cases c) (simp add: finished_def change_ok_def)
qed

lemma log_changes:
  "list_all (change_ok parseTime formatTime) cs \<Longrightarrow>
    finished (fold (log_line parseTime) (concat (map (change_lines formatTime) cs)) st) = finished st @ cs"
  by (induction cs arbitrary: st) (simp_all add: log_change)


definition sample_time :: time_parser where
  "sample_time layout s = (if s = ''2024-01-01 12:00:00'' then Some 7 else None)"

definition sample_log :: "Change list" where
  "sample_log =
     [\<lparr>cg_Hash = ''A'', cg_Authors = [\<lparr>au_Name = ''Ann'', au_Email = ''a@b''\<rparr>, \<lparr>au_Name = ''Bob'', au_Email = []\<rparr>],
       cg_Message = ''Hash: B'' @ [newline] @ ''# Message'', cg_Timestamp = 7, cg_Dependencies = []\<rparr>,
      \<lparr>cg_Hash = ''C'', cg_Authors = [], cg_Message = [], cg_Timestamp = 7, cg_Dependencies = []\<rparr>]"


section \<open>Reading a printed list of channels\<close>

definition print_channel :: "Channel \<Rightarrow> string" where
  "print_channel c = (if cn_IsCurrent c then ''* '' else ''  '') @ cn_Name c"

definition channel_ok :: "Channel \<Rightarrow> bool" where
  "channel_ok c \<longleftrightarrow> trimmed (cn_Name c) \<and> cn_Name c \<noteq> [] \<and> plain_line (print_channel c)"

lemma channel_line_print:
  assumes "channel_ok c"
  shows "channel_line (print_channel c) = [c]"
proof (cases "cn_IsCurrent c")
  case True
  have n: "trimmed (cn_Name c)" "cn_Name c \<noteq> []" using assms by (simp_all add: channel_ok_def)
  have "\<not> starts_any space_runes (''* '' @ cn_Name c)"
    by (auto simp: starts_any_def hasPrefix_def space_runes_def)
  moreover have "\<not> starts_any (map rev space_runes) (rev (''* '' @ cn_Name c))"
    using starts_back [OF n, of "CHR '' ''" "''*''"] by (simp add: spaces_def)
  ultimately have "trimmed (''* '' @ cn_Name c)" by (simp add: trimmed_iff)
  then have "trimSpace (''* '' @ cn_Name c) \<noteq> []" by (metis append_is_Nil_conv list.distinct(1) trimmed_def)
  moreover have "trimPrefix (cn_Name c) ''  '' = cn_Name c" using n(1) by (rule trimmed_trimPrefix)
  ultimately show ?thesis
    using n True trimPrefix_append [of "''* ''" "cn_Name c"]
    by (cases c) (simp add: channel_line_def print_channel_def hasPrefix_def)
next
  case False
  have n: "trimmed (cn_Name c)" "cn_Name c \<noteq> []" using assms by (simp_all add: channel_ok_def)
  have "trimSpace (''  '' @ cn_Name c) = cn_Name c"
    by (rule trimSpace_start) (use n in \<open>auto simp: spaces_def\<close>)
  moreover have "trimPrefix (cn_Name c) ''  '' = cn_Name c" using n(1) by (rule trimmed_trimPrefix)
  moreover have "trimPrefix (''  '' @ cn_Name c) ''* '' = ''  '' @ cn_Name c"
    by (rule trimPrefix_id) (simp add: hasPrefix_def)
  ultimately show ?thesis
    using n False by (cases c) (simp add: channel_line_def print_channel_def hasPrefix_def)
qed

lemma channels_roundtrip:
  assumes "list_all channel_ok cs"
  shows "parseChannelOutput (print_lines (map print_channel cs)) = Inr cs"
proof -
  have "list_all plain_line (map print_channel cs)"
    using assms by (auto simp: list_all_iff channel_ok_def)
  moreover have "concat (map (channel_line \<circ> print_channel) cs) = cs"
    using assms by (induction cs) (simp_all add: channel_line_print)
  ultimately show ?thesis by (simp add: parseChannelOutput_def scanner_print_lines)
qed

end
