(* ===== verification/Pijul_Repo.thy ===== *)
theory Pijul_Repo
  imports Pijul_Text
begin

text \<open>
  A pijul repository of a knot: the package \<^verbatim>\<open>knotserver/pijul\<close>. Every operation runs the program
  \<^verbatim>\<open>pijul\<close> in the directory of the repository, or reads the working copy there.
\<close>

unbundle bit_operations_syntax

section \<open>Running pijul (cmd.go)\<close>

record PijulRepo =
  pr_path :: string
  pr_channelName :: string

definition runPijulCmd :: "Host \<Rightarrow> PijulRepo \<Rightarrow> string \<Rightarrow> string list \<Rightarrow> (GoError, string) result prog" where
  "runPijulCmd H p command extraArgs = do {
     r \<leftarrow> exec_Command H ''pijul'' (command # extraArgs) (pr_path p);
     ret (case r of
            Exited_ok stdout _ \<Rightarrow> Inr stdout
          | Exited_with err stderr \<Rightarrow> Inl (Wrap_before (Text err) ('', stderr: '' @ stderr))
          | Not_started err \<Rightarrow> Inl (Wrap_after (''pijul '' @ command @ '': '') (Text err)))
   }"

definition pijul_log :: "Host \<Rightarrow> PijulRepo \<Rightarrow> string list \<Rightarrow> (GoError, string) result prog" where
  "pijul_log H p extraArgs = runPijulCmd H p ''log'' extraArgs"

definition channelCmd :: "Host \<Rightarrow> PijulRepo \<Rightarrow> string list \<Rightarrow> (GoError, string) result prog" where
  "channelCmd H p extraArgs = runPijulCmd H p ''channel'' extraArgs"

definition pijul_diff :: "Host \<Rightarrow> PijulRepo \<Rightarrow> string list \<Rightarrow> (GoError, string) result prog" where
  "pijul_diff H p extraArgs = runPijulCmd H p ''diff'' extraArgs"

definition pijul_change :: "Host \<Rightarrow> PijulRepo \<Rightarrow> string list \<Rightarrow> (GoError, string) result prog" where
  "pijul_change H p extraArgs = runPijulCmd H p ''change'' extraArgs"

text \<open>\<^verbatim>\<open>_, err := m; return err\<close>.\<close>

definition only_error :: "('s, ('e, 'a) result) state \<Rightarrow> ('s, 'e option) state" where
  "only_error m = attempt m (\<lambda>e. ret (Some e)) (\<lambda>_. ret None)"

section \<open>Changes (change.go)\<close>

definition channel_args :: "PijulRepo \<Rightarrow> string list" where
  "channel_args p = (if pr_channelName p \<noteq> [] then [''--channel'', pr_channelName p] else [])"

definition isNoChangesError :: "GoError \<Rightarrow> bool" where
  "isNoChangesError err \<longleftrightarrow>
     (let lower = toLower (Error err) in contains lower ''no changes'' \<or> contains lower ''no change'')"

definition Changes :: "Host \<Rightarrow> time_parser \<Rightarrow> PijulRepo \<Rightarrow> int \<Rightarrow> int \<Rightarrow> (GoError, Change list) result prog" where
  "Changes H parseTime p offset limit =
     attempt (pijul_log H p ([''--offset'', itoa offset, ''--limit'', itoa limit] @ channel_args p))
       (\<lambda>err. ret (if isNoChangesError err then Inr [] else Inl (Wrap_after ''pijul log: '' err)))
       (\<lambda>output. ret (parseLogOutput parseTime output))"

definition TotalChanges :: "Host \<Rightarrow> PijulRepo \<Rightarrow> (GoError, nat) result prog" where
  "TotalChanges H p =
     attempt (pijul_log H p (''--hash-only'' # channel_args p))
       (\<lambda>err. ret (if isNoChangesError err then Inr 0 else Inl (Wrap_after ''pijul log: '' err)))
       (\<lambda>output.
          let lines = splitOn newline (trimSpace output)
          in ret (Inr (if length lines = 1 \<and> lines ! 0 = [] then 0 else length lines)))"

definition GetChange :: "Host \<Rightarrow> PijulRepo \<Rightarrow> string \<Rightarrow> (GoError, Change) result prog" where
  "GetChange H p hash =
     attempt (pijul_change H p [hash])
       (\<lambda>err. ret (Inl (Wrap_after (''pijul change '' @ hash @ '': '') err)))
       (\<lambda>output. ret (parseChangeOutput hash output))"

record ChangeJSON =
  cj_Hash :: string
  cj_Authors :: "string list"
  cj_Message :: string
  cj_Timestamp :: string
  cj_Dependencies :: "string list"

definition change_of_json :: "time_parser \<Rightarrow> ChangeJSON \<Rightarrow> Change" where
  "change_of_json parseTime jc =
     \<lparr>cg_Hash = cj_Hash jc, cg_Authors = map parseAuthor (cj_Authors jc), cg_Message = cj_Message jc,
      cg_Timestamp = (case parseTimestamp parseTime (cj_Timestamp jc) of Some t \<Rightarrow> t | None \<Rightarrow> zero_time),
      cg_Dependencies = cj_Dependencies jc\<rparr>"

text \<open>\<open>decode\<close> is the JSON decoder; \<open>None\<close> stands for its error.\<close>

definition ChangesJSON ::
  "Host \<Rightarrow> time_parser \<Rightarrow> (string \<Rightarrow> ChangeJSON list option) \<Rightarrow> PijulRepo \<Rightarrow> int \<Rightarrow> int \<Rightarrow>
     (GoError, Change list) result prog" where
  "ChangesJSON H parseTime decode p offset limit =
     attempt (pijul_log H p ([''--offset'', itoa offset, ''-n'', itoa limit, ''--json''] @ channel_args p))
       (\<lambda>err. Changes H parseTime p offset limit)
       (\<lambda>output.
          case decode output of
            None \<Rightarrow> Changes H parseTime p offset limit
          | Some jsonChanges \<Rightarrow> ret (Inr (map (change_of_json parseTime) jsonChanges)))"

section \<open>Channels (channel.go)\<close>

definition Channels :: "Host \<Rightarrow> PijulRepo \<Rightarrow> (GoError, Channel list) result prog" where
  "Channels H p =
     attempt (channelCmd H p []) (\<lambda>err. ret (Inl (Wrap_after ''listing channels: '' err)))
       (\<lambda>output. ret (parseChannelOutput output))"

record ChannelOptions =
  op_Limit :: int
  op_Offset :: int

definition channel_page :: "ChannelOptions \<Rightarrow> Channel list \<Rightarrow> Channel list" where
  "channel_page opts channels =
     (if op_Offset opts > 0 \<and> op_Offset opts \<ge> int (length channels) then []
      else
        let channels = (if op_Offset opts > 0 then drop (nat (op_Offset opts)) channels else channels)
        in if op_Limit opts > 0 \<and> op_Limit opts < int (length channels) then take (nat (op_Limit opts)) channels
           else channels)"

definition ChannelsWithOptions :: "Host \<Rightarrow> PijulRepo \<Rightarrow> ChannelOptions option \<Rightarrow> (GoError, Channel list) result prog" where
  "ChannelsWithOptions H p opts =
     attempt (Channels H p) (\<lambda>err. ret (Inl err))
       (\<lambda>channels. ret (Inr (case opts of None \<Rightarrow> channels | Some o' \<Rightarrow> channel_page o' channels)))"

definition CreateChannel :: "Host \<Rightarrow> PijulRepo \<Rightarrow> string \<Rightarrow> GoError option prog" where
  "CreateChannel H p name = only_error (channelCmd H p [''new'', name])"

definition DeleteChannel :: "Host \<Rightarrow> PijulRepo \<Rightarrow> string \<Rightarrow> GoError option prog" where
  "DeleteChannel H p name = only_error (channelCmd H p [''delete'', name])"

definition RenameChannel :: "Host \<Rightarrow> PijulRepo \<Rightarrow> string \<Rightarrow> string \<Rightarrow> GoError option prog" where
  "RenameChannel H p oldName newName = only_error (channelCmd H p [''rename'', oldName, newName])"

definition SwitchChannel :: "Host \<Rightarrow> PijulRepo \<Rightarrow> string \<Rightarrow> (GoError, PijulRepo) result prog" where
  "SwitchChannel H p name =
     attempt (channelCmd H p [''switch'', name])
       (\<lambda>err. ret (Inl (Wrap_after (''switching to channel '' @ name @ '': '') err)))
       (\<lambda>_. ret (Inr (p\<lparr>pr_channelName := name\<rparr>)))"

definition CurrentChannelName :: "Host \<Rightarrow> PijulRepo \<Rightarrow> (GoError, string) result prog" where
  "CurrentChannelName H p =
     attempt (Channels H p) (\<lambda>err. ret (Inl err))
       (\<lambda>channels. ret (Inr (case find cn_IsCurrent channels of Some ch \<Rightarrow> cn_Name ch | None \<Rightarrow> ''main'')))"

definition ForkChannel :: "Host \<Rightarrow> PijulRepo \<Rightarrow> string \<Rightarrow> string \<Rightarrow> GoError option prog" where
  "ForkChannel H p newName fromChannel =
     only_error (channelCmd H p ([''fork'', newName] @ (if fromChannel \<noteq> [] then [''--channel'', fromChannel] else [])))"

definition has_channel :: "string \<Rightarrow> Channel list \<Rightarrow> bool" where
  "has_channel name channels \<longleftrightarrow> (\<exists>ch \<in> set channels. cn_Name ch = name)"

definition ChannelExists :: "Host \<Rightarrow> PijulRepo \<Rightarrow> string \<Rightarrow> (GoError, bool) result prog" where
  "ChannelExists H p name =
     attempt (Channels H p) (\<lambda>err. ret (Inl err)) (\<lambda>channels. ret (Inr (has_channel name channels)))"

section \<open>Opening and creating (pijul.go, repo.go)\<close>

definition pijul_missing :: "Host \<Rightarrow> string \<Rightarrow> HostCall list \<Rightarrow> bool" where
  "pijul_missing H path calls \<longleftrightarrow>
     (case ho_stat H calls (path_Join path ''.pijul'') of Inl e \<Rightarrow> os_IsNotExist e | Inr _ \<Rightarrow> False)"

definition Pijul_Open :: "Host \<Rightarrow> string \<Rightarrow> string \<Rightarrow> (GoError, PijulRepo) result prog" where
  "Pijul_Open H path channel = do {
     missing \<leftarrow> look (pijul_missing H path);
     if missing then ret (Inl (Wrap_before (Sentinel ErrNoPijulRepo) ('': '' @ path)))
     else
       let p = \<lparr>pr_path = path, pr_channelName = channel\<rparr>
       in if channel \<noteq> [] then
            attempt (Channels H p) (\<lambda>err. ret (Inl (Wrap_after ''listing channels: '' err)))
              (\<lambda>channels.
                 ret (if \<not> has_channel channel channels
                      then Inl (Wrap_before (Sentinel ErrChannelNotFound) ('': '' @ channel)) else Inr p))
          else ret (Inr p)
   }"

definition Pijul_PlainOpen :: "Host \<Rightarrow> string \<Rightarrow> (GoError, PijulRepo) result prog" where
  "Pijul_PlainOpen H path = do {
     missing \<leftarrow> look (pijul_missing H path);
     ret (if missing then Inl (Wrap_before (Sentinel ErrNoPijulRepo) ('': '' @ path))
          else Inr \<lparr>pr_path = path, pr_channelName = []\<rparr>)
   }"

definition FindDefaultChannel :: "Host \<Rightarrow> PijulRepo \<Rightarrow> (GoError, string) result prog" where
  "FindDefaultChannel H p =
     attempt (Channels H p) (\<lambda>err. ret (Inl err))
       (\<lambda>channels.
          ret (Inr (if has_channel ''main'' channels then ''main''
                    else if length channels > 0 then cn_Name (channels ! 0) else ''main'')))"

definition SetDefaultChannel :: "Host \<Rightarrow> PijulRepo \<Rightarrow> string \<Rightarrow> GoError option prog" where
  "SetDefaultChannel H p channel =
     attempt (Channels H p) (\<lambda>err. ret (Some err))
       (\<lambda>channels.
          ret (if has_channel channel channels then None
               else Some (Wrap_before (Sentinel ErrChannelNotFound) ('': '' @ channel))))"

definition failed_run :: "string \<Rightarrow> Ran \<Rightarrow> GoError option" where
  "failed_run what r =
     (case r of
        Exited_ok _ _ \<Rightarrow> None
      | Exited_with err stderr \<Rightarrow> Some (Wrap_after what (Wrap_before (Text err) ('', stderr: '' @ stderr)))
      | Not_started err \<Rightarrow> Some (Wrap_after what (Wrap_before (Text err) '', stderr: '')))"

definition Pijul_InitBare :: "Host \<Rightarrow> string \<Rightarrow> GoError option prog" where
  "Pijul_InitBare H repoPath =
     unless_error (os_do H (MkdirAll repoPath)) (\<lambda>err. ret (Some (Wrap_after ''creating directory: '' err)))
       (do { r \<leftarrow> exec_Command H ''pijul'' [''init''] repoPath; ret (failed_run ''pijul init: '' r) })"

definition InitRepo :: "Host \<Rightarrow> string \<Rightarrow> bool \<Rightarrow> GoError option prog" where
  "InitRepo H path bare =
     unless_error (os_do H (MkdirAll path)) (\<lambda>err. ret (Some (Wrap_after ''creating directory: '' err)))
       (do { r \<leftarrow> exec_Command H ''pijul'' (''init'' # (if bare then [''--kind=bare''] else [])) path;
             ret (failed_run ''pijul init: '' r) })"

text \<open>A command without a directory runs in that of the server: the empty one.\<close>

definition Pijul_Clone :: "Host \<Rightarrow> string \<Rightarrow> string \<Rightarrow> string \<Rightarrow> GoError option prog" where
  "Pijul_Clone H url destPath channel = do {
     r \<leftarrow> exec_Command H ''pijul'' ([''clone'', url, destPath] @ (if channel \<noteq> [] then [''--channel'', channel] else [])) [];
     ret (failed_run ''pijul clone: '' r)
   }"

definition Pijul_Fork :: "Host \<Rightarrow> string \<Rightarrow> string \<Rightarrow> GoError option prog" where
  "Pijul_Fork H srcPath destPath = do {
     r \<leftarrow> exec_Command H ''pijul'' [''clone'', srcPath, destPath] [];
     ret (failed_run ''pijul clone: '' r)
   }"

definition Pijul_Push :: "Host \<Rightarrow> PijulRepo \<Rightarrow> string \<Rightarrow> string \<Rightarrow> GoError option prog" where
  "Pijul_Push H p remote channel =
     (let args = [''push'', remote] @ (if channel \<noteq> [] then [''--channel'', channel] else [])
      in only_error (runPijulCmd H p ''push'' args))"

definition Pijul_Pull :: "Host \<Rightarrow> PijulRepo \<Rightarrow> string \<Rightarrow> string \<Rightarrow> GoError option prog" where
  "Pijul_Pull H p remote channel =
     (let args = [''pull'', remote] @ (if channel \<noteq> [] then [''--channel'', channel] else [])
      in only_error (runPijulCmd H p ''pull'' args))"

definition Pijul_Apply :: "Host \<Rightarrow> PijulRepo \<Rightarrow> string \<Rightarrow> GoError option prog" where
  "Pijul_Apply H p changeHash = only_error (runPijulCmd H p ''apply'' [changeHash])"

definition Unrecord :: "Host \<Rightarrow> PijulRepo \<Rightarrow> string \<Rightarrow> GoError option prog" where
  "Unrecord H p changeHash = only_error (runPijulCmd H p ''unrecord'' (changeHash # channel_args p))"

definition record_args :: "PijulRepo \<Rightarrow> string \<Rightarrow> Author list \<Rightarrow> string list" where
  "record_args p message authors =
     [''-m'', message] @ concat (map (\<lambda>a. [''--author'', print_author a]) authors) @ channel_args p"

definition Record :: "Host \<Rightarrow> PijulRepo \<Rightarrow> string \<Rightarrow> Author list \<Rightarrow> GoError option prog" where
  "Record H p message authors = only_error (runPijulCmd H p ''record'' (record_args p message authors))"

definition Pijul_Add :: "Host \<Rightarrow> PijulRepo \<Rightarrow> string list \<Rightarrow> GoError option prog" where
  "Pijul_Add H p paths = only_error (runPijulCmd H p ''add'' paths)"

definition Pijul_Remove :: "Host \<Rightarrow> PijulRepo \<Rightarrow> string list \<Rightarrow> GoError option prog" where
  "Pijul_Remove H p paths = only_error (runPijulCmd H p ''remove'' paths)"

section \<open>Files of the working copy (pijul.go, tree.go)\<close>

definition path_error :: "string \<Rightarrow> stat_error \<Rightarrow> GoError" where
  "path_error filePath e =
     (if os_IsNotExist e then Wrap_before (Sentinel ErrPathNotFound) ('': '' @ filePath) else Text (stat_text e))"

definition FileContent :: "Host \<Rightarrow> PijulRepo \<Rightarrow> string \<Rightarrow> (GoError, string) result prog" where
  "FileContent H p filePath =
     attempt (look (\<lambda>calls. ho_readFile H calls (path_Join (pr_path p) filePath)))
       (\<lambda>e. ret (Inl (path_error filePath e))) (\<lambda>content. ret (Inr content))"

definition isBinary :: "string \<Rightarrow> bool" where
  "isBinary data \<longleftrightarrow> (\<exists>b \<in> set data. b = CHR 0x00)"

text \<open>The first 512 bytes decide whether the file is binary; a read of a file delivers what fits.\<close>

definition FileContentN :: "Host \<Rightarrow> PijulRepo \<Rightarrow> string \<Rightarrow> nat \<Rightarrow> (GoError, string) result prog" where
  "FileContentN H p filePath cap =
     attempt (look (\<lambda>calls. ho_readFile H calls (path_Join (pr_path p) filePath)))
       (\<lambda>e. ret (Inl (path_error filePath e)))
       (\<lambda>content. ret (if isBinary (take 512 content) then Inl (Sentinel ErrBinaryFile) else Inr (take cap content)))"

definition RawContent :: "Host \<Rightarrow> PijulRepo \<Rightarrow> string \<Rightarrow> (stat_error, string) result prog" where
  "RawContent H p filePath = look (\<lambda>calls. ho_readFile H calls (path_Join (pr_path p) filePath))"

record NiceTree =
  nt_Name :: string
  nt_Mode :: string
  nt_Size :: int

definition fileModeToString :: "32 word \<Rightarrow> string" where
  "fileModeToString mode =
     (if Mode_IsDir mode then ''040000''
      else if bit mode 27 then ''120000''
      else if mode AND 0x49 \<noteq> 0 then ''100755''
      else ''100644'')"

definition tree_of_entries :: "(string \<times> FileInfo option) list \<Rightarrow> NiceTree list" where
  "tree_of_entries entries =
     concat (map (\<lambda>(name, info).
       if name = ''.pijul'' then []
       else (case info of
               None \<Rightarrow> []
             | Some i \<Rightarrow> [\<lparr>nt_Name = name, nt_Mode = fileModeToString (fi_Mode i), nt_Size = fi_Size i\<rparr>])) entries)"

definition FileTree :: "Host \<Rightarrow> PijulRepo \<Rightarrow> string \<Rightarrow> (GoError, NiceTree list) result prog" where
  "FileTree H p treePath =
     (let fullPath = path_Join (pr_path p) treePath
      in attempt (look (\<lambda>calls. ho_stat H calls fullPath))
           (\<lambda>e. ret (Inl (if os_IsNotExist e then Sentinel ErrPathNotFound else Text (stat_text e))))
           (\<lambda>info.
              if \<not> Mode_IsDir (fi_Mode info) then ret (Inr [])
              else attempt (look (\<lambda>calls. ho_readDir H calls fullPath))
                     (\<lambda>e. ret (Inl (Text (stat_text e)))) (\<lambda>entries. ret (Inr (tree_of_entries entries)))))"

definition ListFiles :: "Host \<Rightarrow> PijulRepo \<Rightarrow> (GoError, string list) result prog" where
  "ListFiles H p =
     attempt (runPijulCmd H p ''ls'' []) (\<lambda>err. ret (Inl err))
       (\<lambda>output.
          let lines = splitOn newline (trimSpace output)
          in ret (Inr (if length lines = 1 \<and> lines ! 0 = [] then [] else lines)))"

definition IsTracked :: "Host \<Rightarrow> PijulRepo \<Rightarrow> string \<Rightarrow> (GoError, bool) result prog" where
  "IsTracked H p filePath =
     attempt (ListFiles H p) (\<lambda>err. ret (Inl err)) (\<lambda>files. ret (Inr (filePath \<in> set files)))"

definition FileExists :: "Host \<Rightarrow> PijulRepo \<Rightarrow> string \<Rightarrow> bool prog" where
  "FileExists H p filePath = look (\<lambda>calls. is_ok (ho_stat H calls (path_Join (pr_path p) filePath)))"

definition Pijul_IsDir :: "Host \<Rightarrow> PijulRepo \<Rightarrow> string \<Rightarrow> (stat_error, bool) result prog" where
  "Pijul_IsDir H p treePath =
     attempt (look (\<lambda>calls. ho_stat H calls (path_Join (pr_path p) treePath)))
       (\<lambda>e. ret (Inl e)) (\<lambda>info. ret (Inr (Mode_IsDir (fi_Mode info))))"

section \<open>Differences (diff.go)\<close>

definition Diff_uncommitted :: "Host \<Rightarrow> PijulRepo \<Rightarrow> (GoError, string) result prog" where
  "Diff_uncommitted H p =
     attempt (pijul_diff H p []) (\<lambda>err. ret (Inl (Wrap_after ''pijul diff: '' err))) (\<lambda>output. ret (Inr output))"

definition DiffChange :: "Host \<Rightarrow> PijulRepo \<Rightarrow> string \<Rightarrow> (GoError, string) result prog" where
  "DiffChange H p hash =
     attempt (pijul_change H p [hash]) (\<lambda>err. ret (Inl (Wrap_after (''pijul change '' @ hash @ '': '') err)))
       (\<lambda>output. ret (Inr output))"

definition DiffBetween :: "Host \<Rightarrow> PijulRepo \<Rightarrow> string \<Rightarrow> string \<Rightarrow> (GoError, string) result prog" where
  "DiffBetween H p from_channel to_channel =
     attempt (pijul_diff H p
         ((if from_channel \<noteq> [] then [''--channel'', from_channel] else []) @
          (if to_channel \<noteq> [] then [''--channel'', to_channel] else [])))
       (\<lambda>err. ret (Inl (Wrap_after ''pijul diff: '' err))) (\<lambda>output. ret (Inr output))"

end
