(* ===== verification/Knot_XRPC.thy ===== *)
theory Knot_XRPC
  imports Git_Repo Pijul_Repo Knot_Ingest
begin

text \<open>
  The XRPC server of a knot: \<^verbatim>\<open>knotserver/xrpc\<close>, \<^verbatim>\<open>xrpc/errors\<close> and \<^verbatim>\<open>hook/setup.go\<close>. A handler gets the
  decoded parts of a request and answers; it runs on the list of calls of \<open>Knot_Host\<close> together with
  the state of the access control, whose engine \<open>C\<close> is that of \<open>RBAC\<close>. This theory holds the handlers
  that change repositories; creation, deletion and rights are in \<open>Knot_Admin\<close>.
\<close>

section \<open>Requests and answers\<close>

record XrpcError =
  xe_Tag :: string
  xe_Message :: string

definition NewXrpcError :: "string \<Rightarrow> string \<Rightarrow> XrpcError" where
  "NewXrpcError tag message = \<lparr>xe_Tag = tag, xe_Message = message\<rparr>"

definition MissingActorDidError :: XrpcError where
  "MissingActorDidError = NewXrpcError ''MissingActorDid'' ''actor DID not supplied''"

definition OwnerNotFoundError :: XrpcError where
  "OwnerNotFoundError = NewXrpcError ''OwnerNotFound'' ''owner not set for this service''"

definition RepoNotFoundError :: XrpcError where
  "RepoNotFoundError = NewXrpcError ''RepoNotFound'' ''failed to access repository''"

definition RefNotFoundError :: XrpcError where
  "RefNotFoundError = NewXrpcError ''RefNotFound'' ''failed to access ref''"

definition AuthError :: "string \<Rightarrow> XrpcError" where
  "AuthError err = NewXrpcError ''Auth'' (''signature verification failed: '' @ err)"

definition InvalidRepoError :: "string \<Rightarrow> XrpcError" where
  "InvalidRepoError r = NewXrpcError ''InvalidRepo'' (''supplied at-uri is not a repo: '' @ r)"

definition GitError :: "GoError \<Rightarrow> XrpcError" where
  "GitError e = NewXrpcError ''Git'' (''git error: '' @ Error e)"

definition AccessControlError :: "string \<Rightarrow> XrpcError" where
  "AccessControlError d =
     NewXrpcError ''AccessControl'' (''DID does not have sufficent access permissions for this operation: '' @ d)"

definition RepoExistsError :: "string \<Rightarrow> XrpcError" where
  "RepoExistsError r = NewXrpcError ''RepoExists'' (''repo already exists: '' @ r)"

definition RecordExistsError :: "string \<Rightarrow> XrpcError" where
  "RecordExistsError r = NewXrpcError ''RecordExists'' (''repo already exists: '' @ r)"

definition GenericError :: "GoError \<Rightarrow> XrpcError" where
  "GenericError err = NewXrpcError ''Generic'' (Error err)"

text \<open>The bodies that are written; \<open>Panics\<close> is a run-time error of the handler.\<close>

record TreeOutput =
  to_Ref :: string
  to_Parent :: "string option"
  to_Dotdot :: "string option"
  to_Files :: "NiceTree list"
  to_Readme :: "string \<times> string"

record ChangeEntry =
  ce_Hash :: string
  ce_Authors :: "Author list"
  ce_Message :: string
  ce_Timestamp :: "string option"
  ce_Dependencies :: "string list"

datatype Body =
    NoBody
  | Err XrpcError
  | ForkStatusOut int
  | MergeCheckOut bool "ConflictInfo list" "string option" "string option"
  | ApplyOut "string list" "(string \<times> string) list"
  | PermissionsOut "64 word" "string list"
  | OwnerOut string
  | ChannelsOut "Channel list"
  | ChannelOut string
  | BranchesOut "Branch list"
  | DefaultBranchOut string
  | ChangesOut "ChangeEntry list" string int int nat
  | ChangeOut ChangeEntry "string option"
  | TreeOut TreeOutput
  | BlobOut "string option" bool string string
  | LogOut "Commit list" string int int int string

datatype Answer = Answer (an_Status: nat) (an_Body: Body) | Panics

definition StatusUnauthorized :: nat where "StatusUnauthorized = 401"
definition StatusNotFound :: nat where "StatusNotFound = 404"
definition StatusMethodNotAllowed :: nat where "StatusMethodNotAllowed = 405"
definition StatusConflict :: nat where "StatusConflict = 409"

section \<open>The state and the world\<close>

type_synonym ('s, 'a) knot = "(HostCall list \<times> 's, 'a) state"

definition host :: "'a prog \<Rightarrow> ('s, 'a) knot" where
  "host m = State (\<lambda>(calls, s). case run_state m calls of (x, calls') \<Rightarrow> (x, (calls', s)))"

definition ask :: "('s \<Rightarrow> 'a) \<Rightarrow> ('s, 'a) knot" where
  "ask question = State (\<lambda>(calls, s). (question s, (calls, s)))"

fun rbac_text :: "string rbac_error \<Rightarrow> string" where
  "rbac_text (CasbinError e) = e"
| "rbac_text (InvalidRepo repo) = ''invalid repo: '' @ repo"

definition enforcer :: "('s \<Rightarrow> (string rbac_error, 's) result) \<Rightarrow> ('s, GoError option) knot" where
  "enforcer change = State (\<lambda>(calls, s).
     case change s of Inl e \<Rightarrow> (Some (Text (rbac_text e)), (calls, s)) | Inr s' \<Rightarrow> (None, (calls, s')))"

lemma run_host [simp]: "run_state (host m) (calls, s) = (case run_state m calls of (x, calls') \<Rightarrow> (x, (calls', s)))"
  by (simp add: host_def)

lemma run_ask [simp]: "run_state (ask question) (calls, s) = (question s, (calls, s))"
  by (simp add: ask_def)

lemma run_enforcer [simp]:
  "run_state (enforcer change) (calls, s) =
     (case change s of Inl e \<Rightarrow> (Some (Text (rbac_text e)), (calls, s)) | Inr s' \<Rightarrow> (None, (calls, s')))"
  by (simp add: enforcer_def)

text \<open>
  What is not the machine: identities, the record server of an identity (the name in the repository
  record of a user with a key), AT-URIs, the digest and the URL parser, and the path of the program.
\<close>

record XrpcEnv =
  xv_Host :: Host
  xv_Config :: KnotConfig
  xv_Patch :: "string PatchEnv"
  xv_Resolve :: resolver
  xv_GetRecord :: "string \<Rightarrow> string \<Rightarrow> string \<Rightarrow> (string, string) result"
  xv_ParseATURI :: "string \<Rightarrow> (string \<times> string) option"
  xv_sha256 :: "string \<Rightarrow> string"
  xv_parse_url :: "string \<Rightarrow> (GoError, Url) result"
  xv_file_url :: "string \<Rightarrow> string"
  xv_Executable :: "(GoError, string) result"
  xv_parseTime :: time_parser
  xv_formatTime :: "Time \<Rightarrow> string"
  xv_newHash :: "string \<Rightarrow> string"

type_synonym 's handler = "('s, Answer) knot"

definition reply :: "nat \<Rightarrow> Body \<Rightarrow> 's handler" where
  "reply status body = ret (Answer status body)"

definition writeError :: "XrpcError \<Rightarrow> nat \<Rightarrow> 's handler" where
  "writeError e status = reply status (Err e)"

definition fail_with :: "XrpcError \<Rightarrow> 's handler" where
  "fail_with e = writeError e StatusBadRequest"

definition secureJoin :: "XrpcEnv \<Rightarrow> string \<Rightarrow> string \<Rightarrow> ('s, (GoError, string) result) knot" where
  "secureJoin E a b = host (look (\<lambda>calls. map_sum Text id (ho_secureJoin (xv_Host E) calls a b)))"

definition invalid_request :: "string \<Rightarrow> XrpcError" where
  "invalid_request message = NewXrpcError ''InvalidRequest'' message"

definition quoted :: "string \<Rightarrow> string" where
  "quoted s = [CHR 0x27] @ s @ [CHR 0x27]"

definition parseRepoParam :: "XrpcEnv \<Rightarrow> string \<Rightarrow> ('s, (XrpcError, string) result) knot" where
  "parseRepoParam E repo =
     (if repo = [] then ret (Inl (invalid_request ''missing repo parameter''))
      else
        let parts = splitN 2 CHR ''/'' repo
        in if length parts \<noteq> 2 then ret (Inl (invalid_request (''invalid repo format, expected '' @ quoted ''did/repoName'')))
         else
           attempt (secureJoin E (parts ! 0) (parts ! 1)) (\<lambda>_. ret (Inl RepoNotFoundError))
          (\<lambda>didRepoPath. attempt (secureJoin E (kc_ScanPath (xv_Config E)) didRepoPath) (\<lambda>_. ret (Inl RepoNotFoundError))
          (\<lambda>repoPath. ret (Inr repoPath))))"

section \<open>Who asks, and for which repository\<close>

text \<open>\<^verbatim>\<open>r.Context().Value(ActorDid)\<close>, and the body of the request, which the JSON decoder may refuse.\<close>

definition with_actor :: "string option \<Rightarrow> (string \<Rightarrow> 's handler) \<Rightarrow> 's handler" where
  "with_actor actor rest = (case actor of None \<Rightarrow> fail_with MissingActorDidError | Some did \<Rightarrow> rest did)"

definition with_body :: "(string, 'b) result \<Rightarrow> ('b \<Rightarrow> 's handler) \<Rightarrow> 's handler" where
  "with_body body rest = (case body of Inl err \<Rightarrow> fail_with (GenericError (Text err)) | Inr data \<Rightarrow> rest data)"

definition require :: "bool \<Rightarrow> string \<Rightarrow> 's handler \<Rightarrow> 's handler" where
  "require ok message rest = (if \<not> ok then fail_with (GenericError (Text message)) else rest)"

text \<open>
  An identity that resolves to an invalid handle is refused with the error that is at hand, the nil
  error: \<^verbatim>\<open>GenericError\<close> then calls a method of it. The other handlers wrap it first.
\<close>

definition resolve_actor :: "XrpcEnv \<Rightarrow> string \<Rightarrow> (Identity \<Rightarrow> 's handler) \<Rightarrow> 's handler" where
  "resolve_actor E did rest =
     (case xv_Resolve E did of
        Inl err \<Rightarrow> fail_with (GenericError (Text err))
      | Inr ident \<Rightarrow> if id_InvalidHandle ident then ret Panics else rest ident)"

text \<open>An AT-URI of a repository record: the identity of its authority and the name in the record.\<close>

definition resolve_repo :: "XrpcEnv \<Rightarrow> string \<Rightarrow> (Identity \<Rightarrow> string \<Rightarrow> 's handler) \<Rightarrow> 's handler" where
  "resolve_repo E uri rest =
     (case xv_ParseATURI E uri of
        None \<Rightarrow> fail_with (InvalidRepoError uri)
      | Some (authority, rkey) \<Rightarrow>
     (case xv_Resolve E authority of
        Inl err \<Rightarrow> fail_with (GenericError (Text (''failed to resolve handle: '' @ err)))
      | Inr ident \<Rightarrow>
          if id_InvalidHandle ident then fail_with (GenericError (Text ''failed to resolve handle: %!w(<nil>)''))
          else
     (case xv_GetRecord E (id_PDS ident) authority rkey of
        Inl err \<Rightarrow> fail_with (GenericError (Text err))
      | Inr name \<Rightarrow> rest ident name)))"

definition require_push :: "('s, string) Casbin \<Rightarrow> string \<Rightarrow> string \<Rightarrow> 's handler \<Rightarrow> 's handler" where
  "require_push C actor repo rest = do {
     ok \<leftarrow> ask (\<lambda>s. allowed (IsPushAllowed C s actor ThisServer repo));
     if \<not> ok then writeError (AccessControlError actor) StatusUnauthorized else rest
   }"

definition under_scan_path :: "XrpcEnv \<Rightarrow> string \<Rightarrow> (string \<Rightarrow> 's handler) \<Rightarrow> 's handler" where
  "under_scan_path E repo rest =
     attempt (secureJoin E (kc_ScanPath (xv_Config E)) repo) (\<lambda>err. fail_with (GenericError err)) rest"

text \<open>The same where the code drops the error: the path is then empty.\<close>

definition under_scan_path' :: "XrpcEnv \<Rightarrow> string \<Rightarrow> (string \<Rightarrow> 's handler) \<Rightarrow> 's handler" where
  "under_scan_path' E repo rest =
     attempt (secureJoin E (kc_ScanPath (xv_Config E)) repo) (\<lambda>_. rest []) rest"

definition open_failed :: "GoError \<Rightarrow> XrpcError" where
  "open_failed err = GenericError (Wrap_after ''failed to open repository: '' err)"

definition ok_reply :: "'s handler" where
  "ok_reply = reply StatusOK NoBody"

section \<open>References\<close>

record SetDefaultBranchInput =
  sd_DefaultBranch :: string
  sd_Repo :: string

definition Xrpc_SetDefaultBranch ::
  "('s, string) Casbin \<Rightarrow> XrpcEnv \<Rightarrow> string option \<Rightarrow> (string, SetDefaultBranchInput) result \<Rightarrow> 's handler" where
  "Xrpc_SetDefaultBranch C E actor body =
     with_actor actor (\<lambda>actorDid. with_body body (\<lambda>data.
     resolve_repo E (sd_Repo data) (\<lambda>ident name.
     attempt (secureJoin E actorDid name) (\<lambda>err. fail_with (GenericError err)) (\<lambda>didPath.
     require_push C actorDid didPath
    (under_scan_path' E didPath (\<lambda>path.
     attempt (host (Git_PlainOpen (xv_Host E) path)) (\<lambda>err. fail_with (GenericError err)) (\<lambda>gr.
     unless_error (host (SetDefaultBranch (xv_Host E) gr (sd_DefaultBranch data)))
       (\<lambda>err. writeError (GitError err) StatusInternalServerError)
       ok_reply)))))))"

record DeleteBranchInput =
  db_Branch :: string
  db_Repo :: string

definition Xrpc_DeleteBranch ::
  "('s, string) Casbin \<Rightarrow> XrpcEnv \<Rightarrow> string option \<Rightarrow> (string, DeleteBranchInput) result \<Rightarrow> 's handler" where
  "Xrpc_DeleteBranch C E actor body =
     with_actor actor (\<lambda>actorDid. with_body body (\<lambda>data.
     resolve_repo E (db_Repo data) (\<lambda>ident name.
     attempt (secureJoin E (id_DID ident) name) (\<lambda>err. fail_with (GenericError err)) (\<lambda>didPath.
     require_push C actorDid didPath
    (under_scan_path' E didPath (\<lambda>path.
     attempt (host (Git_PlainOpen (xv_Host E) path)) (\<lambda>err. fail_with (GenericError err)) (\<lambda>gr.
     unless_error (host (Git_DeleteBranch (xv_Host E) gr (db_Branch data)))
       (\<lambda>err. writeError (GitError err) StatusInternalServerError)
       ok_reply)))))))"

record HiddenRefInput =
  hr_ForkRef :: string
  hr_RemoteRef :: string
  hr_Repo :: string

definition Xrpc_HiddenRef ::
  "('s, string) Casbin \<Rightarrow> XrpcEnv \<Rightarrow> string option \<Rightarrow> (string, HiddenRefInput) result \<Rightarrow> 's handler" where
  "Xrpc_HiddenRef C E actor body =
     with_actor actor (\<lambda>actorDid. with_body body (\<lambda>data.
     require (hr_ForkRef data \<noteq> [] \<and> hr_RemoteRef data \<noteq> [] \<and> hr_Repo data \<noteq> []) ''forkRef, remoteRef, and repo are required''
    (resolve_repo E (hr_Repo data) (\<lambda>ident name.
     attempt (secureJoin E actorDid name) (\<lambda>err. fail_with (GenericError err)) (\<lambda>didPath.
     require_push C actorDid didPath
    (under_scan_path E didPath (\<lambda>repoPath.
     attempt (host (Git_PlainOpen (xv_Host E) repoPath)) (\<lambda>err. fail_with (open_failed err)) (\<lambda>gr.
     unless_error (host (TrackHiddenRemoteRef (xv_Host E) gr (hr_ForkRef data) (hr_RemoteRef data)))
       (\<lambda>err. writeError (GitError err) StatusInternalServerError)
       ok_reply))))))))"

section \<open>Forks\<close>

record ForkInput =
  fk_Did :: string
  fk_Name :: string
  fk_Source :: string
  fk_Branch :: string
  fk_HiddenRef :: string

definition Xrpc_ForkSync ::
  "('s, string) Casbin \<Rightarrow> XrpcEnv \<Rightarrow> string option \<Rightarrow> (string, ForkInput) result \<Rightarrow> 's handler" where
  "Xrpc_ForkSync C E actor body =
     with_actor actor (\<lambda>actorDid. with_body body (\<lambda>data.
     require (fk_Did data \<noteq> [] \<and> fk_Name data \<noteq> []) ''did, name are required''
    (let relativeRepoPath = path_Join (fk_Did data) (fk_Name data)
     in require_push C actorDid relativeRepoPath
       (under_scan_path E relativeRepoPath (\<lambda>repoPath.
        attempt (host (Git_Open (xv_Host E) repoPath (fk_Branch data))) (\<lambda>err. fail_with (open_failed err)) (\<lambda>gr.
        unless_error (host (Sync (xv_Host E) gr))
          (\<lambda>err. writeError (GenericError err) StatusInternalServerError)
          ok_reply))))))"

text \<open>\<^verbatim>\<open>types.UpToDate\<close>, \<^verbatim>\<open>types.FastForwardable\<close>, \<^verbatim>\<open>types.Conflict\<close>.\<close>

definition UpToDate :: int where "UpToDate = 0"
definition FastForwardable :: int where "FastForwardable = 1"
definition ForkConflict :: int where "ForkConflict = 2"

definition Xrpc_ForkStatus ::
  "('s, string) Casbin \<Rightarrow> XrpcEnv \<Rightarrow> string option \<Rightarrow> (string, ForkInput) result \<Rightarrow> 's handler" where
  "Xrpc_ForkStatus C E actor body =
     with_actor actor (\<lambda>actorDid. with_body body (\<lambda>data.
     require (fk_Did data \<noteq> [] \<and> fk_Source data \<noteq> [] \<and> fk_Branch data \<noteq> [] \<and> fk_HiddenRef data \<noteq> [])
       ''did, source, branch, and hiddenRef are required''
    (let name = (if fk_Name data \<noteq> [] then fk_Name data else path_Base (fk_Source data));
         relativeRepoPath = path_Join (fk_Did data) name
     in require_push C actorDid relativeRepoPath
       (under_scan_path E relativeRepoPath (\<lambda>repoPath.
        attempt (host (Git_PlainOpen (xv_Host E) repoPath)) (\<lambda>err. fail_with (open_failed err)) (\<lambda>gr.
        attempt (host (ResolveRevision (xv_Host E) gr (fk_Branch data)))
          (\<lambda>err. fail_with (GenericError (Wrap_after (''error resolving revision '' @ fk_Branch data @ '': '') err))) (\<lambda>forkCommit.
        attempt (host (ResolveRevision (xv_Host E) gr (fk_HiddenRef data)))
          (\<lambda>err. fail_with (GenericError (Wrap_after (''error resolving revision '' @ fk_HiddenRef data @ '': '') err))) (\<lambda>sourceCommit.
        if co_Hash forkCommit = co_Hash sourceCommit then reply StatusOK (ForkStatusOut UpToDate)
        else
          attempt (host (look (\<lambda>calls. ho_isAncestor (xv_Host E) calls repoPath (co_Hash forkCommit) (co_Hash sourceCommit))))
            (\<lambda>err. fail_with (GenericError (Wrap_after (''error resolving whether '' @ fk_Branch data @ '' is ancestor of '' @
               fk_HiddenRef data @ '': '') err)))
            (\<lambda>isAncestor. reply StatusOK (ForkStatusOut (if isAncestor then FastForwardable else ForkConflict)))))))))))"

section \<open>Merging\<close>

record MergeInput =
  mi_Did :: string
  mi_Name :: string
  mi_Branch :: string
  mi_Patch :: string
  mi_AuthorName :: "string option"
  mi_AuthorEmail :: "string option"
  mi_CommitBody :: "string option"
  mi_CommitMessage :: "string option"

definition given :: "string option \<Rightarrow> string" where
  "given v = (case v of Some s \<Rightarrow> s | None \<Rightarrow> [])"

definition merge_options :: "KnotConfig \<Rightarrow> MergeInput \<Rightarrow> MergeOptions" where
  "merge_options cfg data =
     \<lparr>mo_CommitMessage = given (mi_CommitMessage data), mo_CommitBody = given (mi_CommitBody data),
      mo_AuthorName = given (mi_AuthorName data), mo_AuthorEmail = given (mi_AuthorEmail data),
      mo_CommitterName = kc_UserName cfg, mo_CommitterEmail = kc_UserEmail cfg,
      mo_FormatPatch = IsFormatPatch (mi_Patch data)\<rparr>"

definition merge_failed :: "GoError \<Rightarrow> 's handler" where
  "merge_failed err =
     (case as_ErrMerge err of
        Some mergeErr \<Rightarrow>
          writeError (NewXrpcError ''MergeConflict'' (''Merge failed due to conflicts: '' @ em_Message mergeErr)) StatusConflict
      | None \<Rightarrow> writeError (GitError err) StatusInternalServerError)"

definition Xrpc_Merge ::
  "('s, string) Casbin \<Rightarrow> XrpcEnv \<Rightarrow> string option \<Rightarrow> (string, MergeInput) result \<Rightarrow> 's handler" where
  "Xrpc_Merge C E actor body =
     with_actor actor (\<lambda>actorDid. with_body body (\<lambda>data.
     require (mi_Did data \<noteq> [] \<and> mi_Name data \<noteq> []) ''did and name are required''
    (attempt (secureJoin E (mi_Did data) (mi_Name data)) (\<lambda>err. fail_with (GenericError err)) (\<lambda>relativeRepoPath.
     require_push C actorDid relativeRepoPath
    (under_scan_path E relativeRepoPath (\<lambda>repoPath.
     attempt (host (Git_Open (xv_Host E) repoPath (mi_Branch data))) (\<lambda>err. fail_with (open_failed err)) (\<lambda>gr.
     unless_error (host (MergeWithOptions (xv_Host E) (xv_Patch E) gr (mi_Patch data) (mi_Branch data)
         (merge_options (xv_Config E) data)))
       merge_failed ok_reply)))))))"

text \<open>The merge check is open to everybody, and says nothing about who commits and with which message.\<close>

definition check_options :: "KnotConfig \<Rightarrow> MergeInput \<Rightarrow> MergeOptions" where
  "check_options cfg data =
     \<lparr>mo_CommitMessage = [], mo_CommitBody = [], mo_AuthorName = [], mo_AuthorEmail = [],
      mo_CommitterName = kc_UserName cfg, mo_CommitterEmail = kc_UserEmail cfg,
      mo_FormatPatch = IsFormatPatch (mi_Patch data)\<rparr>"

definition check_output :: "GoError option \<Rightarrow> Body" where
  "check_output r =
     (case r of
        None \<Rightarrow> MergeCheckOut False [] None None
      | Some err \<Rightarrow>
          (case as_ErrMerge err of
             Some mergeErr \<Rightarrow>
               MergeCheckOut True (em_Conflicts mergeErr)
                 (if em_Message mergeErr \<noteq> [] then Some (em_Message mergeErr) else None) None
           | None \<Rightarrow> MergeCheckOut True [] None (Some (Error err))))"

definition Xrpc_MergeCheck :: "XrpcEnv \<Rightarrow> (string, MergeInput) result \<Rightarrow> 's handler" where
  "Xrpc_MergeCheck E body =
     with_body body (\<lambda>data.
     require (mi_Did data \<noteq> [] \<and> mi_Name data \<noteq> []) ''did and name are required''
    (attempt (secureJoin E (mi_Did data) (mi_Name data)) (\<lambda>err. fail_with (GenericError err)) (\<lambda>relativeRepoPath.
     under_scan_path E relativeRepoPath (\<lambda>repoPath.
     attempt (host (Git_Open (xv_Host E) repoPath (mi_Branch data))) (\<lambda>err. fail_with (open_failed err)) (\<lambda>gr. do {
       r \<leftarrow> host (MergeCheckWithOptions (xv_Host E) (xv_Patch E) (xv_sha256 E) gr (mi_Patch data) (mi_Branch data)
              (check_options (xv_Config E) data));
       reply StatusOK (check_output r)
     })))))"

section \<open>Applying pijul changes\<close>

record ApplyInput =
  ai_Repo :: string
  ai_Channel :: string
  ai_Changes :: "string list"

fun apply_all :: "Host \<Rightarrow> PijulRepo \<Rightarrow> string list \<Rightarrow> (string list \<times> (string \<times> string) list) prog" where
  "apply_all H pr [] = ret ([], [])"
| "apply_all H pr (changeHash # changes) = do {
     r \<leftarrow> Pijul_Apply H pr changeHash;
     (applied, failed) \<leftarrow> apply_all H pr changes;
     ret (case r of Some err \<Rightarrow> (applied, (changeHash, Error err) # failed) | None \<Rightarrow> (changeHash # applied, failed))
   }"

definition apply_answer :: "string list \<times> (string \<times> string) list \<Rightarrow> Answer" where
  "apply_answer out =
     (case out of (applied, failed) \<Rightarrow>
        if length failed > 0 \<and> length applied = 0
        then Answer StatusInternalServerError (Err (NewXrpcError ''ApplyFailed'' ''all changes failed to apply''))
        else Answer StatusOK (ApplyOut applied failed))"

definition Xrpc_RepoApplyChanges :: "XrpcEnv \<Rightarrow> bool \<Rightarrow> ApplyInput option \<Rightarrow> 's handler" where
  "Xrpc_RepoApplyChanges E is_post body =
     (if \<not> is_post then writeError (invalid_request ''method not allowed'') StatusMethodNotAllowed
      else
     (case body of
        None \<Rightarrow> writeError (invalid_request ''invalid request body'') StatusBadRequest
      | Some req \<Rightarrow>
          if ai_Repo req = [] \<or> ai_Channel req = [] \<or> length (ai_Changes req) = 0 then
            writeError (invalid_request ''repo, channel, and changes are required'') StatusBadRequest
          else
            attempt (parseRepoParam E (ai_Repo req)) (\<lambda>err. writeError err StatusBadRequest) (\<lambda>repoPath.
            attempt (host (Pijul_Open (xv_Host E) repoPath (ai_Channel req)))
              (\<lambda>_. writeError (NewXrpcError ''RepoNotFound'' ''failed to open pijul repository'') StatusNotFound) (\<lambda>pr.
            attempt (host (Channels (xv_Host E) pr))
              (\<lambda>_. writeError (NewXrpcError ''InternalServerError'' ''failed to list channels'') StatusInternalServerError) (\<lambda>channels.
            if \<not> has_channel (ai_Channel req) channels then
              writeError (NewXrpcError ''ChannelNotFound'' ''target channel not found'') StatusNotFound
            else do { out \<leftarrow> host (apply_all (xv_Host E) pr (ai_Changes req)); ret (apply_answer out) })))))"

end
