(* ===== verification/Knot_Admin.thy ===== *)
theory Knot_Admin
  imports Knot_XRPC
begin

text \<open>
  Creating and deleting repositories of a knot (\<^verbatim>\<open>knotserver/xrpc/create_repo.go\<close>, \<^verbatim>\<open>delete_repo.go\<close>), the
  hooks of a repository (\<^verbatim>\<open>hook/setup.go\<close>), the rights a user has (\<^verbatim>\<open>repo_permissions.go\<close>) and the router
  with its check of who asks (\<^verbatim>\<open>xrpc.go\<close>, \<^verbatim>\<open>xrpc/serviceauth\<close>).
\<close>

unbundle bit_operations_syntax

section \<open>Hooks\<close>

definition wrap_hook :: "string \<Rightarrow> string \<Rightarrow> GoError" where
  "wrap_hook path what = Text (path @ '': '' @ what)"

text \<open>The texts of the two scripts are arguments: of the program's path and the address of the internal
  server in one, constant in the other.\<close>

definition mkHook :: "XrpcEnv \<Rightarrow> (string \<Rightarrow> string \<Rightarrow> string) \<Rightarrow> string \<Rightarrow> GoError option prog" where
  "mkHook E hookContent hookPath =
     (case xv_Executable E of
        Inl err \<Rightarrow> ret (Some err)
      | Inr executablePath \<Rightarrow>
          os_do (xv_Host E) (WriteFile hookPath (hookContent executablePath (kc_InternalListenAddr (xv_Config E)))))"

definition mkDelegate :: "XrpcEnv \<Rightarrow> string \<Rightarrow> string \<Rightarrow> GoError option prog" where
  "mkDelegate E content path = os_do (xv_Host E) (WriteFile path content)"

definition SetupRepo :: "XrpcEnv \<Rightarrow> (string \<Rightarrow> string \<Rightarrow> string) \<Rightarrow> string \<Rightarrow> string \<Rightarrow> GoError option prog" where
  "SetupRepo E hookContent content path = do {
     r \<leftarrow> look (\<lambda>calls. ho_gitOpen (xv_Host E) calls path);
     if r \<noteq> None then ret (Some (wrap_hook path ''not a git repo''))
     else
       let preReceiveD = path_Join (path_Join path ''hooks'') ''post-receive.d'';
           notify = path_Join preReceiveD ''40-notify.sh'';
           delegate = path_Join (path_Join path ''hooks'') ''post-receive''
       in unless_error (os_do (xv_Host E) (MkdirAll preReceiveD))
            (\<lambda>_. ret (Some (wrap_hook preReceiveD ''failed to create hooks directory'')))
         (unless_error (mkHook E hookContent notify) (\<lambda>_. ret (Some (wrap_hook notify ''failed to create hook'')))
         (unless_error (mkDelegate E content delegate) (\<lambda>_. ret (Some (wrap_hook delegate ''failed to create delegate hook'')))
         (ret None)))
   }"

section \<open>Creating a repository\<close>

definition name_ranges :: "(char \<times> char) list" where
  "name_ranges = [(CHR ''a'', CHR ''z''), (CHR ''A'', CHR ''Z''), (CHR ''0'', CHR ''9'')]"

definition name_char :: "char \<Rightarrow> bool" where
  "name_char c \<longleftrightarrow> list_ex (\<lambda>(first, last). first \<le> c \<and> c \<le> last) name_ranges \<or> c \<in> set ''-_.''"

definition validateRepoName :: "string \<Rightarrow> string option" where
  "validateRepoName name =
     (if name = ''.'' \<or> name = ''..'' \<or> contains name ''/'' \<or> contains name [CHR 0x5C] then
        Some ''Repository name contains invalid path characters''
      else if contains name ''./'' \<or> contains name ''../'' \<or> hasPrefix name ''.'' \<or> hasSuffix name ''.'' then
        Some ''Repository name contains invalid path sequence''
      else if \<not> list_all name_char name then
        Some ''Repository name can only contain alphanumeric characters, periods, hyphens, and underscores''
      else if contains name ''..'' then Some ''Repository name cannot contain sequential dots''
      else None)"

record CreateInput =
  cr_Rkey :: string
  cr_Vcs :: "string option"
  cr_DefaultBranch :: "string option"
  cr_Source :: "string option"

definition vcs_of :: "CreateInput \<Rightarrow> string" where
  "vcs_of data =
     (case cr_Vcs data of
        Some v \<Rightarrow> if trimSpace v \<noteq> [] then toLower (trimSpace v) else ''git''
      | None \<Rightarrow> ''git'')"

definition internal_error :: "GoError \<Rightarrow> 's handler" where
  "internal_error err = writeError (GenericError err) StatusInternalServerError"

text \<open>\<open>rest\<close> is what follows once the repository is on the disk.\<close>

definition make_repository ::
  "XrpcEnv \<Rightarrow> string \<Rightarrow> string \<Rightarrow> string option \<Rightarrow> string \<Rightarrow> 's handler \<Rightarrow> 's handler" where
  "make_repository E vcs repoPath source defaultBranch rest =
     (if given source \<noteq> [] then
        unless_error
          (host (if vcs = ''pijul'' then Pijul_Clone (xv_Host E) (given source) repoPath []
                 else Git_Fork (xv_Host E) (xv_parse_url E) (xv_file_url E) (xv_Config E) repoPath (given source)))
          internal_error rest
      else
        unless_error
          (host (if vcs = ''pijul'' then Pijul_InitBare (xv_Host E) repoPath
                 else Git_InitBare (xv_Host E) repoPath defaultBranch))
          (\<lambda>err. if errors_Is err ErrRepositoryAlreadyExists
                 then fail_with (RepoExistsError ''repository already exists'') else internal_error err)
          rest)"

definition Xrpc_CreateRepo ::
  "('s, string) Casbin \<Rightarrow> XrpcEnv \<Rightarrow> (string \<Rightarrow> string \<Rightarrow> string) \<Rightarrow> string \<Rightarrow> string option \<Rightarrow>
     (string, CreateInput) result \<Rightarrow> 's handler" where
  "Xrpc_CreateRepo C E hookContent content actor body =
     with_actor actor (\<lambda>actorDid.
     attempt (ask (\<lambda>s. IsRepoCreateAllowed C s actorDid ThisServer)) (\<lambda>err. fail_with (GenericError (Text err))) (\<lambda>isMember.
     if \<not> isMember then fail_with (AccessControlError actorDid)
     else with_body body (\<lambda>data.
     let vcs = vcs_of data
     in if vcs \<noteq> ''git'' \<and> vcs \<noteq> ''pijul'' then fail_with (GenericError (Text (''unsupported vcs: '' @ vcs)))
     else resolve_actor E actorDid (\<lambda>ident.
     case xv_GetRecord E (id_PDS ident) actorDid (cr_Rkey data) of
       Inl err \<Rightarrow> fail_with (GenericError (Text err))
     | Inr name \<Rightarrow>
     let defaultBranch = (if given (cr_DefaultBranch data) \<noteq> [] then given (cr_DefaultBranch data) else kc_MainBranch (xv_Config E))
     in (case validateRepoName name of
       Some err \<Rightarrow> fail_with (GenericError (Text err))
     | None \<Rightarrow>
     let relativeRepoPath = path_Join actorDid name
     in under_scan_path' E relativeRepoPath (\<lambda>repoPath.
     make_repository E vcs repoPath (cr_Source data) defaultBranch
    (unless_error (enforcer (\<lambda>s. AddRepo C s actorDid ThisServer relativeRepoPath)) internal_error
    (unless_error (if vcs = ''pijul'' then enforcer (\<lambda>s. AddPijulRepoPermissions C s actorDid ThisServer relativeRepoPath) else ret None)
       internal_error
    (do { _ \<leftarrow> host (SetupRepo E hookContent content repoPath); ok_reply }))))))))) "

section \<open>Deleting a repository\<close>

record DeleteInput =
  de_Did :: string
  de_Name :: string
  de_Rkey :: string

definition stat_dir :: "Host \<Rightarrow> HostCall list \<Rightarrow> string \<Rightarrow> bool option" where
  "stat_dir H calls p = (case ho_stat H calls p of Inl _ \<Rightarrow> None | Inr info \<Rightarrow> Some (Mode_IsDir (fi_Mode info)))"

definition is_pijul :: "XrpcEnv \<Rightarrow> string \<Rightarrow> bool prog" where
  "is_pijul E path = look (\<lambda>calls. DetectVCS (stat_dir (xv_Host E) calls) path = Inr ''pijul'')"

fun remove_users :: "('s, string) Casbin \<Rightarrow> string \<Rightarrow> rule list \<Rightarrow> 's handler \<Rightarrow> 's handler" where
  "remove_users C repo [] rest = rest"
| "remove_users C repo (u # us) rest =
     unless_error (enforcer (\<lambda>s. RemovePijulCollaboratorPermissions C s (fst u) ThisServer repo)) internal_error
       (remove_users C repo us rest)"

definition Xrpc_DeleteRepo ::
  "('s, string) Casbin \<Rightarrow> XrpcEnv \<Rightarrow> string option \<Rightarrow> (string, DeleteInput) result \<Rightarrow> 's handler" where
  "Xrpc_DeleteRepo C E actor body =
     with_actor actor (\<lambda>actorDid. with_body body (\<lambda>data.
     let did = de_Did data; name = de_Name data
     in require (did \<noteq> [] \<and> name \<noteq> []) ''did and name are required''
    (resolve_actor E actorDid (\<lambda>ident.
     case xv_GetRecord E (id_PDS ident) actorDid (de_Rkey data) of
       Inr _ \<Rightarrow> fail_with (RecordExistsError (de_Rkey data))
     | Inl _ \<Rightarrow>
     let relativeRepoPath = path_Join did name
     in attempt (ask (\<lambda>s. IsRepoDeleteAllowed C s actorDid ThisServer relativeRepoPath))
          (\<lambda>err. fail_with (GenericError (Text err))) (\<lambda>isDeleteAllowed.
     if \<not> isDeleteAllowed then fail_with (AccessControlError actorDid)
     else under_scan_path E relativeRepoPath (\<lambda>repoPath. do {
       isPijul \<leftarrow> host (is_pijul E repoPath);
       unless_error (host (os_do (xv_Host E) (RemoveAll repoPath))) internal_error
      (unless_error (enforcer (\<lambda>s. RemoveRepo C s did ThisServer relativeRepoPath)) internal_error
      (if isPijul then
         attempt (ask (\<lambda>s. GetImplicitUsersForResourceByDomain C s relativeRepoPath ThisServer))
           (\<lambda>err. internal_error (Text err))
           (\<lambda>users. remove_users C relativeRepoPath users
              (unless_error (enforcer (\<lambda>s. RemovePijulRepoPermissions C s did ThisServer relativeRepoPath)) internal_error
                 ok_reply))
       else ok_reply))
     }))))))"

section \<open>Rights on a pijul repository\<close>

definition permission_names :: "(string \<times> string) list" where
  "permission_names =
     [(''read'', ''pijul:read''), (''create_discussion'', ''pijul:create_discussion''),
      (''edit_discussion'', ''pijul:edit_discussion''), (''tag_discussion'', ''pijul:tag_discussion''),
      (''apply'', ''pijul:apply''), (''edit_channels'', ''pijul:edit_channels''),
      (''edit_tags'', ''pijul:edit_tags''), (''edit_permissions'', ''pijul:edit_permissions'')]"

text \<open>The constants \<^verbatim>\<open>permRead = 1 << iota\<close> and so on: a bit for each name, in order. The accumulator is
  that of \<^verbatim>\<open>add\<close>.\<close>

fun add_permissions :: "string list \<Rightarrow> nat \<Rightarrow> (string \<times> string) list \<Rightarrow> 64 word \<times> string list \<Rightarrow> 64 word \<times> string list" where
  "add_permissions roles iota [] acc = acc"
| "add_permissions roles iota ((name, act) # ps) (bits, permissions) =
     add_permissions roles (iota + 1) ps
       (if act \<in> set roles then (bits OR push_bit iota 1, permissions @ [name]) else (bits, permissions))"

definition Xrpc_RepoPermissions :: "('s, string) Casbin \<Rightarrow> XrpcEnv \<Rightarrow> string option \<Rightarrow> string \<Rightarrow> 's handler" where
  "Xrpc_RepoPermissions C E actor repo =
     with_actor actor (\<lambda>actorDid.
     if repo = [] then fail_with (invalid_request ''missing repo parameter'')
     else attempt (parseRepoParam E repo) fail_with (\<lambda>repoPath.
     attempt (host (look (\<lambda>calls. ho_stat (xv_Host E) calls repoPath)))
       (\<lambda>err. if os_IsNotExist err then writeError RepoNotFoundError StatusNoContent
              else writeError (GenericError (Text (stat_text err))) StatusInternalServerError) (\<lambda>_. do {
     isPijul \<leftarrow> host (is_pijul E repoPath);
     if \<not> isPijul then fail_with (invalid_request ''permissions are only available for pijul repositories'')
     else
       let repoParts = splitN 2 CHR ''/'' repo
       in if length repoParts \<noteq> 2 then fail_with (invalid_request (''invalid repo format, expected '' @ quoted ''did/repoName''))
       else attempt (secureJoin E (repoParts ! 0) (repoParts ! 1)) (\<lambda>_. fail_with (InvalidRepoError repo)) (\<lambda>didSlashRepo. do {
         roles \<leftarrow> ask (\<lambda>s. GetPermissionsInRepo C s actorDid ThisServer didSlashRepo);
         let (bits, permissions) = add_permissions roles 0 permission_names (0, []);
         reply StatusOK (PermissionsOut bits permissions)
       })
     })))"

section \<open>The router\<close>

text \<open>
  A request that may change something, by its method of the lexicon. \<open>route\<close> is the group of the router
  that needs a service token: \<open>token\<close> is the result of the validator of the AT Protocol library, the DID
  of the caller or an error, and the merge check is outside of the group.
\<close>

datatype Procedure =
    SetDefaultBranchReq "(string, SetDefaultBranchInput) result"
  | DeleteBranchReq "(string, DeleteBranchInput) result"
  | CreateReq "(string, CreateInput) result"
  | DeleteReq "(string, DeleteInput) result"
  | ForkStatusReq "(string, ForkInput) result"
  | ForkSyncReq "(string, ForkInput) result"
  | HiddenRefReq "(string, HiddenRefInput) result"
  | MergeReq "(string, MergeInput) result"
  | ApplyChangesReq "ApplyInput option"
  | PermissionsReq string

definition VerifyServiceAuth :: "(string, string) result \<Rightarrow> (string option \<Rightarrow> 's handler) \<Rightarrow> 's handler" where
  "VerifyServiceAuth token handler =
     (case token of Inl err \<Rightarrow> writeError (AuthError err) StatusForbidden | Inr did \<Rightarrow> handler (Some did))"

fun procedure ::
  "('s, string) Casbin \<Rightarrow> XrpcEnv \<Rightarrow> (string \<Rightarrow> string \<Rightarrow> string) \<Rightarrow> string \<Rightarrow> Procedure \<Rightarrow> string option \<Rightarrow> 's handler" where
  "procedure C E hookContent content (SetDefaultBranchReq b) actor = Xrpc_SetDefaultBranch C E actor b"
| "procedure C E hookContent content (DeleteBranchReq b) actor = Xrpc_DeleteBranch C E actor b"
| "procedure C E hookContent content (CreateReq b) actor = Xrpc_CreateRepo C E hookContent content actor b"
| "procedure C E hookContent content (DeleteReq b) actor = Xrpc_DeleteRepo C E actor b"
| "procedure C E hookContent content (ForkStatusReq b) actor = Xrpc_ForkStatus C E actor b"
| "procedure C E hookContent content (ForkSyncReq b) actor = Xrpc_ForkSync C E actor b"
| "procedure C E hookContent content (HiddenRefReq b) actor = Xrpc_HiddenRef C E actor b"
| "procedure C E hookContent content (MergeReq b) actor = Xrpc_Merge C E actor b"
| "procedure C E hookContent content (ApplyChangesReq b) actor = Xrpc_RepoApplyChanges E True b"
| "procedure C E hookContent content (PermissionsReq repo) actor = Xrpc_RepoPermissions C E actor repo"

definition route ::
  "('s, string) Casbin \<Rightarrow> XrpcEnv \<Rightarrow> (string \<Rightarrow> string \<Rightarrow> string) \<Rightarrow> string \<Rightarrow> (string, string) result \<Rightarrow> Procedure \<Rightarrow> 's handler" where
  "route C E hookContent content token p = VerifyServiceAuth token (procedure C E hookContent content p)"

end
