(* ===== verification/Git_Merge.thy ===== *)
theory Git_Merge
  imports Git_Repo
begin

text \<open>
  What a merge does to the machine: the exact calls of a merge that goes through, their confinement to
  a temporary clone, the files that are left behind, and what the merge check has to do with the merge.
\<close>

section \<open>The calls of the parts\<close>

definition clone_call :: "GitRepo \<Rightarrow> string \<Rightarrow> string \<Rightarrow> HostCall" where
  "clone_call g branch tmpDir = GoGit tmpDir (PlainClone (''file://'' @ gr_path g) (branch_ref branch))"

definition temp_calls :: "string \<Rightarrow> string \<Rightarrow> HostCall list" where
  "temp_calls data name = [CreateTemp name, WriteFile name data, CloseFile name]"

definition git_call :: "string \<Rightarrow> string list \<Rightarrow> HostCall" where
  "git_call dir args = Exec ''git'' (''-C'' # dir # args) []"

definition config_calls :: "string \<Rightarrow> MergeOptions \<Rightarrow> HostCall list" where
  "config_calls dir opts =
     [git_call dir [''config'', ''user.name'', mo_CommitterName opts],
      git_call dir [''config'', ''user.email'', mo_CommitterEmail opts],
      git_call dir [''config'', ''advice.mergeConflict'', ''false''],
      git_call dir [''config'', ''advice.amWorkDir'', ''false'']]"

text \<open>One patch of a series: written to a file, applied with \<^verbatim>\<open>git am\<close>, and at most rewritten by go-git.\<close>

definition mailbox_calls :: "string \<Rightarrow> string \<Rightarrow> HostCall list \<Rightarrow> bool" where
  "mailbox_calls dir raw new \<longleftrightarrow>
     (\<exists>name rest. new = temp_calls raw name @ [git_call dir [''am'', name]] @ rest \<and> (\<forall>c \<in> set rest. \<exists>gc. c = GoGit dir gc))"

text \<open>The calls of an application of the whole patch that succeeds.\<close>

definition applied_calls :: "string PatchEnv \<Rightarrow> MergeOptions \<Rightarrow> string \<Rightarrow> string \<Rightarrow> string \<Rightarrow> HostCall list \<Rightarrow> bool" where
  "applied_calls env opts dir file patch new \<longleftrightarrow>
     (if mo_FormatPatch opts then
        \<exists>fps parts. ExtractPatches env patch = Inr fps \<and> new = config_calls dir opts @ concat parts \<and>
          list_all2 (mailbox_calls dir) (map fp_Raw fps) parts
      else
        new = config_calls dir opts @
          [git_call dir [''apply'', file], git_call dir [''add'', ''.''], Exec ''git'' (commit_args dir opts) []])"

text \<open>Calls of a part: in the directory, or to a temporary file.\<close>

definition local_call :: "string \<Rightarrow> HostCall \<Rightarrow> bool" where
  "local_call dir c \<longleftrightarrow>
     (\<exists>args. c = git_call dir args \<and> args \<noteq> [''push'']) \<or> (\<exists>gc. c = GoGit dir gc \<and> (\<forall>url br. gc \<noteq> PlainClone url br)) \<or>
     (\<exists>name data. c = CreateTemp name \<or> c = WriteFile name data \<or> c = CloseFile name \<or> c = RemoveFile name)"

lemma local_simps [simp]:
  "local_call dir (GoGit d gc) \<longleftrightarrow> d = dir \<and> (\<forall>url br. gc \<noteq> PlainClone url br)" "local_call dir (CreateTemp name)" "local_call dir (WriteFile name data)"
  "local_call dir (CloseFile name)" "local_call dir (RemoveFile name)" "\<not> local_call dir (MkdirTemp name)"
  "\<not> local_call dir (RemoveAll name)" "local_call dir (Exec p as d) \<longleftrightarrow> (\<exists>args. Exec p as d = git_call dir args \<and> args \<noteq> [''push''])"
  by (auto simp: local_call_def git_call_def)

lemma createTemp_performs [performs_intros]:
  assumes "\<And>e new. new = [] \<or> (\<exists>name. new = temp_calls data name @ [RemoveFile name]) \<Longrightarrow> Q (Inl e) new"
    "\<And>name. Q (Inr name) (temp_calls data name)"
  shows "performs (createTemp H data) Q"
  unfolding createTemp_def by (intro performs_intros) (use assms in \<open>auto simp: temp_calls_def\<close>)

lemma cloneTemp_performs [performs_intros]:
  assumes "\<And>e new. new = [] \<or> (\<exists>t. new = [MkdirTemp t, clone_call g branch t, RemoveAll t]) \<Longrightarrow> Q (Inl e) new"
    "\<And>t. Q (Inr t) [MkdirTemp t, clone_call g branch t]"
  shows "performs (cloneTemp H g branch) Q"
  unfolding cloneTemp_def by (intro performs_intros) (use assms in \<open>auto simp: clone_call_def\<close>)

lemma Git_PlainOpen_performs [performs_intros]:
  "(\<And>e. Q (Inl e) []) \<Longrightarrow> Q (Inr \<lparr>gr_path = path, gr_h = ZeroHash\<rparr>) [] \<Longrightarrow> performs (Git_PlainOpen H path) Q"
  unfolding Git_PlainOpen_def by (intro performs_intros) (auto split: option.split)

lemma cmd_Run_performs [performs_intros]: "(\<And>r. Q r [Exec ''git'' args []]) \<Longrightarrow> performs (cmd_Run H args) Q"
  unfolding cmd_Run_def by (intro performs_intros) auto

lemma setChangeId_performs:
  "performs (setChangeId H dir hash cid) (\<lambda>r new. \<forall>c \<in> set new. \<exists>gc. c = GoGit dir gc \<and> (\<forall>url br. gc \<noteq> PlainClone url br))"
  unfolding setChangeId_def by (intro performs_intros) auto

lemma applySingleMailbox_performs:
  "performs (applySingleMailbox H dir p)
     (\<lambda>r new. list_all (local_call dir) new \<and> (is_ok r \<longrightarrow> mailbox_calls dir (fp_Raw p) new))"
  unfolding applySingleMailbox_def
  by (intro performs_intros; (rule performs_mono [OF setChangeId_performs])?)
    (auto simp: mailbox_calls_def temp_calls_def git_call_def list_all_iff)

lemma apply_each_performs:
  "performs (apply_each H dir ps)
     (\<lambda>r new. list_all (local_call dir) new \<and>
        (r = None \<longrightarrow> (\<exists>parts. new = concat parts \<and> list_all2 (mailbox_calls dir) (map fp_Raw ps) parts)))"
proof (induction ps)
  case Nil
  show ?case by (simp, intro performs_intros) simp
next
  case (Cons p ps)
  show ?case
    unfolding apply_each.simps
  proof (rule performs_attempt, rule performs_mono [OF applySingleMailbox_performs], rule sum_condition)
    fix r new x
    assume h: "list_all (local_call dir) new \<and> (is_ok r \<longrightarrow> mailbox_calls dir (fp_Raw p) new)" and r: "r = Inr x"
    show "performs (apply_each H dir ps) (\<lambda>y new'. list_all (local_call dir) (new @ new') \<and>
        (y = None \<longrightarrow> (\<exists>parts. new @ new' = concat parts \<and> list_all2 (mailbox_calls dir) (map fp_Raw (p # ps)) parts)))"
    proof (rule performs_mono [OF Cons.IH], intro conjI impI)
      fix y new'
      assume i: "list_all (local_call dir) new' \<and>
        (y = None \<longrightarrow> (\<exists>parts. new' = concat parts \<and> list_all2 (mailbox_calls dir) (map fp_Raw ps) parts))"
      then show "list_all (local_call dir) (new @ new')" using h by simp
      assume "y = None"
      with i obtain parts where "new' = concat parts" "list_all2 (mailbox_calls dir) (map fp_Raw ps) parts" by blast
      with h r show "\<exists>parts. new @ new' = concat parts \<and> list_all2 (mailbox_calls dir) (map fp_Raw (p # ps)) parts"
        by (intro exI [of _ "new # parts"]) simp
    qed
  qed (auto intro!: performs_ret)
qed

lemma applyMailbox_performs:
  "performs (applyMailbox H env dir patch)
     (\<lambda>r new. list_all (local_call dir) new \<and>
        (r = None \<longrightarrow> (\<exists>fps parts. ExtractPatches env patch = Inr fps \<and> new = concat parts \<and>
           list_all2 (mailbox_calls dir) (map fp_Raw fps) parts)))"
proof (cases "ExtractPatches env patch")
  case (Inr fps)
  then show ?thesis
    by (simp add: applyMailbox_def) (rule performs_mono [OF apply_each_performs], auto)
qed (simp add: applyMailbox_def performs_ret)

lemma commit_args_git: "Exec ''git'' (commit_args dir opts) [] = git_call dir (drop 2 (commit_args dir opts))"
  by (simp add: commit_args_def git_call_def)

lemma commit_args_push: "drop 2 (commit_args dir opts) \<noteq> [''push'']"
  by (simp add: commit_args_def)

lemma applyPatch_performs:
  "performs (applyPatch H env dir patch file opts)
     (\<lambda>r new. list_all (local_call dir) new \<and> (r = None \<longrightarrow> applied_calls env opts dir file patch new))"
  unfolding applyPatch_def
  by (intro performs_intros; (rule performs_mono [OF applyMailbox_performs])?)
    (auto simp: applied_calls_def config_calls_def git_call_def list_all_iff commit_args_git commit_args_push)

lemma discard_performs [performs_intros]:
  "performs m (\<lambda>r new. Q r (new @ [c])) \<Longrightarrow> performs (discard H c m) Q"
  unfolding discard_def by (intro performs_intros, erule performs_mono) (auto intro!: performs_intros)

section \<open>A merge\<close>

definition push_call :: "string \<Rightarrow> HostCall" where
  "push_call dir = git_call dir [''push'']"

text \<open>The calls of a merge that goes through, in order.\<close>

definition merge_calls :: "string PatchEnv \<Rightarrow> GitRepo \<Rightarrow> string \<Rightarrow> string \<Rightarrow> MergeOptions \<Rightarrow> HostCall list \<Rightarrow> bool" where
  "merge_calls env g patch branch opts new \<longleftrightarrow>
     (\<exists>file dir applied. applied_calls env opts dir file patch applied \<and>
        new = temp_calls patch file @ [MkdirTemp dir, clone_call g branch dir] @ applied @
          [push_call dir, RemoveAll dir, RemoveFile file])"

text \<open>Besides temporary files, whatever a merge calls happens in one directory, which it makes and removes,
  and the only clone into it is that of the branch.\<close>

definition merge_local :: "GitRepo \<Rightarrow> string \<Rightarrow> HostCall list \<Rightarrow> bool" where
  "merge_local g branch new \<longleftrightarrow>
     (\<exists>dir. (\<forall>c \<in> set new. local_call dir c \<or> c \<in> {MkdirTemp dir, clone_call g branch dir, push_call dir, RemoveAll dir}) \<and>
        (MkdirTemp dir \<in> set new \<longleftrightarrow> RemoveAll dir \<in> set new))"

lemma local_not_push [simp]: "\<not> local_call dir (push_call dir')"
  by (simp add: push_call_def git_call_def)

lemma local_no_push: "list_all (local_call dir) new \<Longrightarrow> push_call dir' \<notin> set new"
  by (auto simp: list_all_iff)

lemma push_not_others [simp]:
  "push_call d \<noteq> CreateTemp x" "push_call d \<noteq> WriteFile x y" "push_call d \<noteq> CloseFile x" "push_call d \<noteq> RemoveFile x"
  "push_call d \<noteq> MkdirTemp x" "push_call d \<noteq> RemoveAll x" "push_call d \<noteq> GoGit x gc"
  by (simp_all add: push_call_def git_call_def)

lemmas others_not_push [simp] = push_not_others [symmetric]

lemma push_exec [simp]: "Exec ''git'' [''-C'', dir, ''push''] [] = push_call dir"
  by (simp add: push_call_def git_call_def)

lemma merge_performs:
  "performs (MergeWithOptions H env g patch branch opts)
     (\<lambda>r new. r = None \<or> (\<exists>dir. push_call dir \<in> set new) \<longrightarrow> merge_calls env g patch branch opts new)"
  unfolding MergeWithOptions_def
  by (intro performs_intros; (rule performs_mono [OF applyPatch_performs])?)
    (auto simp: temp_calls_def clone_call_def local_no_push merge_calls_def intro!: performs_intros)

lemma merge_performs_local: "performs (MergeWithOptions H env g patch branch opts) (\<lambda>r new. merge_local g branch new)"
  unfolding MergeWithOptions_def
  by (intro performs_intros; (rule performs_mono [OF applyPatch_performs])?)
    (auto simp: temp_calls_def clone_call_def merge_local_def list_all_iff intro!: performs_intros)


text \<open>A world in which everything succeeds: names of temporary files are numbered by the calls.\<close>

definition quiet_host :: Host where
  "quiet_host =
     \<lparr>ho_exec = (\<lambda>_ _. Exited_ok [] []), ho_do = (\<lambda>_ _. None), ho_temp = (\<lambda>calls pattern. Inr (pattern @ digits (length calls))),
      ho_stat = (\<lambda>_ _. Inl (Not_exist ''no such file'')), ho_readDir = (\<lambda>_ _. Inr []),
      ho_readFile = (\<lambda>_ _. Inl (Not_exist ''no such file'')), ho_secureJoin = (\<lambda>_ a b. Inr (path_Join a b)),
      ho_gitOpen = (\<lambda>_ _. None), ho_head = (\<lambda>_ _. Inr (''refs/heads/main'', ''aa'')),
      ho_resolveRevision = (\<lambda>_ _ _. Inr ''aa''),
      ho_commitObject = (\<lambda>_ _ h. Inr \<lparr>co_Hash = h, co_Author = ([], []), co_Committer = ([], []), co_Message = [], co_When = 0\<rparr>),
      ho_isAncestor = (\<lambda>_ _ _ _. Inr True), ho_encode = (\<lambda>_ _ _ _. Inr ''bb''), ho_cache = (\<lambda>_ _. None)\<rparr>"

definition plain_env :: "string PatchEnv" where
  "plain_env = \<lparr>pe_Apply = (\<lambda>_ _. Inl []), pe_Parse = (\<lambda>_. ([], [], None)), pe_ParsePatchHeader = (\<lambda>_. Inr []),
     pe_CreateTemp = (\<lambda>_. Inr ()), pe_WriteString = (\<lambda>_ _. Inr ()), pe_diff = (\<lambda>_ _ _ _. undefined)\<rparr>"

definition plain_opts :: MergeOptions where
  "plain_opts = \<lparr>mo_CommitMessage = ''title'', mo_CommitBody = [], mo_AuthorName = [], mo_AuthorEmail = [],
     mo_CommitterName = ''knot'', mo_CommitterEmail = ''k@x'', mo_FormatPatch = False\<rparr>"


text \<open>The files that \<^verbatim>\<open>git am\<close> reads are never removed: one is left for each patch of the series.\<close>

definition creates :: "HostCall list \<Rightarrow> nat" where
  "creates cs = length (filter (\<lambda>c. case c of CreateTemp _ \<Rightarrow> True | _ \<Rightarrow> False) cs)"

definition removes :: "HostCall list \<Rightarrow> nat" where
  "removes cs = length (filter (\<lambda>c. case c of RemoveFile _ \<Rightarrow> True | _ \<Rightarrow> False) cs)"

lemma counts_append [simp]: "creates (a @ b) = creates a + creates b" "removes (a @ b) = removes a + removes b"
  by (simp_all add: creates_def removes_def)

lemma counts_gogit: "\<forall>c \<in> set rest. \<exists>gc. c = GoGit dir gc \<Longrightarrow> creates rest = 0 \<and> removes rest = 0"
  by (force simp: creates_def removes_def filter_empty_conv)

lemma mailbox_counts: "mailbox_calls dir raw new \<Longrightarrow> creates new = 1 \<and> removes new = 0"
proof -
  assume "mailbox_calls dir raw new"
  then obtain name rest where "new = temp_calls raw name @ [git_call dir [''am'', name]] @ rest" "\<forall>c \<in> set rest. \<exists>gc. c = GoGit dir gc"
    by (auto simp: mailbox_calls_def)
  then show ?thesis
    using counts_gogit [of rest dir] by (simp add: temp_calls_def git_call_def) (simp add: creates_def removes_def)
qed

lemma series_counts: "list_all2 (mailbox_calls dir) raws parts \<Longrightarrow> creates (concat parts) = length raws \<and> removes (concat parts) = 0"
  by (induction rule: list_all2_induct) (auto simp: mailbox_counts, auto simp: creates_def removes_def)

lemma count_simps [simp]:
  "creates [] = 0" "removes [] = 0"
  "creates (CreateTemp x # cs) = Suc (creates cs)" "removes (CreateTemp x # cs) = removes cs"
  "creates (RemoveFile x # cs) = creates cs" "removes (RemoveFile x # cs) = Suc (removes cs)"
  "creates (WriteFile x y # cs) = creates cs" "removes (WriteFile x y # cs) = removes cs"
  "creates (CloseFile x # cs) = creates cs" "removes (CloseFile x # cs) = removes cs"
  "creates (MkdirTemp x # cs) = creates cs" "removes (MkdirTemp x # cs) = removes cs"
  "creates (RemoveAll x # cs) = creates cs" "removes (RemoveAll x # cs) = removes cs"
  "creates (GoGit x gc # cs) = creates cs" "removes (GoGit x gc # cs) = removes cs"
  "creates (Exec p as d # cs) = creates cs" "removes (Exec p as d # cs) = removes cs"
  by (simp_all add: creates_def removes_def)

lemma count_push [simp]: "creates (push_call d # cs) = creates cs" "removes (push_call d # cs) = removes cs"
  by (simp_all add: push_call_def git_call_def del: push_exec)

lemma applied_counts:
  assumes "applied_calls env opts dir f patch new" "mo_FormatPatch opts"
  shows "\<exists>fps. ExtractPatches env patch = Inr fps \<and> creates new = length fps \<and> removes new = 0"
proof -
  from assms have "\<exists>fps parts. ExtractPatches env patch = Inr fps \<and> new = config_calls dir opts @ concat parts \<and>
      list_all2 (mailbox_calls dir) (map fp_Raw fps) parts"
    unfolding applied_calls_def by (metis (mono_tags, lifting))
  then obtain fps parts where e: "ExtractPatches env patch = Inr fps"
    and n: "new = config_calls dir opts @ concat parts" and l: "list_all2 (mailbox_calls dir) (map fp_Raw fps) parts"
    by (elim exE conjE)
  have "creates (config_calls dir opts) = 0 \<and> removes (config_calls dir opts) = 0"
    by (simp add: config_calls_def git_call_def)
  moreover have "creates (concat parts) = length fps \<and> removes (concat parts) = 0" using series_counts [OF l] by simp
  ultimately have "creates new = length fps \<and> removes new = 0" unfolding n counts_append by simp
  with e show ?thesis by blast
qed

lemma merge_leaves_patches:
  assumes "merge_calls env g patch branch opts new" "mo_FormatPatch opts"
  shows "\<exists>fps. ExtractPatches env patch = Inr fps \<and> creates new = removes new + length fps"
proof -
  from assms(1) obtain f dir applied where a: "applied_calls env opts dir f patch applied"
    and n: "new = temp_calls patch f @ [MkdirTemp dir, clone_call g branch dir] @ applied @
          [push_call dir, RemoveAll dir, RemoveFile f]"
    unfolding merge_calls_def by blast
  from applied_counts [OF a assms(2)] show ?thesis
    by (auto simp: n temp_calls_def clone_call_def)
qed

section \<open>The merge check\<close>

lemma run_discard: "run_state (discard H c m) s = (case run_state m s of (r, s') \<Rightarrow> (r, s' @ [c]))"
  by (simp add: discard_def os_do_def split: prod.split)

text \<open>With nothing cached, the merge check foretells the merge with the same options: where the check
  fails the merge fails with the same error, and where the check succeeds the merge can only fail to push.\<close>

theorem merge_check_predicts_merge:
  assumes "ho_cache H calls (cacheKey sha256 g patch branch) = None"
  shows "case fst (run_state (MergeCheckWithOptions H env sha256 g patch branch opts) calls) of
      Some err \<Rightarrow> fst (run_state (MergeWithOptions H env g patch branch opts) calls) = Some err
    | None \<Rightarrow> \<forall>err. fst (run_state (MergeWithOptions H env g patch branch opts) calls) = Some err \<longrightarrow>
        em_Message err = ''failed to push changes to bare repository''"
proof -
  obtain r1 s1 where 1: "run_state (createTemp H patch) calls = (r1, s1)" by fastforce
  obtain r2 s2 where 2: "run_state (cloneTemp H g branch) s1 = (r2, s2)" by fastforce
  obtain r3 s3 where 3: "run_state (Git_PlainOpen H (projr r2)) s2 = (r3, s3)" by fastforce
  obtain r4 s4 where 4: "run_state (applyPatch H env (projr r2) patch (projr r1) opts) s3 = (r4, s4)" by fastforce
  obtain r5 s5 where 5: "run_state (cmd_Run H [''-C'', projr r2, ''push'']) s4 = (r5, s5)" by fastforce
  show ?thesis
    using assms 1 2 3 4 5
    by (cases r1; cases r2; cases r3; cases r4; cases r5)
      (simp_all add: MergeCheckWithOptions_def MergeWithOptions_def Let_def run_attempt run_unless_error run_discard os_do_def)
qed

theorem merge_check_predicts_merge_witness:
  "fst (run_state (MergeWithOptions quiet_host plain_env \<lparr>gr_path = ''/r'', gr_h = ''aa''\<rparr> ''diff'' ''main'' plain_opts) []) = None \<or>
   (\<exists>err. fst (run_state (MergeWithOptions quiet_host plain_env \<lparr>gr_path = ''/r'', gr_h = ''aa''\<rparr> ''diff'' ''main'' plain_opts) []) = Some err \<and>
      em_Message err = ''failed to push changes to bare repository'')"
proof -
  have "fst (run_state (MergeCheckWithOptions quiet_host plain_env (\<lambda>s. s) \<lparr>gr_path = ''/r'', gr_h = ''aa''\<rparr> ''diff'' ''main'' plain_opts) []) = None"
    by code_simp
  with merge_check_predicts_merge [of quiet_host "[]" "\<lambda>s. s" "\<lparr>gr_path = ''/r'', gr_h = ''aa''\<rparr>" "''diff''" "''main''" plain_env plain_opts]
  show ?thesis
    by (cases "fst (run_state (MergeWithOptions quiet_host plain_env \<lparr>gr_path = ''/r'', gr_h = ''aa''\<rparr> ''diff'' ''main'' plain_opts) [])")
      (auto simp: quiet_host_def)
qed

text \<open>Two different questions share a key, whatever the digest: the separator may be part of a patch.\<close>

lemma cache_keys_collide:
  "cacheKey sha256 g (p @ ''58'') b = cacheKey sha256 g p (''58'' @ b)"
  by (simp add: cacheKey_def)

text \<open>The conflicts of a plain patch: the line number stays in the name, and the name of the first file is
  never replaced by that of another.\<close>

lemma conflicts_name_first_file:
  "map (\<lambda>c. (ci_Filename c, ci_Reason c)) (parseGitApplyErrors (''error: patch failed: a.txt:3'' @ [newline] @
      ''error: a.txt: patch does not apply'' @ [newline] @ ''error: b.txt: already exists in working directory'')) =
   [(''a.txt:3'', ''patch does not apply''), (''a.txt:3'', ''file already exists'')]"
  by code_simp

end
