(* ===== verification/Knot_Rights.thy ===== *)
theory Knot_Rights
  imports Knot_Admin Git_Merge
begin

text \<open>
  Who may change what through the XRPC server of a knot. The rules of \<open>knot_performs\<close> extend those of
  \<open>performs\<close> to operations that also ask and change the access control; unlike the answers of the world, what
  the access control answers is known from its state.
\<close>

section \<open>What a handler does\<close>

named_theorems knot_intros

definition knot_performs :: "'s \<Rightarrow> ('s, 'a) knot \<Rightarrow> ('a \<Rightarrow> HostCall list \<Rightarrow> 's \<Rightarrow> bool) \<Rightarrow> bool" where
  "knot_performs s m Q \<longleftrightarrow>
     (\<forall>calls. \<exists>new s'. snd (run_state m (calls, s)) = (calls @ new, s') \<and> Q (fst (run_state m (calls, s))) new s')"

lemma knot_performsD:
  "knot_performs s m Q \<Longrightarrow> \<exists>new s'. snd (run_state m (calls, s)) = (calls @ new, s') \<and> Q (fst (run_state m (calls, s))) new s'"
  by (simp add: knot_performs_def)

lemma knot_performs_result: "knot_performs s m Q \<Longrightarrow> run_state m (calls, s) = (x, (calls @ new, s')) \<Longrightarrow> Q x new s'"
  by (drule knot_performsD [of _ _ _ calls]) simp

lemma knot_mono: "knot_performs s m Q \<Longrightarrow> (\<And>x new s'. Q x new s' \<Longrightarrow> R x new s') \<Longrightarrow> knot_performs s m R"
  unfolding knot_performs_def by meson

lemma knot_ret [knot_intros]: "Q x [] s \<Longrightarrow> knot_performs s (ret x) Q"
  by (simp add: knot_performs_def)

lemma knot_host [knot_intros]: "performs m (\<lambda>x new. Q x new s) \<Longrightarrow> knot_performs s (host m) Q"
  unfolding knot_performs_def
proof
  fix calls
  assume "performs m (\<lambda>x new. Q x new s)"
  from runsD [OF this, of calls] obtain new where "snd (run_state m calls) = calls @ new" "Q (fst (run_state m calls)) new s"
    by blast
  then show "\<exists>new s'. snd (run_state (host m) (calls, s)) = (calls @ new, s') \<and> Q (fst (run_state (host m) (calls, s))) new s'"
    by (simp add: case_prod_beta)
qed

lemma knot_ask [knot_intros]: "Q (question s) [] s \<Longrightarrow> knot_performs s (ask question) Q"
  by (simp add: knot_performs_def)

lemma knot_enforcer [knot_intros]:
  "(\<And>e. change s = Inl e \<Longrightarrow> Q (Some (Text (rbac_text e))) [] s) \<Longrightarrow> (\<And>s'. change s = Inr s' \<Longrightarrow> Q None [] s') \<Longrightarrow>
     knot_performs s (enforcer change) Q"
  by (cases "change s") (simp_all add: knot_performs_def)

lemma knot_bind [knot_intros]:
  assumes "knot_performs s m (\<lambda>x new s1. knot_performs s1 (f x) (\<lambda>y new' s'. Q y (new @ new') s'))"
  shows "knot_performs s (State_Monad.bind m f) Q"
  unfolding knot_performs_def
proof
  fix calls
  obtain x mid s1 where m: "run_state m (calls, s) = (x, (mid, s1))" by (metis prod.exhaust)
  from knot_performsD [OF assms, of calls] obtain new where new: "mid = calls @ new"
    "knot_performs s1 (f x) (\<lambda>y new' s'. Q y (new @ new') s')" by (auto simp: m)
  from knot_performsD [OF new(2), of mid] obtain new' s' where "snd (run_state (f x) (mid, s1)) = (mid @ new', s')"
    "Q (fst (run_state (f x) (mid, s1))) (new @ new') s'" by blast
  then show "\<exists>new s'. snd (run_state (State_Monad.bind m f) (calls, s)) = (calls @ new, s') \<and>
      Q (fst (run_state (State_Monad.bind m f) (calls, s))) new s'"
    by (simp add: m new)
qed

lemma knot_attempt [knot_intros]:
  assumes "knot_performs s m (\<lambda>r new s1. case r of Inl e \<Rightarrow> knot_performs s1 (fail e) (\<lambda>y new' s'. Q y (new @ new') s')
                               | Inr x \<Rightarrow> knot_performs s1 (rest x) (\<lambda>y new' s'. Q y (new @ new') s'))"
  shows "knot_performs s (attempt m fail rest) Q"
  unfolding attempt_def by (rule knot_bind, rule knot_mono [OF assms]) (auto split: sum.splits)

lemma knot_unless_error [knot_intros]:
  assumes "knot_performs s m (\<lambda>r new s1. case r of Some e \<Rightarrow> knot_performs s1 (fail e) (\<lambda>y new' s'. Q y (new @ new') s')
                               | None \<Rightarrow> knot_performs s1 rest (\<lambda>y new' s'. Q y (new @ new') s'))"
  shows "knot_performs s (unless_error m fail rest) Q"
  unfolding unless_error_def by (rule knot_bind, rule knot_mono [OF assms]) (auto split: option.splits)

lemma knot_if [knot_intros]: "(b \<Longrightarrow> knot_performs s m Q) \<Longrightarrow> (\<not> b \<Longrightarrow> knot_performs s m' Q) \<Longrightarrow> knot_performs s (if b then m else m') Q"
  by simp

lemma knot_option [knot_intros]:
  "(v = None \<Longrightarrow> knot_performs s m Q) \<Longrightarrow> (\<And>x. v = Some x \<Longrightarrow> knot_performs s (f x) Q) \<Longrightarrow>
     knot_performs s (case v of None \<Rightarrow> m | Some x \<Rightarrow> f x) Q"
  by (cases v) simp_all

lemma knot_sum [knot_intros]:
  "(\<And>e. v = Inl e \<Longrightarrow> knot_performs s (f e) Q) \<Longrightarrow> (\<And>x. v = Inr x \<Longrightarrow> knot_performs s (g x) Q) \<Longrightarrow>
     knot_performs s (case v of Inl e \<Rightarrow> f e | Inr x \<Rightarrow> g x) Q"
  by (cases v) simp_all

lemma knot_prod [knot_intros]:
  "(\<And>a b. v = (a, b) \<Longrightarrow> knot_performs s (f a b) Q) \<Longrightarrow> knot_performs s (case v of (a, b) \<Rightarrow> f a b) Q"
  by (cases v) simp

lemmas knot_conditions [knot_intros] = sum_condition option_condition

section \<open>Rules of the shared steps\<close>

text \<open>\<open>joined E a b p\<close>: securejoin has given \<open>p\<close> for \<open>a\<close> and \<open>b\<close> at some point.\<close>

definition joined :: "XrpcEnv \<Rightarrow> string \<Rightarrow> string \<Rightarrow> string \<Rightarrow> bool" where
  "joined E a b p \<longleftrightarrow> (\<exists>calls. ho_secureJoin (xv_Host E) calls a b = Inr p)"

lemma secureJoin_performs [knot_intros]:
  assumes "\<And>e. Q (Inl e) [] s" "\<And>p. joined E a b p \<Longrightarrow> Q (Inr p) [] s"
  shows "knot_performs s (secureJoin E a b) Q"
proof -
  have "Q (map_sum Text id (ho_secureJoin (xv_Host E) calls a b)) [] s" for calls
    using assms by (cases "ho_secureJoin (xv_Host E) calls a b") (auto simp: joined_def)
  then show ?thesis by (simp add: knot_performs_def secureJoin_def)
qed

lemma reply_performs [knot_intros]:
  "Q (Answer status body) [] s \<Longrightarrow> knot_performs s (reply status body) Q"
  "Q (Answer status (Err e)) [] s \<Longrightarrow> knot_performs s (writeError e status) Q"
  "Q (Answer StatusBadRequest (Err e)) [] s \<Longrightarrow> knot_performs s (fail_with e) Q"
  "Q (Answer StatusInternalServerError (Err (GenericError err))) [] s \<Longrightarrow> knot_performs s (internal_error err) Q"
  "Q (Answer StatusOK NoBody) [] s \<Longrightarrow> knot_performs s ok_reply Q"
  by (simp_all add: reply_def writeError_def fail_with_def internal_error_def ok_reply_def knot_ret)

lemma merge_failed_performs [knot_intros]: "(\<And>ans. Q ans [] s) \<Longrightarrow> knot_performs s (merge_failed err) Q"
  unfolding merge_failed_def by (intro knot_intros) auto

lemma with_actor_performs [knot_intros]:
  "Q (Answer StatusBadRequest (Err MissingActorDidError)) [] s \<Longrightarrow> (\<And>did. actor = Some did \<Longrightarrow> knot_performs s (rest did) Q) \<Longrightarrow>
     knot_performs s (with_actor actor rest) Q"
  unfolding with_actor_def by (intro knot_intros) auto

lemma with_body_performs [knot_intros]:
  "(\<And>e. Q (Answer StatusBadRequest (Err e)) [] s) \<Longrightarrow> (\<And>data. body = Inr data \<Longrightarrow> knot_performs s (rest data) Q) \<Longrightarrow>
     knot_performs s (with_body body rest) Q"
  unfolding with_body_def by (intro knot_intros) auto

lemma require_performs [knot_intros]:
  "(\<And>e. Q (Answer StatusBadRequest (Err e)) [] s) \<Longrightarrow> (ok \<Longrightarrow> knot_performs s rest Q) \<Longrightarrow> knot_performs s (require ok message rest) Q"
  unfolding require_def by (intro knot_intros) auto

lemma resolve_actor_performs [knot_intros]:
  "(\<And>e. Q (Answer StatusBadRequest (Err e)) [] s) \<Longrightarrow> Q Panics [] s \<Longrightarrow>
     (\<And>ident. xv_Resolve E did = Inr ident \<Longrightarrow> \<not> id_InvalidHandle ident \<Longrightarrow> knot_performs s (rest ident) Q) \<Longrightarrow>
     knot_performs s (resolve_actor E did rest) Q"
  unfolding resolve_actor_def by (intro knot_intros) auto

text \<open>The identity and the name behind an AT-URI.\<close>

definition names_repo :: "XrpcEnv \<Rightarrow> string \<Rightarrow> Identity \<Rightarrow> string \<Rightarrow> bool" where
  "names_repo E uri ident name \<longleftrightarrow>
     (\<exists>authority rkey. xv_ParseATURI E uri = Some (authority, rkey) \<and> xv_Resolve E authority = Inr ident \<and>
        \<not> id_InvalidHandle ident \<and> xv_GetRecord E (id_PDS ident) authority rkey = Inr name)"

lemma resolve_repo_performs [knot_intros]:
  "(\<And>e. Q (Answer StatusBadRequest (Err e)) [] s) \<Longrightarrow>
     (\<And>ident name. names_repo E uri ident name \<Longrightarrow> knot_performs s (rest ident name) Q) \<Longrightarrow>
     knot_performs s (resolve_repo E uri rest) Q"
  unfolding resolve_repo_def by (intro knot_intros) (auto simp: names_repo_def)

lemma require_push_performs [knot_intros]:
  "Q (Answer StatusUnauthorized (Err (AccessControlError actor))) [] s \<Longrightarrow>
     (allowed (IsPushAllowed C s actor ThisServer repo) \<Longrightarrow> knot_performs s rest Q) \<Longrightarrow>
     knot_performs s (require_push C actor repo rest) Q"
  unfolding require_push_def by (intro knot_intros) auto

lemma under_scan_path_performs [knot_intros]:
  "(\<And>e. Q (Answer StatusBadRequest (Err e)) [] s) \<Longrightarrow>
     (\<And>p. joined E (kc_ScanPath (xv_Config E)) repo p \<Longrightarrow> knot_performs s (rest p) Q) \<Longrightarrow>
     knot_performs s (under_scan_path E repo rest) Q"
  unfolding under_scan_path_def by (intro knot_intros) auto

lemma under_scan_path_performs' [knot_intros]:
  "knot_performs s (rest []) Q \<Longrightarrow> (\<And>p. joined E (kc_ScanPath (xv_Config E)) repo p \<Longrightarrow> knot_performs s (rest p) Q) \<Longrightarrow>
     knot_performs s (under_scan_path' E repo rest) Q"
  unfolding under_scan_path'_def by (intro knot_intros) auto

text \<open>An operation of a git repository: its path is that of the repository that was opened.\<close>

lemma Git_Open_performs [performs_intros]:
  "(\<And>e. Q (Inl e) []) \<Longrightarrow> (\<And>h. Q (Inr \<lparr>gr_path = path, gr_h = h\<rparr>) []) \<Longrightarrow> performs (Git_Open H path ref) Q"
  unfolding Git_Open_def by (intro performs_intros) auto

lemma git_Fetch_performs [performs_intros]:
  "(\<And>r. Q r [GoGit (gr_path g) (Fetch refSpec remote)]) \<Longrightarrow> performs (git_Fetch H g refSpec remote wrap) Q"
  unfolding git_Fetch_def by (intro performs_intros) auto

lemma ResolveRevision_performs [performs_intros]: "(\<And>r. Q r []) \<Longrightarrow> performs (ResolveRevision H g revStr) Q"
  unfolding ResolveRevision_def by (intro performs_intros) auto

section \<open>Handlers that ask for the right to push\<close>

text \<open>The repository, as a path below the scan path, whose push right a request needs.\<close>

fun push_target :: "XrpcEnv \<Rightarrow> string \<Rightarrow> Procedure \<Rightarrow> string \<Rightarrow> bool" where
  "push_target E did (SetDefaultBranchReq (Inr d)) repo \<longleftrightarrow> (\<exists>ident name. names_repo E (sd_Repo d) ident name \<and> joined E did name repo)"
| "push_target E did (DeleteBranchReq (Inr d)) repo \<longleftrightarrow> (\<exists>ident name. names_repo E (db_Repo d) ident name \<and> joined E (id_DID ident) name repo)"
| "push_target E did (HiddenRefReq (Inr d)) repo \<longleftrightarrow> (\<exists>ident name. names_repo E (hr_Repo d) ident name \<and> joined E did name repo)"
| "push_target E did (ForkSyncReq (Inr d)) repo \<longleftrightarrow> repo = path_Join (fk_Did d) (fk_Name d)"
| "push_target E did (MergeReq (Inr d)) repo \<longleftrightarrow> joined E (mi_Did d) (mi_Name d) repo"
| "push_target E did _ repo \<longleftrightarrow> False"

text \<open>The calls a request makes in the directory \<open>path\<close> when it gets so far.\<close>

fun request_calls :: "Procedure \<Rightarrow> string \<Rightarrow> HostCall list \<Rightarrow> bool" where
  "request_calls (SetDefaultBranchReq (Inr d)) path new \<longleftrightarrow>
     new = [GoGit path (SetSymbolicReference ''HEAD'' (branch_ref (sd_DefaultBranch d)))]"
| "request_calls (DeleteBranchReq (Inr d)) path new \<longleftrightarrow> new = [GoGit path (RemoveReference (branch_ref (db_Branch d)))]"
| "request_calls (HiddenRefReq (Inr d)) path new \<longleftrightarrow>
     new = [GoGit path (Fetch (''+refs/heads/'' @ hr_RemoteRef d @ '':refs/hidden/'' @ hr_ForkRef d @ ''/'' @ hr_RemoteRef d) ''origin'')]"
| "request_calls (ForkSyncReq (Inr d)) path new \<longleftrightarrow> (\<exists>h. new = [GoGit path (Fetch (''+'' @ h @ '':'' @ h) [])])"
| "request_calls (MergeReq (Inr d)) path new \<longleftrightarrow> (\<exists>h. merge_local \<lparr>gr_path = path, gr_h = h\<rparr> (mi_Branch d) new)"
| "request_calls _ path new \<longleftrightarrow> False"

definition pushed :: "('s, string) Casbin \<Rightarrow> XrpcEnv \<Rightarrow> 's \<Rightarrow> string option \<Rightarrow> Procedure \<Rightarrow> HostCall list \<Rightarrow> bool" where
  "pushed C E s actor p new \<longleftrightarrow>
     (\<exists>did repo path. actor = Some did \<and> allowed (IsPushAllowed C s did ThisServer repo) \<and> push_target E did p repo \<and>
        (joined E (kc_ScanPath (xv_Config E)) repo path \<or> path = []) \<and> request_calls p path new)"

lemma pushedI:
  "allowed (IsPushAllowed C s did ThisServer repo) \<Longrightarrow> joined E (kc_ScanPath (xv_Config E)) repo path \<or> path = [] \<Longrightarrow>
     push_target E did p repo \<Longrightarrow> request_calls p path new \<Longrightarrow> pushed C E s (Some did) p new"
  unfolding pushed_def by blast

lemma SetDefaultBranch_performs:
  "knot_performs s (Xrpc_SetDefaultBranch C E actor b)
     (\<lambda>ans new s'. s' = s \<and> (new \<noteq> [] \<longrightarrow> pushed C E s actor (SetDefaultBranchReq b) new))"
  unfolding Xrpc_SetDefaultBranch_def SetDefaultBranch_def
  by (intro knot_intros performs_intros; simp; rule pushedI; force)

lemma DeleteBranch_performs:
  "knot_performs s (Xrpc_DeleteBranch C E actor b)
     (\<lambda>ans new s'. s' = s \<and> (new \<noteq> [] \<longrightarrow> pushed C E s actor (DeleteBranchReq b) new))"
  unfolding Xrpc_DeleteBranch_def Git_DeleteBranch_def
  by (intro knot_intros performs_intros; simp; rule pushedI; force)

lemma HiddenRef_performs:
  "knot_performs s (Xrpc_HiddenRef C E actor b)
     (\<lambda>ans new s'. s' = s \<and> (new \<noteq> [] \<longrightarrow> pushed C E s actor (HiddenRefReq b) new))"
  unfolding Xrpc_HiddenRef_def TrackHiddenRemoteRef_def
  by (intro knot_intros performs_intros; simp; rule pushedI; force)

lemma ForkSync_performs:
  "knot_performs s (Xrpc_ForkSync C E actor b)
     (\<lambda>ans new s'. s' = s \<and> (new \<noteq> [] \<longrightarrow> pushed C E s actor (ForkSyncReq b) new))"
  unfolding Xrpc_ForkSync_def Sync_def Let_def
  by (intro knot_intros performs_intros; simp; rule pushedI; force)

lemma ForkStatus_performs:
  "knot_performs s (Xrpc_ForkStatus C E actor b) (\<lambda>ans new s'. s' = s \<and> new = [])"
  unfolding Xrpc_ForkStatus_def Let_def
  by (intro knot_intros performs_intros; simp)

lemma parseRepoParam_performs [knot_intros]:
  "(\<And>e. Q (Inl e) [] s) \<Longrightarrow> (\<And>p. Q (Inr p) [] s) \<Longrightarrow> knot_performs s (parseRepoParam E repo) Q"
  unfolding parseRepoParam_def Let_def
  by (intro knot_intros performs_intros) auto

lemma is_pijul_performs [performs_intros]: "(\<And>b. Q b []) \<Longrightarrow> performs (is_pijul E path) Q"
  unfolding is_pijul_def by (intro performs_intros)

lemma RepoPermissions_performs:
  "knot_performs s (Xrpc_RepoPermissions C E actor repo) (\<lambda>ans new s'. s' = s \<and> new = [])"
  unfolding Xrpc_RepoPermissions_def Let_def
  by (intro knot_intros performs_intros; simp)

lemma MergeWithOptions_local [performs_intros]:
  "(\<And>r new. merge_local g branch new \<Longrightarrow> Q r new) \<Longrightarrow> performs (MergeWithOptions H env g patch branch opts) Q"
  by (rule performs_mono [OF merge_performs_local])

lemma Merge_performs:
  "knot_performs s (Xrpc_Merge C E actor b)
     (\<lambda>ans new s'. s' = s \<and> (new \<noteq> [] \<longrightarrow> pushed C E s actor (MergeReq b) new))"
  unfolding Xrpc_Merge_def
  by (intro knot_intros performs_intros; simp; rule impI; rule pushedI; force)

fun needs_push :: "Procedure \<Rightarrow> bool" where
  "needs_push (CreateReq _) \<longleftrightarrow> False"
| "needs_push (DeleteReq _) \<longleftrightarrow> False"
| "needs_push (ApplyChangesReq _) \<longleftrightarrow> False"
| "needs_push _ \<longleftrightarrow> True"

lemma route_performs:
  assumes "knot_performs s (procedure C E hc ct p (case token of Inl _ \<Rightarrow> None | Inr did \<Rightarrow> Some did)) (\<lambda>ans new s'. s' = s \<and> (new \<noteq> [] \<longrightarrow> P new))"
  shows "knot_performs s (route C E hc ct token p) (\<lambda>ans new s'. s' = s \<and> (new \<noteq> [] \<longrightarrow> is_ok token \<and> P new))"
proof (cases token)
  case (Inr did)
  with assms show ?thesis by (simp add: route_def VerifyServiceAuth_def)
qed (simp add: route_def VerifyServiceAuth_def reply_performs)

text \<open>A world in which every call succeeds, an engine that gives one answer, and identities that exist.\<close>

definition answering :: "bool \<Rightarrow> (unit, string) Casbin" where
  "answering b =
     \<lparr>AddPolicies = (\<lambda>_ _. Inr ()), RemovePolicies = (\<lambda>_ _. Inr ()), AddGroupingPolicy = (\<lambda>_ _ _ _. Inr ()),
      RemoveGroupingPolicy = (\<lambda>_ _ _ _. Inr ()), DeleteDomains = (\<lambda>_ _. Inr ()), Casbin_GetDomainsForUser = (\<lambda>_ _. Inr []),
      GetImplicitUsersForRole = (\<lambda>_ _ _. Inr []), GetImplicitRolesForUser = (\<lambda>_ _ _. Inr []),
      GetImplicitUsersForResourceByDomain = (\<lambda>_ _ _. Inr []), GetPermissionsForUserInDomain = (\<lambda>_ _ _. []),
      Enforce = (\<lambda>_ _ _ _ _. Inr b)\<rparr>"

definition sample_env :: "Host \<Rightarrow> XrpcEnv" where
  "sample_env H =
     \<lparr>xv_Host = H,
      xv_Config = \<lparr>kc_Hostname = ''knot'', kc_Owner = ''did:a'', kc_ScanPath = ''/s'', kc_MainBranch = ''main'', kc_UserName = ''knot'',
        kc_UserEmail = ''k@x'', kc_InternalListenAddr = ''l''\<rparr>,
      xv_Patch = plain_env,
      xv_Resolve = (\<lambda>a. Inr \<lparr>id_DID = a, id_Handle = a, id_InvalidHandle = False, id_PDS = ''p''\<rparr>),
      xv_GetRecord = (\<lambda>_ _ rkey. Inr rkey), xv_ParseATURI = (\<lambda>u. Some (''did:b'', u)), xv_sha256 = (\<lambda>s. s),
      xv_parse_url = (\<lambda>u. Inl (Text u)), xv_file_url = (\<lambda>u. u), xv_Executable = Inr ''k'', xv_parseTime = (\<lambda>_ _. None),
      xv_formatTime = (\<lambda>_. []), xv_newHash = (\<lambda>s. s)\<rparr>"



end
