(* ===== verification/Knot_Access.thy ===== *)
theory Knot_Access
  imports Knot_Rights
begin

text \<open>
  Applying pijul changes, creating and deleting repositories, and the list of rights: what these requests
  need, what they do to the machine and to the access control, and what they leave behind.
\<close>

unbundle bit_operations_syntax

section \<open>Applying changes\<close>

lemma runPijulCmd_performs [performs_intros]:
  "(\<And>r. Q r [Exec ''pijul'' (command # args) (pr_path p)]) \<Longrightarrow> performs (runPijulCmd H p command args) Q"
  unfolding runPijulCmd_def by (intro performs_intros) simp

lemma Pijul_Apply_performs [performs_intros]:
  "(\<And>r. Q r [Exec ''pijul'' [''apply'', h] (pr_path p)]) \<Longrightarrow> performs (Pijul_Apply H p h) Q"
  unfolding Pijul_Apply_def only_error_def by (intro performs_intros) auto

lemma Channels_performs [performs_intros]:
  "(\<And>r. Q r [Exec ''pijul'' [''channel''] (pr_path p)]) \<Longrightarrow> performs (Channels H p) Q"
  unfolding Channels_def channelCmd_def by (intro performs_intros) auto

lemma Pijul_Open_performs [performs_intros]:
  assumes "\<And>e new. set new \<subseteq> {Exec ''pijul'' [''channel''] path} \<Longrightarrow> Q (Inl e) new"
    and "Q (Inr \<lparr>pr_path = path, pr_channelName = channel\<rparr>) (if channel = [] then [] else [Exec ''pijul'' [''channel''] path])"
  shows "performs (Pijul_Open H path channel) Q"
  unfolding Pijul_Open_def Let_def by (intro performs_intros) (use assms in auto)

definition apply_calls :: "string \<Rightarrow> string list \<Rightarrow> HostCall list" where
  "apply_calls path changes = map (\<lambda>h. Exec ''pijul'' [''apply'', h] path) changes"

text \<open>Every change is reported once, as applied or as failed, and both lists keep the order.\<close>

definition reported :: "string list \<Rightarrow> string list \<times> (string \<times> string) list \<Rightarrow> bool" where
  "reported changes out \<longleftrightarrow>
     mset (fst out) + mset (map fst (snd out)) = mset changes \<and>
     subseq (fst out) changes \<and> subseq (map fst (snd out)) changes"

lemma apply_all_performs:
  "performs (apply_all H pr changes) (\<lambda>out new. new = apply_calls (pr_path pr) changes \<and> reported changes out)"
proof (induction changes)
  case Nil
  show ?case by (simp add: performs_ret apply_calls_def reported_def)
next
  case (Cons h changes)
  show ?case
    unfolding apply_all.simps
    by (intro performs_intros, rule performs_mono [OF Cons.IH], intro performs_intros)
      (auto simp: apply_calls_def reported_def split: option.split)
qed

text \<open>
  What a request to apply changes comes to: an error, after at most a look at the channels, or the answer
  about all its changes, each of which has been tried in the directory of the repository.
\<close>

definition apply_outcome :: "ApplyInput option \<Rightarrow> Answer \<Rightarrow> HostCall list \<Rightarrow> bool" where
  "apply_outcome body ans new \<longleftrightarrow>
     (\<exists>status e path. ans = Answer status (Err e) \<and> set new \<subseteq> {Exec ''pijul'' [''channel''] path}) \<or>
     (\<exists>req path out. body = Some req \<and> ans = apply_answer out \<and> reported (ai_Changes req) out \<and>
        new = [Exec ''pijul'' [''channel''] path, Exec ''pijul'' [''channel''] path] @ apply_calls path (ai_Changes req))"

lemma outcome_error: "set new \<subseteq> {Exec ''pijul'' [''channel''] path} \<Longrightarrow> apply_outcome body (Answer status (Err e)) new"
  unfolding apply_outcome_def by blast

lemma outcome_applied:
  "reported (ai_Changes req) out \<Longrightarrow>
   apply_outcome (Some req) (apply_answer out)
     ([Exec ''pijul'' [''channel''] path, Exec ''pijul'' [''channel''] path] @ apply_calls path (ai_Changes req))"
  unfolding apply_outcome_def by blast

lemma ApplyChanges_performs:
  "knot_performs s (Xrpc_RepoApplyChanges E True body) (\<lambda>ans new s'. s' = s \<and> apply_outcome body ans new)"
  unfolding Xrpc_RepoApplyChanges_def
  by (intro knot_intros performs_intros; (rule performs_mono [OF apply_all_performs])?; (intro knot_intros)?)
    (auto intro: outcome_error outcome_applied [simplified] split: if_splits)


text \<open>\<open>blind m\<close>: the operation neither reads nor changes the state of the access control.\<close>

definition blind :: "('s, 'a) knot \<Rightarrow> bool" where
  "blind m \<longleftrightarrow> (\<forall>calls. \<exists>x calls'. \<forall>s. run_state m (calls, s) = (x, (calls', s)))"

lemma blind_ret: "blind (ret x)"
  by (simp add: blind_def)

lemma blind_host: "blind (host m)"
  by (simp add: blind_def case_prod_beta)

lemma blind_bind: "blind m \<Longrightarrow> (\<And>x. blind (f x)) \<Longrightarrow> blind (State_Monad.bind m f)"
  unfolding blind_def by (simp add: case_prod_beta) (metis fst_conv snd_conv)

lemma blind_attempt: "blind m \<Longrightarrow> (\<And>e. blind (fail e)) \<Longrightarrow> (\<And>x. blind (rest x)) \<Longrightarrow> blind (attempt m fail rest)"
  unfolding attempt_def by (rule blind_bind) (auto split: sum.split)

lemmas blind_intros = blind_attempt blind_bind blind_host blind_ret

lemma ApplyChanges_blind: "blind (Xrpc_RepoApplyChanges E True body)"
  unfolding Xrpc_RepoApplyChanges_def parseRepoParam_def secureJoin_def writeError_def reply_def Let_def
  by (auto intro!: blind_intros split: option.split)

text \<open>A request to apply pijul changes asks the access control nothing: whoever has a valid token, and
  whatever rights are stored, the answer and the calls are the same. When it gets so far, it applies every
  change of the request once, in order, and reports each as applied or failed, in two lists that keep
  that order; the commands name the changes only, not the channel of the request.\<close>

theorem apply_changes_unguarded:
  "\<exists>ans new. (\<forall>C did (s :: 's). run_state (route C E hc ct (Inr did) (ApplyChangesReq body)) (calls, s) = (ans, (calls @ new, s))) \<and>
     apply_outcome body ans new"
proof -
  let ?m = "Xrpc_RepoApplyChanges E True body :: 's handler"
  from ApplyChanges_blind obtain x calls' where x: "\<And>s. run_state ?m (calls, s) = (x, (calls', s))"
    unfolding blind_def by blast
  from knot_performsD [OF ApplyChanges_performs [of "undefined :: 's" E body], of calls] obtain new
    where "calls' = calls @ new" "apply_outcome body x new" by (auto simp: x)
  with x show ?thesis by (auto simp: route_def VerifyServiceAuth_def)
qed

text \<open>A stranger applies a change to a repository, although the engine allows nothing to anybody.\<close>

lemma main_listed: "parseChannelOutput (''* m'' @ [newline]) = Inr [\<lparr>cn_Name = ''m'', cn_IsCurrent = True\<rparr>]"
proof -
  have "trimSpace ''m'' = ''m''" by code_simp
  then have "channel_ok \<lparr>cn_Name = ''m'', cn_IsCurrent = True\<rparr>"
    by (simp add: channel_ok_def trimmed_def plain_line_def print_channel_def max_line_def)
  then show ?thesis
    using channels_roundtrip [of "[\<lparr>cn_Name = ''m'', cn_IsCurrent = True\<rparr>]"]
    by (simp add: print_lines_def print_channel_def)
qed

definition pijul_host :: Host where
  "pijul_host = quiet_host
     \<lparr>ho_stat := (\<lambda>_ _. Inl (Stat_failed [])), ho_exec := (\<lambda>_ _. Exited_ok (''* m'' @ [newline]) []),
      ho_secureJoin := (\<lambda>_ _ b. Inr b)\<rparr>"

lemma stranger_applies:
  "run_state (route (answering False) (sample_env pijul_host) (\<lambda>_ _. []) [] (Inr ''did:z'')
      (ApplyChangesReq (Some \<lparr>ai_Repo = ''a/r'', ai_Channel = ''m'', ai_Changes = [''H'']\<rparr>))) ([], ()) =
   (Answer StatusOK (ApplyOut [''H''] []),
    ([Exec ''pijul'' [''channel''] ''r'', Exec ''pijul'' [''channel''] ''r'', Exec ''pijul'' [''apply'', ''H''] ''r''], ()))"
proof -
  have parts: "splitN 2 CHR ''/'' ''a/r'' = [''a'', ''r'']" by code_simp
  have "has_channel ''m'' [\<lparr>cn_Name = ''m'', cn_IsCurrent = True\<rparr>]" by (simp add: has_channel_def)
  then show ?thesis
    by (simp add: route_def VerifyServiceAuth_def Xrpc_RepoApplyChanges_def run_attempt parseRepoParam_def parts secureJoin_def
        sample_env_def pijul_host_def Pijul_Open_def pijul_missing_def os_IsNotExist_def Channels_def channelCmd_def runPijulCmd_def
        exec_Command_def main_listed [simplified] Pijul_Apply_def only_error_def apply_answer_def Let_def)
qed
section \<open>Creating a repository\<close>

text \<open>How the answer looks at the state: what is added and what is taken away concerns one repository.\<close>

definition gains :: "('s \<Rightarrow> rule set) \<Rightarrow> ('s \<Rightarrow> grouping set) \<Rightarrow> 's \<Rightarrow> rule set \<Rightarrow> 's \<Rightarrow> bool" where
  "gains pol grp s R s' \<longleftrightarrow> grp s' = grp s \<and> pol s \<subseteq> pol s' \<and> pol s' \<subseteq> pol s \<union> R"

definition loses :: "('s \<Rightarrow> rule set) \<Rightarrow> ('s \<Rightarrow> grouping set) \<Rightarrow> 's \<Rightarrow> rule set \<Rightarrow> 's \<Rightarrow> bool" where
  "loses pol grp s R s' \<longleftrightarrow> grp s' = grp s \<and> pol s' \<subseteq> pol s \<and> pol s \<subseteq> pol s' \<union> R"

lemma gains_refl [simp]: "gains pol grp s R s" and loses_refl [simp]: "loses pol grp s R s"
  by (simp_all add: gains_def loses_def)

lemma gains_add:
  "casbin_ok C pol grp \<Longrightarrow> change_policies (AddPolicies C) s1 repo rs = Inr s2 \<Longrightarrow> gains pol grp s R s1 \<Longrightarrow> set rs \<subseteq> R \<Longrightarrow>
     gains pol grp s R s2"
  by (drule (1) add_policies) (auto simp: gains_def split: if_splits)

lemma loses_remove:
  "casbin_ok C pol grp \<Longrightarrow> change_policies (RemovePolicies C) s1 repo rs = Inr s2 \<Longrightarrow> loses pol grp s R s1 \<Longrightarrow> set rs \<subseteq> R \<Longrightarrow>
     loses pol grp s R s2"
  by (drule (1) remove_policies) (auto simp: loses_def split: if_splits)

lemma new_repository_performs [performs_intros]:
  "(\<And>r new. Q r new) \<Longrightarrow> performs (Pijul_Clone H url dest channel) Q"
  "(\<And>r new. Q r new) \<Longrightarrow> performs (Pijul_InitBare H path) Q"
  "(\<And>r new. Q r new) \<Longrightarrow> performs (Git_Fork H pu fu cfg path source) Q"
  "(\<And>r new. Q r new) \<Longrightarrow> performs (Git_InitBare H path branch) Q"
  "(\<And>r new. Q r new) \<Longrightarrow> performs (SetupRepo E hookContent content path) Q"
  unfolding Pijul_Clone_def Pijul_InitBare_def Git_Fork_def optimizeClone_def Git_InitBare_def init_repository_def
    SetupRepo_def mkHook_def mkDelegate_def Let_def
  by (intro performs_intros; simp)+

lemma make_repository_performs [knot_intros]:
  "(\<And>ans new. Q ans new s) \<Longrightarrow> (\<And>new. knot_performs s rest (\<lambda>ans new'. Q ans (new @ new'))) \<Longrightarrow>
     knot_performs s (make_repository E vcs path source branch rest) Q"
  unfolding make_repository_def by (intro knot_intros performs_intros) auto

text \<open>What a user gets who creates \<open>repo\<close>.\<close>

definition creator_rules :: "string \<Rightarrow> string \<Rightarrow> rule set" where
  "creator_rules did repo = set (repoPolicies did ThisServer repo) \<union> set (pijulOwnerPolicies did ThisServer repo)"

definition created ::
  "('s, string) Casbin \<Rightarrow> ('s \<Rightarrow> rule set) \<Rightarrow> ('s \<Rightarrow> grouping set) \<Rightarrow> XrpcEnv \<Rightarrow> 's \<Rightarrow> string option \<Rightarrow> CreateInput \<Rightarrow> 's \<Rightarrow> bool" where
  "created C pol grp E s actor data s' \<longleftrightarrow>
     (\<exists>did ident name. actor = Some did \<and> IsRepoCreateAllowed C s did ThisServer = Inr True \<and>
        xv_Resolve E did = Inr ident \<and> xv_GetRecord E (id_PDS ident) did (cr_Rkey data) = Inr name \<and>
        validateRepoName name = None \<and> gains pol grp s (creator_rules did (path_Join did name)) s')"


lemma created_step:
  "actor = Some did \<Longrightarrow> b = Inr data \<Longrightarrow> IsRepoCreateAllowed C s did ThisServer = Inr x \<Longrightarrow> \<not> \<not> x \<Longrightarrow> xv_Resolve E did = Inr ident \<Longrightarrow>
   xv_GetRecord E (id_PDS ident) did (cr_Rkey data) = Inr name \<Longrightarrow> validateRepoName name = None \<Longrightarrow>
   gains pol grp s (creator_rules did (path_Join did name)) s' \<Longrightarrow>
     unchanged \<or> (\<exists>data. b = Inr data \<and> created C pol grp E s actor data s')"
  unfolding created_def by auto

lemma CreateRepo_performs:
  assumes C: "casbin_ok C pol grp"
  shows "knot_performs s (Xrpc_CreateRepo C E hc ct actor b)
     (\<lambda>ans new s'. s' = s \<and> new = [] \<or> (\<exists>data. b = Inr data \<and> created C pol grp E s actor data s'))"
proof -
  have add: "gains pol grp s (creator_rules did repo) s1"
    if "AddRepo C s did ThisServer repo = Inr s1" for s1 did repo
    using gains_add [OF C that [unfolded AddRepo_def] gains_refl] by (simp add: creator_rules_def)
  have pijul: "gains pol grp s (creator_rules did repo) s2"
    if "AddPijulRepoPermissions C s1 did ThisServer repo = Inr s2" "gains pol grp s (creator_rules did repo) s1" for s1 s2 did repo
    using gains_add [OF C that(1) [unfolded AddPijulRepoPermissions_def] that(2)] by (simp add: creator_rules_def)
  show ?thesis
    unfolding Xrpc_CreateRepo_def Let_def
    by (intro knot_intros performs_intros)
      ((simp; fail) | (rule created_step, assumption, assumption, assumption, assumption, assumption, assumption, assumption,
         (rule gains_refl | erule add | erule pijul, (rule gains_refl | erule add))))+
qed

section \<open>Deleting a repository\<close>

text \<open>The rules about one repository of this server.\<close>

definition rules_of :: "string \<Rightarrow> rule set" where
  "rules_of repo = {(p, d, ob, act). d = ThisServer \<and> ob = repo}"

lemma rules_of_repo [simp]:
  "set (repoPolicies did ThisServer repo) \<subseteq> rules_of repo"
  "set (pijulOwnerPolicies did ThisServer repo) \<subseteq> rules_of repo"
  "set (pijulCollaboratorPolicies did ThisServer repo) \<subseteq> rules_of repo"
  by (auto simp: rules_of_def repoPolicies_def pijulOwnerPolicies_def pijulCollaboratorPolicies_def)

lemma removes_rules:
  assumes "casbin_ok C pol grp" "loses pol grp s (rules_of repo) s1"
  shows "RemoveRepo C s1 did ThisServer repo = Inr s2 \<Longrightarrow> loses pol grp s (rules_of repo) s2"
    and "RemovePijulRepoPermissions C s1 did ThisServer repo = Inr s2 \<Longrightarrow> loses pol grp s (rules_of repo) s2"
    and "RemovePijulCollaboratorPermissions C s1 did ThisServer repo = Inr s2 \<Longrightarrow> loses pol grp s (rules_of repo) s2"
  using loses_remove [OF assms(1) _ assms(2)] rules_of_repo
  unfolding RemoveRepo_def RemovePijulRepoPermissions_def RemovePijulCollaboratorPermissions_def by blast+

text \<open>
  The loop over the users: an invariant of the state that removing a user's rules keeps holds
  when it ends, and whoever was listed has lost the right to apply.
\<close>

lemma remove_users_performs:
  assumes keep: "\<And>s1 u s2. I s1 \<Longrightarrow> RemovePijulCollaboratorPermissions C s1 u ThisServer repo = Inr s2 \<Longrightarrow> I s2 \<and> J u s2"
    and stays: "\<And>s1 v u s2. I s1 \<Longrightarrow> J v s1 \<Longrightarrow> RemovePijulCollaboratorPermissions C s1 u ThisServer repo = Inr s2 \<Longrightarrow> J v s2"
    and failed: "\<And>s1 ans. I s1 \<Longrightarrow> Q ans [] s1"
    and rest: "\<And>s1. I s1 \<Longrightarrow> (\<forall>u \<in> D \<union> fst ` set users. J u s1) \<Longrightarrow> knot_performs s1 rest Q"
    and start: "I s" "\<forall>u \<in> D. J u s"
  shows "knot_performs s (remove_users C repo users rest) Q"
  using rest start
proof (induction users arbitrary: s D)
  case Nil
  then show ?case by simp
next
  case (Cons u us)
  have "knot_performs s' (remove_users C repo us rest) Q"
    if r: "RemovePijulCollaboratorPermissions C s (fst u) ThisServer repo = Inr s'" for s'
  proof (rule Cons.IH [of "insert (fst u) D"])
    show "I s'" using keep [OF Cons.prems(2) r] by simp
    show "\<forall>v \<in> insert (fst u) D. J v s'" using keep [OF Cons.prems(2) r] stays [OF Cons.prems(2) _ r] Cons.prems(3) by simp
    show "knot_performs s1 rest Q" if "I s1" "\<forall>v \<in> insert (fst u) D \<union> fst ` set us. J v s1" for s1
      using Cons.prems(1) [OF that(1)] that(2) by simp
  qed
  then show ?case
    by (simp, intro knot_intros) (use failed [OF Cons.prems(2)] in auto)
qed

text \<open>What a deletion needs and does to the machine.\<close>

definition deletes :: "('s, string) Casbin \<Rightarrow> XrpcEnv \<Rightarrow> 's \<Rightarrow> string option \<Rightarrow> string \<Rightarrow> HostCall list \<Rightarrow> bool" where
  "deletes C E s actor repo new \<longleftrightarrow>
     (\<exists>did path. actor = Some did \<and> IsRepoDeleteAllowed C s did ThisServer repo = Inr True \<and>
        joined E (kc_ScanPath (xv_Config E)) repo path \<and> new = [RemoveAll path])"

lemma deletesI:
  "IsRepoDeleteAllowed C s did ThisServer repo = Inr x \<Longrightarrow> \<not> \<not> x \<Longrightarrow> joined E (kc_ScanPath (xv_Config E)) repo path \<Longrightarrow>
     deletes C E s (Some did) repo [RemoveAll path]"
  unfolding deletes_def by auto

text \<open>
  The shape of a deletion: an invariant of the state that each of its steps keeps holds at the end. \<open>J u\<close>
  is what removing the rules of \<open>u\<close> establishes.
\<close>

lemma DeleteRepo_performs:
  fixes d :: DeleteInput
  defines "repo \<equiv> path_Join (de_Did d) (de_Name d)"
  assumes repo_rules: "\<And>s1 s2. I s1 \<Longrightarrow> RemoveRepo C s1 (de_Did d) ThisServer repo = Inr s2 \<Longrightarrow> I s2"
    and keep: "\<And>s1 u s2. I s1 \<Longrightarrow> RemovePijulCollaboratorPermissions C s1 u ThisServer repo = Inr s2 \<Longrightarrow> I s2 \<and> J u s2"
    and stays: "\<And>s1 v u s2. I s1 \<Longrightarrow> J v s1 \<Longrightarrow> RemovePijulCollaboratorPermissions C s1 u ThisServer repo = Inr s2 \<Longrightarrow> J v s2"
    and last: "\<And>s0 users s1 s2. I s0 \<Longrightarrow> GetImplicitUsersForResourceByDomain C s0 repo ThisServer = Inr users \<Longrightarrow> I s1 \<Longrightarrow>
        (\<forall>u \<in> fst ` set users. J u s1) \<Longrightarrow> RemovePijulRepoPermissions C s1 (de_Did d) ThisServer repo = Inr s2 \<Longrightarrow> I s2"
    and start: "I s"
  shows "knot_performs s (Xrpc_DeleteRepo C E actor (Inr d))
     (\<lambda>ans new s'. I s' \<and> (s' = s \<and> new = [] \<or> deletes C E s actor repo new))"
proof -
  have users: "knot_performs s1 (remove_users C repo users (unless_error
        (enforcer (\<lambda>s. RemovePijulRepoPermissions C s (de_Did d) ThisServer repo)) internal_error ok_reply))
        (\<lambda>ans new s'. new = [] \<and> I s')"
    if "I s1" "GetImplicitUsersForResourceByDomain C s1 repo ThisServer = Inr users" for s1 users
  proof (rule remove_users_performs [where I = I and J = J and D = "{}"])
    show "knot_performs s2 (unless_error (enforcer (\<lambda>s. RemovePijulRepoPermissions C s (de_Did d) ThisServer repo)) internal_error
        ok_reply) (\<lambda>ans new s'. new = [] \<and> I s')" if "I s2" "\<forall>u \<in> {} \<union> fst ` set users. J u s2" for s2
      using last [OF \<open>I s1\<close> \<open>_ = Inr users\<close> that(1)] that by (intro knot_intros) simp_all
  qed ((rule keep; assumption) | (rule stays; assumption) | simp add: that(1))+
  show ?thesis
    unfolding Xrpc_DeleteRepo_def Let_def repo_def [symmetric] with_body_def sum.case
    by (intro knot_intros performs_intros)
      ((simp add: start; fail) | (rule knot_mono, rule users, rule repo_rules, rule start, assumption, assumption) |
        (rule conjI, (rule start | rule repo_rules, rule start, assumption), simp add: deletesI) | (simp add: deletesI; fail))+
qed

text \<open>Nothing happens to the machine or to the access control by a request to create a repository unless the
  caller has presented a valid token and may create repositories on this server, and the record that the
  request names gives a valid repository name; the access control then gains at most the rules of the
  caller for the repository of that name below the caller's DID, and loses none.\<close>

theorem creation_needs_right:
  assumes "casbin_ok C pol grp" "run_state (route C E hc ct token (CreateReq b)) (calls, s) = (ans, (calls @ new, s'))"
  shows "s' = s \<and> new = [] \<or> (\<exists>did data. token = Inr did \<and> b = Inr data \<and> created C pol grp E s (Some did) data s')"
proof (cases token)
  case (Inl e)
  with assms(2) show ?thesis by (simp add: route_def VerifyServiceAuth_def writeError_def reply_def)
next
  case (Inr did)
  with knot_performs_result [OF CreateRepo_performs [OF assms(1), of s E hc ct "Some did" b], of calls ans new s'] assms(2)
  show ?thesis by (auto simp: route_def VerifyServiceAuth_def)
qed

text \<open>A request to delete a repository removes nothing unless the caller has presented a valid token and may
  delete that repository: the machine then removes the one directory that the scan path and the name
  join to, and the access control loses rules of that repository only and gains none.\<close>

theorem deletion_needs_right:
  assumes "casbin_ok C pol grp" "run_state (route C E hc ct token (DeleteReq (Inr d))) (calls, s) = (ans, (calls @ new, s'))"
  shows "loses pol grp s (rules_of (path_Join (de_Did d) (de_Name d))) s' \<and>
    (s' = s \<and> new = [] \<or> (\<exists>did. token = Inr did \<and> deletes C E s (Some did) (path_Join (de_Did d) (de_Name d)) new))"
proof (cases token)
  case (Inl e)
  with assms(2) show ?thesis by (simp add: route_def VerifyServiceAuth_def writeError_def reply_def)
next
  case (Inr did)
  let ?R = "rules_of (path_Join (de_Did d) (de_Name d))"
  have "knot_performs s (Xrpc_DeleteRepo C E (Some did) (Inr d)) (\<lambda>ans new s'. loses pol grp s ?R s' \<and>
      (s' = s \<and> new = [] \<or> deletes C E s (Some did) (path_Join (de_Did d) (de_Name d)) new))"
    by (rule DeleteRepo_performs [where J = "\<lambda>_ _. True"])
      (auto elim: removes_rules [OF assms(1)])
  from knot_performs_result [OF this, of calls ans new s'] assms(2) Inr
  show ?thesis by (auto simp: route_def VerifyServiceAuth_def)
qed

lemma removals:
  assumes "casbin_ok C pol grp"
  shows "RemoveRepo C s1 did ThisServer repo = Inr s2 \<Longrightarrow> pol s2 = (if set (repoPolicies did ThisServer repo) \<subseteq> pol s1
      then pol s1 - set (repoPolicies did ThisServer repo) else pol s1)"
    and "RemovePijulRepoPermissions C s1 did ThisServer repo = Inr s2 \<Longrightarrow> pol s2 = (if set (pijulOwnerPolicies did ThisServer repo) \<subseteq> pol s1
      then pol s1 - set (pijulOwnerPolicies did ThisServer repo) else pol s1)"
    and "RemovePijulCollaboratorPermissions C s1 did ThisServer repo = Inr s2 \<Longrightarrow>
      pol s2 = (if set (pijulCollaboratorPolicies did ThisServer repo) \<subseteq> pol s1
        then pol s1 - set (pijulCollaboratorPolicies did ThisServer repo) else pol s1)"
  unfolding RemoveRepo_def RemovePijulRepoPermissions_def RemovePijulCollaboratorPermissions_def
  using remove_policies [OF assms] by blast+

abbreviation edit_permissions :: "string \<Rightarrow> string \<Rightarrow> rule" where
  "edit_permissions did repo \<equiv> (did, ThisServer, repo, ''pijul:edit_permissions'')"

lemma edit_permissions_policies:
  "edit_permissions did repo \<notin> set (repoPolicies did' ThisServer repo)"
  "edit_permissions did repo \<notin> set (pijulCollaboratorPolicies did' ThisServer repo)"
  "edit_permissions did repo \<in> set (pijulOwnerPolicies did ThisServer repo)"
  by (simp_all add: repoPolicies_def pijulCollaboratorPolicies_def pijulOwnerPolicies_def)

lemma owner_has_collaborator:
  "set (pijulCollaboratorPolicies did d repo) \<subseteq> set (pijulOwnerPolicies did d repo)"
  "set (pijulCollaboratorPolicies did d repo) \<noteq> {}"
  by (auto simp: pijulCollaboratorPolicies_def pijulOwnerPolicies_def)

lemma clash: "A \<subseteq> B \<Longrightarrow> A \<noteq> {} \<Longrightarrow> \<not> B \<subseteq> P - A"
  by blast

lemma user_removed:
  assumes "casbin_ok C pol grp" "edit_permissions did repo \<in> pol s1" "RemovePijulCollaboratorPermissions C s1 u ThisServer repo = Inr s2"
  shows "edit_permissions did repo \<in> pol s2 \<and> \<not> set (pijulOwnerPolicies u ThisServer repo) \<subseteq> pol s2"
proof (cases "set (pijulCollaboratorPolicies u ThisServer repo) \<subseteq> pol s1")
  case True
  then have p: "pol s2 = pol s1 - set (pijulCollaboratorPolicies u ThisServer repo)" using removals(3) [OF assms(1,3)] by argo
  show ?thesis
    unfolding p using assms(2) edit_permissions_policies(2) clash [OF owner_has_collaborator] by (intro conjI DiffI)
next
  case False
  then have "pol s2 = pol s1" using removals(3) [OF assms(1,3)] by argo
  with assms(2) show ?thesis using False owner_has_collaborator(1) [of u ThisServer repo] by auto
qed

lemma rules_shrink:
  assumes "casbin_ok C pol grp" "RemovePijulCollaboratorPermissions C s1 u ThisServer repo = Inr s2"
  shows "pol s2 \<subseteq> pol s1"
  unfolding removals(3) [OF assms] by simp


section \<open>The list of rights\<close>

lemma add_permissions_names:
  "snd (add_permissions roles i ps (bits, names)) = names @ map fst (filter (\<lambda>p. snd p \<in> set roles) ps)"
  by (induction ps arbitrary: i bits names) (auto split: prod.split)

lemma one_bit: "bit (push_bit i 1 :: 64 word) n \<longleftrightarrow> n = i \<and> n < 64"
  by (auto simp: bit_push_bit_iff bit_1_iff simp flip: push_bit_of_1)

lemma add_permissions_bits:
  "bit (fst (add_permissions roles i ps (bits, names))) n \<longleftrightarrow>
     bit bits n \<or> n < 64 \<and> i \<le> n \<and> n < i + length ps \<and> snd (ps ! (n - i)) \<in> set roles"
proof (induction ps arbitrary: i bits names)
  case Nil
  then show ?case by auto
next
  case (Cons p ps)
  obtain name act where p: "p = (name, act)" by (cases p)
  have "(i \<le> n \<and> n < i + length (p # ps) \<and> snd ((p # ps) ! (n - i)) \<in> set roles) \<longleftrightarrow>
      (n = i \<and> act \<in> set roles) \<or> (Suc i \<le> n \<and> n < Suc i + length ps \<and> snd (ps ! (n - Suc i)) \<in> set roles)"
    by (cases "n = i") (auto simp: p nth_Cons' Suc_le_eq)
  moreover have "bit (fst (add_permissions roles i (p # ps) (bits, names))) n \<longleftrightarrow>
      (bit bits n \<or> act \<in> set roles \<and> n = i \<and> n < 64) \<or>
      n < 64 \<and> Suc i \<le> n \<and> n < Suc i + length ps \<and> snd (ps ! (n - Suc i)) \<in> set roles"
    unfolding p by (simp add: Cons.IH bit_or_iff one_bit del: push_bit_of_1)
  ultimately show ?case by blast
qed
definition reports_rights :: "('s, string) Casbin \<Rightarrow> XrpcEnv \<Rightarrow> 's \<Rightarrow> string option \<Rightarrow> string \<Rightarrow> Answer \<Rightarrow> bool" where
  "reports_rights C E s actor repo ans \<longleftrightarrow>
     (\<forall>bits names. ans = Answer StatusOK (PermissionsOut bits names) \<longrightarrow>
       (\<exists>did path. actor = Some did \<and> joined E (splitN 2 CHR ''/'' repo ! 0) (splitN 2 CHR ''/'' repo ! 1) path \<and>
          (let held = set (GetPermissionsInRepo C s did ThisServer path)
           in names = map fst (filter (\<lambda>p. snd p \<in> held) permission_names) \<and>
              (\<forall>n. bit bits n \<longleftrightarrow> n < 8 \<and> snd (permission_names ! n) \<in> held))))"

lemma reports_rightsI:
  assumes "actor = Some did" "joined E (splitN 2 CHR ''/'' repo ! 0) (splitN 2 CHR ''/'' repo ! 1) path"
    and "(Inr path :: (GoError, string) result) = Inr path'"
    and "add_permissions (GetPermissionsInRepo C s did ThisServer path') 0 permission_names (0, []) = (bits, names)"
  shows "reports_rights C E s actor repo (Answer StatusOK (PermissionsOut bits names))"
proof -
  let ?roles = "GetPermissionsInRepo C s did ThisServer path"
  have "length permission_names = 8" by (simp add: permission_names_def)
  then have "bit bits n \<longleftrightarrow> n < 8 \<and> snd (permission_names ! n) \<in> set ?roles" for n
    using add_permissions_bits [of ?roles 0 permission_names 0 "[]" n] assms(3,4) by auto
  moreover have "names = map fst (filter (\<lambda>p. snd p \<in> set ?roles) permission_names)"
    using add_permissions_names [of ?roles 0 permission_names 0 "[]"] assms(3,4) by simp
  ultimately show ?thesis using assms(1,2) by (auto simp: reports_rights_def Let_def)
qed

lemma no_rights: "reports_rights C E s actor repo (Answer status (Err e))"
  by (simp add: reports_rights_def)

lemma RepoPermissions_reports:
  "knot_performs s (Xrpc_RepoPermissions C E actor repo) (\<lambda>ans new s'. reports_rights C E s actor repo ans)"
  unfolding Xrpc_RepoPermissions_def Let_def
  by (intro knot_intros performs_intros) (rule no_rights | (rule reports_rightsI, assumption, assumption, assumption, assumption) | (simp; fail))+

text \<open>The answer to a question for permissions names exactly the eight rights of which the access control
  stores a rule for the caller and the repository, in their order, and the bit mask of the answer has
  exactly their bits.\<close>

theorem permissions_are_stored_rights:
  assumes "run_state (route C E hc ct token (PermissionsReq repo)) (calls, s) = (ans, (calls @ new, s'))"
  shows "reports_rights C E s (case token of Inl _ \<Rightarrow> None | Inr did \<Rightarrow> Some did) repo ans"
proof (cases token)
  case (Inl e)
  with assms show ?thesis by (auto simp: route_def VerifyServiceAuth_def writeError_def reply_def no_rights)
next
  case (Inr did)
  with knot_performs_result [OF RepoPermissions_reports, of C E "Some did" repo calls s ans new s'] assms
  show ?thesis by (simp add: route_def VerifyServiceAuth_def)
qed

section \<open>Sample requests\<close>

text \<open>A member of the server creates a repository.\<close>

definition new_data :: CreateInput where
  "new_data = \<lparr>cr_Rkey = ''r'', cr_Vcs = None, cr_DefaultBranch = None, cr_Source = None\<rparr>"

definition may_create :: "rule list \<times> grouping list" where
  "may_create = ([(''did:a'', ThisServer, ThisServer, ''repo:create'')], [])"

lemma creation_runs:
  "\<exists>new s'. run_state (route list_casbin (sample_env quiet_host) (\<lambda>_ _. []) [] (Inr ''did:a'') (CreateReq (Inr new_data))) ([], may_create) =
     (Answer StatusOK NoBody, (new, s')) \<and> new \<noteq> []"
proof -
  have j: "path_Join ''did:a'' ''r'' = ''did:a/r''" by code_simp
  have v: "validateRepoName ''r'' = None" by code_simp
  have e: "IsRepoCreateAllowed list_casbin may_create ''did:a'' ThisServer = Inr True"
    by (auto simp: IsRepoCreateAllowed_def list_casbin_def may_create_def granted_def)
  have a: "\<exists>s'. AddRepo list_casbin may_create ''did:a'' ThisServer ''did:a/r'' = Inr s'"
    by (simp add: AddRepo_def change_policies_def checkRepoFormat_def hasPrefix_def lift_def list_casbin_def split: prod.split)
  then obtain s' where a: "AddRepo list_casbin may_create ''did:a'' ThisServer ''did:a/r'' = Inr s'" ..
  have sel: "cr_Rkey new_data = ''r''" "cr_DefaultBranch new_data = None" "cr_Source new_data = None" by (simp_all add: new_data_def)
  have vcs: "vcs_of new_data = ''git''" by (simp add: vcs_of_def new_data_def)
  show ?thesis
    by (simp add: route_def VerifyServiceAuth_def Xrpc_CreateRepo_def with_actor_def run_attempt e with_body_def vcs resolve_actor_def
       v j a sel under_scan_path'_def secureJoin_def make_repository_def given_def run_unless_error Git_InitBare_def os_do_def
       init_repository_def SetupRepo_def mkHook_def mkDelegate_def ok_reply_def reply_def Let_def sample_env_def quiet_host_def)
qed

theorem creation_needs_right_witness:
  "\<exists>ans new s'. run_state (route list_casbin (sample_env quiet_host) (\<lambda>_ _. []) [] (Inr ''did:a'') (CreateReq (Inr new_data))) ([], may_create) =
     (ans, (new, s')) \<and> new \<noteq> [] \<and>
     created list_casbin (\<lambda>s. set (fst s)) (\<lambda>s. set (snd s)) (sample_env quiet_host) may_create (Some ''did:a'') new_data s'"
proof -
  obtain new s' where run: "run_state (route list_casbin (sample_env quiet_host) (\<lambda>_ _. []) [] (Inr ''did:a'') (CreateReq (Inr new_data)))
      ([], may_create) = (Answer StatusOK NoBody, (new, s'))" "new \<noteq> []"
    using creation_runs by blast
  with creation_needs_right [OF list_casbin_ok, of "sample_env quiet_host" "\<lambda>_ _. []" "[]" "Inr ''did:a''" "Inr new_data" "[]" may_create]
  show ?thesis by auto
qed

text \<open>The owner of a repository deletes it: the record is gone, the rules of a pijul repository stand.\<close>

definition old_data :: DeleteInput where
  "old_data = \<lparr>de_Did = ''did:a'', de_Name = ''r'', de_Rkey = ''r''\<rparr>"

definition gone_env :: XrpcEnv where
  "gone_env = (sample_env quiet_host)\<lparr>xv_GetRecord := (\<lambda>_ _ _. Inl ''gone'')\<rparr>"

definition owned :: "rule list \<times> grouping list" where
  "owned = ((''did:a'', ThisServer, ''did:a/r'', ''repo:delete'') # pijulOwnerPolicies ''did:a'' ThisServer ''did:a/r'', [])"

lemma old_path: "path_Join (de_Did old_data) (de_Name old_data) = ''did:a/r''"
  by code_simp

lemma deletion_runs:
  "\<exists>s'. run_state (route list_casbin gone_env (\<lambda>_ _. []) [] (Inr ''did:a'') (DeleteReq (Inr old_data))) ([], owned) =
     (Answer StatusOK NoBody, ([RemoveAll (path_Join ''/s'' ''did:a/r'')], s'))"
proof -
  have e: "IsRepoDeleteAllowed list_casbin owned ''did:a'' ThisServer ''did:a/r'' = Inr True"
    by (auto simp: IsRepoDeleteAllowed_def list_casbin_def owned_def granted_def)
  have "\<exists>s'. RemoveRepo list_casbin s ''did:a'' ThisServer ''did:a/r'' = Inr s'" for s
    by (cases s) (simp add: RemoveRepo_def change_policies_def checkRepoFormat_def hasPrefix_def lift_def list_casbin_def)
  then obtain s' where r: "RemoveRepo list_casbin owned ''did:a'' ThisServer ''did:a/r'' = Inr s'" ..
  have sel: "de_Did old_data = ''did:a''" "de_Name old_data = ''r''" "path_Join ''did:a'' ''r'' = ''did:a/r''"
    using old_path by (simp_all add: old_data_def)
  show ?thesis
    by (simp add: route_def VerifyServiceAuth_def Xrpc_DeleteRepo_def with_actor_def run_attempt e r with_body_def resolve_actor_def
       require_def sel under_scan_path_def secureJoin_def run_unless_error os_do_def is_pijul_def DetectVCS_def IsPijulRepo_def stat_dir_def
       ok_reply_def reply_def Let_def gone_env_def sample_env_def quiet_host_def)
qed

theorem deletion_needs_right_witness:
  "\<exists>ans new s'. run_state (route list_casbin gone_env (\<lambda>_ _. []) [] (Inr ''did:a'') (DeleteReq (Inr old_data))) ([], owned) =
     (ans, (new, s')) \<and> deletes list_casbin gone_env owned (Some ''did:a'') ''did:a/r'' new"
proof -
  obtain new s' where run: "run_state (route list_casbin gone_env (\<lambda>_ _. []) [] (Inr ''did:a'') (DeleteReq (Inr old_data))) ([], owned) =
      (Answer StatusOK NoBody, (new, s'))" "new \<noteq> []"
    using deletion_runs by auto
  with deletion_needs_right [OF list_casbin_ok, of gone_env "\<lambda>_ _. []" "[]" "Inr ''did:a''" old_data "[]" owned]
  show ?thesis by (auto simp: old_path)
qed


text \<open>Two rights of a caller on a pijul repository.\<close>

definition two_rights :: "(unit, string) Casbin" where
  "two_rights = (answering True)\<lparr>GetPermissionsForUserInDomain :=
     (\<lambda>_ u d. [(u, d, ''a/r'', ''pijul:edit_tags''), (u, d, ''a/r'', ''pijul:read''), (u, d, ''b/r'', ''pijul:apply'')])\<rparr>"

definition pijul_dirs :: Host where
  "pijul_dirs = quiet_host\<lparr>ho_stat := (\<lambda>_ _. Inr \<lparr>fi_Mode = push_bit 31 1, fi_Size = 0\<rparr>)\<rparr>"

theorem permissions_are_stored_rights_witness:
  "\<exists>ans new s'. run_state (route two_rights (sample_env pijul_dirs) (\<lambda>_ _. []) [] (Inr ''did:z'') (PermissionsReq ''a/r'')) ([], ()) =
     (ans, (new, s')) \<and> an_Body ans = PermissionsOut 65 [''read'', ''edit_tags''] \<and>
     reports_rights two_rights (sample_env pijul_dirs) () (Some ''did:z'') ''a/r'' ans"
proof -
  let ?run = "run_state (route two_rights (sample_env pijul_dirs) (\<lambda>_ _. []) [] (Inr ''did:z'') (PermissionsReq ''a/r'')) ([], ())"
  have "an_Body (fst ?run) = PermissionsOut 65 [''read'', ''edit_tags'']" by code_simp
  moreover obtain ans new s' where "?run = (ans, ([] @ new, s'))" by (metis append_Nil prod.exhaust)
  moreover from permissions_are_stored_rights [OF this(1)]
  have "reports_rights two_rights (sample_env pijul_dirs) () (Some ''did:z'') ''a/r'' ans" by simp
  ultimately show ?thesis by auto
qed

end
