(* ===== verification/Spec2Isabelle.thy ===== *)
theory Spec2Isabelle
  imports Patch_Interdiff Spindle_Run Spindle_Secrets Threads Pull_Resubmit Spindle_Ingest Event_Consumer
    AppView_Rights AppView_Records Knot_Access
begin

text \<open>
  Tangled is a federated forge. A knot stores repositories of git and pijul and serves them over SSH and
  HTTP; a spindle runs workflows; the appview is the web application, which shows issues, pull requests and
  labels. Users keep records of what they do (follows, issues, pull requests, memberships) on their own
  personal data servers; the three servers learn of them from one event stream, the Jetstream, and knots and
  spindles publish event streams of their own. This library models the core of these programs, written in Go
  under \<^verbatim>\<open>src/\<close>, and proves what makes it correct, or shows where it is not. The theories are listed
  below by component, each before those that build on it.

  \<^bold>\<open>Conventions.\<close> A function of the source is the definition of the same name, or of that name with
  its type, package or a word like \<open>Db_\<close> and \<open>View_\<close> in front where two functions share it.
  A struct is a record whose fields carry a short prefix; a \<^verbatim>\<open>string\<close> is a list of bytes; a call that can
  fail returns \<open>'e + 'a\<close>, with \<open>Inl\<close> for the error; a nil pointer is \<open>None\<close>. State is passed
  explicitly: a handler takes the state and returns it changed. A Go map is a HOL map; where the code
  iterates over one, the order is an argument. A sort that is not stable is an argument as well, used under
  the hypothesis that it sorts and permutes. Loops are structural recursions or
  terminate by a measure; the renderer of images (\<open>image_string_loop\<close>) and the walk along the parents of
  a stack (\<open>stack_loop\<close>) can run for ever and are partial functions: not returning is \<open>None\<close>, and that
  they return is proved as such. No fuel is used. Integers that count things held in memory are
  \<open>nat\<close> or \<open>int\<close>; where a conversion to 64 bits matters (scanning an integer, the size of an
  artifact) the bound is written out. Times are nanoseconds since the epoch.

  \<^bold>\<open>Parameters.\<close> Code outside the repository is an argument: casbin (\<open>Casbin\<close>, with its
  documented laws in \<open>casbin_ok\<close>), go-git and gitdiff (\<open>GitOps\<close>, \<open>PatchEnv\<close>), doublestar and
  the YAML decoder (\<open>WorkflowEnv\<close>), the identity directory, AT-URI and URL parsers, JSON decoders,
  securejoin, the HTML sanitizer, HTTP and the clock. SQL is modelled by what the statements do to lists of
  rows: a statement fails exactly where a constraint of the table is violated.

  \<^bold>\<open>Shared.\<close> \<open>Go_Prelude\<close> has the functions of the Go library the code calls, results, and the
  generic lemmas. \<open>RBAC\<close> is the access control of \<^verbatim>\<open>rbac/\<close>: which rules an operation adds, and with the
  laws of casbin what rights users have before and after (\<open>AddRepo_permissions\<close>,
  \<open>AddCollaborator_permissions\<close>).

  \<^bold>\<open>Patches.\<close> \<open>Patch_Image\<close>, \<open>Patch_Combine\<close> and \<open>Patch_Interdiff\<close> are
  \<^verbatim>\<open>patchutil/\<close>: images rebuilt from patches, combining two patches, and the difference of two revisions.
  The lemmas say when rendering returns, that merging images is their union and detects conflicts, and that
  an interdiff returns, names each file once and has the right statuses. \<open>Split_Diff\<close> is the side-by-side
  view of \<^verbatim>\<open>types/\<close>; the interface of its renderers is the locale \<open>diff_file_renderer\<close>.

  \<^bold>\<open>Workflows and spindles.\<close> \<open>Workflow\<close> is \<^verbatim>\<open>workflow/\<close>: which workflows a trigger starts and how
  they compile. \<open>Spindle_Steps\<close> is what a spindle derives from a pipeline (clone step, environment, masked
  log), \<open>Spindle_Run\<close> the run of a workflow, the queue, the event log and its stream,
  \<open>Spindle_Secrets\<close> the stores of secrets behind the interface \<^verbatim>\<open>Manager\<close> (a locale) and the handlers on
  top. The lemmas say that a run reports exactly one final status and stops at the first failure, that a
  client of the stream gets each event once, that logs hide secrets and that only permitted users change
  them. \<open>Spindle_Ingest\<close> is \<^verbatim>\<open>spindle/ingester.go\<close>.

  \<^bold>\<open>Knots.\<close> \<open>Knot_Guard\<close> is the guard that runs for an SSH connection with the internal handlers it
  asks: it executes a program exactly if the user may. \<open>Knot_Hooks\<close> is what a push reports and records;
  \<open>Knot_Ingest\<close> is \<^verbatim>\<open>knotserver/ingester.go\<close> with the filter of the Jetstream client. The locale
  \<open>ingester\<close> there is what all servers that take events share: an invariant that every event keeps holds
  after any stream; knot, spindle and appview interpret it. \<open>Event_Consumer\<close> is \<^verbatim>\<open>eventconsumer/\<close>: its
  workers, as steps of an inductive relation, and the stores of cursors.

  \<^bold>\<open>Repositories.\<close> \<open>Knot_Host\<close> is the machine as the code of a knot sees it: an operation is a state
  monad over the list of the calls made so far, which a record of parameters answers, and \<open>performs\<close> is a
  calculus for the calls an operation makes whatever the machine answers. On it stand \<open>Pijul_Text\<close> and
  \<open>Pijul_Repo\<close> (\<^verbatim>\<open>knotserver/pijul/\<close>: the parsers of what pijul prints, and every operation),
  \<open>Git_Repo\<close> and \<open>Git_Merge\<close> (\<^verbatim>\<open>knotserver/git/\<close>: opening, branches, forks, and merges, which push
  last, clean up, and agree with their check), \<open>Knot_XRPC\<close> and \<open>Knot_Admin\<close> (the handlers of
  \<^verbatim>\<open>knotserver/xrpc/\<close> that change repositories or rights, and the router). \<open>Knot_Rights\<close> and
  \<open>Knot_Access\<close> show which rights these requests need, and which request needs none.

  \<^bold>\<open>The appview.\<close> \<open>Labels\<close> is \<^verbatim>\<open>appview/models/label.go\<close> and the label panel: label states refine sets
  of values, do not depend on the order of storage, and saving the panel reaches the selected values.
  \<open>Validators\<close> is \<^verbatim>\<open>appview/validator/\<close>, \<open>Threads\<close> issues and discussions (locale
  \<open>threaded_comments\<close>), \<open>Pulls\<close> the model of pull requests and stacks. \<open>Pull_Store\<close> and
  \<open>Pull_Resubmit\<close> are the tables and handlers of pull requests: a stack is read back as it was created,
  and after a resubmission it is the new series; the tables keep their invariant in every reachable state.
  \<open>AppView_Store\<close>, \<open>AppView_Ingest\<close> are the tables and all handlers of \<^verbatim>\<open>appview/ingester.go\<close>; each
  table is an interpretation of the locale \<open>sql_table\<close>. \<open>AppView_Tables\<close> shows that an event changes
  rows of its author only and that the tables stay well-formed, \<open>AppView_Rights\<close> which rights events bring
  and how the ingester stops, \<open>AppView_Records\<close> what becomes of labels and comments.

  \<^bold>\<open>How they meet.\<close> A push goes from \<open>Knot_Guard\<close> through \<open>Knot_Hooks\<close>, which compiles with
  \<open>Workflow\<close>, to the event log; \<open>Event_Consumer\<close> carries the events to a spindle, where
  \<open>Spindle_Steps\<close> and \<open>Spindle_Run\<close> turn a pipeline into a run. Rights are decided everywhere by
  \<open>RBAC\<close>, which the three ingesters fill.

  \<^bold>\<open>What is not modelled.\<close> Generated record types and CBOR encoders; templates, markup and pages; most HTTP
  handlers of the appview, which parse requests around calls modelled here; the XRPC handlers of a knot that
  only answer questions, and the reading of git objects; the container engine; OAuth; search indexes, notifications and images;
  configuration and start-up. Of modelled components are left out: logging, cancellation of contexts,
  retries and delays of connections, locks of transactions, and failures of the disk. The manifest lists
  these parts with the reason for each.
\<close>

end
